(* ===== verification/Prelude.thy ===== *)
theory Prelude
  imports Complex_Main "HOL-Library.Word"
begin

text \<open>
  Shared vocabulary of the development: the collections that the component theories fill and
  use, JavaScript strings as sequences of UTF-16 code units, bytes, and the generic facts on
  lists and association lists that several components need.
\<close>

named_theorems js_simps
  \<open>rewrite rules that reduce the JavaScript operators of the model\<close>

named_theorems decides_intros
  \<open>introduction rules of the contract that links a compiled check to a predicate\<close>

named_theorems valid_simps
  \<open>equations of the reference semantics of a schema\<close>

subsection \<open>Strings and bytes\<close>

text \<open>
  A JavaScript string is the list of its UTF-16 code units. String literals of the source are
  ASCII and are written through \<open>js\<close>, which is injective, so comparing two literals
  reduces to comparing the HOL strings.
\<close>

type_synonym byte = "8 word"
type_synonym jsstr = "nat list"

definition js :: "string \<Rightarrow> jsstr" where
  "js s = map of_char s"

lemma js_inject [simp, js_simps]: "js s = js t \<longleftrightarrow> s = t"
proof -
  have "inj (map (of_char :: char \<Rightarrow> nat))"
    by (intro inj_mapI injI) simp
  then show ?thesis by (simp add: js_def inj_eq)
qed

lemma length_js [simp, js_simps]: "length (js s) = length s"
  by (simp add: js_def)

lemma js_eq_Nil [simp, js_simps]: "js s = [] \<longleftrightarrow> s = []" "[] = js s \<longleftrightarrow> s = []"
  by (auto simp: js_def)

lemma js_append: "js (s @ t) = js s @ js t"
  by (simp add: js_def)

lemma in_set_map_js [simp, js_simps]: "js s \<in> js ` A \<longleftrightarrow> s \<in> A"
  by auto

subsection \<open>Lists\<close>

lemma find_None_list_all: "List.find P xs = None \<longleftrightarrow> list_all (\<lambda>x. \<not> P x) xs"
  by (induction xs) auto

lemma find_Some_not_list_all: "List.find P xs = Some x \<Longrightarrow> \<not> list_all (\<lambda>x. \<not> P x) xs"
  by (metis find_None_list_all option.distinct(1))

lemma take_length_append [simp]: "take (length xs) (xs @ ys) = xs"
  by simp

lemma take_append_drop_taken: "take m xs @ drop (length (take m xs)) xs = xs"
  by (cases "m \<le> length xs") (simp_all add: min_def)

lemma distinct_filter_count: "distinct xs \<Longrightarrow> x \<in> set xs \<Longrightarrow>
    length (filter P (filter (\<lambda>y. y \<noteq> x) xs)) + (if P x then 1 else 0) = length (filter P xs)"
proof (induction xs)
  case Nil
  then show ?case by simp
next
  case (Cons y ys)
  then show ?case
  proof (cases "y = x")
    case True
    with Cons.prems have "filter (\<lambda>z. z \<noteq> x) ys = ys" by (auto simp: filter_id_conv)
    with True show ?thesis by simp
  next
    case False
    with Cons show ?thesis by auto
  qed
qed

end
