(* ===== verification/Framing.thy ===== *)
theory Framing
  imports Prelude
begin

text \<open>
  The binary framing of \<open>src/packages/typescript/src/protocol.ts\<close>: \<open>frame\<close> (one type byte, a
  big-endian 32-bit length, the payload) and \<open>FrameReader\<close>, which cuts frames out of a body
  that arrives in arbitrary chunks. The body is the list of results its reads will give; past
  the end of the list a read reports \<open>done\<close>.
\<close>

subsection \<open>Frames\<close>

definition FRAME_LIMIT :: nat where
  "FRAME_LIMIT = 65536"

text \<open>\<open>DataView.setUint32(_, n, false)\<close> and \<open>getUint32(_, false)\<close>.\<close>

definition setUint32 :: "nat \<Rightarrow> byte list" where
  "setUint32 n = map (\<lambda>k. word_of_nat (n div 256 ^ k mod 256)) [3, 2, 1, 0]"

definition getUint32 :: "byte list \<Rightarrow> nat" where
  "getUint32 bs = fold (\<lambda>b acc. 256 * acc + unat b) bs 0"

definition frame :: "nat \<Rightarrow> byte list \<Rightarrow> byte list" where
  "frame type payload = word_of_nat type # setUint32 (length payload mod 2 ^ 32) @ payload"

subsection \<open>FrameReader\<close>

text \<open>
  One result of \<open>reader.read()\<close>: a \<open>Uint8Array\<close>, or a value that is not one. The errors are
  the two the class throws and those of the platform: reading through a released reader
  (\<open>TypeError\<close>) and writing before the start of an array (\<open>RangeError\<close>).
\<close>

datatype read_result = Chunk "byte list" | NotBytes

datatype frame_error = Incomplete | InvalidFrame | TypeError | RangeError

record frame_reader =
  chunk :: "byte list"
  offset :: nat
  metadataLimit :: nat
  dataLimit :: nat
  source :: "read_result list"
  released :: bool

definition new_FrameReader :: "read_result list \<Rightarrow> nat \<Rightarrow> nat \<Rightarrow> frame_reader" where
  "new_FrameReader body metaLimit dLimit =
     \<lparr>chunk = [], offset = 0, metadataLimit = metaLimit, dataLimit = dLimit, source = body, released = False\<rparr>"

text \<open>
  \<open>cancel\<close> drops the buffered chunk but not the offset, and cancels the body: every later read
  reports \<open>done\<close>.
\<close>

definition FrameReader_cancel :: "frame_reader \<Rightarrow> frame_reader" where
  "FrameReader_cancel r = r\<lparr>chunk := [], source := []\<rparr>"

text \<open>\<open>bytes.set(sub, pos)\<close> and \<open>array.subarray(from, to)\<close> with their clamping.\<close>

definition typed_set :: "byte list \<Rightarrow> int \<Rightarrow> byte list \<Rightarrow> byte list option" where
  "typed_set buf pos sub =
     (if pos < 0 \<or> int (length buf) < pos + int (length sub) then None
      else Some (take (nat pos) buf @ sub @ drop (nat pos + length sub) buf))"

definition subarray :: "byte list \<Rightarrow> nat \<Rightarrow> int \<Rightarrow> byte list" where
  "subarray bs from to = take (nat to - from) (drop from bs)"

text \<open>
  The loop of \<open>exact\<close>. \<open>written\<close> is an integer, as in the source: with an offset left over
  from a dropped chunk, \<open>count\<close> is negative and \<open>written\<close> goes below zero.
\<close>

function exact_loop :: "frame_reader \<Rightarrow> nat \<Rightarrow> bool \<Rightarrow> byte list \<Rightarrow> int \<Rightarrow>
    (frame_error + byte list option) \<times> frame_reader" where
  "exact_loop r len allowEof bytes written =
     (if written < int len then
        if offset r = length (chunk r) then
          if released r then (Inl TypeError, r)
          else (case source r of
            [] \<Rightarrow>
              let r' = r\<lparr>chunk := [], released := True\<rparr>
              in (if allowEof \<and> written = 0 then Inr None else Inl Incomplete, r')
          | NotBytes # rest \<Rightarrow> (Inl InvalidFrame, r\<lparr>source := rest\<rparr>)
          | Chunk c # rest \<Rightarrow>
              exact_loop (r\<lparr>chunk := c, offset := 0, source := rest\<rparr>) len allowEof bytes written)
        else
          let count = min (int len - written) (int (length (chunk r)) - int (offset r))
          in (case typed_set bytes written (subarray (chunk r) (offset r) (int (offset r) + count)) of
            None \<Rightarrow> (Inl RangeError, r)
          | Some bytes' \<Rightarrow>
              exact_loop (r\<lparr>offset := nat (int (offset r) + count)\<rparr>) len allowEof bytes' (written + count))
      else (Inr (Some bytes), r))"
  by pat_completeness auto
termination
  by (relation "measures [\<lambda>(r, len, a, b, w). if length (chunk r) < offset r then 1 else 0,
        \<lambda>(r, len, a, b, w). length (source r), \<lambda>(r, len, a, b, w). nat (int len - w)]") auto

declare exact_loop.simps [simp del]

definition FrameReader_exact :: "frame_reader \<Rightarrow> nat \<Rightarrow> bool \<Rightarrow> (frame_error + byte list option) \<times> frame_reader" where
  "FrameReader_exact r len allowEof = exact_loop r len allowEof (replicate len 0) 0"

definition FrameReader_next :: "frame_reader \<Rightarrow> (frame_error + (nat \<times> byte list) option) \<times> frame_reader" where
  "FrameReader_next r =
     (case FrameReader_exact r 5 True of
        (Inl e, r1) \<Rightarrow> (Inl e, r1)
      | (Inr None, r1) \<Rightarrow> (Inr None, r1)
      | (Inr (Some header), r1) \<Rightarrow>
          let type = unat (header ! 0); len = getUint32 (take 4 (drop 1 header))
          in if type \<notin> {1, 2, 3, 4} \<or> (if type = 2 then dataLimit r else metadataLimit r) < len
             then (Inl InvalidFrame, r1)
             else (case FrameReader_exact r1 len False of
                 (Inl e, r2) \<Rightarrow> (Inl e, r2)
               | (Inr None, r2) \<Rightarrow> (Inl Incomplete, r2)
               | (Inr (Some payload), r2) \<Rightarrow> (Inr (Some (type, payload)), r2)))"

subsection \<open>Big-endian lengths\<close>

lemma length_setUint32 [simp]: "length (setUint32 n) = 4"
  by (simp add: setUint32_def)

lemma unat_word_of_nat_mod: "unat (word_of_nat (n mod 256) :: byte) = n mod 256"
  by (simp add: unat_of_nat)

lemma getUint32_setUint32: "getUint32 (setUint32 n) = n mod 2 ^ 32"
proof -
  have "getUint32 (setUint32 n) =
      256 * (256 * (256 * (n div 256 ^ 3 mod 256) + n div 256 ^ 2 mod 256) + n div 256 mod 256) + n mod 256"
    by (simp add: getUint32_def setUint32_def unat_word_of_nat_mod del: of_nat_mod)
  also have "\<dots> = n mod (256 * (256 * (256 * 256)))"
    by (simp only: mod_mult2_eq power3_eq_cube power2_eq_square div_mult2_eq mult.assoc)
  finally show ?thesis by simp
qed

lemma setUint32_eq_iff: "a < 2 ^ 32 \<Longrightarrow> b < 2 ^ 32 \<Longrightarrow> setUint32 a = setUint32 b \<longleftrightarrow> a = b"
  by (metis getUint32_setUint32 mod_less)

subsection \<open>What exact delivers\<close>

text \<open>
  The bytes a reader still has to deliver, and the condition under which its buffer is
  consistent: the offset lies inside the chunk, the lock is held, and the body yields bytes.
\<close>

fun chunk_bytes :: "read_result \<Rightarrow> byte list" where
  "chunk_bytes (Chunk c) = c"
| "chunk_bytes NotBytes = []"

definition unread :: "frame_reader \<Rightarrow> byte list" where
  "unread r = drop (offset r) (chunk r) @ concat (map chunk_bytes (source r))"

definition reader_ok :: "frame_reader \<Rightarrow> bool" where
  "reader_ok r \<longleftrightarrow> offset r \<le> length (chunk r) \<and> \<not> released r \<and> NotBytes \<notin> set (source r)"

definition same_limits :: "frame_reader \<Rightarrow> frame_reader \<Rightarrow> bool" where
  "same_limits r r' \<longleftrightarrow> metadataLimit r' = metadataLimit r \<and> dataLimit r' = dataLimit r"

definition exact_post :: "frame_reader \<Rightarrow> nat \<Rightarrow> bool \<Rightarrow> byte list \<Rightarrow> nat \<Rightarrow>
    (frame_error + byte list option) \<times> frame_reader \<Rightarrow> bool" where
  "exact_post r len allowEof bytes w res =
     (same_limits r (snd res) \<and>
      (if len \<le> w + length (unread r) then
         fst res = Inr (Some (take w bytes @ take (len - w) (unread r))) \<and> reader_ok (snd res) \<and>
         unread (snd res) = drop (len - w) (unread r)
       else fst res = (if allowEof \<and> w = 0 \<and> unread r = [] then Inr None else Inl Incomplete)))"

lemma exact_post_same:
  assumes "exact_post r' len allowEof bytes w res" and "unread r' = unread r" and "same_limits r r'"
  shows "exact_post r len allowEof bytes w res"
  using assms by (simp add: exact_post_def same_limits_def)

lemma exact_post_advance:
  assumes post: "exact_post r' len allowEof bytes' (w + n) res"
    and n: "0 < n" "n \<le> len - w" "n \<le> length (unread r)"
    and r': "unread r' = drop n (unread r)" "same_limits r r'"
    and bytes': "take (w + n) bytes' = take w bytes @ take n (unread r)"
  shows "exact_post r len allowEof bytes w res"
proof -
  have split: "take n (unread r) @ take (len - (w + n)) (drop n (unread r)) = take (len - w) (unread r)"
    using n(2) by (metis add.commute diff_diff_left le_add_diff_inverse take_add)
  have rest: "drop (len - (w + n)) (drop n (unread r)) = drop (len - w) (unread r)"
  proof -
    have "n + (len - (w + n)) = len - w" using n(1,2) by arith
    then show ?thesis by (simp add: add.commute)
  qed
  have le: "len \<le> w + n + length (unread r') \<longleftrightarrow> len \<le> w + length (unread r)"
    using n(3) r'(1) by auto
  have lim: "same_limits r (snd res)"
    using post r'(2) by (simp add: exact_post_def same_limits_def)
  show ?thesis
  proof (cases "len \<le> w + length (unread r)")
    case True
    with post le r'(1) bytes' split rest lim show ?thesis by (simp add: exact_post_def)
  next
    case False
    from n(1,3) have "unread r \<noteq> []" by auto
    with False post le n(1) lim show ?thesis by (simp add: exact_post_def)
  qed
qed

lemma exact_loop_correct:
  assumes "reader_ok r" and "w \<le> len" and "length bytes = len"
  shows "exact_post r len allowEof bytes w (exact_loop r len allowEof bytes (int w))"
  using assms
proof (induction r len allowEof bytes "int w" arbitrary: w rule: exact_loop.induct)
  case (1 r len allowEof bytes)
  show ?case
  proof (cases "w < len")
    case False
    with "1.prems" show ?thesis
      by (auto simp: exact_loop.simps [of r] exact_post_def same_limits_def)
  next
    case w: True
    show ?thesis
    proof (cases "offset r = length (chunk r)")
      case at_end: True
      show ?thesis
      proof (cases "source r")
        case Nil
        with w at_end "1.prems" show ?thesis
          by (simp add: exact_loop.simps [of r] exact_post_def same_limits_def unread_def reader_ok_def Let_def)
      next
        case (Cons x rest)
        with "1.prems"(1) obtain c where x: "x = Chunk c"
          by (cases x) (auto simp: reader_ok_def)
        let ?r = "r\<lparr>chunk := c, offset := 0, source := rest\<rparr>"
        have ok: "reader_ok ?r" and un: "unread ?r = unread r" "same_limits r ?r" and rel: "\<not> released r"
          using "1.prems"(1) at_end Cons x by (auto simp: reader_ok_def unread_def same_limits_def)
        have "exact_post ?r len allowEof bytes w (exact_loop ?r len allowEof bytes (int w))"
          using "1.hyps"(1) [of x rest c w] w at_end rel Cons x ok "1.prems"(3) by simp
        moreover have "exact_loop r len allowEof bytes (int w) = exact_loop ?r len allowEof bytes (int w)"
          using w at_end rel Cons x by (subst exact_loop.simps) simp
        ultimately show ?thesis using un by (metis exact_post_same)
      qed
    next
      case False
      define n where "n = min (len - w) (length (chunk r) - offset r)"
      let ?sub = "take n (drop (offset r) (chunk r))"
      let ?bytes = "take w bytes @ ?sub @ drop (w + n) bytes"
      let ?r = "r\<lparr>offset := offset r + n\<rparr>"
      have lt: "offset r < length (chunk r)" using False "1.prems"(1) by (simp add: reader_ok_def)
      have n: "0 < n" "n \<le> len - w" "n \<le> length (chunk r) - offset r" and sub: "length ?sub = n"
        using w lt by (auto simp: n_def)
      have count: "min (int len - int w) (int (length (chunk r)) - int (offset r)) = int n"
        using w lt unfolding n_def by arith
      have set: "typed_set bytes (int w) (subarray (chunk r) (offset r) (int (offset r) + int n)) = Some ?bytes"
        using n sub "1.prems"(3) by (simp add: typed_set_def subarray_def nat_add_distrib)
      have step: "exact_loop r len allowEof bytes (int w) = exact_loop ?r len allowEof ?bytes (int (w + n))"
        using w False count set by (subst exact_loop.simps) (simp add: Let_def nat_add_distrib)
      have ok: "reader_ok ?r" and un: "unread ?r = drop n (unread r)" "take n (unread r) = ?sub"
          "same_limits r ?r" "n \<le> length (unread r)"
        using "1.prems"(1) n by (auto simp: reader_ok_def unread_def add.commute same_limits_def)
      have len: "length ?bytes = len" "w + n \<le> len" using n w sub "1.prems"(3) by auto
      have post: "exact_post ?r len allowEof ?bytes (w + n) (exact_loop ?r len allowEof ?bytes (int (w + n)))"
        using "1.hyps"(2) [of "int n" ?bytes "w + n"] w False count set ok len
        by (simp add: nat_add_distrib)
      have "take (w + n) ?bytes = take w bytes @ take n (unread r)"
        using sub n un(2) "1.prems"(2,3) by simp
      with post n un(1,3,4) show ?thesis
        unfolding step by (intro exact_post_advance [OF post])
    qed
  qed
qed

lemma exact_cases:
  assumes "reader_ok r"
  obtains (enough) r' where "len \<le> length (unread r)"
      "FrameReader_exact r len allowEof = (Inr (Some (take len (unread r))), r')"
      "reader_ok r'" "unread r' = drop len (unread r)" "same_limits r r'"
    | (eof) r' where "length (unread r) < len" "allowEof" "unread r = []"
      "FrameReader_exact r len allowEof = (Inr None, r')"
    | (short) r' where "length (unread r) < len" "\<not> (allowEof \<and> unread r = [])"
      "FrameReader_exact r len allowEof = (Inl Incomplete, r')"
proof -
  obtain v r' where res: "FrameReader_exact r len allowEof = (v, r')" by fastforce
  have "exact_post r len allowEof (replicate len 0) 0 (v, r')"
    using exact_loop_correct [OF assms, of 0 len "replicate len 0" allowEof] res
    by (simp add: FrameReader_exact_def)
  then show thesis
    using that res by (fastforce simp: exact_post_def split: if_splits)
qed

subsection \<open>The reference parser\<close>

text \<open>
  What a frame is, on the whole byte sequence: nothing left is the regular end, a truncated
  header or payload is incomplete, an unknown type or an oversized length is invalid as soon as
  the header is there.
\<close>

definition parse_frame :: "nat \<Rightarrow> nat \<Rightarrow> byte list \<Rightarrow> frame_error + (nat \<times> byte list \<times> byte list) option" where
  "parse_frame ml dl bs =
     (if bs = [] then Inr None
      else if length bs < 5 then Inl Incomplete
      else let type = unat (bs ! 0); n = getUint32 (take 4 (drop 1 bs))
        in if type \<notin> {1, 2, 3, 4} \<or> (if type = 2 then dl else ml) < n then Inl InvalidFrame
           else if length bs < 5 + n then Inl Incomplete
           else Inr (Some (type, take n (drop 5 bs), drop (5 + n) bs)))"

text \<open>
  Reading frames until the body ends or fails, at most \<open>k\<close> of them, with a reader and with the
  reference parser. The second component is \<open>None\<close> while the body goes on.
\<close>

type_synonym read_end = "(frame_error + unit) option"

fun read_frames :: "('r \<Rightarrow> (frame_error + (nat \<times> byte list) option) \<times> 'r) \<Rightarrow> nat \<Rightarrow> 'r \<Rightarrow>
    (nat \<times> byte list) list \<times> read_end" where
  "read_frames next 0 r = ([], None)"
| "read_frames next (Suc k) r = (case next r of
     (Inl e, r') \<Rightarrow> ([], Some (Inl e))
   | (Inr None, r') \<Rightarrow> ([], Some (Inr ()))
   | (Inr (Some f), r') \<Rightarrow> (let (fs, e) = read_frames next k r' in (f # fs, e)))"

fun parse_frames :: "nat \<Rightarrow> nat \<Rightarrow> nat \<Rightarrow> byte list \<Rightarrow> (nat \<times> byte list) list \<times> read_end" where
  "parse_frames ml dl 0 bs = ([], None)"
| "parse_frames ml dl (Suc k) bs = (case parse_frame ml dl bs of
     Inl e \<Rightarrow> ([], Some (Inl e))
   | Inr None \<Rightarrow> ([], Some (Inr ()))
   | Inr (Some (t, p, rest)) \<Rightarrow> (let (fs, e) = parse_frames ml dl k rest in ((t, p) # fs, e)))"

fun valid_frame :: "nat \<Rightarrow> nat \<Rightarrow> nat \<times> byte list \<Rightarrow> bool" where
  "valid_frame ml dl (t, p) \<longleftrightarrow>
     t \<in> {1, 2, 3, 4} \<and> length p \<le> (if t = 2 then dl else ml) \<and> length p < 2 ^ 32"

definition frames_bytes :: "(nat \<times> byte list) list \<Rightarrow> byte list" where
  "frames_bytes fs = concat (map (\<lambda>(t, p). frame t p) fs)"

lemma parse_frame_frame:
  assumes "valid_frame ml dl (t, p)"
  shows "parse_frame ml dl (frame t p @ rest) = Inr (Some (t, p, rest))"
proof -
  have "length p mod 2 ^ 32 = length p" and t: "unat (word_of_nat t :: byte) = t"
    using assms by (auto simp: unat_of_nat)
  then have header: "take 4 (setUint32 (length p) @ p @ rest) = setUint32 (length p)"
    and n: "getUint32 (setUint32 (length p)) = length p"
    by (simp_all add: getUint32_setUint32)
  have "5 + length p = Suc (4 + length p)" by simp
  then have "drop (5 + length p) (x # setUint32 (length p) @ p @ rest) = rest" for x
    by (simp only: drop_Suc_Cons) simp
  with assms t header n \<open>length p mod 2 ^ 32 = length p\<close> show ?thesis
    by (auto simp: parse_frame_def frame_def Let_def)
qed

lemma parse_frames_round_trip:
  assumes "list_all (valid_frame ml dl) fs"
  shows "parse_frames ml dl (Suc (length fs + k)) (frames_bytes fs) = (fs, Some (Inr ()))"
  using assms
proof (induction fs)
  case Nil
  then show ?case by (simp add: frames_bytes_def parse_frame_def)
next
  case (Cons f fs)
  then show ?case
    by (cases f) (simp add: frames_bytes_def parse_frame_frame del: valid_frame.simps)
qed

text \<open>
  The contract of a frame source: on a consistent state, one call gives what the reference
  parser gives on the bytes that are left, and leaves the rest.
\<close>

locale frame_source =
  fixes next_frame :: "'r \<Rightarrow> (frame_error + (nat \<times> byte list) option) \<times> 'r"
    and left :: "'r \<Rightarrow> byte list"
    and ok :: "'r \<Rightarrow> bool"
    and ml :: nat
    and dl :: nat
  assumes next_error: "ok r \<Longrightarrow> parse_frame ml dl (left r) = Inl e \<Longrightarrow> fst (next_frame r) = Inl e"
    and next_end: "ok r \<Longrightarrow> parse_frame ml dl (left r) = Inr None \<Longrightarrow> fst (next_frame r) = Inr None"
    and next_some: "ok r \<Longrightarrow> parse_frame ml dl (left r) = Inr (Some (t, p, rest)) \<Longrightarrow>
      \<exists>r'. next_frame r = (Inr (Some (t, p)), r') \<and> ok r' \<and> left r' = rest"
begin

lemma read_frames_eq_parse: "ok r \<Longrightarrow> read_frames next_frame k r = parse_frames ml dl k (left r)"
proof (induction k arbitrary: r)
  case 0
  then show ?case by simp
next
  case (Suc k)
  obtain v r' where nf: "next_frame r = (v, r')" by fastforce
  show ?case
  proof (cases "parse_frame ml dl (left r)")
    case (Inl e)
    with Suc.prems nf next_error show ?thesis by fastforce
  next
    case (Inr o1)
    show ?thesis
    proof (cases o1)
      case None
      with Inr Suc.prems nf next_end show ?thesis by fastforce
    next
      case (Some f)
      obtain t p rest where f: "f = (t, p, rest)" by (cases f) auto
      with next_some [OF Suc.prems] Inr Some obtain r'' where
        "next_frame r = (Inr (Some (t, p)), r'')" "ok r''" "left r'' = rest" by blast
      with Suc.IH [of r''] Inr Some f show ?thesis by simp
    qed
  qed
qed

lemma read_frames_round_trip:
  assumes "ok r" and "left r = frames_bytes fs" and "list_all (valid_frame ml dl) fs" and "length fs < k"
  shows "read_frames next_frame k r = (fs, Some (Inr ()))"
proof -
  from assms(4) obtain j where "k = Suc (length fs + j)" by (auto dest: less_imp_Suc_add)
  with assms(2) parse_frames_round_trip [OF assms(3)] show ?thesis
    by (simp only: read_frames_eq_parse [OF assms(1)])
qed

end

lemma FrameReader_next_cases:
  assumes "reader_ok r"
  shows "case parse_frame (metadataLimit r) (dataLimit r) (unread r) of
      Inl e \<Rightarrow> fst (FrameReader_next r) = Inl e
    | Inr None \<Rightarrow> fst (FrameReader_next r) = Inr None
    | Inr (Some (t, p, rest)) \<Rightarrow> (\<exists>r'. FrameReader_next r = (Inr (Some (t, p)), r') \<and>
        reader_ok r' \<and> unread r' = rest \<and> same_limits r r')"
  using assms
proof (cases r rule: exact_cases [where len = 5 and allowEof = True])
  case (enough r1)
  let ?h = "take 5 (unread r)"
  let ?t = "unat (unread r ! 0)"
  let ?n = "getUint32 (take 4 (drop 1 (unread r)))"
  have h: "?h ! 0 = unread r ! 0" "take 4 (drop 1 ?h) = take 4 (drop 1 (unread r))" "unread r \<noteq> []"
    using enough(1) by (auto simp: take_drop)
  show ?thesis
  proof (cases "?t \<notin> {1, 2, 3, 4} \<or> (if ?t = 2 then dataLimit r else metadataLimit r) < ?n")
    case True
    with enough h show ?thesis by (auto simp: FrameReader_next_def parse_frame_def Let_def)
  next
    case False
    note type_ok = this
    from enough(3) show ?thesis
    proof (cases r1 rule: exact_cases [where len = ?n and allowEof = False])
      case body: (enough r2)
      then have "FrameReader_next r = (Inr (Some (?t, take ?n (drop 5 (unread r)))), r2)"
        using enough h type_ok by (auto simp: FrameReader_next_def Let_def)
      moreover have "5 + ?n \<le> length (unread r)" using body(1) enough(1,4) by simp
      ultimately show ?thesis
        using enough h type_ok body
        by (auto simp: parse_frame_def Let_def same_limits_def add.commute)
    next
      case (short r2)
      then show ?thesis
        using enough h type_ok by (auto simp: FrameReader_next_def parse_frame_def Let_def)
    qed simp
  qed
next
  case (eof r1)
  then show ?thesis by (simp add: FrameReader_next_def parse_frame_def)
next
  case (short r1)
  then show ?thesis by (simp add: FrameReader_next_def parse_frame_def)
qed

definition limits_ok :: "nat \<Rightarrow> nat \<Rightarrow> frame_reader \<Rightarrow> bool" where
  "limits_ok ml dl r \<longleftrightarrow> reader_ok r \<and> metadataLimit r = ml \<and> dataLimit r = dl"

interpretation frame_reader: frame_source FrameReader_next unread "limits_ok ml dl" ml dl for ml dl
proof unfold_locales
  fix r e
  assume "limits_ok ml dl r" "parse_frame ml dl (unread r) = Inl e"
  then show "fst (FrameReader_next r) = Inl e"
    using FrameReader_next_cases [of r] by (auto simp: limits_ok_def)
next
  fix r
  assume "limits_ok ml dl r" "parse_frame ml dl (unread r) = Inr None"
  then show "fst (FrameReader_next r) = Inr None"
    using FrameReader_next_cases [of r] by (auto simp: limits_ok_def)
next
  fix r t p rest
  assume "limits_ok ml dl r" "parse_frame ml dl (unread r) = Inr (Some (t, p, rest))"
  then show "\<exists>r'. FrameReader_next r = (Inr (Some (t, p)), r') \<and> limits_ok ml dl r' \<and> unread r' = rest"
    using FrameReader_next_cases [of r] by (auto simp: limits_ok_def same_limits_def)
qed

lemma new_FrameReader_ok:
  "limits_ok ml dl (new_FrameReader (map Chunk cs) ml dl)"
  "unread (new_FrameReader (map Chunk cs) ml dl) = concat cs"
  by (auto simp: limits_ok_def reader_ok_def unread_def new_FrameReader_def comp_def)

subsection \<open>Sizes\<close>

lemma typed_set_length: "typed_set buf p sub = Some buf' \<Longrightarrow> length buf' = length buf"
  by (auto simp: typed_set_def split: if_splits)

lemma exact_loop_length:
  assumes "exact_loop r len allowEof bytes w = (Inr (Some out), r')"
  shows "length out = length bytes"
  using assms
proof (induction r len allowEof bytes w rule: exact_loop.induct)
  case (1 r len allowEof bytes w)
  show ?case
    using "1.prems" "1.IH"
    by (subst (asm) exact_loop.simps)
      (fastforce simp: Let_def split: if_splits list.splits read_result.splits option.splits dest: typed_set_length)
qed

lemma FrameReader_exact_length:
  "FrameReader_exact r len allowEof = (Inr (Some out), r') \<Longrightarrow> length out = len"
  by (auto simp: FrameReader_exact_def dest: exact_loop_length)

subsection \<open>Properties\<close>

text \<open>
  C2: How the transport cuts the body into chunks does not matter: the frames, the regular end
  and every error that \<open>FrameReader.next\<close> reports are those of the reference parser on the
  concatenated bytes.
\<close>

theorem FrameReader_chunking_irrelevant:
  "read_frames FrameReader_next k (new_FrameReader (map Chunk cs) ml dl) = parse_frames ml dl k (concat cs)"
  using frame_reader.read_frames_eq_parse [OF new_FrameReader_ok(1)] by (simp only: new_FrameReader_ok(2))

text \<open>
  Frames encoded by \<open>frame\<close> and read back by \<open>FrameReader\<close> from any chunking of the bytes
  are the frames sent, followed by the regular end of the body.
\<close>

theorem frame_round_trip:
  assumes "concat cs = frames_bytes fs" and "list_all (valid_frame ml dl) fs" and "length fs < k"
  shows "read_frames FrameReader_next k (new_FrameReader (map Chunk cs) ml dl) = (fs, Some (Inr ()))"
  using frame_reader.read_frames_round_trip [OF new_FrameReader_ok(1) _ assms(2,3)] assms(1)
  by (simp only: new_FrameReader_ok(2))

theorem frame_round_trip_witness:
  "read_frames FrameReader_next 3
     (new_FrameReader (map Chunk [[1, 0, 0, 0], [1, 7, 2], [], [0, 0, 0, 2, 8], [9]]) 10 10) =
   ([(1, [7]), (2, [8, 9])], Some (Inr ()))"
  by (rule frame_round_trip) (simp_all add: frames_bytes_def frame_def setUint32_def)

text \<open>
  A frame that \<open>next\<close> delivers has one of the four types, and its payload is within the
  limit of its type, whatever the state of the reader and the bytes on the wire: the length
  field is checked before the payload is allocated.
\<close>

theorem FrameReader_next_bounded:
  assumes "FrameReader_next r = (Inr (Some (t, p)), r')"
  shows "t \<in> {1, 2, 3, 4} \<and> length p \<le> (if t = 2 then dataLimit r else metadataLimit r)"
  using assms
  by (auto simp: FrameReader_next_def Let_def split: prod.splits sum.splits option.splits if_splits
      dest: FrameReader_exact_length)

theorem FrameReader_next_bounded_witness:
  "\<exists>p r'. FrameReader_next (new_FrameReader [Chunk [2, 0, 0, 0, 2, 8, 9]] 10 10) = (Inr (Some (2, p)), r') \<and>
     length p \<le> 10"
proof -
  have "FrameReader_next (new_FrameReader [Chunk [2, 0, 0, 0, 2, 8, 9]] 10 10) =
      (Inr (Some (2, [8, 9])),
       \<lparr>chunk = [2, 0, 0, 0, 2, 8, 9], offset = 7, metadataLimit = 10, dataLimit = 10, source = [], released = False\<rparr>)"
    by code_simp
  with FrameReader_next_bounded [OF this] show ?thesis by (auto simp: new_FrameReader_def)
qed

text \<open>
  C37: After \<open>cancel\<close> no frame is delivered any more. The reader reports the end of the body
  when the cancelled chunk had not been touched, an incomplete transfer when part of it was
  consumed (the offset survives \<open>cancel\<close> and drives the write position below zero), and a
  \<open>TypeError\<close> once its lock is released.
\<close>

theorem FrameReader_next_cancelled:
  "fst (FrameReader_next (FrameReader_cancel r)) =
     (if released r then Inl TypeError else if offset r = 0 then Inr None else Inl Incomplete)"
  by (simp add: FrameReader_next_def FrameReader_cancel_def FrameReader_exact_def exact_loop.simps
      Let_def typed_set_def subarray_def)

end
