(* ===== verification/Upload.thy ===== *)
theory Upload
  imports Framing
begin

text \<open>
  \<open>uploadFrames\<close> of \<open>src/packages/typescript/src/protocol.ts\<close>: the request body as a pulled
  stream of frames, one metadata frame, data frames of bounded size, one empty terminal frame.
  The closure's variables are the fields of \<open>upload\<close>; one call of \<open>pull\<close> is \<open>upload_pull\<close>. A
  streaming body (a \<open>ReadableStream\<close> or an async iterator, read the same way) is the list of
  what its reads give; \<open>SrcCancelled\<close> marks a read during which \<open>cancel()\<close> is called.
\<close>

subsection \<open>The stream\<close>

datatype src_read = SrcChunk "byte list" | SrcNotBytes | SrcThrow | SrcCancelled

datatype request_body = NoBody | BytesBody "byte list" | StreamBody "src_read list"

datatype upload_error = InvalidBody | EmptyReadLimit | BodyTooLarge | SourceError

record upload =
  pending :: "byte list"
  pos :: nat
  stage :: nat
  ended :: bool
  sourceEnded :: bool
  frameCount :: nat
  emptyReads :: nat
  sentBytes :: nat
  src :: "src_read list"
  chunks :: "byte list list"
  metadata :: "byte list"
  maxBytes :: nat
  maxData :: nat
  maxFrames :: nat

definition uploadFrames :: "byte list \<Rightarrow> request_body \<Rightarrow> nat \<Rightarrow> nat \<Rightarrow> nat \<Rightarrow> upload" where
  "uploadFrames meta body mBytes mData mFrames =
     \<lparr>pending = (case body of BytesBody b \<Rightarrow> b | _ \<Rightarrow> []), pos = 0, stage = 0, ended = False,
      sourceEnded = (case body of StreamBody _ \<Rightarrow> False | _ \<Rightarrow> True), frameCount = 0, emptyReads = 0,
      sentBytes = 0, src = (case body of StreamBody s \<Rightarrow> s | _ \<Rightarrow> []), chunks = [], metadata = meta,
      maxBytes = mBytes, maxData = mData, maxFrames = mFrames\<rparr>"

definition upload_cancel :: "upload \<Rightarrow> upload" where
  "upload_cancel u = (if ended u \<and> sourceEnded u then u else u\<lparr>ended := True, pending := []\<rparr>)"

text \<open>
  The loop \<open>while (offset === pending.length && !sourceEnded)\<close>: \<open>Inl\<close> is a thrown error,
  \<open>Inr False\<close> the early return after a cancellation, \<open>Inr True\<close> the end of the loop.
\<close>

function upload_fill :: "upload \<Rightarrow> (upload_error + bool) \<times> upload" where
  "upload_fill u =
     (if pos u = length (pending u) \<and> \<not> sourceEnded u then
        (case src u of
           [] \<Rightarrow> (Inr True, u\<lparr>sourceEnded := True\<rparr>)
         | SrcCancelled # s \<Rightarrow> (Inr False, upload_cancel (u\<lparr>src := s\<rparr>))
         | SrcThrow # s \<Rightarrow> (Inl SourceError, u\<lparr>src := s\<rparr>)
         | SrcNotBytes # s \<Rightarrow> (Inl InvalidBody, u\<lparr>src := s\<rparr>)
         | SrcChunk c # s \<Rightarrow>
             if c = [] then
               if maxFrames u \<le> Suc (emptyReads u)
               then (Inl EmptyReadLimit, u\<lparr>src := s, emptyReads := Suc (emptyReads u)\<rparr>)
               else upload_fill (u\<lparr>src := s, emptyReads := Suc (emptyReads u), pending := c, pos := 0\<rparr>)
             else upload_fill (u\<lparr>src := s, emptyReads := 0, pending := c, pos := 0\<rparr>))
      else (Inr True, u))"
  by pat_completeness auto
termination
  by (relation "measure (\<lambda>u. length (src u))") auto

declare upload_fill.simps [simp del]

datatype pull_result =
    Enqueue "byte list"
  | EnqueueClose "byte list"
  | Close
  | Quiet
  | Fail upload_error

definition upload_emit :: "upload \<Rightarrow> pull_result \<times> upload" where
  "upload_emit u =
     (if pos u < length (pending u) then
        let c = take (maxData u) (drop (pos u) (pending u))
        in if maxBytes u < sentBytes u + length c then (Fail BodyTooLarge, upload_cancel u)
           else if maxFrames u \<le> Suc (frameCount u)
             then (Fail BodyTooLarge, upload_cancel (u\<lparr>frameCount := Suc (frameCount u)\<rparr>))
             else (Enqueue (frame 2 c),
               u\<lparr>frameCount := Suc (frameCount u), sentBytes := sentBytes u + length c,
                 chunks := chunks u @ [c], pos := pos u + length c\<rparr>)
      else (EnqueueClose (frame 3 []), u\<lparr>ended := True, pending := []\<rparr>))"

definition upload_pull :: "upload \<Rightarrow> pull_result \<times> upload" where
  "upload_pull u =
     (if ended u then (Close, u)
      else if stage u = 0 then (Enqueue (frame 1 (metadata u)), u\<lparr>stage := 1\<rparr>)
      else (case upload_fill u of
          (Inl e, u') \<Rightarrow> (Fail e, upload_cancel u')
        | (Inr False, u') \<Rightarrow> (Quiet, u')
        | (Inr True, u') \<Rightarrow> upload_emit u'))"

subsection \<open>Facts on one pull\<close>

text \<open>What the source still holds, and the limits, which no operation changes.\<close>

fun src_bytes :: "src_read \<Rightarrow> byte list" where
  "src_bytes (SrcChunk c) = c"
| "src_bytes _ = []"

fun is_chunk :: "src_read \<Rightarrow> bool" where
  "is_chunk (SrcChunk _) = True"
| "is_chunk _ = False"

definition unsent :: "upload \<Rightarrow> byte list" where
  "unsent u = drop (pos u) (pending u) @ concat (map src_bytes (src u))"

definition same_upload :: "upload \<Rightarrow> upload \<Rightarrow> bool" where
  "same_upload u u' \<longleftrightarrow> frameCount u' = frameCount u \<and> sentBytes u' = sentBytes u \<and> chunks u' = chunks u \<and>
     metadata u' = metadata u \<and> maxBytes u' = maxBytes u \<and> maxData u' = maxData u \<and> maxFrames u' = maxFrames u \<and>
     stage u' = stage u"

lemma upload_fill_same:
  "upload_fill u = (v, u') \<Longrightarrow> same_upload u u'"
proof (induction u arbitrary: v u' rule: upload_fill.induct)
  case (1 u)
  show ?case
    using "1.prems" "1.IH"
    by (subst (asm) upload_fill.simps)
      (fastforce simp: same_upload_def upload_cancel_def split: if_splits list.splits src_read.splits)
qed

lemma upload_fill_done:
  assumes "upload_fill u = (Inr True, u')" and "pos u \<le> length (pending u)" and "\<not> ended u"
    and "sourceEnded u \<longrightarrow> src u = []"
  shows "unsent u' = unsent u \<and> pos u' \<le> length (pending u') \<and> \<not> ended u' \<and>
    (sourceEnded u' \<longrightarrow> src u' = []) \<and> (pos u' = length (pending u') \<longrightarrow> sourceEnded u') \<and>
    (list_all is_chunk (src u') \<longrightarrow> list_all is_chunk (src u))"
  using assms
proof (induction u arbitrary: u' rule: upload_fill.induct)
  case (1 u)
  show ?case
  proof (cases "pos u = length (pending u) \<and> \<not> sourceEnded u")
    case False
    with "1.prems" show ?thesis by (subst (asm) upload_fill.simps) (auto simp: upload_fill.simps)
  next
    case True
    show ?thesis
    proof (cases "src u")
      case Nil
      with True "1.prems" show ?thesis by (subst (asm) upload_fill.simps) (auto simp: unsent_def)
    next
      case (Cons x s)
      with True "1.prems"(1) obtain c where x: "x = SrcChunk c"
        by (subst (asm) upload_fill.simps) (auto split: src_read.splits)
      show ?thesis
      proof (cases "c = []")
        case c: True
        let ?u = "u\<lparr>src := s, emptyReads := Suc (emptyReads u), pending := c, pos := 0\<rparr>"
        have lim: "\<not> maxFrames u \<le> Suc (emptyReads u)" and rec: "upload_fill ?u = (Inr True, u')"
          using True Cons x c "1.prems"(1)
          by (auto simp: upload_fill.simps [of u] split: if_splits)
        then show ?thesis
          using "1.IH"(1) [OF True Cons x c lim rec] True Cons x c "1.prems"
          by (auto simp: unsent_def)
      next
        case c: False
        let ?u = "u\<lparr>src := s, emptyReads := 0, pending := c, pos := 0\<rparr>"
        have rec: "upload_fill ?u = (Inr True, u')"
          using True Cons x c "1.prems"(1) by (auto simp: upload_fill.simps [of u] split: if_splits)
        then show ?thesis
          using "1.IH"(2) [OF True Cons x c rec] True Cons x c "1.prems"
          by (auto simp: unsent_def)
      qed
    qed
  qed
qed

subsection \<open>The whole upload\<close>

text \<open>
  The transport pulls until the stream closes, fails or goes quiet. A pull that enqueues a data
  frame has counted it below \<open>maxFrames\<close>, so the run ends for any source.
\<close>

lemma upload_pull_Enqueue:
  assumes "upload_pull u = (Enqueue b, u')"
  shows "(stage u = 0 \<and> u' = u\<lparr>stage := 1\<rparr> \<and> b = frame 1 (metadata u) \<and> \<not> ended u) \<or>
    (\<exists>u1. stage u \<noteq> 0 \<and> \<not> ended u \<and> upload_fill u = (Inr True, u1) \<and> upload_emit u1 = (Enqueue b, u'))"
  using assms by (auto simp: upload_pull_def split: if_splits prod.splits sum.splits bool.splits)

lemma upload_emit_Enqueue:
  assumes "upload_emit u = (Enqueue b, u')"
  shows "frameCount u' = Suc (frameCount u) \<and> frameCount u' < maxFrames u \<and> maxFrames u' = maxFrames u \<and>
    stage u' = stage u"
  using assms by (auto simp: upload_emit_def Let_def split: if_splits)

function upload_run :: "upload \<Rightarrow> byte list \<times> pull_result \<times> upload" where
  "upload_run u = (case upload_pull u of
     (Enqueue b, u') \<Rightarrow> (let (out, res, u'') = upload_run u' in (b @ out, res, u''))
   | (EnqueueClose b, u') \<Rightarrow> (b, EnqueueClose b, u')
   | (Close, u') \<Rightarrow> ([], Close, u')
   | (Quiet, u') \<Rightarrow> ([], Quiet, u')
   | (Fail e, u') \<Rightarrow> ([], Fail e, u'))"
  by pat_completeness auto
termination
proof (relation "measure (\<lambda>u. (if stage u = 0 then 1 else 0) + (maxFrames u - frameCount u))")
  fix u x y b
  assume "(x, y) = upload_pull u" "x = Enqueue b"
  then have pull: "upload_pull u = (Enqueue b, y)" by simp
  show "(y, u) \<in> measure (\<lambda>u. (if stage u = 0 then 1 else 0) + (maxFrames u - frameCount u))"
    using upload_pull_Enqueue [OF pull]
  proof
    assume "\<exists>u1. stage u \<noteq> 0 \<and> \<not> ended u \<and> upload_fill u = (Inr True, u1) \<and> upload_emit u1 = (Enqueue b, y)"
    then obtain u1 where "upload_fill u = (Inr True, u1)" "upload_emit u1 = (Enqueue b, y)" "stage u \<noteq> 0" by blast
    with upload_fill_same upload_emit_Enqueue show ?thesis by (fastforce simp: same_upload_def)
  qed auto
qed simp

declare upload_run.simps [simp del]

definition upload_ok :: "upload \<Rightarrow> bool" where
  "upload_ok u \<longleftrightarrow> stage u \<noteq> 0 \<and> \<not> ended u \<and> pos u \<le> length (pending u) \<and> (sourceEnded u \<longrightarrow> src u = [])"

text \<open>One data frame: the chunk it carries is cut off the front of what is unsent.\<close>

lemma upload_pull_data:
  assumes "upload_pull u = (Enqueue b, u')" and "upload_ok u"
  obtains c where "b = frame 2 c" "unsent u = c @ unsent u'" "upload_ok u'"
    "c = [] \<longrightarrow> maxData u = 0" "length c \<le> maxData u" "chunks u' = chunks u @ [c]"
    "sentBytes u' = sentBytes u + length c" "sentBytes u' \<le> maxBytes u" "frameCount u' = Suc (frameCount u)"
    "frameCount u' < maxFrames u" "maxBytes u' = maxBytes u" "maxData u' = maxData u" "maxFrames u' = maxFrames u"
    "list_all is_chunk (src u') \<longrightarrow> list_all is_chunk (src u)"
proof -
  from upload_pull_Enqueue [OF assms(1)] assms(2) obtain u1 where
    fill: "upload_fill u = (Inr True, u1)" and emit: "upload_emit u1 = (Enqueue b, u')"
    by (auto simp: upload_ok_def)
  have same: "same_upload u u1" by (rule upload_fill_same [OF fill])
  have don: "unsent u1 = unsent u" "pos u1 \<le> length (pending u1)" "\<not> ended u1" "sourceEnded u1 \<longrightarrow> src u1 = []"
      "list_all is_chunk (src u1) \<longrightarrow> list_all is_chunk (src u)"
    using upload_fill_done [OF fill] assms(2) by (auto simp: upload_ok_def)
  let ?c = "take (maxData u1) (drop (pos u1) (pending u1))"
  have u': "u' = u1\<lparr>frameCount := Suc (frameCount u1), sentBytes := sentBytes u1 + length ?c,
        chunks := chunks u1 @ [?c], pos := pos u1 + length ?c\<rparr>" and b: "b = frame 2 ?c"
    and lt: "pos u1 < length (pending u1)" "sentBytes u1 + length ?c \<le> maxBytes u1" "Suc (frameCount u1) < maxFrames u1"
    using emit by (auto simp: upload_emit_def Let_def split: if_splits)
  have split: "?c @ drop (pos u1 + length ?c) (pending u1) = drop (pos u1) (pending u1)"
    using take_append_drop_taken [of "maxData u1" "drop (pos u1) (pending u1)"]
    by (simp only: drop_drop add.commute)
  have "unsent u' = drop (pos u1 + length ?c) (pending u1) @ concat (map src_bytes (src u1))"
    using u' by (simp add: unsent_def)
  with split don(1) have "unsent u = ?c @ unsent u'"
    by (simp only: unsent_def append_assoc [symmetric])
  with b u' lt same don assms(2) show thesis
    by (intro that [of ?c]) (auto simp: same_upload_def upload_ok_def)
qed

lemma upload_pull_last:
  assumes "upload_pull u = (EnqueueClose b, u')" and "upload_ok u"
  shows "b = frame 3 [] \<and> unsent u = [] \<and> chunks u' = chunks u \<and> sentBytes u' = sentBytes u \<and>
    list_all is_chunk (src u)"
proof -
  from assms obtain u1 where fill: "upload_fill u = (Inr True, u1)" and emit: "upload_emit u1 = (EnqueueClose b, u')"
    by (auto simp: upload_pull_def upload_ok_def split: if_splits prod.splits sum.splits bool.splits)
  from emit have "b = frame 3 []" "\<not> pos u1 < length (pending u1)" "chunks u' = chunks u1" "sentBytes u' = sentBytes u1"
    by (auto simp: upload_emit_def Let_def split: if_splits)
  with upload_fill_done [OF fill] upload_fill_same [OF fill] assms(2) show ?thesis
    by (auto simp: upload_ok_def same_upload_def unsent_def)
qed

lemma upload_run_done:
  assumes "upload_run u = (out, EnqueueClose b, u')" and "upload_ok u"
  shows "\<exists>cs. out = frames_bytes (map (Pair 2) cs @ [(3, [])]) \<and> concat cs = unsent u \<and> chunks u' = chunks u @ cs \<and>
    (\<forall>c \<in> set cs. length c \<le> maxData u \<and> (c = [] \<longrightarrow> maxData u = 0)) \<and>
    (cs = [] \<or> sentBytes u + length (unsent u) \<le> maxBytes u \<and> frameCount u + length cs < maxFrames u) \<and>
    list_all is_chunk (src u)"
  using assms
proof (induction u arbitrary: out rule: upload_run.induct)
  case (1 u)
  show ?case
  proof (cases "upload_pull u")
    case (Pair r u1)
    show ?thesis
    proof (cases r)
      case (EnqueueClose c)
      with Pair "1.prems" have pull: "upload_pull u = (EnqueueClose b, u')" and "out = b"
        by (auto simp: upload_run.simps [of u])
      with upload_pull_last [OF pull "1.prems"(2)] show ?thesis
        by (intro exI [of _ "[]"]) (simp add: frames_bytes_def)
    next
      case (Enqueue x)
      with Pair have pull: "upload_pull u = (Enqueue x, u1)" by simp
      obtain c where c: "x = frame 2 c" "unsent u = c @ unsent u1" "upload_ok u1"
        "c = [] \<longrightarrow> maxData u = 0" "length c \<le> maxData u" "chunks u1 = chunks u @ [c]"
        "sentBytes u1 = sentBytes u + length c" "sentBytes u1 \<le> maxBytes u" "frameCount u1 = Suc (frameCount u)"
        "frameCount u1 < maxFrames u" "maxBytes u1 = maxBytes u" "maxData u1 = maxData u" "maxFrames u1 = maxFrames u"
        "list_all is_chunk (src u1) \<longrightarrow> list_all is_chunk (src u)"
        using upload_pull_data [OF pull "1.prems"(2)] by blast
      obtain out1 where rec: "upload_run u1 = (out1, EnqueueClose b, u')" and out: "out = x @ out1"
        using "1.prems"(1) pull by (auto simp: upload_run.simps [of u] Let_def split: prod.splits)
      obtain cs where cs: "out1 = frames_bytes (map (Pair 2) cs @ [(3, [])])" "concat cs = unsent u1"
        "chunks u' = chunks u1 @ cs" "\<forall>c \<in> set cs. length c \<le> maxData u1 \<and> (c = [] \<longrightarrow> maxData u1 = 0)"
        "cs = [] \<or> sentBytes u1 + length (unsent u1) \<le> maxBytes u1 \<and> frameCount u1 + length cs < maxFrames u1"
        "list_all is_chunk (src u1)"
        using "1.IH" [OF pull [symmetric] refl rec c(3)] by blast
      have "sentBytes u + length (unsent u) \<le> maxBytes u \<and> frameCount u + length (c # cs) < maxFrames u"
        using c cs by (cases "cs = []") auto
      with c cs out show ?thesis
        by (intro exI [of _ "c # cs"]) (auto simp: frames_bytes_def)
    qed (use Pair "1.prems" in \<open>auto simp: upload_run.simps [of u]\<close>)
  qed
qed

subsection \<open>Uploads of a byte array\<close>

lemma ceil_div_step: "0 < m \<Longrightarrow> m < n \<Longrightarrow> (n + m - 1) div m = Suc ((n - m + m - 1) div m)" for n m :: nat
proof -
  assume m: "0 < m" "m < n"
  then have "n - m + m - 1 = n - 1" "n + m - 1 = (n - 1) + m" by arith+
  with m show ?thesis by (simp only: div_add_self2)
qed

lemma ceil_div_pos: "0 < m \<Longrightarrow> 0 < n \<Longrightarrow> 1 \<le> (n + m - 1) div m" for n m :: nat
  by (simp add: Suc_le_eq div_greater_zero_iff)

lemma ceil_div_one: "0 < n \<Longrightarrow> n \<le> m \<Longrightarrow> (n + m - 1) div m = 1" for n m :: nat
  by (intro div_nat_eqI) auto

definition fits :: "upload \<Rightarrow> bool" where
  "fits u \<longleftrightarrow> unsent u = [] \<or> sentBytes u + length (unsent u) \<le> maxBytes u \<and>
     frameCount u + (length (unsent u) + maxData u - 1) div maxData u < maxFrames u"

lemma upload_pull_buffered:
  assumes "upload_ok u" and "sourceEnded u"
  shows "upload_pull u = upload_emit u"
  using assms by (simp add: upload_pull_def upload_ok_def upload_fill.simps [of u])

lemma upload_run_buffered:
  assumes "upload_ok u" and "sourceEnded u" and "0 < maxData u"
  shows "fst (snd (upload_run u)) = (if fits u then EnqueueClose (frame 3 []) else Fail BodyTooLarge)"
  using assms
proof (induction u rule: upload_run.induct)
  case (1 u)
  have pull: "upload_pull u = upload_emit u" by (rule upload_pull_buffered [OF "1.prems"(1,2)])
  let ?n = "length (unsent u)" and ?m = "maxData u"
  have src: "src u = []" and un: "unsent u = drop (pos u) (pending u)"
    using "1.prems"(1,2) by (auto simp: upload_ok_def unsent_def)
  let ?c = "take ?m (unsent u)"
  have len: "length ?c = min ?n ?m" by simp
  show ?case
  proof (cases "unsent u = []")
    case True
    then have "upload_emit u = (EnqueueClose (frame 3 []), u\<lparr>ended := True, pending := []\<rparr>)"
      using un by (simp add: upload_emit_def)
    with True pull show ?thesis by (simp add: upload_run.simps [of u] fits_def)
  next
    case False
    then have lt: "pos u < length (pending u)" and n: "0 < ?n" using un by auto
    show ?thesis
    proof (cases "maxBytes u < sentBytes u + length ?c \<or> maxFrames u \<le> Suc (frameCount u)")
      case True
      then have "fst (upload_emit u) = Fail BodyTooLarge"
        using lt un by (auto simp: upload_emit_def Let_def)
      then have "fst (snd (upload_run u)) = Fail BodyTooLarge"
        using pull by (auto simp: upload_run.simps [of u] split: prod.splits)
      moreover have "1 \<le> (?n + ?m - 1) div ?m"
        by (rule ceil_div_pos [OF "1.prems"(3) n])
      then have "\<not> fits u" using True False len by (auto simp: fits_def)
      ultimately show ?thesis by simp
    next
      case ok: False
      let ?u = "u\<lparr>frameCount := Suc (frameCount u), sentBytes := sentBytes u + length ?c,
          chunks := chunks u @ [?c], pos := pos u + length ?c\<rparr>"
      have emit: "upload_emit u = (Enqueue (frame 2 ?c), ?u)"
        using ok lt un by (simp add: upload_emit_def Let_def)
      then have pullu: "(Enqueue (frame 2 ?c), ?u) = upload_pull u" using pull by simp
      have u': "upload_ok ?u" "sourceEnded ?u" "0 < maxData ?u"
        using "1.prems" lt un by (auto simp: upload_ok_def)
      have un': "unsent ?u = drop ?m (unsent u)"
        using un src by (simp add: unsent_def add.commute min_def)
      have "fits ?u \<longleftrightarrow> fits u"
      proof (cases "?n \<le> ?m")
        case True
        with ok un' n ceil_div_one [OF n True] False show ?thesis by (auto simp: fits_def)
      next
        case gt: False
        with ceil_div_step [OF "1.prems"(3), of ?n] un' False ok show ?thesis
          by (auto simp: fits_def)
      qed
      with "1.IH" [OF pullu refl u'] pull emit show ?thesis
        by (simp add: upload_run.simps [of u] Let_def case_prod_beta)
    qed
  qed
qed

subsection \<open>Properties\<close>

fun body_bytes :: "request_body \<Rightarrow> byte list" where
  "body_bytes NoBody = []"
| "body_bytes (BytesBody b) = b"
| "body_bytes (StreamBody s) = concat (map src_bytes s)"

abbreviation upload_frames :: "byte list \<Rightarrow> byte list list \<Rightarrow> (nat \<times> byte list) list" where
  "upload_frames meta cs \<equiv> (1, meta) # map (Pair 2) cs @ [(3, [])]"

lemma upload_start:
  fixes meta body mBytes mData mFrames
  defines "u \<equiv> uploadFrames meta body mBytes mData mFrames"
  shows "upload_pull u = (Enqueue (frame 1 meta), u\<lparr>stage := 1\<rparr>)" "upload_ok (u\<lparr>stage := 1\<rparr>)"
    "unsent (u\<lparr>stage := 1\<rparr>) = body_bytes body"
  unfolding u_def
  by (cases body; simp add: uploadFrames_def upload_pull_def upload_ok_def unsent_def)+

lemma upload_run_closes:
  assumes "upload_run (uploadFrames meta body mBytes mData mFrames) = (out, EnqueueClose b, u)"
  shows "out = frames_bytes (upload_frames meta (chunks u)) \<and> concat (chunks u) = body_bytes body \<and>
    (\<forall>c \<in> set (chunks u). length c \<le> mData) \<and> length (body_bytes body) \<le> mBytes \<and>
    (chunks u = [] \<or> length (chunks u) < mFrames)"
proof -
  let ?u = "uploadFrames meta body mBytes mData mFrames"
  let ?v = "?u\<lparr>stage := 1\<rparr>"
  obtain out' where out: "out = frame 1 meta @ out'" and run: "upload_run ?v = (out', EnqueueClose b, u)"
    using assms upload_start(1) [of meta body mBytes mData mFrames]
    by (auto simp: upload_run.simps [of ?u] Let_def split: prod.splits)
  have init: "chunks ?v = []" "maxData ?v = mData" "sentBytes ?v = 0" "frameCount ?v = 0" "maxBytes ?v = mBytes"
      "maxFrames ?v = mFrames"
    by (simp_all add: uploadFrames_def)
  show ?thesis
    using upload_run_done [OF run upload_start(2)] out init
    unfolding upload_start(3) by (auto simp: frames_bytes_def)
qed

text \<open>
  C31: An upload that closes normally has produced, byte for byte, one metadata frame, data
  frames that carry the body in order, none above the negotiated size, and the empty terminal
  frame; the body is within the byte limit, the data frames stay below the frame limit, and the
  observer has seen exactly the chunks sent.
\<close>

theorem upload_delivers:
  assumes "upload_run (uploadFrames meta body mBytes mData mFrames) = (out, EnqueueClose b, u)"
  shows "out = frames_bytes (upload_frames meta (chunks u)) \<and> concat (chunks u) = body_bytes body \<and>
    (\<forall>c \<in> set (chunks u). length c \<le> mData) \<and> length (body_bytes body) \<le> mBytes \<and>
    (chunks u = [] \<or> length (chunks u) < mFrames)"
  using upload_run_closes [OF assms] .

theorem upload_delivers_witness:
  "(let (out, res, u) = upload_run (uploadFrames [7] (BytesBody [1, 2, 3]) 10 2 8)
    in res = EnqueueClose (frame 3 []) \<and> out = frames_bytes (upload_frames [7] (chunks u)) \<and>
       concat (chunks u) = [1, 2, 3])"
proof -
  obtain out res u where run: "upload_run (uploadFrames [7] (BytesBody [1, 2, 3]) 10 2 8) = (out, res, u)"
    by (cases "upload_run (uploadFrames [7] (BytesBody [1, 2, 3]) 10 2 8)") auto
  have "res = EnqueueClose (frame 3 [])"
    using run by (simp add: uploadFrames_def upload_run.simps upload_pull_def upload_fill.simps
        upload_emit_def Let_def)
  with run upload_delivers [of "[7]" "BytesBody [1, 2, 3]" 10 2 8 out] show ?thesis by simp
qed

text \<open>
  C36: An upload of bytes always ends: it closes with the terminal frame exactly when the body
  is empty, or is within the byte limit and its data frames stay below the frame limit, and it
  fails as too large otherwise.
\<close>

theorem upload_buffered_outcome:
  assumes "0 < mData"
  shows "fst (snd (upload_run (uploadFrames meta (BytesBody b) mBytes mData mFrames))) =
    (if b = [] \<or> length b \<le> mBytes \<and> (length b + mData - 1) div mData < mFrames
     then EnqueueClose (frame 3 []) else Fail BodyTooLarge)"
proof -
  let ?u = "uploadFrames meta (BytesBody b) mBytes mData mFrames"
  let ?v = "?u\<lparr>stage := 1\<rparr>"
  have init: "sourceEnded ?v" "maxData ?v = mData" "sentBytes ?v = 0" "frameCount ?v = 0" "maxBytes ?v = mBytes"
      "maxFrames ?v = mFrames"
    by (simp_all add: uploadFrames_def)
  have "fst (snd (upload_run ?u)) = fst (snd (upload_run ?v))"
    using upload_start(1) [of meta "BytesBody b" mBytes mData mFrames]
    by (simp add: upload_run.simps [of ?u] case_prod_beta)
  also have "\<dots> = (if fits ?v then EnqueueClose (frame 3 []) else Fail BodyTooLarge)"
    using upload_start(2) init(1,2) assms by (intro upload_run_buffered) simp_all
  finally show ?thesis
    using init(2-) upload_start(3) [of meta "BytesBody b" mBytes mData mFrames] by (simp add: fits_def)
qed

theorem upload_buffered_outcome_witness:
  "fst (snd (upload_run (uploadFrames [7] (BytesBody [1, 2, 3]) 10 2 2))) = Fail BodyTooLarge \<and>
   fst (snd (upload_run (uploadFrames [7] (BytesBody [1, 2, 3]) 10 2 3))) = EnqueueClose (frame 3 [])"
  using upload_buffered_outcome [of 2 "[7]" "[1, 2, 3]" 10 2] upload_buffered_outcome [of 2 "[7]" "[1, 2, 3]" 10 3]
  by simp

text \<open>
  What \<open>uploadFrames\<close> writes, \<open>FrameReader\<close> reads: a peer with limits no smaller than the
  negotiated ones gets the metadata, the body in the same data frames, the terminal frame and
  the regular end of the stream, however the transport cuts the bytes.
\<close>

theorem upload_read_back:
  assumes "upload_run (uploadFrames meta body mBytes mData mFrames) = (out, EnqueueClose b, u)"
    and "concat cs = out" and "length meta \<le> ml" and "mData \<le> dl" and "ml < 2 ^ 32" and "dl < 2 ^ 32"
    and "length (chunks u) + 2 < k"
  shows "read_frames FrameReader_next k (new_FrameReader (map Chunk cs) ml dl) =
      (upload_frames meta (chunks u), Some (Inr ())) \<and> concat (chunks u) = body_bytes body"
proof -
  note sent = upload_run_closes [OF assms(1)]
  have "list_all (valid_frame ml dl) (upload_frames meta (chunks u))"
    using sent assms(3-6) by (fastforce simp: list_all_iff)
  moreover have "length (upload_frames meta (chunks u)) < k" using assms(7) by simp
  ultimately have "read_frames FrameReader_next k (new_FrameReader (map Chunk cs) ml dl) =
      (upload_frames meta (chunks u), Some (Inr ()))"
    using frame_reader.read_frames_round_trip [OF new_FrameReader_ok(1)] sent assms(2)
    by (simp only: new_FrameReader_ok(2))
  with sent show ?thesis by simp
qed

theorem upload_read_back_witness:
  "read_frames FrameReader_next 5
     (new_FrameReader (map Chunk [[1, 0, 0], [0, 1, 7, 2, 0, 0, 0, 2, 8, 9, 2, 0], [0, 0, 1, 5, 3, 0, 0, 0, 0]]) 10 10) =
   ([(1, [7]), (2, [8, 9]), (2, [5]), (3, [])], Some (Inr ()))"
proof -
  have "upload_run (uploadFrames [7] (BytesBody [8, 9, 5]) 10 2 8) =
      ([1, 0, 0, 0, 1, 7, 2, 0, 0, 0, 2, 8, 9, 2, 0, 0, 0, 1, 5, 3, 0, 0, 0, 0], EnqueueClose [3, 0, 0, 0, 0],
       \<lparr>pending = [], pos = 3, stage = 1, ended = True, sourceEnded = True, frameCount = 2, emptyReads = 0,
        sentBytes = 3, src = [], chunks = [[8, 9], [5]], metadata = [7], maxBytes = 10, maxData = 2, maxFrames = 8\<rparr>)"
    by (simp add: uploadFrames_def upload_run.simps upload_pull_def upload_fill.simps
        upload_emit_def Let_def frame_def setUint32_def)
  from upload_read_back [OF this, of "[[1, 0, 0], [0, 1, 7, 2, 0, 0, 0, 2, 8, 9, 2, 0], [0, 0, 1, 5, 3, 0, 0, 0, 0]]" 10 10 5]
  show ?thesis by simp
qed

end
