(* ===== verification/Js_Value.thy ===== *)
theory Js_Value
  imports Prelude
begin

text \<open>
  The JavaScript values that reach the wire boundary and the operators the code applies to
  them. A number is a finite rational (every double is one; both zeros are the rational 0), an
  infinity or NaN. An object is the list of its own enumerable properties in insertion order;
  a property whose value is \<open>undefined\<close> is kept, since \<open>for in\<close> enumerates it while a
  read gives \<open>undefined\<close>. \<open>JBytes\<close> is a \<open>Uint8Array\<close>; \<open>JForeign\<close> stands for values whose
  \<open>typeof\<close> is none of those the code asks for (functions, symbols, big integers).
\<close>

subsection \<open>Values\<close>

datatype jsnum = NaN | Infinity bool | Num rat

datatype jsval =
    JUndef
  | JNull
  | JBool bool
  | JNum jsnum
  | JStr jsstr
  | JArr "jsval list"
  | JObj "(jsstr \<times> jsval) list"
  | JBytes "byte list"
  | JForeign nat

abbreviation jint :: "int \<Rightarrow> jsval" where
  "jint i \<equiv> JNum (Num (of_int i))"

abbreviation jstr :: "string \<Rightarrow> jsval" where
  "jstr s \<equiv> JStr (js s)"

definition MAX_SAFE_INTEGER :: int where
  "MAX_SAFE_INTEGER = 9007199254740991"

subsection \<open>Operators\<close>

fun js_typeof :: "jsval \<Rightarrow> string" where
  "js_typeof JUndef = ''undefined''"
| "js_typeof JNull = ''object''"
| "js_typeof (JBool _) = ''boolean''"
| "js_typeof (JNum _) = ''number''"
| "js_typeof (JStr _) = ''string''"
| "js_typeof (JArr _) = ''object''"
| "js_typeof (JObj _) = ''object''"
| "js_typeof (JBytes _) = ''object''"
| "js_typeof (JForeign _) = ''function''"

fun is_array :: "jsval \<Rightarrow> bool" where
  "is_array (JArr _) = True"
| "is_array _ = False"

fun array_items :: "jsval \<Rightarrow> jsval list" where
  "array_items (JArr xs) = xs"
| "array_items _ = []"

fun dec_digits :: "nat \<Rightarrow> string" where
  "dec_digits n = (if n < 10 then [char_of (48 + n)] else dec_digits (n div 10) @ [char_of (48 + n mod 10)])"

declare dec_digits.simps [simp del]

text \<open>
  \<open>v.k\<close>: the names the code reads are neither array indices nor members of
  \<open>Object.prototype\<close>, so only plain objects have them.
\<close>

fun js_prop :: "jsval \<Rightarrow> jsstr \<Rightarrow> jsval" where
  "js_prop (JObj ps) k = (case map_of ps k of None \<Rightarrow> JUndef | Some v \<Rightarrow> v)"
| "js_prop _ k = JUndef"

text \<open>The keys that \<open>for (const k in v)\<close> and \<open>Object.keys(v)\<close> visit.\<close>

fun js_keys :: "jsval \<Rightarrow> jsstr list" where
  "js_keys (JObj ps) = map fst ps"
| "js_keys (JBytes bs) = map (\<lambda>i. js (dec_digits i)) [0..<length bs]"
| "js_keys _ = []"

abbreviation get :: "jsval \<Rightarrow> string \<Rightarrow> jsval" where
  "get v k \<equiv> js_prop v (js k)"

text \<open>\<open>d % 1\<close> truncates towards zero and is NaN on the infinities and on NaN.\<close>

fun js_rem1 :: "jsnum \<Rightarrow> jsnum" where
  "js_rem1 (Num q) = Num (q - of_int (if 0 \<le> q then \<lfloor>q\<rfloor> else \<lceil>q\<rceil>))"
| "js_rem1 _ = NaN"

fun num_truthy :: "jsnum \<Rightarrow> bool" where
  "num_truthy NaN = False"
| "num_truthy (Infinity _) = True"
| "num_truthy (Num q) = (q \<noteq> 0)"

definition truthy :: "jsval \<Rightarrow> bool" where
  "truthy v \<longleftrightarrow> v \<notin> {JUndef, JNull, JBool False, JStr []} \<and> (case v of JNum n \<Rightarrow> num_truthy n | _ \<Rightarrow> True)"

fun isNaN :: "jsnum \<Rightarrow> bool" where
  "isNaN NaN = True"
| "isNaN _ = False"

fun isFinite :: "jsnum \<Rightarrow> bool" where
  "isFinite (Num _) = True"
| "isFinite _ = False"

fun num_less :: "jsnum \<Rightarrow> jsnum \<Rightarrow> bool" where
  "num_less NaN _ = False"
| "num_less _ NaN = False"
| "num_less (Infinity neg) (Infinity neg') = (neg \<and> \<not> neg')"
| "num_less (Infinity neg) (Num _) = neg"
| "num_less (Num _) (Infinity neg) = (\<not> neg)"
| "num_less (Num p) (Num q) = (p < q)"

text \<open>\<open>Number.isSafeInteger\<close> and \<open>Number.isInteger\<close> on a number.\<close>

fun is_integer :: "jsnum \<Rightarrow> bool" where
  "is_integer (Num q) = (q = of_int \<lfloor>q\<rfloor>)"
| "is_integer _ = False"

definition isSafeInteger :: "jsnum \<Rightarrow> bool" where
  "isSafeInteger n \<longleftrightarrow> is_integer n \<and> \<not> num_less (Num (of_int MAX_SAFE_INTEGER)) n
     \<and> \<not> num_less n (Num (of_int (- MAX_SAFE_INTEGER)))"

subsection \<open>Facts the components share\<close>

lemma js_typeof_string [js_simps]: "js_typeof v = ''string'' \<longleftrightarrow> (\<exists>s. v = JStr s)"
  by (cases v) auto

lemma js_typeof_number [js_simps]: "js_typeof v = ''number'' \<longleftrightarrow> (\<exists>n. v = JNum n)"
  by (cases v) auto

lemma js_typeof_boolean [js_simps]: "js_typeof v = ''boolean'' \<longleftrightarrow> (\<exists>b. v = JBool b)"
  by (cases v) auto

lemma is_array_iff [js_simps]: "is_array v \<longleftrightarrow> (\<exists>xs. v = JArr xs)"
  by (cases v) auto

lemma rem1_zero_iff: "\<not> num_truthy (js_rem1 (Num q)) \<longleftrightarrow> is_integer (Num q)"
proof
  assume "\<not> num_truthy (js_rem1 (Num q))"
  then have "q = of_int (if 0 \<le> q then \<lfloor>q\<rfloor> else \<lceil>q\<rceil>)" by simp
  then show "is_integer (Num q)" by (metis floor_of_int is_integer.simps(1))
next
  assume "is_integer (Num q)"
  then have eq: "q = of_int \<lfloor>q\<rfloor>" by simp
  then have "\<lceil>q\<rceil> = \<lfloor>q\<rfloor>" by (metis ceiling_of_int)
  with eq show "\<not> num_truthy (js_rem1 (Num q))" by simp
qed

lemma isSafeInteger_jint [simp]:
  "isSafeInteger (Num (of_int i)) \<longleftrightarrow> - MAX_SAFE_INTEGER \<le> i \<and> i \<le> MAX_SAFE_INTEGER"
  by (auto simp: isSafeInteger_def)

lemma isSafeInteger_literal [simp]:
  "isSafeInteger (Num (numeral k)) \<longleftrightarrow> numeral k \<le> MAX_SAFE_INTEGER" "isSafeInteger (Num 0)" "isSafeInteger (Num 1)"
  using isSafeInteger_jint [of "numeral k"] isSafeInteger_jint [of 0] isSafeInteger_jint [of 1]
  by (simp_all add: MAX_SAFE_INTEGER_def)

lemma isSafeIntegerE:
  assumes "isSafeInteger n"
  obtains i where "n = Num (of_int i)" "- MAX_SAFE_INTEGER \<le> i" "i \<le> MAX_SAFE_INTEGER"
proof (cases n)
  case (Num q)
  with assms have "n = Num (of_int \<lfloor>q\<rfloor>)" by (auto simp: isSafeInteger_def)
  with assms that show ?thesis by (metis isSafeInteger_jint)
qed (use assms in \<open>auto simp: isSafeInteger_def\<close>)

end
