(* ===== verification/Schema.thy ===== *)
theory Schema
  imports Js_Value
begin

text \<open>
  The reference semantics: JSON Schema (draft 07) as far as the wire contracts use it. A schema
  is the list of its keywords; a \<open>$ref\<close> into \<open>definitions\<close> is the HOL constant of the
  definition it names. Keywords that constrain one type ignore values of the others, as the
  draft prescribes. \<open>title\<close>, \<open>description\<close>, \<open>default\<close> and \<open>format\<close> are annotations: the
  generator switches formats off. The file also holds the narrowing to safe integers that
  \<open>generate-contracts.mjs\<close> applies to every schema before it is compiled.
\<close>

subsection \<open>Schemas\<close>

datatype stype = TString | TBoolean | TInteger | TNull | TArray | TObject

datatype schema = Schema "kw list"
and kw =
    Type "stype list"
  | Enum "string list"
  | Const string
  | Minimum int
  | Maximum int
  | MinItems nat
  | MaxItems nat
  | Items schema
  | Tuple "schema list"
  | Required "string list"
  | Properties "(string \<times> schema) list"
  | NoAdditional
  | Additional schema
  | AllOf "schema list"
  | AnyOf "schema list"
  | OneOf "schema list"

fun has_type :: "stype \<Rightarrow> jsval \<Rightarrow> bool" where
  "has_type TString (JStr _) = True"
| "has_type TBoolean (JBool _) = True"
| "has_type TInteger (JNum n) = is_integer n"
| "has_type TNull JNull = True"
| "has_type TArray (JArr _) = True"
| "has_type TObject (JObj _) = True"
| "has_type TObject (JBytes _) = True"
| "has_type _ _ = False"

fun num_within :: "(rat \<Rightarrow> bool) \<Rightarrow> jsval \<Rightarrow> bool" where
  "num_within P (JNum (Num q)) = P q"
| "num_within P _ = True"

fun prop_names :: "kw list \<Rightarrow> string list" where
  "prop_names [] = []"
| "prop_names (Properties ps # ks) = map fst ps @ prop_names ks"
| "prop_names (_ # ks) = prop_names ks"

definition count_true :: "bool list \<Rightarrow> nat" where
  "count_true bs = length (filter id bs)"

function (sequential) valid :: "schema \<Rightarrow> jsval \<Rightarrow> bool"
and valid_kw :: "string list \<Rightarrow> kw \<Rightarrow> jsval \<Rightarrow> bool" where
  "valid (Schema ks) d = list_all (\<lambda>k. valid_kw (prop_names ks) k d) ks"
| "valid_kw ns (Type ts) d = list_ex (\<lambda>t. has_type t d) ts"
| "valid_kw ns (Enum xs) d = list_ex (\<lambda>x. d = jstr x) xs"
| "valid_kw ns (Const x) d = (d = jstr x)"
| "valid_kw ns (Minimum lo) d = num_within (\<lambda>q. of_int lo \<le> q) d"
| "valid_kw ns (Maximum hi) d = num_within (\<lambda>q. q \<le> of_int hi) d"
| "valid_kw ns (MinItems n) d = (is_array d \<longrightarrow> n \<le> length (array_items d))"
| "valid_kw ns (MaxItems n) d = (is_array d \<longrightarrow> length (array_items d) \<le> n)"
| "valid_kw ns (Items s) d = list_all (\<lambda>x. valid s x) (array_items d)"
| "valid_kw ns (Tuple ss) d = list_all (\<lambda>(s, x). valid s x) (zip ss (array_items d))"
| "valid_kw ns (Required ps) d = (has_type TObject d \<longrightarrow> list_all (\<lambda>p. get d p \<noteq> JUndef) ps)"
| "valid_kw ns (Properties ps) d = (has_type TObject d \<longrightarrow>
     list_all (\<lambda>(p, s). get d p = JUndef \<or> valid s (get d p)) ps)"
| "valid_kw ns NoAdditional d = (has_type TObject d \<longrightarrow> list_all (\<lambda>k. k \<in> js ` set ns) (js_keys d))"
| "valid_kw ns (Additional s) d = (has_type TObject d \<longrightarrow>
     list_all (\<lambda>k. k \<in> js ` set ns \<or> valid s (js_prop d k)) (js_keys d))"
| "valid_kw ns (AllOf ss) d = list_all (\<lambda>s. valid s d) ss"
| "valid_kw ns (AnyOf ss) d = list_ex (\<lambda>s. valid s d) ss"
| "valid_kw ns (OneOf ss) d = (count_true (map (\<lambda>s. valid s d) ss) = 1)"
  by pat_completeness auto
termination
  by (relation "measure (case_sum (\<lambda>(s, d). size s) (\<lambda>(ns, k, d). size k))")
    (auto simp: less_Suc_eq_le dest!: set_zip_leftD intro: size_list_estimation')

subsection \<open>Narrowing to safe integers\<close>

text \<open>
  \<open>constrainIntegers\<close> walks the whole schema and, in every object whose \<open>type\<close> admits an
  integer, clamps the bounds to the safe range, adding them where they are missing.
\<close>

fun admits_integer :: "kw list \<Rightarrow> bool" where
  "admits_integer [] = False"
| "admits_integer (Type ts # ks) = (TInteger \<in> set ts)"
| "admits_integer (_ # ks) = admits_integer ks"

fun maximum_of :: "kw list \<Rightarrow> int option" where
  "maximum_of [] = None"
| "maximum_of (Maximum hi # ks) = Some hi"
| "maximum_of (_ # ks) = maximum_of ks"

fun minimum_of :: "kw list \<Rightarrow> int option" where
  "minimum_of [] = None"
| "minimum_of (Minimum lo # ks) = Some lo"
| "minimum_of (_ # ks) = minimum_of ks"

definition is_bound :: "kw \<Rightarrow> bool" where
  "is_bound k = (case k of Minimum _ \<Rightarrow> True | Maximum _ \<Rightarrow> True | _ \<Rightarrow> False)"

definition safe_bounds :: "kw list \<Rightarrow> kw list" where
  "safe_bounds ks =
     (if admits_integer ks
      then filter (\<lambda>k. \<not> is_bound k) ks @
        [Maximum (min (case maximum_of ks of Some hi \<Rightarrow> hi | None \<Rightarrow> MAX_SAFE_INTEGER) MAX_SAFE_INTEGER),
         Minimum (max (case minimum_of ks of Some lo \<Rightarrow> lo | None \<Rightarrow> - MAX_SAFE_INTEGER) (- MAX_SAFE_INTEGER))]
      else ks)"

fun constrainIntegers :: "schema \<Rightarrow> schema"
and constrain_kw :: "kw \<Rightarrow> kw" where
  "constrainIntegers (Schema ks) = Schema (safe_bounds (map constrain_kw ks))"
| "constrain_kw (Items s) = Items (constrainIntegers s)"
| "constrain_kw (Tuple ss) = Tuple (map constrainIntegers ss)"
| "constrain_kw (Properties ps) = Properties (map (\<lambda>(p, s). (p, constrainIntegers s)) ps)"
| "constrain_kw (Additional s) = Additional (constrainIntegers s)"
| "constrain_kw (AllOf ss) = AllOf (map constrainIntegers ss)"
| "constrain_kw (AnyOf ss) = AnyOf (map constrainIntegers ss)"
| "constrain_kw (OneOf ss) = OneOf (map constrainIntegers ss)"
| "constrain_kw k = k"

subsection \<open>What narrowing keeps\<close>

text \<open>
  A schema object has each bound at most once (its keys are unique), and a value is safe when
  every integer in it is one that a double represents exactly.
\<close>

fun is_maximum :: "kw \<Rightarrow> bool" where
  "is_maximum (Maximum _) = True"
| "is_maximum _ = False"

fun is_minimum :: "kw \<Rightarrow> bool" where
  "is_minimum (Minimum _) = True"
| "is_minimum _ = False"

definition unique_bounds :: "kw list \<Rightarrow> bool" where
  "unique_bounds ks \<longleftrightarrow> length (filter is_maximum ks) \<le> 1 \<and> length (filter is_minimum ks) \<le> 1"

fun wf_schema :: "schema \<Rightarrow> bool"
and wf_kw :: "kw \<Rightarrow> bool" where
  "wf_schema (Schema ks) = (unique_bounds ks \<and> list_all wf_kw ks)"
| "wf_kw (Items s) = wf_schema s"
| "wf_kw (Tuple ss) = list_all wf_schema ss"
| "wf_kw (Properties ps) = list_all (\<lambda>(p, s). wf_schema s) ps"
| "wf_kw (Additional s) = wf_schema s"
| "wf_kw (AllOf ss) = list_all wf_schema ss"
| "wf_kw (AnyOf ss) = list_all wf_schema ss"
| "wf_kw (OneOf ss) = list_all wf_schema ss"
| "wf_kw k = True"

fun safe_numbers :: "jsval \<Rightarrow> bool" where
  "safe_numbers (JNum n) = (is_integer n \<longrightarrow> isSafeInteger n)"
| "safe_numbers (JArr xs) = list_all safe_numbers xs"
| "safe_numbers (JObj ps) = list_all (\<lambda>(k, v). safe_numbers v) ps"
| "safe_numbers _ = True"

lemma safe_numbers_prop [simp]: "safe_numbers d \<Longrightarrow> safe_numbers (js_prop d k)"
  by (cases d) (auto simp: list_all_iff split: option.split dest!: map_of_SomeD)

lemma safe_numbers_item [simp]: "safe_numbers d \<Longrightarrow> x \<in> set (array_items d) \<Longrightarrow> safe_numbers x"
  by (cases d) (auto simp: list_all_iff)

lemma prop_names_constrain [simp]: "prop_names (map constrain_kw ks) = prop_names ks"
  by (induction ks rule: prop_names.induct) (auto simp: comp_def case_prod_beta)

lemma prop_names_bounds [simp]: "prop_names (safe_bounds ks) = prop_names ks"
proof -
  have "prop_names (filter (\<lambda>k. \<not> is_bound k) ks @ [Maximum hi, Minimum lo]) = prop_names ks" for hi lo
    by (induction ks rule: prop_names.induct) (auto simp: is_bound_def)
  then show ?thesis by (simp add: safe_bounds_def)
qed

lemma unique_maximum: "length (filter is_maximum ks) \<le> 1 \<Longrightarrow>
    list_all (\<lambda>k. is_maximum k \<longrightarrow> valid_kw ns k d) ks \<longleftrightarrow> (case maximum_of ks of
      None \<Rightarrow> True | Some hi \<Rightarrow> num_within (\<lambda>q. q \<le> of_int hi) d)"
proof (induction ks rule: maximum_of.induct)
  case (2 hi ks)
  then have "filter is_maximum ks = []" by simp
  then have "list_all (\<lambda>k. is_maximum k \<longrightarrow> valid_kw ns k d) ks" by (auto simp: list_all_iff filter_empty_conv)
  then show ?case by simp
qed auto

lemma unique_minimum: "length (filter is_minimum ks) \<le> 1 \<Longrightarrow>
    list_all (\<lambda>k. is_minimum k \<longrightarrow> valid_kw ns k d) ks \<longleftrightarrow> (case minimum_of ks of
      None \<Rightarrow> True | Some lo \<Rightarrow> num_within (\<lambda>q. of_int lo \<le> q) d)"
proof (induction ks rule: minimum_of.induct)
  case (2 lo ks)
  then have "filter is_minimum ks = []" by simp
  then have "list_all (\<lambda>k. is_minimum k \<longrightarrow> valid_kw ns k d) ks" by (auto simp: list_all_iff filter_empty_conv)
  then show ?case by simp
qed auto

lemma admits_integer_types:
  assumes "admits_integer ks" and "list_all (\<lambda>k. valid_kw ns k d) ks" and "d = JNum n"
  shows "is_integer n"
  using assms
proof (induction ks rule: admits_integer.induct)
  case (2 ts ks)
  then obtain t where "has_type t (JNum n)" by (auto simp: list_ex_iff)
  then show ?case by (cases t) auto
qed auto

lemma list_all_bounds:
  "list_all P ks \<longleftrightarrow> list_all P (filter (\<lambda>k. \<not> is_bound k) ks) \<and> list_all (\<lambda>k. is_maximum k \<longrightarrow> P k) ks \<and>
     list_all (\<lambda>k. is_minimum k \<longrightarrow> P k) ks"
  by (induction ks) (auto simp: is_bound_def split: kw.splits)

lemma safe_bounds_valid:
  assumes "unique_bounds ks" and "safe_numbers d"
  shows "list_all (\<lambda>k. valid_kw ns k d) (safe_bounds ks) \<longleftrightarrow> list_all (\<lambda>k. valid_kw ns k d) ks"
proof (cases "admits_integer ks")
  case True
  let ?rest = "list_all (\<lambda>k. valid_kw ns k d) (filter (\<lambda>k. \<not> is_bound k) ks)"
  have adm: "admits_integer (filter (\<lambda>k. \<not> is_bound k) ks)"
    using True by (induction ks rule: admits_integer.induct) (auto simp: is_bound_def)
  have range: "?rest \<Longrightarrow> num_within (\<lambda>q. q \<le> of_int MAX_SAFE_INTEGER) d \<and>
      num_within (\<lambda>q. of_int (- MAX_SAFE_INTEGER) \<le> q) d"
  proof (cases d)
    case (JNum n)
    assume ?rest
    from admits_integer_types [OF adm this JNum] assms(2) JNum have "isSafeInteger n" by simp
    then show ?thesis using JNum by (auto elim!: isSafeIntegerE simp del: of_int_minus)
  qed auto
  have max: "list_all (\<lambda>k. is_maximum k \<longrightarrow> valid_kw ns k d) ks \<longleftrightarrow> (case maximum_of ks of
      None \<Rightarrow> True | Some hi \<Rightarrow> num_within (\<lambda>q. q \<le> of_int hi) d)"
    and min: "list_all (\<lambda>k. is_minimum k \<longrightarrow> valid_kw ns k d) ks \<longleftrightarrow> (case minimum_of ks of
      None \<Rightarrow> True | Some lo \<Rightarrow> num_within (\<lambda>q. of_int lo \<le> q) d)"
    using assms(1) by (simp_all add: unique_bounds_def unique_maximum unique_minimum)
  have "num_within (\<lambda>q. q \<le> of_int (min hi MAX_SAFE_INTEGER)) d \<longleftrightarrow> num_within (\<lambda>q. q \<le> of_int hi) d"
    "num_within (\<lambda>q. of_int (max lo (- MAX_SAFE_INTEGER)) \<le> q) d \<longleftrightarrow> num_within (\<lambda>q. of_int lo \<le> q) d" if ?rest for hi lo
    using range [OF that]
    by (cases "(\<lambda>q :: rat. True, d)" rule: num_within.cases; auto simp: of_int_min of_int_max)+
  with range True show ?thesis
    unfolding list_all_bounds [of "\<lambda>k. valid_kw ns k d" ks] max min
    by (auto simp: safe_bounds_def simp del: of_int_minus split: option.splits)
qed (simp add: safe_bounds_def)

lemma unique_bounds_constrain [simp]: "unique_bounds (map constrain_kw ks) = unique_bounds ks"
proof -
  have "is_maximum (constrain_kw k) = is_maximum k" "is_minimum (constrain_kw k) = is_minimum k" for k
    by (cases k; simp)+
  then show ?thesis by (simp add: unique_bounds_def filter_map comp_def)
qed

text \<open>On safe values the narrowed schema says what the published schema says.\<close>

lemma constrainIntegers_valid:
  "wf_schema s \<Longrightarrow> safe_numbers d \<Longrightarrow> valid (constrainIntegers s) d = valid s d"
  "wf_kw k \<Longrightarrow> safe_numbers d \<Longrightarrow> valid_kw ns (constrain_kw k) d = valid_kw ns k d"
proof (induction s d and ns k d rule: valid_valid_kw.induct)
  case (1 ks d)
  then have "list_all (\<lambda>k. valid_kw (prop_names ks) k d) (map constrain_kw ks) =
      list_all (\<lambda>k. valid_kw (prop_names ks) k d) ks"
    by (auto simp: list_all_iff)
  with 1 show ?case by (simp add: safe_bounds_valid)
next
  case (10 ns ss d)
  have "valid (constrainIntegers s) x = valid s x" if "(s, x) \<in> set (zip ss (array_items d))" for s x
    using 10 that set_zip_leftD [OF that] safe_numbers_item [OF _ set_zip_rightD [OF that]]
    by (simp add: list_all_iff)
  then show ?case by (auto simp: list_all_iff zip_map1)
next
  case (17 ns ss d)
  then have "map (\<lambda>s. valid (constrainIntegers s) d) ss = map (\<lambda>s. valid s d) ss"
    by (auto simp: list_all_iff)
  then show ?case by (simp add: comp_def cong: map_cong)
qed (fastforce simp: list_all_iff list_ex_iff)+

end
