(* ===== verification/Wire_Schemas.thy ===== *)
theory Wire_Schemas
  imports Schema
begin

text \<open>
  The wire contracts: the schemas of \<open>src/contracts/schemas\<close>, one constant per contract and
  per entry of its \<open>definitions\<close>, keywords in the order of the files. The service emits these
  files from its data types; the SDK generates its validators from them.
\<close>

definition sch_requestMetadata_BrowserIdentity :: schema where
  "sch_requestMetadata_BrowserIdentity = Schema [NoAdditional,
   Properties
     [(''emulateHeaders'', Schema [Type [TBoolean]]), (''tlsProfile'', Schema [Type [TString]]),
      (''userAgent'', Schema [Type [TString, TNull]])],
   Required [''tlsProfile'', ''emulateHeaders''], Type [TObject]]"

definition sch_requestMetadata_Egress :: schema where
  "sch_requestMetadata_Egress = Schema [OneOf
     [Schema [NoAdditional,
       Properties
         [(''mode'', Schema [Const ''direct'', Type [TString]])],
       Required [''mode''], Type [TObject]],
      Schema [NoAdditional,
       Properties
         [(''mode'', Schema [Const ''proxy'', Type [TString]]), (''url'', Schema [Type [TString]])],
       Required [''mode'', ''url''], Type [TObject]]]]"

definition sch_requestMetadata_HeaderOrder :: schema where
  "sch_requestMetadata_HeaderOrder = Schema [OneOf
     [Schema [Const ''caller'', Type [TString]], Schema [Const ''browser'', Type [TString]]]]"

definition sch_requestMetadata_ConnectionSpec :: schema where
  "sch_requestMetadata_ConnectionSpec = Schema [NoAdditional,
   Properties
     [(''egress'', sch_requestMetadata_Egress),
      (''identity'', sch_requestMetadata_BrowserIdentity)],
   Required [''egress'', ''identity''], Type [TObject]]"

definition sch_requestMetadata :: schema where
  "sch_requestMetadata = Schema [NoAdditional,
   Properties
     [(''attempt'', Schema [Minimum 0, Type [TInteger]]),
      (''bodyLength'', Schema [Minimum 0, Type [TInteger, TNull]]),
      (''connection'', Schema [AnyOf
         [sch_requestMetadata_ConnectionSpec, Schema [Type [TNull]]]]),
      (''contextId'', Schema [Type [TString, TNull]]), (''hasBody'', Schema [Type [TBoolean]]),
      (''headerOrder'', Schema [AllOf
         [sch_requestMetadata_HeaderOrder]]),
      (''headers'', Schema [Items (Schema [Tuple [Schema [Type [TString]], Schema [Type [TString]]], MaxItems 2, MinItems 2,
         Type [TArray]]),
       Type [TArray]]),
      (''maxResponseBytes'', Schema [Minimum 0, Type [TInteger]]),
      (''method'', Schema [Type [TString]]), (''partition'', Schema [Type [TString]]),
      (''requestId'', Schema [Type [TString]]),
      (''timeoutMs'', Schema [Minimum 0, Type [TInteger]]), (''url'', Schema [Type [TString]])],
   Required [''requestId'', ''partition'', ''url'', ''method'', ''headers'', ''hasBody'', ''timeoutMs'',
      ''maxResponseBytes'', ''attempt''],
   Type [TObject]]"

definition sch_responseMetadata_Delivery :: schema where
  "sch_responseMetadata_Delivery = Schema [Enum [''not_started'', ''possibly_sent'', ''response_started''], Type [TString]]"

definition sch_responseMetadata_Phase :: schema where
  "sch_responseMetadata_Phase = Schema [Enum [''queued'', ''preparing'', ''upstream'', ''body'', ''complete''], Type [TString]]"

definition sch_responseMetadata_Diagnostics :: schema where
  "sch_responseMetadata_Diagnostics = Schema [Properties
     [(''attempt'', Schema [Minimum 0, Type [TInteger]]),
      (''bodyMs'', Schema [Minimum 0, Type [TInteger, TNull]]),
      (''clientReused'', Schema [Type [TBoolean, TNull]]),
      (''contextId'', Schema [Type [TString, TNull]]),
      (''cookieRevision'', Schema [Minimum 0, Type [TInteger, TNull]]),
      (''delivery'', sch_responseMetadata_Delivery),
      (''headersMs'', Schema [Minimum 0, Type [TInteger, TNull]]),
      (''phase'', sch_responseMetadata_Phase), (''queueMs'', Schema [Minimum 0, Type [TInteger]]),
      (''requestBytes'', Schema [Minimum 0, Type [TInteger]]),
      (''requestId'', Schema [Type [TString]]),
      (''responseBytes'', Schema [Minimum 0, Type [TInteger]]),
      (''spanId'', Schema [Type [TString]]), (''tlsProfile'', Schema [Type [TString]]),
      (''totalMs'', Schema [Minimum 0, Type [TInteger]]), (''traceId'', Schema [Type [TString]])],
   Required [''requestId'', ''attempt'', ''traceId'', ''spanId'', ''phase'', ''delivery'', ''queueMs'',
      ''headersMs'', ''bodyMs'', ''totalMs'', ''requestBytes'', ''responseBytes'', ''tlsProfile''],
   Type [TObject]]"

definition sch_responseMetadata :: schema where
  "sch_responseMetadata = Schema [Properties
     [(''cookieRevision'', Schema [Minimum 0, Type [TInteger, TNull]]),
      (''diagnostics'', sch_responseMetadata_Diagnostics),
      (''headers'', Schema [Items (Schema [Tuple [Schema [Type [TString]], Schema [Type [TString]]], MaxItems 2, MinItems 2,
         Type [TArray]]),
       Type [TArray]]),
      (''requestId'', Schema [Type [TString]]),
      (''status'', Schema [Maximum 65535, Minimum 0, Type [TInteger]])],
   Required [''requestId'', ''status'', ''headers'', ''diagnostics''], Type [TObject]]"

definition sch_diagnostics_Delivery :: schema where
  "sch_diagnostics_Delivery = Schema [Enum [''not_started'', ''possibly_sent'', ''response_started''], Type [TString]]"

definition sch_diagnostics_Phase :: schema where
  "sch_diagnostics_Phase = Schema [Enum [''queued'', ''preparing'', ''upstream'', ''body'', ''complete''], Type [TString]]"

definition sch_diagnostics :: schema where
  "sch_diagnostics = Schema [Properties
     [(''attempt'', Schema [Minimum 0, Type [TInteger]]),
      (''bodyMs'', Schema [Minimum 0, Type [TInteger, TNull]]),
      (''clientReused'', Schema [Type [TBoolean, TNull]]),
      (''contextId'', Schema [Type [TString, TNull]]),
      (''cookieRevision'', Schema [Minimum 0, Type [TInteger, TNull]]),
      (''delivery'', sch_diagnostics_Delivery),
      (''headersMs'', Schema [Minimum 0, Type [TInteger, TNull]]),
      (''phase'', sch_diagnostics_Phase), (''queueMs'', Schema [Minimum 0, Type [TInteger]]),
      (''requestBytes'', Schema [Minimum 0, Type [TInteger]]),
      (''requestId'', Schema [Type [TString]]),
      (''responseBytes'', Schema [Minimum 0, Type [TInteger]]),
      (''spanId'', Schema [Type [TString]]), (''tlsProfile'', Schema [Type [TString]]),
      (''totalMs'', Schema [Minimum 0, Type [TInteger]]), (''traceId'', Schema [Type [TString]])],
   Required [''requestId'', ''attempt'', ''traceId'', ''spanId'', ''phase'', ''delivery'', ''queueMs'',
      ''headersMs'', ''bodyMs'', ''totalMs'', ''requestBytes'', ''responseBytes'', ''tlsProfile''],
   Type [TObject]]"

definition sch_transportError_Delivery :: schema where
  "sch_transportError_Delivery = Schema [Enum [''not_started'', ''possibly_sent'', ''response_started''], Type [TString]]"

definition sch_transportError_ErrorCode :: schema where
  "sch_transportError_ErrorCode = Schema [Enum [''UNAUTHORIZED'', ''INVALID_REQUEST'', ''UNSUPPORTED_CAPABILITY'', ''INVALID_PROFILE'',
        ''EGRESS_REQUIRED'', ''SSRF_BLOCKED'', ''BODY_TOO_LARGE'', ''BUSY'', ''TIMEOUT'',
        ''CANCELLED'', ''DNS_ERROR'', ''PROXY_ERROR'', ''TLS_ERROR'', ''CONNECT_ERROR'',
        ''PROTOCOL_ERROR'', ''CONTEXT_NOT_FOUND'', ''CONTEXT_CONFLICT'', ''CONTEXT_LIMIT'',
        ''COOKIE_LIMIT'', ''DUPLICATE_REQUEST'', ''UNKNOWN''],
   Type [TString]]"

definition sch_transportError_Phase :: schema where
  "sch_transportError_Phase = Schema [Enum [''queued'', ''preparing'', ''upstream'', ''body'', ''complete''], Type [TString]]"

definition sch_transportError_Diagnostics :: schema where
  "sch_transportError_Diagnostics = Schema [Properties
     [(''attempt'', Schema [Minimum 0, Type [TInteger]]),
      (''bodyMs'', Schema [Minimum 0, Type [TInteger, TNull]]),
      (''clientReused'', Schema [Type [TBoolean, TNull]]),
      (''contextId'', Schema [Type [TString, TNull]]),
      (''cookieRevision'', Schema [Minimum 0, Type [TInteger, TNull]]),
      (''delivery'', sch_transportError_Delivery),
      (''headersMs'', Schema [Minimum 0, Type [TInteger, TNull]]),
      (''phase'', sch_transportError_Phase), (''queueMs'', Schema [Minimum 0, Type [TInteger]]),
      (''requestBytes'', Schema [Minimum 0, Type [TInteger]]),
      (''requestId'', Schema [Type [TString]]),
      (''responseBytes'', Schema [Minimum 0, Type [TInteger]]),
      (''spanId'', Schema [Type [TString]]), (''tlsProfile'', Schema [Type [TString]]),
      (''totalMs'', Schema [Minimum 0, Type [TInteger]]), (''traceId'', Schema [Type [TString]])],
   Required [''requestId'', ''attempt'', ''traceId'', ''spanId'', ''phase'', ''delivery'', ''queueMs'',
      ''headersMs'', ''bodyMs'', ''totalMs'', ''requestBytes'', ''responseBytes'', ''tlsProfile''],
   Type [TObject]]"

definition sch_transportError :: schema where
  "sch_transportError = Schema [Properties
     [(''code'', sch_transportError_ErrorCode),
      (''diagnostics'', Schema [AnyOf
         [sch_transportError_Diagnostics, Schema [Type [TNull]]]]),
      (''message'', Schema [Type [TString]])],
   Required [''code'', ''message''], Type [TObject]]"

definition sch_contextInfo_BrowserIdentity :: schema where
  "sch_contextInfo_BrowserIdentity = Schema [NoAdditional,
   Properties
     [(''emulateHeaders'', Schema [Type [TBoolean]]), (''tlsProfile'', Schema [Type [TString]]),
      (''userAgent'', Schema [Type [TString, TNull]])],
   Required [''tlsProfile'', ''emulateHeaders''], Type [TObject]]"

definition sch_contextInfo_CookieMode :: schema where
  "sch_contextInfo_CookieMode = Schema [Enum [''external'', ''managed''], Type [TString]]"

definition sch_contextInfo :: schema where
  "sch_contextInfo = Schema [Properties
     [(''contextId'', Schema [Type [TString]]), (''cookieMode'', sch_contextInfo_CookieMode),
      (''expiresAtMs'', Schema [Minimum 0, Type [TInteger]]),
      (''identity'', sch_contextInfo_BrowserIdentity), (''partition'', Schema [Type [TString]]),
      (''revision'', Schema [Minimum 0, Type [TInteger]])],
   Required [''contextId'', ''partition'', ''expiresAtMs'', ''revision'', ''cookieMode'', ''identity''],
   Type [TObject]]"

definition sch_cookieRecord_CookieSameSite :: schema where
  "sch_cookieRecord_CookieSameSite = Schema [Enum [''Strict'', ''Lax'', ''None''], Type [TString]]"

definition sch_cookieRecord :: schema where
  "sch_cookieRecord = Schema [NoAdditional,
   Properties
     [(''domain'', Schema [Type [TString]]),
      (''expiresAtMs'', Schema [Minimum 0, Type [TInteger, TNull]]),
      (''hostOnly'', Schema [Type [TBoolean]]), (''httpOnly'', Schema [Type [TBoolean]]),
      (''name'', Schema [Type [TString]]), (''partitioned'', Schema [Type [TBoolean]]),
      (''path'', Schema [Type [TString]]),
      (''sameSite'', Schema [AnyOf
         [sch_cookieRecord_CookieSameSite, Schema [Type [TNull]]]]),
      (''secure'', Schema [Type [TBoolean]]), (''value'', Schema [Type [TString]])],
   Required [''name'', ''value'', ''domain'', ''path'', ''secure'', ''httpOnly'', ''hostOnly'',
      ''partitioned''],
   Type [TObject]]"

definition sch_cookieSnapshot_CookieSameSite :: schema where
  "sch_cookieSnapshot_CookieSameSite = Schema [Enum [''Strict'', ''Lax'', ''None''], Type [TString]]"

definition sch_cookieSnapshot_CookieRecord :: schema where
  "sch_cookieSnapshot_CookieRecord = Schema [NoAdditional,
   Properties
     [(''domain'', Schema [Type [TString]]),
      (''expiresAtMs'', Schema [Minimum 0, Type [TInteger, TNull]]),
      (''hostOnly'', Schema [Type [TBoolean]]), (''httpOnly'', Schema [Type [TBoolean]]),
      (''name'', Schema [Type [TString]]), (''partitioned'', Schema [Type [TBoolean]]),
      (''path'', Schema [Type [TString]]),
      (''sameSite'', Schema [AnyOf
         [sch_cookieSnapshot_CookieSameSite, Schema [Type [TNull]]]]),
      (''secure'', Schema [Type [TBoolean]]), (''value'', Schema [Type [TString]])],
   Required [''name'', ''value'', ''domain'', ''path'', ''secure'', ''httpOnly'', ''hostOnly'',
      ''partitioned''],
   Type [TObject]]"

definition sch_cookieSnapshot :: schema where
  "sch_cookieSnapshot = Schema [NoAdditional,
   Properties
     [(''cookies'', Schema [Items (sch_cookieSnapshot_CookieRecord), Type [TArray]]),
      (''partitionKey'', Schema [Type [TString]])],
   Required [''partitionKey'', ''cookies''], Type [TObject]]"

definition sch_capabilities_CapabilityLimits :: schema where
  "sch_capabilities_CapabilityLimits = Schema [Properties
     [(''contextIdleTtlMs'', Schema [Minimum 0, Type [TInteger]]),
      (''contextMaxAgeMs'', Schema [Minimum 0, Type [TInteger]]),
      (''contextMaxIdleTtlMs'', Schema [Minimum 0, Type [TInteger]]),
      (''envelopeTimeoutMs'', Schema [Minimum 0, Type [TInteger]]),
      (''maxAllowedOrigins'', Schema [Minimum 0, Type [TInteger]]),
      (''maxConcurrent'', Schema [Minimum 0, Type [TInteger]]),
      (''maxConcurrentPerPartition'', Schema [Minimum 0, Type [TInteger]]),
      (''maxContexts'', Schema [Minimum 0, Type [TInteger]]),
      (''maxContextsPerPartition'', Schema [Minimum 0, Type [TInteger]]),
      (''maxControlBytes'', Schema [Minimum 0, Type [TInteger]]),
      (''maxCookieBytes'', Schema [Minimum 0, Type [TInteger]]),
      (''maxCookieSize'', Schema [Minimum 0, Type [TInteger]]),
      (''maxCookies'', Schema [Minimum 0, Type [TInteger]]),
      (''maxEnvelopes'', Schema [Minimum 0, Type [TInteger]]),
      (''maxHeaderBytes'', Schema [Minimum 0, Type [TInteger]]),
      (''maxHeaders'', Schema [Minimum 0, Type [TInteger]]),
      (''maxQueued'', Schema [Minimum 0, Type [TInteger]]),
      (''maxQueuedPerPartition'', Schema [Minimum 0, Type [TInteger]]),
      (''maxRequestBytes'', Schema [Minimum 0, Type [TInteger]]),
      (''maxResponseBytes'', Schema [Minimum 0, Type [TInteger]]),
      (''maxTimeoutMs'', Schema [Minimum 0, Type [TInteger]]),
      (''registryCapacity'', Schema [Minimum 0, Type [TInteger]]),
      (''registryTtlMs'', Schema [Minimum 0, Type [TInteger]])],
   Required [''maxRequestBytes'', ''maxResponseBytes'', ''maxTimeoutMs'', ''maxConcurrent'',
      ''maxConcurrentPerPartition'', ''maxQueued'', ''maxQueuedPerPartition'', ''maxEnvelopes'',
      ''envelopeTimeoutMs'', ''maxControlBytes'', ''maxHeaderBytes'', ''maxHeaders'',
      ''maxContexts'', ''maxContextsPerPartition'', ''contextIdleTtlMs'', ''contextMaxIdleTtlMs'',
      ''contextMaxAgeMs'', ''maxCookies'', ''maxCookieBytes'', ''maxCookieSize'',
      ''maxAllowedOrigins'', ''registryCapacity'', ''registryTtlMs''],
   Type [TObject]]"

definition sch_capabilities_CapabilityModes :: schema where
  "sch_capabilities_CapabilityModes = Schema [Properties
     [(''cancel'', Schema [Items (Schema [Type [TString]]), Type [TArray]]),
      (''cookies'', Schema [Items (Schema [Type [TString]]), Type [TArray]]),
      (''egress'', Schema [Items (Schema [Type [TString]]), Type [TArray]]),
      (''stream'', Schema [Items (Schema [Type [TString]]), Type [TArray]])],
   Required [''egress'', ''cookies'', ''stream'', ''cancel''], Type [TObject]]"

definition sch_capabilities_FramingCapabilities :: schema where
  "sch_capabilities_FramingCapabilities = Schema [Properties
     [(''contentType'', Schema [Type [TString]]),
      (''maxDataBytes'', Schema [Minimum 0, Type [TInteger]]),
      (''maxMetadataBytes'', Schema [Minimum 0, Type [TInteger]]),
      (''maxUploadFrames'', Schema [Minimum 0, Type [TInteger]])],
   Required [''contentType'', ''maxMetadataBytes'', ''maxDataBytes'', ''maxUploadFrames''],
   Type [TObject]]"

definition sch_capabilities_HeaderDescriptor :: schema where
  "sch_capabilities_HeaderDescriptor = Schema [Properties
     [(''headers'', Schema [Items (Schema [Tuple [Schema [Type [TString]], Schema [Type [TString]]], MaxItems 2, MinItems 2,
         Type [TArray]]),
       Type [TArray]]),
      (''tlsProfile'', Schema [Type [TString]])],
   Required [''tlsProfile'', ''headers''], Type [TObject]]"

definition sch_capabilities_ServiceName :: schema where
  "sch_capabilities_ServiceName = Schema [Enum [''ja3proxy''], Type [TString]]"

definition sch_capabilities :: schema where
  "sch_capabilities = Schema [Properties
     [(''build'', Schema [Type [TString]]), (''framing'', sch_capabilities_FramingCapabilities),
      (''headerDescriptors'', Schema [Items (sch_capabilities_HeaderDescriptor), Type [TArray]]),
      (''limits'', sch_capabilities_CapabilityLimits),
      (''modes'', sch_capabilities_CapabilityModes),
      (''profileAliases'', Schema [Additional (Schema [Type [TString]]), Type [TObject]]),
      (''profiles'', Schema [Items (Schema [Type [TString]]), Type [TArray]]),
      (''service'', sch_capabilities_ServiceName)],
   Required [''service'', ''build'', ''profiles'', ''headerDescriptors'', ''profileAliases'',
      ''framing'', ''limits'', ''modes''],
   Type [TObject]]"

definition sch_createContext_BrowserIdentity :: schema where
  "sch_createContext_BrowserIdentity = Schema [NoAdditional,
   Properties
     [(''emulateHeaders'', Schema [Type [TBoolean]]), (''tlsProfile'', Schema [Type [TString]]),
      (''userAgent'', Schema [Type [TString, TNull]])],
   Required [''tlsProfile'', ''emulateHeaders''], Type [TObject]]"

definition sch_createContext_CookieMode :: schema where
  "sch_createContext_CookieMode = Schema [Enum [''external'', ''managed''], Type [TString]]"

definition sch_createContext_Egress :: schema where
  "sch_createContext_Egress = Schema [OneOf
     [Schema [NoAdditional,
       Properties
         [(''mode'', Schema [Const ''direct'', Type [TString]])],
       Required [''mode''], Type [TObject]],
      Schema [NoAdditional,
       Properties
         [(''mode'', Schema [Const ''proxy'', Type [TString]]), (''url'', Schema [Type [TString]])],
       Required [''mode'', ''url''], Type [TObject]]]]"

definition sch_createContext_ConnectionSpec :: schema where
  "sch_createContext_ConnectionSpec = Schema [NoAdditional,
   Properties
     [(''egress'', sch_createContext_Egress), (''identity'', sch_createContext_BrowserIdentity)],
   Required [''egress'', ''identity''], Type [TObject]]"

definition sch_createContext :: schema where
  "sch_createContext = Schema [NoAdditional,
   Properties
     [(''allowedOrigins'', Schema [Items (Schema [Type [TString]]), Type [TArray]]),
      (''connection'', sch_createContext_ConnectionSpec),
      (''cookieMode'', sch_createContext_CookieMode), (''partition'', Schema [Type [TString]]),
      (''ttlMs'', Schema [Minimum 0, Type [TInteger, TNull]])],
   Required [''partition'', ''connection'', ''cookieMode'', ''allowedOrigins''], Type [TObject]]"

definition sch_cookieOperation_CookieSameSite :: schema where
  "sch_cookieOperation_CookieSameSite = Schema [Enum [''Strict'', ''Lax'', ''None''], Type [TString]]"

definition sch_cookieOperation_CookieRecord :: schema where
  "sch_cookieOperation_CookieRecord = Schema [NoAdditional,
   Properties
     [(''domain'', Schema [Type [TString]]),
      (''expiresAtMs'', Schema [Minimum 0, Type [TInteger, TNull]]),
      (''hostOnly'', Schema [Type [TBoolean]]), (''httpOnly'', Schema [Type [TBoolean]]),
      (''name'', Schema [Type [TString]]), (''partitioned'', Schema [Type [TBoolean]]),
      (''path'', Schema [Type [TString]]),
      (''sameSite'', Schema [AnyOf
         [sch_cookieOperation_CookieSameSite, Schema [Type [TNull]]]]),
      (''secure'', Schema [Type [TBoolean]]), (''value'', Schema [Type [TString]])],
   Required [''name'', ''value'', ''domain'', ''path'', ''secure'', ''httpOnly'', ''hostOnly'',
      ''partitioned''],
   Type [TObject]]"

definition sch_cookieOperation_CookieSnapshot :: schema where
  "sch_cookieOperation_CookieSnapshot = Schema [NoAdditional,
   Properties
     [(''cookies'', Schema [Items (sch_cookieOperation_CookieRecord), Type [TArray]]),
      (''partitionKey'', Schema [Type [TString]])],
   Required [''partitionKey'', ''cookies''], Type [TObject]]"

definition sch_cookieOperation :: schema where
  "sch_cookieOperation = Schema [OneOf
     [Schema [NoAdditional,
       Properties
         [(''operation'', Schema [Const ''select'', Type [TString]]),
          (''partition'', Schema [Type [TString]]), (''url'', Schema [Type [TString]])],
       Required [''operation'', ''partition'', ''url''], Type [TObject]],
      Schema [NoAdditional,
       Properties
         [(''cookies'', Schema [Items (Schema [Type [TString]]), Type [TArray]]),
          (''expectedRevision'', Schema [Minimum 0, Type [TInteger]]),
          (''operation'', Schema [Const ''set'', Type [TString]]),
          (''partition'', Schema [Type [TString]]), (''url'', Schema [Type [TString]])],
       Required [''operation'', ''partition'', ''url'', ''cookies'', ''expectedRevision''],
       Type [TObject]],
      Schema [NoAdditional,
       Properties
         [(''operation'', Schema [Const ''export'', Type [TString]]),
          (''partition'', Schema [Type [TString]])],
       Required [''operation'', ''partition''], Type [TObject]],
      Schema [NoAdditional,
       Properties
         [(''expectedRevision'', Schema [Minimum 0, Type [TInteger]]),
          (''operation'', Schema [Const ''import'', Type [TString]]),
          (''partition'', Schema [Type [TString]]),
          (''snapshot'', sch_cookieOperation_CookieSnapshot)],
       Required [''operation'', ''partition'', ''snapshot'', ''expectedRevision''], Type [TObject]]]]"

definition sch_cookieReply_CookieSameSite :: schema where
  "sch_cookieReply_CookieSameSite = Schema [Enum [''Strict'', ''Lax'', ''None''], Type [TString]]"

definition sch_cookieReply_CookieRecord :: schema where
  "sch_cookieReply_CookieRecord = Schema [NoAdditional,
   Properties
     [(''domain'', Schema [Type [TString]]),
      (''expiresAtMs'', Schema [Minimum 0, Type [TInteger, TNull]]),
      (''hostOnly'', Schema [Type [TBoolean]]), (''httpOnly'', Schema [Type [TBoolean]]),
      (''name'', Schema [Type [TString]]), (''partitioned'', Schema [Type [TBoolean]]),
      (''path'', Schema [Type [TString]]),
      (''sameSite'', Schema [AnyOf
         [sch_cookieReply_CookieSameSite, Schema [Type [TNull]]]]),
      (''secure'', Schema [Type [TBoolean]]), (''value'', Schema [Type [TString]])],
   Required [''name'', ''value'', ''domain'', ''path'', ''secure'', ''httpOnly'', ''hostOnly'',
      ''partitioned''],
   Type [TObject]]"

definition sch_cookieReply_CookieSnapshot :: schema where
  "sch_cookieReply_CookieSnapshot = Schema [NoAdditional,
   Properties
     [(''cookies'', Schema [Items (sch_cookieReply_CookieRecord), Type [TArray]]),
      (''partitionKey'', Schema [Type [TString]])],
   Required [''partitionKey'', ''cookies''], Type [TObject]]"

definition sch_cookieReply :: schema where
  "sch_cookieReply = Schema [Properties
     [(''cookies'', Schema [Items (sch_cookieReply_CookieRecord), Type [TArray, TNull]]),
      (''revision'', Schema [Minimum 0, Type [TInteger]]),
      (''snapshot'', Schema [AnyOf
         [sch_cookieReply_CookieSnapshot, Schema [Type [TNull]]]])],
   Required [''revision''], Type [TObject]]"

definition sch_requestStatus_Delivery :: schema where
  "sch_requestStatus_Delivery = Schema [Enum [''not_started'', ''possibly_sent'', ''response_started''], Type [TString]]"

definition sch_requestStatus_ErrorCode :: schema where
  "sch_requestStatus_ErrorCode = Schema [Enum [''UNAUTHORIZED'', ''INVALID_REQUEST'', ''UNSUPPORTED_CAPABILITY'', ''INVALID_PROFILE'',
        ''EGRESS_REQUIRED'', ''SSRF_BLOCKED'', ''BODY_TOO_LARGE'', ''BUSY'', ''TIMEOUT'',
        ''CANCELLED'', ''DNS_ERROR'', ''PROXY_ERROR'', ''TLS_ERROR'', ''CONNECT_ERROR'',
        ''PROTOCOL_ERROR'', ''CONTEXT_NOT_FOUND'', ''CONTEXT_CONFLICT'', ''CONTEXT_LIMIT'',
        ''COOKIE_LIMIT'', ''DUPLICATE_REQUEST'', ''UNKNOWN''],
   Type [TString]]"

definition sch_requestStatus_Phase :: schema where
  "sch_requestStatus_Phase = Schema [Enum [''queued'', ''preparing'', ''upstream'', ''body'', ''complete''], Type [TString]]"

definition sch_requestStatus_RequestState :: schema where
  "sch_requestStatus_RequestState = Schema [Enum [''queued'', ''active'', ''complete'', ''failed''], Type [TString]]"

definition sch_requestStatus_Diagnostics :: schema where
  "sch_requestStatus_Diagnostics = Schema [Properties
     [(''attempt'', Schema [Minimum 0, Type [TInteger]]),
      (''bodyMs'', Schema [Minimum 0, Type [TInteger, TNull]]),
      (''clientReused'', Schema [Type [TBoolean, TNull]]),
      (''contextId'', Schema [Type [TString, TNull]]),
      (''cookieRevision'', Schema [Minimum 0, Type [TInteger, TNull]]),
      (''delivery'', sch_requestStatus_Delivery),
      (''headersMs'', Schema [Minimum 0, Type [TInteger, TNull]]),
      (''phase'', sch_requestStatus_Phase), (''queueMs'', Schema [Minimum 0, Type [TInteger]]),
      (''requestBytes'', Schema [Minimum 0, Type [TInteger]]),
      (''requestId'', Schema [Type [TString]]),
      (''responseBytes'', Schema [Minimum 0, Type [TInteger]]),
      (''spanId'', Schema [Type [TString]]), (''tlsProfile'', Schema [Type [TString]]),
      (''totalMs'', Schema [Minimum 0, Type [TInteger]]), (''traceId'', Schema [Type [TString]])],
   Required [''requestId'', ''attempt'', ''traceId'', ''spanId'', ''phase'', ''delivery'', ''queueMs'',
      ''headersMs'', ''bodyMs'', ''totalMs'', ''requestBytes'', ''responseBytes'', ''tlsProfile''],
   Type [TObject]]"

definition sch_requestStatus_TransportError :: schema where
  "sch_requestStatus_TransportError = Schema [Properties
     [(''code'', sch_requestStatus_ErrorCode),
      (''diagnostics'', Schema [AnyOf
         [sch_requestStatus_Diagnostics, Schema [Type [TNull]]]]),
      (''message'', Schema [Type [TString]])],
   Required [''code'', ''message''], Type [TObject]]"

definition sch_requestStatus :: schema where
  "sch_requestStatus = Schema [Properties
     [(''diagnostics'', sch_requestStatus_Diagnostics),
      (''error'', Schema [AnyOf
         [sch_requestStatus_TransportError, Schema [Type [TNull]]]]),
      (''state'', sch_requestStatus_RequestState)],
   Required [''state'', ''diagnostics''], Type [TObject]]"

lemmas wire_schema_defs =
  sch_requestMetadata_BrowserIdentity_def
  sch_requestMetadata_Egress_def
  sch_requestMetadata_HeaderOrder_def
  sch_requestMetadata_ConnectionSpec_def
  sch_requestMetadata_def
  sch_responseMetadata_Delivery_def
  sch_responseMetadata_Phase_def
  sch_responseMetadata_Diagnostics_def
  sch_responseMetadata_def
  sch_diagnostics_Delivery_def
  sch_diagnostics_Phase_def
  sch_diagnostics_def
  sch_transportError_Delivery_def
  sch_transportError_ErrorCode_def
  sch_transportError_Phase_def
  sch_transportError_Diagnostics_def
  sch_transportError_def
  sch_contextInfo_BrowserIdentity_def
  sch_contextInfo_CookieMode_def
  sch_contextInfo_def
  sch_cookieRecord_CookieSameSite_def
  sch_cookieRecord_def
  sch_cookieSnapshot_CookieSameSite_def
  sch_cookieSnapshot_CookieRecord_def
  sch_cookieSnapshot_def
  sch_capabilities_CapabilityLimits_def
  sch_capabilities_CapabilityModes_def
  sch_capabilities_FramingCapabilities_def
  sch_capabilities_HeaderDescriptor_def
  sch_capabilities_ServiceName_def
  sch_capabilities_def
  sch_createContext_BrowserIdentity_def
  sch_createContext_CookieMode_def
  sch_createContext_Egress_def
  sch_createContext_ConnectionSpec_def
  sch_createContext_def
  sch_cookieOperation_CookieSameSite_def
  sch_cookieOperation_CookieRecord_def
  sch_cookieOperation_CookieSnapshot_def
  sch_cookieOperation_def
  sch_cookieReply_CookieSameSite_def
  sch_cookieReply_CookieRecord_def
  sch_cookieReply_CookieSnapshot_def
  sch_cookieReply_def
  sch_requestStatus_Delivery_def
  sch_requestStatus_ErrorCode_def
  sch_requestStatus_Phase_def
  sch_requestStatus_RequestState_def
  sch_requestStatus_Diagnostics_def
  sch_requestStatus_TransportError_def
  sch_requestStatus_def

end
