(* ===== verification/Validator.thy ===== *)
theory Validator
  imports Schema
begin

text \<open>
  The statements of which \<open>src/packages/typescript/src/generated/compiled-validators.js\<close> is
  made. A validator keeps the list \<open>vErrors\<close> of error objects found so far; \<open>errors\<close> is its
  length throughout. A statement maps \<open>vErrors\<close> either to \<open>Ret es\<close>, the early exit
  \<open>validateN.errors = es; return false\<close>, or to \<open>Cont vs\<close>, falling through with the list \<open>vs\<close>.
  An error object is its instance path and its keyword with the parameters; the texts
  \<open>schemaPath\<close> and \<open>message\<close> are fixed by those and by the position in the schema.

  Each combinator below is one idiom of the generated code; the definitions of the validators
  compose them in the order of the source. The second half states the contract of a statement
  (it accepts silently exactly when a predicate holds of the data) and derives it for every
  idiom, once for both ways of failing.
\<close>

subsection \<open>Error objects and control flow\<close>

datatype pathseg = Key jsstr | Idx nat

datatype vkeyword =
    KType "stype list"
  | KEnum "string list"
  | KConst string
  | KMaximum int
  | KMinimum int
  | KMaxItems nat
  | KMinItems nat
  | KRequired string
  | KAdditional jsstr
  | KAnyOf
  | KOneOf "nat list"

record verror =
  instancePath :: "pathseg list"
  keyword :: vkeyword

datatype vflow = Ret "verror list" | Cont "verror list"

type_synonym vcheck = "verror list \<Rightarrow> vflow"
type_synonym vfail = "verror \<Rightarrow> vcheck"
type_synonym vstmt = "pathseg list \<Rightarrow> jsval \<Rightarrow> vcheck"
type_synonym validator = "pathseg list \<Rightarrow> jsval \<Rightarrow> verror list"

text \<open>
  The two ways to fail: return at once with this error alone, or, inside \<open>anyOf\<close> and
  \<open>oneOf\<close>, push the error and go on.
\<close>

definition ret :: vfail where
  "ret e vs = Ret [e]"

definition push :: vfail where
  "push e vs = Cont (vs @ [e])"

definition err :: "pathseg list \<Rightarrow> vkeyword \<Rightarrow> verror" where
  "err p k = \<lparr>instancePath = p, keyword = k\<rparr>"

text \<open>
  \<open>A; B\<close>, and \<open>const _errs = errors; A; if (_errs === errors) { B }\<close>, where later statements
  run only if none before added an error. A statement about the value \<open>d\<close> at the path \<open>p\<close> takes
  both as arguments.
\<close>

definition both_stmt :: "vstmt \<Rightarrow> vstmt \<Rightarrow> vstmt" where
  "both_stmt a b p d vs = (case a p d vs of Ret es \<Rightarrow> Ret es | Cont vs' \<Rightarrow> b p d vs')"

definition guarded :: "vcheck \<Rightarrow> vcheck \<Rightarrow> vcheck" where
  "guarded a b vs = (case a vs of Ret es \<Rightarrow> Ret es
     | Cont vs' \<Rightarrow> if length vs = length vs' then b vs' else Cont vs')"

fun props :: "vstmt list \<Rightarrow> vstmt" where
  "props [] p d vs = Cont vs"
| "props (c # cs) p d vs = guarded (c p d) (props cs p d) vs"

text \<open>The tail \<open>validateN.errors = vErrors; return errors === 0\<close>: acceptance is the empty list.\<close>

definition finish :: "vcheck \<Rightarrow> verror list" where
  "finish c = (case c [] of Ret es \<Rightarrow> es | Cont vs \<Rightarrow> vs)"

subsection \<open>Checks of one value\<close>

definition js_integer :: "jsval \<Rightarrow> bool" where
  "js_integer d \<longleftrightarrow> js_typeof d = ''number'' \<and>
     (case d of JNum n \<Rightarrow> (\<not> num_truthy (js_rem1 n) \<and> \<not> isNaN n) \<and> isFinite n | _ \<Rightarrow> False)"

definition js_object :: "jsval \<Rightarrow> bool" where
  "js_object d \<longleftrightarrow> d \<noteq> JNull \<and> js_typeof d = ''object'' \<and> \<not> is_array d"

fun js_is :: "stype \<Rightarrow> jsval \<Rightarrow> bool" where
  "js_is TString d = (js_typeof d = ''string'')"
| "js_is TBoolean d = (js_typeof d = ''boolean'')"
| "js_is TInteger d = js_integer d"
| "js_is TNull d = (d = JNull)"
| "js_is TArray d = is_array d"
| "js_is TObject d = js_object d"

text \<open>\<open>if (!cond) { fail }\<close>\<close>

definition check :: "vfail \<Rightarrow> bool \<Rightarrow> verror \<Rightarrow> vcheck" where
  "check m ok e vs = (if ok then Cont vs else m e vs)"

definition type_stmt :: "vfail \<Rightarrow> stype list \<Rightarrow> vstmt" where
  "type_stmt m ts p d = check m (list_ex (\<lambda>t. js_is t d) ts) (err p (KType ts))"

definition enum_stmt :: "vfail \<Rightarrow> string list \<Rightarrow> vstmt" where
  "enum_stmt m xs p d = check m (list_ex (\<lambda>x. d = jstr x) xs) (err p (KEnum xs))"

definition const_stmt :: "vfail \<Rightarrow> string \<Rightarrow> vstmt" where
  "const_stmt m x p d = check m (jstr x = d) (err p (KConst x))"

text \<open>
  \<open>if (typeof d == "number" && isFinite(d)) { if (d > hi || isNaN(d)) fail else { if (d < lo ||
  isNaN(d)) fail } }\<close>
\<close>

definition range_stmt :: "vfail \<Rightarrow> int \<Rightarrow> int \<Rightarrow> vstmt" where
  "range_stmt m lo hi p d vs = (case d of
     JNum n \<Rightarrow>
       if isFinite n then
         if num_less (Num (of_int hi)) n \<or> isNaN n then m (err p (KMaximum hi)) vs
         else if num_less n (Num (of_int lo)) \<or> isNaN n then m (err p (KMinimum lo)) vs
         else Cont vs
       else Cont vs
   | _ \<Rightarrow> Cont vs)"

text \<open>The type check of an integer, then, if it passed, its range.\<close>

definition int_stmt :: "vfail \<Rightarrow> stype list \<Rightarrow> int \<Rightarrow> int \<Rightarrow> vstmt" where
  "int_stmt m ts lo hi p d = guarded (type_stmt m ts p d) (range_stmt m lo hi p d)"

subsection \<open>Objects and arrays\<close>

text \<open>
  \<open>if (d && typeof d == "object" && !Array.isArray(d)) { if (d.p === void 0 && (missing = "p") ||
  \<dots>) fail else { body } } else fail\<close>
\<close>

definition object_stmt :: "vfail \<Rightarrow> string list \<Rightarrow> vstmt \<Rightarrow> vstmt" where
  "object_stmt m req body p d vs =
     (if js_object d then
        case List.find (\<lambda>r. get d r = JUndef) req of
          Some r \<Rightarrow> m (err p (KRequired r)) vs
        | None \<Rightarrow> body p d vs
      else m (err p (KType [TObject])) vs)"

text \<open>\<open>for (const key in d) { if (!(key === "a" || \<dots>)) { fail; break; } }\<close>\<close>

fun extra_keys :: "vfail \<Rightarrow> string list \<Rightarrow> pathseg list \<Rightarrow> jsstr list \<Rightarrow> vcheck" where
  "extra_keys m names p [] vs = Cont vs"
| "extra_keys m names p (k # ks) vs =
     (if \<not> list_ex (\<lambda>n. k = js n) names then m (err p (KAdditional k)) vs
      else extra_keys m names p ks vs)"

text \<open>\<open>const _errs = errors; for \<dots>; if (_errs === errors) { body }\<close>\<close>

definition closed_stmt :: "vfail \<Rightarrow> string list \<Rightarrow> vstmt \<Rightarrow> vstmt" where
  "closed_stmt m names body p d = guarded (extra_keys m names p (js_keys d)) (body p d)"

text \<open>\<open>if (d.k !== void 0) { const _errs = errors; body; valid = _errs === errors } else { valid = true }\<close>\<close>

definition prop_stmt :: "string \<Rightarrow> vstmt \<Rightarrow> vstmt" where
  "prop_stmt k body p d vs =
     (if get d k \<noteq> JUndef then body (p @ [Key (js k)]) (get d k) vs else Cont vs)"

text \<open>\<open>for (const key in d) { const _errs = errors; body(d[key]); valid = _errs === errors; if (!valid) break; }\<close>\<close>

fun keys_loop :: "vstmt \<Rightarrow> pathseg list \<Rightarrow> jsval \<Rightarrow> jsstr list \<Rightarrow> vcheck" where
  "keys_loop body p d [] vs = Cont vs"
| "keys_loop body p d (k # ks) vs = guarded (body (p @ [Key k]) (js_prop d k)) (keys_loop body p d ks) vs"

definition map_stmt :: "vfail \<Rightarrow> vstmt \<Rightarrow> vstmt" where
  "map_stmt m body p d vs =
     (if js_object d then keys_loop body p d (js_keys d) vs else m (err p (KType [TObject])) vs)"

text \<open>\<open>for (let i = 0; i < len; i++) { const _errs = errors; body(d[i]); valid = _errs === errors; if (!valid) break; }\<close>\<close>

fun items_loop :: "vstmt \<Rightarrow> pathseg list \<Rightarrow> nat \<Rightarrow> jsval list \<Rightarrow> vcheck" where
  "items_loop body p i [] vs = Cont vs"
| "items_loop body p i (x # xs) vs = guarded (body (p @ [Idx i]) x) (items_loop body p (Suc i) xs) vs"

text \<open>\<open>if (Array.isArray(d)) { loop } else fail\<close>\<close>

definition array_stmt :: "vfail \<Rightarrow> vstmt \<Rightarrow> vstmt" where
  "array_stmt m body p d vs =
     (if is_array d then items_loop body p 0 (array_items d) vs else m (err p (KType [TArray])) vs)"

text \<open>
  A nullable array: the type check on its own, then \<open>if (errors === _errs) { if (Array.isArray(d))
  { loop } }\<close>.
\<close>

definition opt_array_stmt :: "vfail \<Rightarrow> stype list \<Rightarrow> vstmt \<Rightarrow> vstmt" where
  "opt_array_stmt m ts body p d =
     guarded (type_stmt m ts p d)
       (\<lambda>vs. if is_array d then items_loop body p 0 (array_items d) vs else Cont vs)"

text \<open>
  A pair: \<open>if (d.length > 2) fail else { if (d.length < 2) fail else { if (len > 0) { d[0] }; if
  (valid) { if (len > 1) { d[1] } } } }\<close>, under \<open>Array.isArray(d)\<close>.
\<close>

definition pair_stmt :: "vfail \<Rightarrow> vstmt \<Rightarrow> vstmt \<Rightarrow> vstmt" where
  "pair_stmt m a b p d vs =
     (if is_array d then
        if 2 < length (array_items d) then m (err p (KMaxItems 2)) vs
        else if length (array_items d) < 2 then m (err p (KMinItems 2)) vs
        else guarded (a (p @ [Idx 0]) (array_items d ! 0)) (b (p @ [Idx 1]) (array_items d ! 1)) vs
      else m (err p (KType [TArray])) vs)"

subsection \<open>Calls and alternatives\<close>

text \<open>\<open>if (!validateN(d)) { vErrors = vErrors.concat(validateN.errors); errors = vErrors.length; }\<close>\<close>

definition call_stmt :: "validator \<Rightarrow> vstmt" where
  "call_stmt f p d vs = Cont (vs @ f p d)"

text \<open>
  \<open>anyOf\<close>: the branches in turn until one adds no error. Failure appends the \<open>anyOf\<close> error and
  returns all errors; success truncates \<open>vErrors\<close> to its length before the branches.
\<close>

fun any_scan :: "vstmt list \<Rightarrow> pathseg list \<Rightarrow> jsval \<Rightarrow> verror list \<Rightarrow> vflow \<times> bool" where
  "any_scan [] p d vs = (Cont vs, False)"
| "any_scan (c # cs) p d vs = (case c p d vs of
     Ret es \<Rightarrow> (Ret es, False)
   | Cont vs' \<Rightarrow> if length vs = length vs' then (Cont vs', True) else any_scan cs p d vs')"

definition any_of :: "vstmt list \<Rightarrow> vstmt" where
  "any_of cs p d vs = (case any_scan cs p d vs of
     (Ret es, _) \<Rightarrow> Ret es
   | (Cont vs', found) \<Rightarrow> if \<not> found then Ret (vs' @ [err p KAnyOf]) else Cont (take (length vs) vs'))"

text \<open>
  \<open>oneOf\<close>: \<open>val\<close> and \<open>passing\<close> are the variables \<open>valid\<close> and \<open>passing\<close> as in the source; the scan stops at a second passing branch.
\<close>

fun one_scan :: "nat \<Rightarrow> bool \<Rightarrow> nat list \<Rightarrow> vstmt list \<Rightarrow> pathseg list \<Rightarrow> jsval \<Rightarrow> verror list \<Rightarrow>
    vflow \<times> bool \<times> nat list" where
  "one_scan i val passing [] p d vs = (Cont vs, val, passing)"
| "one_scan i val passing (c # cs) p d vs = (case c p d vs of
     Ret es \<Rightarrow> (Ret es, val, passing)
   | Cont vs' \<Rightarrow>
       let ok = (length vs = length vs') in
       if ok \<and> val then (Cont vs', False, passing @ [i])
       else if ok then one_scan (Suc i) True [i] cs p d vs'
       else one_scan (Suc i) val passing cs p d vs')"

definition one_of :: "vstmt list \<Rightarrow> vstmt" where
  "one_of cs p d vs = (case one_scan 0 False [] cs p d vs of
     (Ret es, _, _) \<Rightarrow> Ret es
   | (Cont vs', val, passing) \<Rightarrow>
       if \<not> val then Ret (vs' @ [err p (KOneOf passing)]) else Cont (take (length vs) vs'))"

subsection \<open>The contract of a statement\<close>

text \<open>
  A statement decides a predicate if it falls through with \<open>vErrors\<close> unchanged when the
  predicate holds of the value, and rejects otherwise. Rejection comes in two strengths: a
  statement outside the alternatives may return, one inside them only adds errors, since a
  branch must leave the choice to the enclosing \<open>anyOf\<close> or \<open>oneOf\<close>.
\<close>

definition hard_reject :: "verror list \<Rightarrow> vflow \<Rightarrow> bool" where
  "hard_reject vs r = (case r of Ret es \<Rightarrow> es \<noteq> [] | Cont vs' \<Rightarrow> (\<exists>es. es \<noteq> [] \<and> vs' = vs @ es))"

definition soft_reject :: "verror list \<Rightarrow> vflow \<Rightarrow> bool" where
  "soft_reject vs r = (case r of Ret es \<Rightarrow> False | Cont vs' \<Rightarrow> (\<exists>es. es \<noteq> [] \<and> vs' = vs @ es))"

definition verdict :: "(verror list \<Rightarrow> vflow \<Rightarrow> bool) \<Rightarrow> bool \<Rightarrow> verror list \<Rightarrow> vflow \<Rightarrow> bool" where
  "verdict rej b vs r = (if b then r = Cont vs else rej vs r)"

definition decides :: "(verror list \<Rightarrow> vflow \<Rightarrow> bool) \<Rightarrow> vstmt \<Rightarrow> (jsval \<Rightarrow> bool) \<Rightarrow> bool" where
  "decides rej c P = (\<forall>p d vs. verdict rej (P d) vs (c p d vs))"

lemma decidesD: "decides rej c P \<Longrightarrow> verdict rej (P d) vs (c p d vs)"
  by (simp add: decides_def)

lemma decidesI: "(\<And>p d vs. verdict rej (P d) vs (c p d vs)) \<Longrightarrow> decides rej c P"
  by (simp add: decides_def)

lemma decides_cong: "decides rej c P \<Longrightarrow> (\<And>d. P d \<longleftrightarrow> Q d) \<Longrightarrow> decides rej c Q"
  by (simp add: decides_def)

lemma js_object_has_type [js_simps]: "js_object d \<longleftrightarrow> has_type TObject d"
  by (cases d) (auto simp: js_object_def)

lemma js_integer_has_type [js_simps]: "js_integer d \<longleftrightarrow> has_type TInteger d"
proof (cases d)
  case (JNum n)
  then show ?thesis
    by (cases n) (auto simp: js_integer_def rem1_zero_iff simp del: js_rem1.simps num_truthy.simps(3))
qed (auto simp: js_integer_def)

lemma js_is_has_type: "js_is t d \<longleftrightarrow> has_type t d"
  by (cases t; cases d) (auto simp: js_simps)

text \<open>What a notion of rejection has to satisfy for the contracts to compose.\<close>

locale rejection =
  fixes rej :: "verror list \<Rightarrow> vflow \<Rightarrow> bool"
  assumes rej_Cont: "rej vs (Cont vs') \<longleftrightarrow> (\<exists>es. es \<noteq> [] \<and> vs' = vs @ es)"
    and rej_extend: "rej (vs @ es) r \<Longrightarrow> rej vs r"
begin

lemma verdict_guarded:
  assumes "verdict rej A vs (a vs)" and "verdict rej B vs (b vs)"
  shows "verdict rej (A \<and> B) vs (guarded a b vs)"
  using assms by (auto simp: verdict_def guarded_def rej_Cont split: vflow.splits if_splits)

lemma decides_both [decides_intros]:
  assumes "decides rej a P" and "decides rej b Q"
  shows "decides rej (both_stmt a b) (\<lambda>d. P d \<and> Q d)"
proof (rule decidesI)
  fix p d vs
  show "verdict rej (P d \<and> Q d) vs (both_stmt a b p d vs)"
  proof (cases "a p d vs")
    case (Ret es)
    with decidesD [OF assms(1), of d vs p] show ?thesis
      by (auto simp: verdict_def both_stmt_def split: if_splits)
  next
    case (Cont vs')
    show ?thesis
    proof (cases "P d")
      case True
      with Cont decidesD [OF assms(1), of d vs p] decidesD [OF assms(2), of d vs p]
      show ?thesis by (simp add: verdict_def both_stmt_def)
    next
      case False
      with Cont decidesD [OF assms(1), of d vs p] obtain es where "es \<noteq> []" "vs' = vs @ es"
        by (auto simp: verdict_def rej_Cont)
      with Cont False decidesD [OF assms(2), of d vs' p] show ?thesis
        by (auto simp: verdict_def both_stmt_def rej_Cont intro: rej_extend split: if_splits)
    qed
  qed
qed

lemma decides_props_Nil [decides_intros]: "decides rej (props []) (\<lambda>d. True)"
  by (rule decidesI) (simp add: verdict_def)

lemma decides_props_Cons [decides_intros]:
  assumes "decides rej c P" and "decides rej (props cs) Q"
  shows "decides rej (props (c # cs)) (\<lambda>d. P d \<and> Q d)"
  using assms by (auto intro!: decidesI verdict_guarded dest: decidesD)

lemma decides_props_append [decides_intros]:
  assumes "decides rej (props as) P" and "decides rej (props bs) Q"
  shows "decides rej (props (as @ bs)) (\<lambda>d. P d \<and> Q d)"
proof (rule decidesI)
  fix p d vs
  have "props (as @ bs) p d vs = guarded (props as p d) (props bs p d) vs"
    by (induction as arbitrary: vs) (auto simp: guarded_def split: vflow.splits)
  with assms show "verdict rej (P d \<and> Q d) vs (props (as @ bs) p d vs)"
    by (simp add: verdict_guarded decidesD)
qed

lemma decides_prop [decides_intros]:
  assumes "decides rej c P"
  shows "decides rej (prop_stmt k c) (\<lambda>d. get d k = JUndef \<or> P (get d k))"
  using assms by (auto simp: decides_def prop_stmt_def verdict_def)

lemma verdict_items:
  assumes "decides rej c P"
  shows "verdict rej (list_all P xs) vs (items_loop c p i xs vs)"
proof (induction xs arbitrary: i vs)
  case (Cons x xs)
  with assms show ?case by (auto intro!: verdict_guarded dest: decidesD)
qed (simp add: verdict_def)

lemma verdict_keys:
  assumes "decides rej c P"
  shows "verdict rej (list_all (\<lambda>k. P (js_prop d k)) ks) vs (keys_loop c p d ks vs)"
proof (induction ks arbitrary: vs)
  case (Cons k ks)
  with assms show ?case by (auto intro!: verdict_guarded dest: decidesD)
qed (simp add: verdict_def)

lemma decides_call:
  assumes "\<And>p d. f p d = [] \<longleftrightarrow> P d"
  shows "decides rej (call_stmt f) P"
  using assms by (auto simp: decides_def verdict_def call_stmt_def rej_Cont)

end

text \<open>A way of failing that belongs to a notion of rejection.\<close>

locale fail_mode = rejection +
  fixes m :: vfail
  assumes fails: "rej vs (m e vs)"
begin

lemma verdict_check: "verdict rej b vs (check m b e vs)"
  by (simp add: verdict_def check_def fails)

lemma decides_type [decides_intros]:
  "decides rej (type_stmt m ts) (\<lambda>d. list_ex (\<lambda>t. has_type t d) ts)"
  by (rule decidesI) (auto simp: type_stmt_def js_is_has_type intro: verdict_check)

lemma decides_enum [decides_intros]:
  "decides rej (enum_stmt m xs) (\<lambda>d. list_ex (\<lambda>x. d = jstr x) xs)"
  by (rule decidesI) (auto simp: enum_stmt_def intro: verdict_check)

lemma decides_const [decides_intros]: "decides rej (const_stmt m x) (\<lambda>d. d = jstr x)"
  using verdict_check by (auto simp: const_stmt_def eq_commute intro!: decidesI)

lemma decides_range:
  "decides rej (range_stmt m lo hi)
     (\<lambda>d. num_within (\<lambda>q. q \<le> of_int hi) d \<and> num_within (\<lambda>q. of_int lo \<le> q) d)"
proof (rule decidesI)
  fix p d vs
  show "verdict rej (num_within (\<lambda>q. q \<le> of_int hi) d \<and> num_within (\<lambda>q. of_int lo \<le> q) d) vs
      (range_stmt m lo hi p d vs)"
  proof (cases d)
    case (JNum n)
    then show ?thesis
      by (cases n) (auto simp: range_stmt_def verdict_def fails)
  qed (auto simp: range_stmt_def verdict_def)
qed

lemma decides_int [decides_intros]:
  "decides rej (int_stmt m ts lo hi)
     (\<lambda>d. list_ex (\<lambda>t. has_type t d) ts \<and>
        num_within (\<lambda>q. q \<le> of_int hi) d \<and> num_within (\<lambda>q. of_int lo \<le> q) d)"
  unfolding int_stmt_def
  by (intro decidesI verdict_guarded decidesD [OF decides_type] decidesD [OF decides_range])

lemma decides_object [decides_intros]:
  assumes "decides rej c P"
  shows "decides rej (object_stmt m req c)
     (\<lambda>d. has_type TObject d \<and> list_all (\<lambda>r. get d r \<noteq> JUndef) req \<and> P d)"
proof (rule decidesI)
  fix p d vs
  show "verdict rej (has_type TObject d \<and> list_all (\<lambda>r. get d r \<noteq> JUndef) req \<and> P d) vs
      (object_stmt m req c p d vs)"
  proof (cases "List.find (\<lambda>r. get d r = JUndef) req")
    case None
    then have "list_all (\<lambda>r. get d r \<noteq> JUndef) req" by (simp add: find_None_list_all)
    with None decidesD [OF assms, of d vs p] show ?thesis
      by (auto simp: object_stmt_def verdict_def fails js_simps)
  next
    case (Some r)
    then show ?thesis
      by (auto simp: object_stmt_def verdict_def fails js_simps dest: find_Some_not_list_all)
  qed
qed

lemma verdict_extra_keys:
  "verdict rej (list_all (\<lambda>k. k \<in> js ` set names) ks) vs (extra_keys m names p ks vs)"
proof (induction ks)
  case (Cons k ks)
  have "list_ex (\<lambda>n. k = js n) names \<longleftrightarrow> k \<in> js ` set names" by (auto simp: list_ex_iff)
  with Cons show ?case by (simp add: verdict_def fails)
qed (simp add: verdict_def)

lemma decides_closed [decides_intros]:
  assumes "decides rej c P"
  shows "decides rej (closed_stmt m names c)
     (\<lambda>d. list_all (\<lambda>k. k \<in> js ` set names) (js_keys d) \<and> P d)"
  unfolding closed_stmt_def
  by (intro decidesI verdict_guarded verdict_extra_keys decidesD [OF assms])

lemma decides_map [decides_intros]:
  assumes "decides rej c P"
  shows "decides rej (map_stmt m c)
     (\<lambda>d. has_type TObject d \<and> list_all (\<lambda>k. P (js_prop d k)) (js_keys d))"
  using verdict_keys [OF assms] by (auto simp: decides_def map_stmt_def js_simps verdict_def fails)

lemma decides_array [decides_intros]:
  assumes "decides rej c P"
  shows "decides rej (array_stmt m c) (\<lambda>d. is_array d \<and> list_all P (array_items d))"
  using verdict_items [OF assms] by (auto simp: decides_def array_stmt_def verdict_def fails)

lemma decides_opt_array [decides_intros]:
  assumes "decides rej c P"
  shows "decides rej (opt_array_stmt m ts c)
     (\<lambda>d. list_ex (\<lambda>t. has_type t d) ts \<and> list_all P (array_items d))"
proof (rule decidesI)
  fix p d vs
  have "verdict rej (list_all P (array_items d)) vs
      (if is_array d then items_loop c p 0 (array_items d) vs else Cont vs)"
    using verdict_items [OF assms] by (cases d) (auto simp: verdict_def)
  with decidesD [OF decides_type] show
    "verdict rej (list_ex (\<lambda>t. has_type t d) ts \<and> list_all P (array_items d)) vs (opt_array_stmt m ts c p d vs)"
    by (auto simp: opt_array_stmt_def intro!: verdict_guarded)
qed

lemma decides_pair [decides_intros]:
  assumes "decides rej a P" and "decides rej b Q"
  shows "decides rej (pair_stmt m a b)
     (\<lambda>d. is_array d \<and> length (array_items d) = 2 \<and> P (array_items d ! 0) \<and> Q (array_items d ! 1))"
proof (rule decidesI)
  fix p d vs
  show "verdict rej (is_array d \<and> length (array_items d) = 2 \<and> P (array_items d ! 0) \<and> Q (array_items d ! 1))
      vs (pair_stmt m a b p d vs)"
  proof (cases "is_array d \<and> length (array_items d) = 2")
    case True
    then show ?thesis
      by (auto simp: pair_stmt_def intro!: verdict_guarded decidesD [OF assms(1)] decidesD [OF assms(2)])
  next
    case False
    then show ?thesis by (auto simp: pair_stmt_def verdict_def fails)
  qed
qed

end

interpretation hard: fail_mode hard_reject ret
  by unfold_locales (auto simp: hard_reject_def ret_def split: vflow.splits)

interpretation soft: fail_mode soft_reject push
  by unfold_locales (auto simp: soft_reject_def push_def split: vflow.splits)

subsection \<open>Alternatives\<close>

lemma soft_decides_Cont:
  assumes "decides soft_reject c P"
  shows "\<exists>es. c p d vs = Cont (vs @ es) \<and> (es = [] \<longleftrightarrow> P d)"
  using decidesD [OF assms, of d vs p]
  by (auto simp: verdict_def soft_reject_def split: if_splits vflow.splits)

lemma any_scan_verdict:
  assumes "list_all2 (decides soft_reject) cs Ps"
  shows "\<exists>es. any_scan cs p d vs = (Cont (vs @ es), list_ex (\<lambda>P. P d) Ps)"
  using assms
proof (induction cs Ps arbitrary: vs rule: list_all2_induct)
  case (Cons c cs P Ps)
  obtain es where "c p d vs = Cont (vs @ es)" "es = [] \<longleftrightarrow> P d"
    using soft_decides_Cont [OF Cons.hyps(1)] by blast
  with Cons.IH [of "vs @ es"] show ?case by auto
qed simp

lemma decides_any [decides_intros]:
  assumes "list_all2 (decides soft_reject) cs Ps"
  shows "decides hard_reject (any_of cs) (\<lambda>d. list_ex (\<lambda>P. P d) Ps)"
proof (rule decidesI)
  fix p d vs
  obtain es where "any_scan cs p d vs = (Cont (vs @ es), list_ex (\<lambda>P. P d) Ps)"
    using any_scan_verdict [OF assms] by blast
  then show "verdict hard_reject (list_ex (\<lambda>P. P d) Ps) vs (any_of cs p d vs)"
    by (simp add: any_of_def verdict_def hard_reject_def)
qed

lemma one_scan_verdict:
  assumes "list_all2 (decides soft_reject) cs Ps"
  shows "\<exists>es ps. one_scan i val passing cs p d vs =
    (Cont (vs @ es), count_true (val # map (\<lambda>P. P d) Ps) = 1, ps)"
  using assms
proof (induction cs Ps arbitrary: i val passing vs rule: list_all2_induct)
  case Nil
  then show ?case by (simp add: count_true_def)
next
  case (Cons c cs P Ps)
  obtain es where c: "c p d vs = Cont (vs @ es)" "es = [] \<longleftrightarrow> P d"
    using soft_decides_Cont [OF Cons.hyps(1)] by blast
  show ?case
  proof (cases "P d \<and> val")
    case True
    with c show ?thesis by (auto simp: count_true_def Let_def)
  next
    case False
    have "count_true (val # P d # map (\<lambda>P. P d) Ps) = count_true ((val \<or> P d) # map (\<lambda>P. P d) Ps)"
      using False by (auto simp: count_true_def)
    moreover obtain es' ps where "one_scan (Suc i) (val \<or> P d) (if P d then [i] else passing) cs p d (vs @ es)
        = (Cont ((vs @ es) @ es'), count_true ((val \<or> P d) # map (\<lambda>P. P d) Ps) = 1, ps)"
      using Cons.IH by blast
    ultimately show ?thesis using c False by (auto simp: Let_def split: if_splits)
  qed
qed

lemma decides_one [decides_intros]:
  assumes "list_all2 (decides soft_reject) cs Ps"
  shows "decides hard_reject (one_of cs) (\<lambda>d. count_true (map (\<lambda>P. P d) Ps) = 1)"
proof (rule decidesI)
  fix p d vs
  obtain es ps where "one_scan 0 False [] cs p d vs =
      (Cont (vs @ es), count_true (False # map (\<lambda>P. P d) Ps) = 1, ps)"
    using one_scan_verdict [OF assms] by blast
  then show "verdict hard_reject (count_true (map (\<lambda>P. P d) Ps) = 1) vs (one_of cs p d vs)"
    by (simp add: one_of_def verdict_def hard_reject_def count_true_def)
qed

lemma list_all2_ConsI: "R x y \<Longrightarrow> list_all2 R xs ys \<Longrightarrow> list_all2 R (x # xs) (y # ys)"
  by simp

lemmas alternatives_intros = list_all2_ConsI list.rel_intros(1)

text \<open>The whole validator: it returns no errors exactly if its body accepts.\<close>

lemma finish_decides:
  assumes "decides hard_reject c P"
  shows "finish (c p d) = [] \<longleftrightarrow> P d"
  using decidesD [OF assms, of d "[]" p]
  by (auto simp: finish_def verdict_def hard_reject_def split: vflow.splits if_splits)

end
