(* ===== verification/Wire_Validators.thy ===== *)
theory Wire_Validators
  imports Validator
begin

text \<open>
  The twenty-three validators of \<open>compiled-validators.js\<close>, statement by statement, in the order
  of the file. \<open>validateN\<close> is the function of that name; where its body is long, the runs of
  property checks are the constants \<open>validateN_propsK\<close>, the branches of an alternative
  \<open>validateN_\<dots>_altK\<close> and nested objects \<open>validateN_\<dots>\<close>. The bounds are the literals of the
  code; \<open>MAX_SAFE_INTEGER\<close> stands for 9007199254740991.
\<close>

subsection \<open>Requests, responses, errors and contexts\<close>

definition validate11_egress_alt0 :: "vstmt" where
  "validate11_egress_alt0 = object_stmt push [''mode'']
    (closed_stmt push [''mode'']
     (props
      [prop_stmt ''mode'' (both_stmt (type_stmt push [TString]) (const_stmt push ''direct''))]))"

definition validate11_egress_alt1 :: "vstmt" where
  "validate11_egress_alt1 = object_stmt push [''mode'', ''url'']
    (closed_stmt push [''mode'', ''url'']
     (props
      [prop_stmt ''mode'' (both_stmt (type_stmt push [TString]) (const_stmt push ''proxy'')),
       prop_stmt ''url'' (type_stmt push [TString])]))"

definition validate11_egress :: "vstmt" where
  "validate11_egress = one_of
    [validate11_egress_alt0, validate11_egress_alt1]"

definition validate11_props1 :: "vstmt list" where
  "validate11_props1 =
  [prop_stmt ''egress'' validate11_egress]"

definition validate11_props2 :: "vstmt list" where
  "validate11_props2 =
  [prop_stmt ''identity'' (object_stmt ret [''tlsProfile'', ''emulateHeaders'']
       (closed_stmt ret [''emulateHeaders'', ''tlsProfile'', ''userAgent'']
        (props
         [prop_stmt ''emulateHeaders'' (type_stmt ret [TBoolean]),
          prop_stmt ''tlsProfile'' (type_stmt ret [TString]),
          prop_stmt ''userAgent'' (type_stmt ret [TString, TNull])])))]"

definition validate11 :: "validator" where
  "validate11 p d = finish ((object_stmt ret [''egress'', ''identity'']
    (closed_stmt ret [''egress'', ''identity'']
     (props (validate11_props1 @ validate11_props2)))) p d)"

definition validate10_props1 :: "vstmt list" where
  "validate10_props1 =
  [prop_stmt ''attempt'' (int_stmt ret [TInteger] 0 MAX_SAFE_INTEGER),
   prop_stmt ''bodyLength'' (int_stmt ret [TInteger, TNull] 0 MAX_SAFE_INTEGER),
   prop_stmt ''connection'' (any_of
       [call_stmt validate11, type_stmt push [TNull]]),
   prop_stmt ''contextId'' (type_stmt ret [TString, TNull]),
   prop_stmt ''hasBody'' (type_stmt ret [TBoolean])]"

definition validate10_headerOrder :: "vstmt" where
  "validate10_headerOrder = one_of
    [both_stmt (type_stmt push [TString]) (const_stmt push ''caller''),
     both_stmt (type_stmt push [TString]) (const_stmt push ''browser'')]"

definition validate10_props2 :: "vstmt list" where
  "validate10_props2 =
  [prop_stmt ''headerOrder'' validate10_headerOrder,
   prop_stmt ''headers'' (array_stmt ret (pair_stmt ret (type_stmt ret [TString]) (type_stmt ret [TString])))]"

definition validate10_props3 :: "vstmt list" where
  "validate10_props3 =
  [prop_stmt ''maxResponseBytes'' (int_stmt ret [TInteger] 0 MAX_SAFE_INTEGER),
   prop_stmt ''method'' (type_stmt ret [TString]),
   prop_stmt ''partition'' (type_stmt ret [TString]),
   prop_stmt ''requestId'' (type_stmt ret [TString]),
   prop_stmt ''timeoutMs'' (int_stmt ret [TInteger] 0 MAX_SAFE_INTEGER),
   prop_stmt ''url'' (type_stmt ret [TString])]"

definition validate10 :: "validator" where
  "validate10 p d = finish ((object_stmt ret [''requestId'', ''partition'', ''url'', ''method'', ''headers'', ''hasBody'', ''timeoutMs'',
      ''maxResponseBytes'', ''attempt'']
    (closed_stmt ret [''attempt'', ''bodyLength'', ''connection'', ''contextId'', ''hasBody'', ''headerOrder'',
       ''headers'', ''maxResponseBytes'', ''method'', ''partition'', ''requestId'', ''timeoutMs'',
       ''url'']
     (props (validate10_props1 @ validate10_props2 @ validate10_props3)))) p d)"

definition validate14_props1 :: "vstmt list" where
  "validate14_props1 =
  [prop_stmt ''attempt'' (int_stmt ret [TInteger] 0 MAX_SAFE_INTEGER),
   prop_stmt ''bodyMs'' (int_stmt ret [TInteger, TNull] 0 MAX_SAFE_INTEGER),
   prop_stmt ''clientReused'' (type_stmt ret [TBoolean, TNull]),
   prop_stmt ''contextId'' (type_stmt ret [TString, TNull]),
   prop_stmt ''cookieRevision'' (int_stmt ret [TInteger, TNull] 0 MAX_SAFE_INTEGER),
   prop_stmt ''delivery'' (both_stmt (type_stmt ret [TString]) (enum_stmt ret [''not_started'', ''possibly_sent'', ''response_started''])),
   prop_stmt ''headersMs'' (int_stmt ret [TInteger, TNull] 0 MAX_SAFE_INTEGER)]"

definition validate14_props2 :: "vstmt list" where
  "validate14_props2 =
  [prop_stmt ''phase'' (both_stmt (type_stmt ret [TString]) (enum_stmt ret [''queued'', ''preparing'', ''upstream'', ''body'', ''complete''])),
   prop_stmt ''queueMs'' (int_stmt ret [TInteger] 0 MAX_SAFE_INTEGER),
   prop_stmt ''requestBytes'' (int_stmt ret [TInteger] 0 MAX_SAFE_INTEGER),
   prop_stmt ''requestId'' (type_stmt ret [TString]),
   prop_stmt ''responseBytes'' (int_stmt ret [TInteger] 0 MAX_SAFE_INTEGER),
   prop_stmt ''spanId'' (type_stmt ret [TString]),
   prop_stmt ''tlsProfile'' (type_stmt ret [TString]),
   prop_stmt ''totalMs'' (int_stmt ret [TInteger] 0 MAX_SAFE_INTEGER)]"

definition validate14_props3 :: "vstmt list" where
  "validate14_props3 =
  [prop_stmt ''traceId'' (type_stmt ret [TString])]"

definition validate14 :: "validator" where
  "validate14 p d = finish ((object_stmt ret [''requestId'', ''attempt'', ''traceId'', ''spanId'', ''phase'', ''delivery'', ''queueMs'',
      ''headersMs'', ''bodyMs'', ''totalMs'', ''requestBytes'', ''responseBytes'', ''tlsProfile'']
    (props (validate14_props1 @ validate14_props2 @ validate14_props3))) p d)"

definition validate13_props1 :: "vstmt list" where
  "validate13_props1 =
  [prop_stmt ''cookieRevision'' (int_stmt ret [TInteger, TNull] 0 MAX_SAFE_INTEGER),
   prop_stmt ''diagnostics'' (call_stmt validate14),
   prop_stmt ''headers'' (array_stmt ret (pair_stmt ret (type_stmt ret [TString]) (type_stmt ret [TString]))),
   prop_stmt ''requestId'' (type_stmt ret [TString]),
   prop_stmt ''status'' (int_stmt ret [TInteger] 0 65535)]"

definition validate13 :: "validator" where
  "validate13 p d = finish ((object_stmt ret [''requestId'', ''status'', ''headers'', ''diagnostics'']
    (props (validate13_props1))) p d)"

definition validate16_props1 :: "vstmt list" where
  "validate16_props1 =
  [prop_stmt ''attempt'' (int_stmt ret [TInteger] 0 MAX_SAFE_INTEGER),
   prop_stmt ''bodyMs'' (int_stmt ret [TInteger, TNull] 0 MAX_SAFE_INTEGER),
   prop_stmt ''clientReused'' (type_stmt ret [TBoolean, TNull]),
   prop_stmt ''contextId'' (type_stmt ret [TString, TNull]),
   prop_stmt ''cookieRevision'' (int_stmt ret [TInteger, TNull] 0 MAX_SAFE_INTEGER),
   prop_stmt ''delivery'' (both_stmt (type_stmt ret [TString]) (enum_stmt ret [''not_started'', ''possibly_sent'', ''response_started''])),
   prop_stmt ''headersMs'' (int_stmt ret [TInteger, TNull] 0 MAX_SAFE_INTEGER)]"

definition validate16_props2 :: "vstmt list" where
  "validate16_props2 =
  [prop_stmt ''phase'' (both_stmt (type_stmt ret [TString]) (enum_stmt ret [''queued'', ''preparing'', ''upstream'', ''body'', ''complete''])),
   prop_stmt ''queueMs'' (int_stmt ret [TInteger] 0 MAX_SAFE_INTEGER),
   prop_stmt ''requestBytes'' (int_stmt ret [TInteger] 0 MAX_SAFE_INTEGER),
   prop_stmt ''requestId'' (type_stmt ret [TString]),
   prop_stmt ''responseBytes'' (int_stmt ret [TInteger] 0 MAX_SAFE_INTEGER),
   prop_stmt ''spanId'' (type_stmt ret [TString]),
   prop_stmt ''tlsProfile'' (type_stmt ret [TString]),
   prop_stmt ''totalMs'' (int_stmt ret [TInteger] 0 MAX_SAFE_INTEGER)]"

definition validate16_props3 :: "vstmt list" where
  "validate16_props3 =
  [prop_stmt ''traceId'' (type_stmt ret [TString])]"

definition validate16 :: "validator" where
  "validate16 p d = finish ((object_stmt ret [''requestId'', ''attempt'', ''traceId'', ''spanId'', ''phase'', ''delivery'', ''queueMs'',
      ''headersMs'', ''bodyMs'', ''totalMs'', ''requestBytes'', ''responseBytes'', ''tlsProfile'']
    (props (validate16_props1 @ validate16_props2 @ validate16_props3))) p d)"

definition validate18_props1 :: "vstmt list" where
  "validate18_props1 =
  [prop_stmt ''attempt'' (int_stmt ret [TInteger] 0 MAX_SAFE_INTEGER),
   prop_stmt ''bodyMs'' (int_stmt ret [TInteger, TNull] 0 MAX_SAFE_INTEGER),
   prop_stmt ''clientReused'' (type_stmt ret [TBoolean, TNull]),
   prop_stmt ''contextId'' (type_stmt ret [TString, TNull]),
   prop_stmt ''cookieRevision'' (int_stmt ret [TInteger, TNull] 0 MAX_SAFE_INTEGER),
   prop_stmt ''delivery'' (both_stmt (type_stmt ret [TString]) (enum_stmt ret [''not_started'', ''possibly_sent'', ''response_started''])),
   prop_stmt ''headersMs'' (int_stmt ret [TInteger, TNull] 0 MAX_SAFE_INTEGER)]"

definition validate18_props2 :: "vstmt list" where
  "validate18_props2 =
  [prop_stmt ''phase'' (both_stmt (type_stmt ret [TString]) (enum_stmt ret [''queued'', ''preparing'', ''upstream'', ''body'', ''complete''])),
   prop_stmt ''queueMs'' (int_stmt ret [TInteger] 0 MAX_SAFE_INTEGER),
   prop_stmt ''requestBytes'' (int_stmt ret [TInteger] 0 MAX_SAFE_INTEGER),
   prop_stmt ''requestId'' (type_stmt ret [TString]),
   prop_stmt ''responseBytes'' (int_stmt ret [TInteger] 0 MAX_SAFE_INTEGER),
   prop_stmt ''spanId'' (type_stmt ret [TString]),
   prop_stmt ''tlsProfile'' (type_stmt ret [TString]),
   prop_stmt ''totalMs'' (int_stmt ret [TInteger] 0 MAX_SAFE_INTEGER)]"

definition validate18_props3 :: "vstmt list" where
  "validate18_props3 =
  [prop_stmt ''traceId'' (type_stmt ret [TString])]"

definition validate18 :: "validator" where
  "validate18 p d = finish ((object_stmt ret [''requestId'', ''attempt'', ''traceId'', ''spanId'', ''phase'', ''delivery'', ''queueMs'',
      ''headersMs'', ''bodyMs'', ''totalMs'', ''requestBytes'', ''responseBytes'', ''tlsProfile'']
    (props (validate18_props1 @ validate18_props2 @ validate18_props3))) p d)"

definition validate17 :: "validator" where
  "validate17 p d = finish ((object_stmt ret [''code'', ''message'']
    (props
      [prop_stmt ''code'' (both_stmt (type_stmt ret [TString]) (enum_stmt ret [''UNAUTHORIZED'', ''INVALID_REQUEST'', ''UNSUPPORTED_CAPABILITY'',
             ''INVALID_PROFILE'', ''EGRESS_REQUIRED'', ''SSRF_BLOCKED'', ''BODY_TOO_LARGE'',
             ''BUSY'', ''TIMEOUT'', ''CANCELLED'', ''DNS_ERROR'', ''PROXY_ERROR'', ''TLS_ERROR'',
             ''CONNECT_ERROR'', ''PROTOCOL_ERROR'', ''CONTEXT_NOT_FOUND'', ''CONTEXT_CONFLICT'',
             ''CONTEXT_LIMIT'', ''COOKIE_LIMIT'', ''DUPLICATE_REQUEST'', ''UNKNOWN''])),
       prop_stmt ''diagnostics'' (any_of
           [call_stmt validate18, type_stmt push [TNull]]),
       prop_stmt ''message'' (type_stmt ret [TString])])) p d)"

definition validate20_props1 :: "vstmt list" where
  "validate20_props1 =
  [prop_stmt ''contextId'' (type_stmt ret [TString]),
   prop_stmt ''cookieMode'' (both_stmt (type_stmt ret [TString]) (enum_stmt ret [''external'', ''managed''])),
   prop_stmt ''expiresAtMs'' (int_stmt ret [TInteger] 0 MAX_SAFE_INTEGER),
   prop_stmt ''identity'' (object_stmt ret [''tlsProfile'', ''emulateHeaders'']
       (closed_stmt ret [''emulateHeaders'', ''tlsProfile'', ''userAgent'']
        (props
         [prop_stmt ''emulateHeaders'' (type_stmt ret [TBoolean]),
          prop_stmt ''tlsProfile'' (type_stmt ret [TString]),
          prop_stmt ''userAgent'' (type_stmt ret [TString, TNull])]))),
   prop_stmt ''partition'' (type_stmt ret [TString])]"

definition validate20_props2 :: "vstmt list" where
  "validate20_props2 =
  [prop_stmt ''revision'' (int_stmt ret [TInteger] 0 MAX_SAFE_INTEGER)]"

definition validate20 :: "validator" where
  "validate20 p d = finish ((object_stmt ret [''contextId'', ''partition'', ''expiresAtMs'', ''revision'', ''cookieMode'', ''identity'']
    (props (validate20_props1 @ validate20_props2))) p d)"

subsection \<open>Cookies, capabilities, sessions and request status\<close>

definition validate21_props1 :: "vstmt list" where
  "validate21_props1 =
  [prop_stmt ''domain'' (type_stmt ret [TString]),
   prop_stmt ''expiresAtMs'' (int_stmt ret [TInteger, TNull] 0 MAX_SAFE_INTEGER),
   prop_stmt ''hostOnly'' (type_stmt ret [TBoolean]),
   prop_stmt ''httpOnly'' (type_stmt ret [TBoolean]),
   prop_stmt ''name'' (type_stmt ret [TString]),
   prop_stmt ''partitioned'' (type_stmt ret [TBoolean]),
   prop_stmt ''path'' (type_stmt ret [TString])]"

definition validate21_props2 :: "vstmt list" where
  "validate21_props2 =
  [prop_stmt ''sameSite'' (any_of
       [both_stmt (type_stmt push [TString]) (enum_stmt push [''Strict'', ''Lax'', ''None'']),
        type_stmt push [TNull]]),
   prop_stmt ''secure'' (type_stmt ret [TBoolean]), prop_stmt ''value'' (type_stmt ret [TString])]"

definition validate21 :: "validator" where
  "validate21 p d = finish ((object_stmt ret [''name'', ''value'', ''domain'', ''path'', ''secure'', ''httpOnly'', ''hostOnly'',
      ''partitioned'']
    (closed_stmt ret [''domain'', ''expiresAtMs'', ''hostOnly'', ''httpOnly'', ''name'', ''partitioned'',
       ''path'', ''sameSite'', ''secure'', ''value'']
     (props (validate21_props1 @ validate21_props2)))) p d)"

definition validate23_props1 :: "vstmt list" where
  "validate23_props1 =
  [prop_stmt ''domain'' (type_stmt ret [TString]),
   prop_stmt ''expiresAtMs'' (int_stmt ret [TInteger, TNull] 0 MAX_SAFE_INTEGER),
   prop_stmt ''hostOnly'' (type_stmt ret [TBoolean]),
   prop_stmt ''httpOnly'' (type_stmt ret [TBoolean]),
   prop_stmt ''name'' (type_stmt ret [TString]),
   prop_stmt ''partitioned'' (type_stmt ret [TBoolean]),
   prop_stmt ''path'' (type_stmt ret [TString])]"

definition validate23_props2 :: "vstmt list" where
  "validate23_props2 =
  [prop_stmt ''sameSite'' (any_of
       [both_stmt (type_stmt push [TString]) (enum_stmt push [''Strict'', ''Lax'', ''None'']),
        type_stmt push [TNull]]),
   prop_stmt ''secure'' (type_stmt ret [TBoolean]), prop_stmt ''value'' (type_stmt ret [TString])]"

definition validate23 :: "validator" where
  "validate23 p d = finish ((object_stmt ret [''name'', ''value'', ''domain'', ''path'', ''secure'', ''httpOnly'', ''hostOnly'',
      ''partitioned'']
    (closed_stmt ret [''domain'', ''expiresAtMs'', ''hostOnly'', ''httpOnly'', ''name'', ''partitioned'',
       ''path'', ''sameSite'', ''secure'', ''value'']
     (props (validate23_props1 @ validate23_props2)))) p d)"

definition validate22 :: "validator" where
  "validate22 p d = finish ((object_stmt ret [''partitionKey'', ''cookies'']
    (closed_stmt ret [''cookies'', ''partitionKey'']
     (props
      [prop_stmt ''cookies'' (array_stmt ret (call_stmt validate23)),
       prop_stmt ''partitionKey'' (type_stmt ret [TString])]))) p d)"

definition validate25_framing :: "vstmt" where
  "validate25_framing = object_stmt ret [''contentType'', ''maxMetadataBytes'', ''maxDataBytes'', ''maxUploadFrames'']
    (props
      [prop_stmt ''contentType'' (type_stmt ret [TString]),
       prop_stmt ''maxDataBytes'' (int_stmt ret [TInteger] 0 MAX_SAFE_INTEGER),
       prop_stmt ''maxMetadataBytes'' (int_stmt ret [TInteger] 0 MAX_SAFE_INTEGER),
       prop_stmt ''maxUploadFrames'' (int_stmt ret [TInteger] 0 MAX_SAFE_INTEGER)])"

definition validate25_props1 :: "vstmt list" where
  "validate25_props1 =
  [prop_stmt ''build'' (type_stmt ret [TString]), prop_stmt ''framing'' validate25_framing]"

definition validate25_headerDescriptors :: "vstmt" where
  "validate25_headerDescriptors = array_stmt ret (object_stmt ret [''tlsProfile'', ''headers'']
      (props
        [prop_stmt ''headers'' (array_stmt ret (pair_stmt ret (type_stmt ret [TString]) (type_stmt ret [TString]))),
         prop_stmt ''tlsProfile'' (type_stmt ret [TString])]))"

definition validate25_props2 :: "vstmt list" where
  "validate25_props2 =
  [prop_stmt ''headerDescriptors'' validate25_headerDescriptors]"

definition validate25_limits_props1 :: "vstmt list" where
  "validate25_limits_props1 =
  [prop_stmt ''contextIdleTtlMs'' (int_stmt ret [TInteger] 0 MAX_SAFE_INTEGER),
   prop_stmt ''contextMaxAgeMs'' (int_stmt ret [TInteger] 0 MAX_SAFE_INTEGER),
   prop_stmt ''contextMaxIdleTtlMs'' (int_stmt ret [TInteger] 0 MAX_SAFE_INTEGER),
   prop_stmt ''envelopeTimeoutMs'' (int_stmt ret [TInteger] 0 MAX_SAFE_INTEGER),
   prop_stmt ''maxAllowedOrigins'' (int_stmt ret [TInteger] 0 MAX_SAFE_INTEGER),
   prop_stmt ''maxConcurrent'' (int_stmt ret [TInteger] 0 MAX_SAFE_INTEGER)]"

definition validate25_limits_props2 :: "vstmt list" where
  "validate25_limits_props2 =
  [prop_stmt ''maxConcurrentPerPartition'' (int_stmt ret [TInteger] 0 MAX_SAFE_INTEGER),
   prop_stmt ''maxContexts'' (int_stmt ret [TInteger] 0 MAX_SAFE_INTEGER),
   prop_stmt ''maxContextsPerPartition'' (int_stmt ret [TInteger] 0 MAX_SAFE_INTEGER),
   prop_stmt ''maxControlBytes'' (int_stmt ret [TInteger] 0 MAX_SAFE_INTEGER),
   prop_stmt ''maxCookieBytes'' (int_stmt ret [TInteger] 0 MAX_SAFE_INTEGER),
   prop_stmt ''maxCookieSize'' (int_stmt ret [TInteger] 0 MAX_SAFE_INTEGER)]"

definition validate25_limits_props3 :: "vstmt list" where
  "validate25_limits_props3 =
  [prop_stmt ''maxCookies'' (int_stmt ret [TInteger] 0 MAX_SAFE_INTEGER),
   prop_stmt ''maxEnvelopes'' (int_stmt ret [TInteger] 0 MAX_SAFE_INTEGER),
   prop_stmt ''maxHeaderBytes'' (int_stmt ret [TInteger] 0 MAX_SAFE_INTEGER),
   prop_stmt ''maxHeaders'' (int_stmt ret [TInteger] 0 MAX_SAFE_INTEGER),
   prop_stmt ''maxQueued'' (int_stmt ret [TInteger] 0 MAX_SAFE_INTEGER),
   prop_stmt ''maxQueuedPerPartition'' (int_stmt ret [TInteger] 0 MAX_SAFE_INTEGER)]"

definition validate25_limits_props4 :: "vstmt list" where
  "validate25_limits_props4 =
  [prop_stmt ''maxRequestBytes'' (int_stmt ret [TInteger] 0 MAX_SAFE_INTEGER),
   prop_stmt ''maxResponseBytes'' (int_stmt ret [TInteger] 0 MAX_SAFE_INTEGER),
   prop_stmt ''maxTimeoutMs'' (int_stmt ret [TInteger] 0 MAX_SAFE_INTEGER),
   prop_stmt ''registryCapacity'' (int_stmt ret [TInteger] 0 MAX_SAFE_INTEGER),
   prop_stmt ''registryTtlMs'' (int_stmt ret [TInteger] 0 MAX_SAFE_INTEGER)]"

definition validate25_limits :: "vstmt" where
  "validate25_limits = object_stmt ret [''maxRequestBytes'', ''maxResponseBytes'', ''maxTimeoutMs'', ''maxConcurrent'',
      ''maxConcurrentPerPartition'', ''maxQueued'', ''maxQueuedPerPartition'', ''maxEnvelopes'',
      ''envelopeTimeoutMs'', ''maxControlBytes'', ''maxHeaderBytes'', ''maxHeaders'',
      ''maxContexts'', ''maxContextsPerPartition'', ''contextIdleTtlMs'', ''contextMaxIdleTtlMs'',
      ''contextMaxAgeMs'', ''maxCookies'', ''maxCookieBytes'', ''maxCookieSize'',
      ''maxAllowedOrigins'', ''registryCapacity'', ''registryTtlMs'']
    (props (validate25_limits_props1 @ validate25_limits_props2 @ validate25_limits_props3 @ validate25_limits_props4))"

definition validate25_props3 :: "vstmt list" where
  "validate25_props3 =
  [prop_stmt ''limits'' validate25_limits]"

definition validate25_modes :: "vstmt" where
  "validate25_modes = object_stmt ret [''egress'', ''cookies'', ''stream'', ''cancel'']
    (props
      [prop_stmt ''cancel'' (array_stmt ret (type_stmt ret [TString])),
       prop_stmt ''cookies'' (array_stmt ret (type_stmt ret [TString])),
       prop_stmt ''egress'' (array_stmt ret (type_stmt ret [TString])),
       prop_stmt ''stream'' (array_stmt ret (type_stmt ret [TString]))])"

definition validate25_props4 :: "vstmt list" where
  "validate25_props4 =
  [prop_stmt ''modes'' validate25_modes]"

definition validate25_props5 :: "vstmt list" where
  "validate25_props5 =
  [prop_stmt ''profileAliases'' (map_stmt ret (type_stmt ret [TString])),
   prop_stmt ''profiles'' (array_stmt ret (type_stmt ret [TString])),
   prop_stmt ''service'' (both_stmt (type_stmt ret [TString]) (enum_stmt ret [''ja3proxy'']))]"

definition validate25 :: "validator" where
  "validate25 p d = finish ((object_stmt ret [''service'', ''build'', ''profiles'', ''headerDescriptors'', ''profileAliases'',
      ''framing'', ''limits'', ''modes'']
    (props (validate25_props1 @ validate25_props2 @ validate25_props3 @ validate25_props4 @ validate25_props5))) p d)"

definition validate27_egress_alt0 :: "vstmt" where
  "validate27_egress_alt0 = object_stmt push [''mode'']
    (closed_stmt push [''mode'']
     (props
      [prop_stmt ''mode'' (both_stmt (type_stmt push [TString]) (const_stmt push ''direct''))]))"

definition validate27_egress_alt1 :: "vstmt" where
  "validate27_egress_alt1 = object_stmt push [''mode'', ''url'']
    (closed_stmt push [''mode'', ''url'']
     (props
      [prop_stmt ''mode'' (both_stmt (type_stmt push [TString]) (const_stmt push ''proxy'')),
       prop_stmt ''url'' (type_stmt push [TString])]))"

definition validate27_egress :: "vstmt" where
  "validate27_egress = one_of
    [validate27_egress_alt0, validate27_egress_alt1]"

definition validate27_props1 :: "vstmt list" where
  "validate27_props1 =
  [prop_stmt ''egress'' validate27_egress]"

definition validate27_props2 :: "vstmt list" where
  "validate27_props2 =
  [prop_stmt ''identity'' (object_stmt ret [''tlsProfile'', ''emulateHeaders'']
       (closed_stmt ret [''emulateHeaders'', ''tlsProfile'', ''userAgent'']
        (props
         [prop_stmt ''emulateHeaders'' (type_stmt ret [TBoolean]),
          prop_stmt ''tlsProfile'' (type_stmt ret [TString]),
          prop_stmt ''userAgent'' (type_stmt ret [TString, TNull])])))]"

definition validate27 :: "validator" where
  "validate27 p d = finish ((object_stmt ret [''egress'', ''identity'']
    (closed_stmt ret [''egress'', ''identity'']
     (props (validate27_props1 @ validate27_props2)))) p d)"

definition validate26 :: "validator" where
  "validate26 p d = finish ((object_stmt ret [''partition'', ''connection'', ''cookieMode'', ''allowedOrigins'']
    (closed_stmt ret [''allowedOrigins'', ''connection'', ''cookieMode'', ''partition'', ''ttlMs'']
     (props
      [prop_stmt ''allowedOrigins'' (array_stmt ret (type_stmt ret [TString])),
       prop_stmt ''connection'' (call_stmt validate27),
       prop_stmt ''cookieMode'' (both_stmt (type_stmt ret [TString]) (enum_stmt ret [''external'', ''managed''])),
       prop_stmt ''partition'' (type_stmt ret [TString]),
       prop_stmt ''ttlMs'' (int_stmt ret [TInteger, TNull] 0 MAX_SAFE_INTEGER)]))) p d)"

definition validate31_props1 :: "vstmt list" where
  "validate31_props1 =
  [prop_stmt ''domain'' (type_stmt ret [TString]),
   prop_stmt ''expiresAtMs'' (int_stmt ret [TInteger, TNull] 0 MAX_SAFE_INTEGER),
   prop_stmt ''hostOnly'' (type_stmt ret [TBoolean]),
   prop_stmt ''httpOnly'' (type_stmt ret [TBoolean]),
   prop_stmt ''name'' (type_stmt ret [TString]),
   prop_stmt ''partitioned'' (type_stmt ret [TBoolean]),
   prop_stmt ''path'' (type_stmt ret [TString])]"

definition validate31_props2 :: "vstmt list" where
  "validate31_props2 =
  [prop_stmt ''sameSite'' (any_of
       [both_stmt (type_stmt push [TString]) (enum_stmt push [''Strict'', ''Lax'', ''None'']),
        type_stmt push [TNull]]),
   prop_stmt ''secure'' (type_stmt ret [TBoolean]), prop_stmt ''value'' (type_stmt ret [TString])]"

definition validate31 :: "validator" where
  "validate31 p d = finish ((object_stmt ret [''name'', ''value'', ''domain'', ''path'', ''secure'', ''httpOnly'', ''hostOnly'',
      ''partitioned'']
    (closed_stmt ret [''domain'', ''expiresAtMs'', ''hostOnly'', ''httpOnly'', ''name'', ''partitioned'',
       ''path'', ''sameSite'', ''secure'', ''value'']
     (props (validate31_props1 @ validate31_props2)))) p d)"

definition validate30 :: "validator" where
  "validate30 p d = finish ((object_stmt ret [''partitionKey'', ''cookies'']
    (closed_stmt ret [''cookies'', ''partitionKey'']
     (props
      [prop_stmt ''cookies'' (array_stmt ret (call_stmt validate31)),
       prop_stmt ''partitionKey'' (type_stmt ret [TString])]))) p d)"

definition validate29_alt0 :: "vstmt" where
  "validate29_alt0 = object_stmt push [''operation'', ''partition'', ''url'']
    (closed_stmt push [''operation'', ''partition'', ''url'']
     (props
      [prop_stmt ''operation'' (both_stmt (type_stmt push [TString]) (const_stmt push ''select'')),
       prop_stmt ''partition'' (type_stmt push [TString]),
       prop_stmt ''url'' (type_stmt push [TString])]))"

definition validate29_alt1_props1 :: "vstmt list" where
  "validate29_alt1_props1 =
  [prop_stmt ''cookies'' (array_stmt push (type_stmt push [TString])),
   prop_stmt ''expectedRevision'' (int_stmt push [TInteger] 0 MAX_SAFE_INTEGER),
   prop_stmt ''operation'' (both_stmt (type_stmt push [TString]) (const_stmt push ''set'')),
   prop_stmt ''partition'' (type_stmt push [TString]),
   prop_stmt ''url'' (type_stmt push [TString])]"

definition validate29_alt1 :: "vstmt" where
  "validate29_alt1 = object_stmt push [''operation'', ''partition'', ''url'', ''cookies'', ''expectedRevision'']
    (closed_stmt push [''cookies'', ''expectedRevision'', ''operation'', ''partition'', ''url'']
     (props (validate29_alt1_props1)))"

definition validate29_alt2 :: "vstmt" where
  "validate29_alt2 = object_stmt push [''operation'', ''partition'']
    (closed_stmt push [''operation'', ''partition'']
     (props
      [prop_stmt ''operation'' (both_stmt (type_stmt push [TString]) (const_stmt push ''export'')),
       prop_stmt ''partition'' (type_stmt push [TString])]))"

definition validate29_alt3 :: "vstmt" where
  "validate29_alt3 = object_stmt push [''operation'', ''partition'', ''snapshot'', ''expectedRevision'']
    (closed_stmt push [''expectedRevision'', ''operation'', ''partition'', ''snapshot'']
     (props
      [prop_stmt ''expectedRevision'' (int_stmt push [TInteger] 0 MAX_SAFE_INTEGER),
       prop_stmt ''operation'' (both_stmt (type_stmt push [TString]) (const_stmt push ''import'')),
       prop_stmt ''partition'' (type_stmt push [TString]),
       prop_stmt ''snapshot'' (call_stmt validate30)]))"

definition validate29 :: "validator" where
  "validate29 p d = finish ((one_of
    [validate29_alt0, validate29_alt1, validate29_alt2, validate29_alt3]) p d)"

definition validate35_props1 :: "vstmt list" where
  "validate35_props1 =
  [prop_stmt ''domain'' (type_stmt ret [TString]),
   prop_stmt ''expiresAtMs'' (int_stmt ret [TInteger, TNull] 0 MAX_SAFE_INTEGER),
   prop_stmt ''hostOnly'' (type_stmt ret [TBoolean]),
   prop_stmt ''httpOnly'' (type_stmt ret [TBoolean]),
   prop_stmt ''name'' (type_stmt ret [TString]),
   prop_stmt ''partitioned'' (type_stmt ret [TBoolean]),
   prop_stmt ''path'' (type_stmt ret [TString])]"

definition validate35_props2 :: "vstmt list" where
  "validate35_props2 =
  [prop_stmt ''sameSite'' (any_of
       [both_stmt (type_stmt push [TString]) (enum_stmt push [''Strict'', ''Lax'', ''None'']),
        type_stmt push [TNull]]),
   prop_stmt ''secure'' (type_stmt ret [TBoolean]), prop_stmt ''value'' (type_stmt ret [TString])]"

definition validate35 :: "validator" where
  "validate35 p d = finish ((object_stmt ret [''name'', ''value'', ''domain'', ''path'', ''secure'', ''httpOnly'', ''hostOnly'',
      ''partitioned'']
    (closed_stmt ret [''domain'', ''expiresAtMs'', ''hostOnly'', ''httpOnly'', ''name'', ''partitioned'',
       ''path'', ''sameSite'', ''secure'', ''value'']
     (props (validate35_props1 @ validate35_props2)))) p d)"

definition validate37 :: "validator" where
  "validate37 p d = finish ((object_stmt ret [''partitionKey'', ''cookies'']
    (closed_stmt ret [''cookies'', ''partitionKey'']
     (props
      [prop_stmt ''cookies'' (array_stmt ret (call_stmt validate35)),
       prop_stmt ''partitionKey'' (type_stmt ret [TString])]))) p d)"

definition validate34 :: "validator" where
  "validate34 p d = finish ((object_stmt ret [''revision'']
    (props
      [prop_stmt ''cookies'' (opt_array_stmt ret [TArray, TNull] (call_stmt validate35)),
       prop_stmt ''revision'' (int_stmt ret [TInteger] 0 MAX_SAFE_INTEGER),
       prop_stmt ''snapshot'' (any_of
           [call_stmt validate37, type_stmt push [TNull]])])) p d)"

definition validate41_props1 :: "vstmt list" where
  "validate41_props1 =
  [prop_stmt ''attempt'' (int_stmt ret [TInteger] 0 MAX_SAFE_INTEGER),
   prop_stmt ''bodyMs'' (int_stmt ret [TInteger, TNull] 0 MAX_SAFE_INTEGER),
   prop_stmt ''clientReused'' (type_stmt ret [TBoolean, TNull]),
   prop_stmt ''contextId'' (type_stmt ret [TString, TNull]),
   prop_stmt ''cookieRevision'' (int_stmt ret [TInteger, TNull] 0 MAX_SAFE_INTEGER),
   prop_stmt ''delivery'' (both_stmt (type_stmt ret [TString]) (enum_stmt ret [''not_started'', ''possibly_sent'', ''response_started''])),
   prop_stmt ''headersMs'' (int_stmt ret [TInteger, TNull] 0 MAX_SAFE_INTEGER)]"

definition validate41_props2 :: "vstmt list" where
  "validate41_props2 =
  [prop_stmt ''phase'' (both_stmt (type_stmt ret [TString]) (enum_stmt ret [''queued'', ''preparing'', ''upstream'', ''body'', ''complete''])),
   prop_stmt ''queueMs'' (int_stmt ret [TInteger] 0 MAX_SAFE_INTEGER),
   prop_stmt ''requestBytes'' (int_stmt ret [TInteger] 0 MAX_SAFE_INTEGER),
   prop_stmt ''requestId'' (type_stmt ret [TString]),
   prop_stmt ''responseBytes'' (int_stmt ret [TInteger] 0 MAX_SAFE_INTEGER),
   prop_stmt ''spanId'' (type_stmt ret [TString]),
   prop_stmt ''tlsProfile'' (type_stmt ret [TString]),
   prop_stmt ''totalMs'' (int_stmt ret [TInteger] 0 MAX_SAFE_INTEGER)]"

definition validate41_props3 :: "vstmt list" where
  "validate41_props3 =
  [prop_stmt ''traceId'' (type_stmt ret [TString])]"

definition validate41 :: "validator" where
  "validate41 p d = finish ((object_stmt ret [''requestId'', ''attempt'', ''traceId'', ''spanId'', ''phase'', ''delivery'', ''queueMs'',
      ''headersMs'', ''bodyMs'', ''totalMs'', ''requestBytes'', ''responseBytes'', ''tlsProfile'']
    (props (validate41_props1 @ validate41_props2 @ validate41_props3))) p d)"

definition validate43 :: "validator" where
  "validate43 p d = finish ((object_stmt ret [''code'', ''message'']
    (props
      [prop_stmt ''code'' (both_stmt (type_stmt ret [TString]) (enum_stmt ret [''UNAUTHORIZED'', ''INVALID_REQUEST'', ''UNSUPPORTED_CAPABILITY'',
             ''INVALID_PROFILE'', ''EGRESS_REQUIRED'', ''SSRF_BLOCKED'', ''BODY_TOO_LARGE'',
             ''BUSY'', ''TIMEOUT'', ''CANCELLED'', ''DNS_ERROR'', ''PROXY_ERROR'', ''TLS_ERROR'',
             ''CONNECT_ERROR'', ''PROTOCOL_ERROR'', ''CONTEXT_NOT_FOUND'', ''CONTEXT_CONFLICT'',
             ''CONTEXT_LIMIT'', ''COOKIE_LIMIT'', ''DUPLICATE_REQUEST'', ''UNKNOWN''])),
       prop_stmt ''diagnostics'' (any_of
           [call_stmt validate41, type_stmt push [TNull]]),
       prop_stmt ''message'' (type_stmt ret [TString])])) p d)"

definition validate40 :: "validator" where
  "validate40 p d = finish ((object_stmt ret [''state'', ''diagnostics'']
    (props
      [prop_stmt ''diagnostics'' (call_stmt validate41),
       prop_stmt ''error'' (any_of
           [call_stmt validate43, type_stmt push [TNull]]),
       prop_stmt ''state'' (both_stmt (type_stmt ret [TString]) (enum_stmt ret [''queued'', ''active'', ''complete'', ''failed'']))])) p d)"

lemmas compiled_defs =
  validate11_egress_alt0_def
  validate11_egress_alt1_def
  validate11_egress_def
  validate11_props1_def
  validate11_props2_def
  validate10_props1_def
  validate10_headerOrder_def
  validate10_props2_def
  validate10_props3_def
  validate14_props1_def
  validate14_props2_def
  validate14_props3_def
  validate13_props1_def
  validate16_props1_def
  validate16_props2_def
  validate16_props3_def
  validate18_props1_def
  validate18_props2_def
  validate18_props3_def
  validate20_props1_def
  validate20_props2_def
  validate21_props1_def
  validate21_props2_def
  validate23_props1_def
  validate23_props2_def
  validate25_framing_def
  validate25_props1_def
  validate25_headerDescriptors_def
  validate25_props2_def
  validate25_limits_props1_def
  validate25_limits_props2_def
  validate25_limits_props3_def
  validate25_limits_props4_def
  validate25_limits_def
  validate25_props3_def
  validate25_modes_def
  validate25_props4_def
  validate25_props5_def
  validate27_egress_alt0_def
  validate27_egress_alt1_def
  validate27_egress_def
  validate27_props1_def
  validate27_props2_def
  validate31_props1_def
  validate31_props2_def
  validate29_alt0_def
  validate29_alt1_props1_def
  validate29_alt1_def
  validate29_alt2_def
  validate29_alt3_def
  validate35_props1_def
  validate35_props2_def
  validate41_props1_def
  validate41_props2_def
  validate41_props3_def

end
