(* ===== verification/Wire_Contract.thy ===== *)
theory Wire_Contract
  imports Wire_Schemas Wire_Validators
begin

text \<open>
  \<open>validateWire\<close> and its correctness: the compiled validator of each contract accepts exactly
  the values that the contract's schema, narrowed to safe integers, admits. The lemmas first
  bring the schemas and the predicates decided by the compiled statements to one normal form.
\<close>

subsection \<open>Dispatch by contract name\<close>

datatype wire_contract =
    RequestMetadata | ResponseMetadata | Diagnostics | TransportError | ContextInfo | CookieRecord
  | CookieSnapshot | Capabilities | CreateContext | CookieOperation | CookieReply | RequestStatus

fun compiled_validator :: "wire_contract \<Rightarrow> validator" where
  "compiled_validator RequestMetadata = validate10"
| "compiled_validator ResponseMetadata = validate13"
| "compiled_validator Diagnostics = validate16"
| "compiled_validator TransportError = validate17"
| "compiled_validator ContextInfo = validate20"
| "compiled_validator CookieRecord = validate21"
| "compiled_validator CookieSnapshot = validate22"
| "compiled_validator Capabilities = validate25"
| "compiled_validator CreateContext = validate26"
| "compiled_validator CookieOperation = validate29"
| "compiled_validator CookieReply = validate34"
| "compiled_validator RequestStatus = validate40"

definition validateWire :: "wire_contract \<Rightarrow> jsval \<Rightarrow> bool" where
  "validateWire name value = (compiled_validator name [] value = [])"

text \<open>The contract file each name stands for, in the order of \<open>contracts/manifest.json\<close>.\<close>

fun wire_schema :: "wire_contract \<Rightarrow> schema" where
  "wire_schema RequestMetadata = sch_requestMetadata"
| "wire_schema ResponseMetadata = sch_responseMetadata"
| "wire_schema Diagnostics = sch_diagnostics"
| "wire_schema TransportError = sch_transportError"
| "wire_schema ContextInfo = sch_contextInfo"
| "wire_schema CookieRecord = sch_cookieRecord"
| "wire_schema CookieSnapshot = sch_cookieSnapshot"
| "wire_schema Capabilities = sch_capabilities"
| "wire_schema CreateContext = sch_createContext"
| "wire_schema CookieOperation = sch_cookieOperation"
| "wire_schema CookieReply = sch_cookieReply"
| "wire_schema RequestStatus = sch_requestStatus"

subsection \<open>Normal forms of the schemas\<close>

declare valid.simps(1) [simp del]

lemma valid_Type [valid_simps]: "valid (Schema [Type ts]) d \<longleftrightarrow> list_ex (\<lambda>t. has_type t d) ts"
  by (simp add: valid.simps(1))

lemma valid_Enum [valid_simps]:
  "valid (Schema [Enum xs, Type ts]) d \<longleftrightarrow> list_ex (\<lambda>t. has_type t d) ts \<and> list_ex (\<lambda>x. d = jstr x) xs"
  by (auto simp: valid.simps(1))

lemma valid_Const [valid_simps]:
  "valid (Schema [Const x, Type ts]) d \<longleftrightarrow> list_ex (\<lambda>t. has_type t d) ts \<and> d = jstr x"
  by (auto simp: valid.simps(1))

lemma valid_Int [valid_simps]:
  "valid (Schema [Type ts, Maximum hi, Minimum lo]) d \<longleftrightarrow> list_ex (\<lambda>t. has_type t d) ts \<and>
     num_within (\<lambda>q. q \<le> of_int hi) d \<and> num_within (\<lambda>q. of_int lo \<le> q) d"
  by (simp add: valid.simps(1))

lemma valid_Array [valid_simps]:
  "valid (Schema [Items s, Type [TArray]]) d \<longleftrightarrow> is_array d \<and> list_all (\<lambda>x. valid s x) (array_items d)"
  by (cases d) (auto simp: valid.simps(1))

lemma valid_opt_Array [valid_simps]:
  "valid (Schema [Items s, Type [TArray, TNull]]) d \<longleftrightarrow>
     list_ex (\<lambda>t. has_type t d) [TArray, TNull] \<and> list_all (\<lambda>x. valid s x) (array_items d)"
  by (auto simp: valid.simps(1))

lemma valid_Pair [valid_simps]:
  "valid (Schema [Tuple [s, t], MaxItems 2, MinItems 2, Type [TArray]]) d \<longleftrightarrow>
     is_array d \<and> length (array_items d) = 2 \<and> valid s (array_items d ! 0) \<and> valid t (array_items d ! 1)"
proof (cases d)
  case (JArr xs)
  show ?thesis
  proof (cases "length xs = 2")
    case True
    then obtain a b where "xs = [a, b]" by (auto simp: length_Suc_conv numeral_2_eq_2)
    with JArr show ?thesis by (simp add: valid.simps(1))
  next
    case False
    with JArr show ?thesis by (auto simp: valid.simps(1))
  qed
qed (simp_all add: valid.simps(1))

lemma valid_Map [valid_simps]:
  "valid (Schema [Additional s, Type [TObject]]) d \<longleftrightarrow>
     has_type TObject d \<and> list_all (\<lambda>k. valid s (js_prop d k)) (js_keys d)"
  by (auto simp: valid.simps(1))

lemma valid_Closed [valid_simps]:
  "valid (Schema [NoAdditional, Properties ps, Required rs, Type [TObject]]) d \<longleftrightarrow>
     has_type TObject d \<and> list_all (\<lambda>r. get d r \<noteq> JUndef) rs \<and>
     list_all (\<lambda>k. k \<in> js ` set (map fst ps)) (js_keys d) \<and>
     list_all (\<lambda>(p, s). get d p = JUndef \<or> valid s (get d p)) ps"
  by (auto simp: valid.simps(1))

lemma valid_Open [valid_simps]:
  "valid (Schema [Properties ps, Required rs, Type [TObject]]) d \<longleftrightarrow>
     has_type TObject d \<and> list_all (\<lambda>r. get d r \<noteq> JUndef) rs \<and>
     list_all (\<lambda>(p, s). get d p = JUndef \<or> valid s (get d p)) ps"
  by (auto simp: valid.simps(1))

lemma valid_AllOf [valid_simps]: "valid (Schema [AllOf [s]]) d \<longleftrightarrow> valid s d"
  by (simp add: valid.simps(1))

lemma valid_AnyOf [valid_simps]: "valid (Schema [AnyOf ss]) d \<longleftrightarrow> list_ex (\<lambda>s. valid s d) ss"
  by (simp add: valid.simps(1))

lemma valid_OneOf [valid_simps]:
  "valid (Schema [OneOf ss]) d \<longleftrightarrow> count_true (map (\<lambda>s. valid s d) ss) = 1"
  by (simp add: valid.simps(1))

lemma safe_bounds_clamp [simp]:
  "max 0 (- MAX_SAFE_INTEGER) = 0" "min 65535 MAX_SAFE_INTEGER = 65535"
  by (simp_all add: MAX_SAFE_INTEGER_def)

lemmas narrow_simps = safe_bounds_def is_bound_def

lemma finish_valid:
  assumes "decides hard_reject c P" and "\<And>d. P d \<longleftrightarrow> Q d"
  shows "finish (c p d) = [] \<longleftrightarrow> Q d"
  using finish_decides [OF assms(1)] assms(2) by simp

subsection \<open>The compiled validators\<close>

text \<open>
  One lemma per function of the generated file. The contract of each statement gives the
  predicate it decides; simplification identifies that predicate with the schema.
\<close>

lemma validate11_iff:
  "validate11 p d = [] \<longleftrightarrow> valid (constrainIntegers sch_requestMetadata_ConnectionSpec) d"
  unfolding validate11_def compiled_defs
  by (rule finish_valid, (rule decides_intros alternatives_intros)+)
    (simp add: sch_requestMetadata_ConnectionSpec_def
      sch_requestMetadata_BrowserIdentity_def
      sch_requestMetadata_Egress_def
      narrow_simps valid_simps)

lemmas validate11_call [decides_intros] =
  hard.decides_call [where f = validate11, OF validate11_iff]
  soft.decides_call [where f = validate11, OF validate11_iff]

lemma validate10_iff:
  "validate10 p d = [] \<longleftrightarrow> valid (constrainIntegers sch_requestMetadata) d"
  unfolding validate10_def compiled_defs
  by (rule finish_valid, (rule decides_intros alternatives_intros)+)
    (simp add: sch_requestMetadata_def
      sch_requestMetadata_HeaderOrder_def
      narrow_simps valid_simps)

lemma validate14_iff:
  "validate14 p d = [] \<longleftrightarrow> valid (constrainIntegers sch_responseMetadata_Diagnostics) d"
  unfolding validate14_def compiled_defs
  by (rule finish_valid, (rule decides_intros alternatives_intros)+)
    (simp add: sch_responseMetadata_Diagnostics_def
      sch_responseMetadata_Phase_def
      sch_responseMetadata_Delivery_def
      narrow_simps valid_simps)

lemmas validate14_call [decides_intros] =
  hard.decides_call [where f = validate14, OF validate14_iff]
  soft.decides_call [where f = validate14, OF validate14_iff]

lemma validate13_iff:
  "validate13 p d = [] \<longleftrightarrow> valid (constrainIntegers sch_responseMetadata) d"
  unfolding validate13_def compiled_defs
  by (rule finish_valid, (rule decides_intros alternatives_intros)+)
    (simp add: sch_responseMetadata_def
      narrow_simps valid_simps)

lemma validate16_iff:
  "validate16 p d = [] \<longleftrightarrow> valid (constrainIntegers sch_diagnostics) d"
  unfolding validate16_def compiled_defs
  by (rule finish_valid, (rule decides_intros alternatives_intros)+)
    (simp add: sch_diagnostics_def
      sch_diagnostics_Phase_def
      sch_diagnostics_Delivery_def
      narrow_simps valid_simps)

lemma validate18_iff:
  "validate18 p d = [] \<longleftrightarrow> valid (constrainIntegers sch_transportError_Diagnostics) d"
  unfolding validate18_def compiled_defs
  by (rule finish_valid, (rule decides_intros alternatives_intros)+)
    (simp add: sch_transportError_Diagnostics_def
      sch_transportError_Phase_def
      sch_transportError_Delivery_def
      narrow_simps valid_simps)

lemmas validate18_call [decides_intros] =
  hard.decides_call [where f = validate18, OF validate18_iff]
  soft.decides_call [where f = validate18, OF validate18_iff]

lemma validate17_iff:
  "validate17 p d = [] \<longleftrightarrow> valid (constrainIntegers sch_transportError) d"
  unfolding validate17_def compiled_defs
  by (rule finish_valid, (rule decides_intros alternatives_intros)+)
    (simp add: sch_transportError_def
      sch_transportError_ErrorCode_def
      narrow_simps valid_simps)

lemma validate20_iff:
  "validate20 p d = [] \<longleftrightarrow> valid (constrainIntegers sch_contextInfo) d"
  unfolding validate20_def compiled_defs
  by (rule finish_valid, (rule decides_intros alternatives_intros)+)
    (simp add: sch_contextInfo_def
      sch_contextInfo_BrowserIdentity_def
      sch_contextInfo_CookieMode_def
      narrow_simps valid_simps)

lemma validate21_iff:
  "validate21 p d = [] \<longleftrightarrow> valid (constrainIntegers sch_cookieRecord) d"
  unfolding validate21_def compiled_defs
  by (rule finish_valid, (rule decides_intros alternatives_intros)+)
    (simp add: sch_cookieRecord_def
      sch_cookieRecord_CookieSameSite_def
      narrow_simps valid_simps)

lemma validate23_iff:
  "validate23 p d = [] \<longleftrightarrow> valid (constrainIntegers sch_cookieSnapshot_CookieRecord) d"
  unfolding validate23_def compiled_defs
  by (rule finish_valid, (rule decides_intros alternatives_intros)+)
    (simp add: sch_cookieSnapshot_CookieRecord_def
      sch_cookieSnapshot_CookieSameSite_def
      narrow_simps valid_simps)

lemmas validate23_call [decides_intros] =
  hard.decides_call [where f = validate23, OF validate23_iff]
  soft.decides_call [where f = validate23, OF validate23_iff]

lemma validate22_iff:
  "validate22 p d = [] \<longleftrightarrow> valid (constrainIntegers sch_cookieSnapshot) d"
  unfolding validate22_def compiled_defs
  by (rule finish_valid, (rule decides_intros alternatives_intros)+)
    (simp add: sch_cookieSnapshot_def
      narrow_simps valid_simps)

lemma validate25_iff:
  "validate25 p d = [] \<longleftrightarrow> valid (constrainIntegers sch_capabilities) d"
  unfolding validate25_def compiled_defs
  by (rule finish_valid, (rule decides_intros alternatives_intros)+)
    (simp add: sch_capabilities_def
      sch_capabilities_ServiceName_def
      sch_capabilities_CapabilityModes_def
      sch_capabilities_CapabilityLimits_def
      sch_capabilities_HeaderDescriptor_def
      sch_capabilities_FramingCapabilities_def
      narrow_simps valid_simps)

lemma validate27_iff:
  "validate27 p d = [] \<longleftrightarrow> valid (constrainIntegers sch_createContext_ConnectionSpec) d"
  unfolding validate27_def compiled_defs
  by (rule finish_valid, (rule decides_intros alternatives_intros)+)
    (simp add: sch_createContext_ConnectionSpec_def
      sch_createContext_BrowserIdentity_def
      sch_createContext_Egress_def
      narrow_simps valid_simps)

lemmas validate27_call [decides_intros] =
  hard.decides_call [where f = validate27, OF validate27_iff]
  soft.decides_call [where f = validate27, OF validate27_iff]

lemma validate26_iff:
  "validate26 p d = [] \<longleftrightarrow> valid (constrainIntegers sch_createContext) d"
  unfolding validate26_def compiled_defs
  by (rule finish_valid, (rule decides_intros alternatives_intros)+)
    (simp add: sch_createContext_def
      sch_createContext_CookieMode_def
      narrow_simps valid_simps)

lemma validate31_iff:
  "validate31 p d = [] \<longleftrightarrow> valid (constrainIntegers sch_cookieOperation_CookieRecord) d"
  unfolding validate31_def compiled_defs
  by (rule finish_valid, (rule decides_intros alternatives_intros)+)
    (simp add: sch_cookieOperation_CookieRecord_def
      sch_cookieOperation_CookieSameSite_def
      narrow_simps valid_simps)

lemmas validate31_call [decides_intros] =
  hard.decides_call [where f = validate31, OF validate31_iff]
  soft.decides_call [where f = validate31, OF validate31_iff]

lemma validate30_iff:
  "validate30 p d = [] \<longleftrightarrow> valid (constrainIntegers sch_cookieOperation_CookieSnapshot) d"
  unfolding validate30_def compiled_defs
  by (rule finish_valid, (rule decides_intros alternatives_intros)+)
    (simp add: sch_cookieOperation_CookieSnapshot_def
      narrow_simps valid_simps)

lemmas validate30_call [decides_intros] =
  hard.decides_call [where f = validate30, OF validate30_iff]
  soft.decides_call [where f = validate30, OF validate30_iff]

lemma validate29_iff:
  "validate29 p d = [] \<longleftrightarrow> valid (constrainIntegers sch_cookieOperation) d"
  unfolding validate29_def compiled_defs
  by (rule finish_valid, (rule decides_intros alternatives_intros)+)
    (simp add: sch_cookieOperation_def
      narrow_simps valid_simps)

lemma validate35_iff:
  "validate35 p d = [] \<longleftrightarrow> valid (constrainIntegers sch_cookieReply_CookieRecord) d"
  unfolding validate35_def compiled_defs
  by (rule finish_valid, (rule decides_intros alternatives_intros)+)
    (simp add: sch_cookieReply_CookieRecord_def
      sch_cookieReply_CookieSameSite_def
      narrow_simps valid_simps)

lemmas validate35_call [decides_intros] =
  hard.decides_call [where f = validate35, OF validate35_iff]
  soft.decides_call [where f = validate35, OF validate35_iff]

lemma validate37_iff:
  "validate37 p d = [] \<longleftrightarrow> valid (constrainIntegers sch_cookieReply_CookieSnapshot) d"
  unfolding validate37_def compiled_defs
  by (rule finish_valid, (rule decides_intros alternatives_intros)+)
    (simp add: sch_cookieReply_CookieSnapshot_def
      narrow_simps valid_simps)

lemmas validate37_call [decides_intros] =
  hard.decides_call [where f = validate37, OF validate37_iff]
  soft.decides_call [where f = validate37, OF validate37_iff]

lemma validate34_iff:
  "validate34 p d = [] \<longleftrightarrow> valid (constrainIntegers sch_cookieReply) d"
  unfolding validate34_def compiled_defs
  by (rule finish_valid, (rule decides_intros alternatives_intros)+)
    (simp add: sch_cookieReply_def
      narrow_simps valid_simps)

lemma validate41_iff:
  "validate41 p d = [] \<longleftrightarrow> valid (constrainIntegers sch_requestStatus_Diagnostics) d"
  unfolding validate41_def compiled_defs
  by (rule finish_valid, (rule decides_intros alternatives_intros)+)
    (simp add: sch_requestStatus_Diagnostics_def
      sch_requestStatus_Phase_def
      sch_requestStatus_Delivery_def
      narrow_simps valid_simps)

lemmas validate41_call [decides_intros] =
  hard.decides_call [where f = validate41, OF validate41_iff]
  soft.decides_call [where f = validate41, OF validate41_iff]

lemma validate43_iff:
  "validate43 p d = [] \<longleftrightarrow> valid (constrainIntegers sch_requestStatus_TransportError) d"
  unfolding validate43_def compiled_defs
  by (rule finish_valid, (rule decides_intros alternatives_intros)+)
    (simp add: sch_requestStatus_TransportError_def
      sch_requestStatus_ErrorCode_def
      narrow_simps valid_simps)

lemmas validate43_call [decides_intros] =
  hard.decides_call [where f = validate43, OF validate43_iff]
  soft.decides_call [where f = validate43, OF validate43_iff]

lemma validate40_iff:
  "validate40 p d = [] \<longleftrightarrow> valid (constrainIntegers sch_requestStatus) d"
  unfolding validate40_def compiled_defs
  by (rule finish_valid, (rule decides_intros alternatives_intros)+)
    (simp add: sch_requestStatus_def
      sch_requestStatus_RequestState_def
      narrow_simps valid_simps)

subsection \<open>Properties\<close>

lemmas validator_iffs =
  validate10_iff validate13_iff validate16_iff validate17_iff validate20_iff validate21_iff
  validate22_iff validate25_iff validate26_iff validate29_iff validate34_iff validate40_iff

lemma validateWire_schema: "validateWire c v \<longleftrightarrow> valid (constrainIntegers (wire_schema c)) v"
  by (cases c) (simp_all add: validateWire_def validator_iffs)

lemma wire_schema_wf: "wf_schema (wire_schema c)"
  by (cases c) (simp_all add: wire_schema_defs unique_bounds_def)

text \<open>
  C1: For each of the twelve wire contracts, the compiled validator accepts a value exactly when
  the contract's published schema, narrowed to safe integers, admits it.
\<close>

theorem validateWire_iff: "validateWire c v \<longleftrightarrow> valid (constrainIntegers (wire_schema c)) v"
  by (rule validateWire_schema)

text \<open>
  On values whose integers are all exactly representable, the narrowing is invisible: the
  compiled validator decides the published schema itself.
\<close>

theorem validateWire_published:
  assumes "safe_numbers v"
  shows "validateWire c v \<longleftrightarrow> valid (wire_schema c) v"
  unfolding validateWire_schema by (rule constrainIntegers_valid(1) [OF wire_schema_wf assms])

theorem validateWire_published_witness:
  "validateWire CookieSnapshot (JObj [(js ''cookies'', JArr []), (js ''partitionKey'', jstr ''p'')]) \<longleftrightarrow>
   valid (wire_schema CookieSnapshot) (JObj [(js ''cookies'', JArr []), (js ''partitionKey'', jstr ''p'')])"
  by (rule validateWire_published) simp

end
