(* ===== verification/Errors.thy ===== *)
theory Errors
  imports Js_Value
begin

text \<open>
  \<open>src/packages/typescript/src/errors.ts\<close>: the error codes and their messages, the copy of
  diagnostics that keeps documented fields only, and the transport error that every failing
  operation of the client ends in. Diagnostics are JavaScript values, as they come from the
  wire; an error is a record of the fields its constructor sets before it freezes the object.
\<close>

subsection \<open>Codes, kinds and messages\<close>

datatype error_code =
    UNAUTHORIZED | INVALID_REQUEST | UNSUPPORTED_CAPABILITY | INVALID_PROFILE | EGRESS_REQUIRED
  | SSRF_BLOCKED | BODY_TOO_LARGE | BUSY | TIMEOUT | CANCELLED | DNS_ERROR | PROXY_ERROR
  | TLS_ERROR | CONNECT_ERROR | PROTOCOL_ERROR | CONTEXT_NOT_FOUND | CONTEXT_CONFLICT
  | CONTEXT_LIMIT | COOKIE_LIMIT | DUPLICATE_REQUEST | UNKNOWN

datatype failure_kind =
    Proxy_unreachable | Service_unavailable | Connection_lost | Unknown | Client_closed
  | Queue_full | Buffer_limit | Invalid_input | Worker_unavailable

primrec code_name :: "error_code \<Rightarrow> string" where
  "code_name UNAUTHORIZED = ''UNAUTHORIZED''"
| "code_name INVALID_REQUEST = ''INVALID_REQUEST''"
| "code_name UNSUPPORTED_CAPABILITY = ''UNSUPPORTED_CAPABILITY''"
| "code_name INVALID_PROFILE = ''INVALID_PROFILE''"
| "code_name EGRESS_REQUIRED = ''EGRESS_REQUIRED''"
| "code_name SSRF_BLOCKED = ''SSRF_BLOCKED''"
| "code_name BODY_TOO_LARGE = ''BODY_TOO_LARGE''"
| "code_name BUSY = ''BUSY''"
| "code_name TIMEOUT = ''TIMEOUT''"
| "code_name CANCELLED = ''CANCELLED''"
| "code_name DNS_ERROR = ''DNS_ERROR''"
| "code_name PROXY_ERROR = ''PROXY_ERROR''"
| "code_name TLS_ERROR = ''TLS_ERROR''"
| "code_name CONNECT_ERROR = ''CONNECT_ERROR''"
| "code_name PROTOCOL_ERROR = ''PROTOCOL_ERROR''"
| "code_name CONTEXT_NOT_FOUND = ''CONTEXT_NOT_FOUND''"
| "code_name CONTEXT_CONFLICT = ''CONTEXT_CONFLICT''"
| "code_name CONTEXT_LIMIT = ''CONTEXT_LIMIT''"
| "code_name COOKIE_LIMIT = ''COOKIE_LIMIT''"
| "code_name DUPLICATE_REQUEST = ''DUPLICATE_REQUEST''"
| "code_name UNKNOWN = ''UNKNOWN''"

definition ERROR_CODES :: "string list" where
  "ERROR_CODES = map code_name
     [UNAUTHORIZED, INVALID_REQUEST, UNSUPPORTED_CAPABILITY, INVALID_PROFILE, EGRESS_REQUIRED,
      SSRF_BLOCKED, BODY_TOO_LARGE, BUSY, TIMEOUT, CANCELLED,
      DNS_ERROR, PROXY_ERROR, TLS_ERROR, CONNECT_ERROR, PROTOCOL_ERROR,
      CONTEXT_NOT_FOUND, CONTEXT_CONFLICT, CONTEXT_LIMIT, COOKIE_LIMIT, DUPLICATE_REQUEST,
      UNKNOWN]"

primrec messages :: "error_code \<Rightarrow> jsstr" where
  "messages UNAUTHORIZED =
     js ''Die JA3Proxy-Dienstanmeldung fehlt oder ist ung'' @ [252] @ js ''ltig.''"
| "messages INVALID_REQUEST =
     js ''Die JA3Proxy-Anfrage ist ung'' @ [252] @ js ''ltig.''"
| "messages UNSUPPORTED_CAPABILITY =
     js ''Der JA3Proxy-Dienst unterst'' @ [252] @ js ''tzt den erforderlichen Transport nicht.''"
| "messages INVALID_PROFILE =
     js ''Das gew'' @ [228] @ js ''hlte Browserprofil wird nicht unterst'' @ [252] @ js ''tzt.''"
| "messages EGRESS_REQUIRED =
     js ''Ein ausdr'' @ [252] @ js ''cklicher Netzwerkausgang ist erforderlich.''"
| "messages SSRF_BLOCKED =
     js ''Das Netzwerkziel ist nicht zul'' @ [228] @ js ''ssig.''"
| "messages BODY_TOO_LARGE =
     js ''Die '' @ [220] @ js ''bertragung '' @ [252] @ js ''berschreitet die erlaubte Gr'' @ [246] @ [223] @ js ''e.''"
| "messages BUSY =
     js ''Der JA3Proxy-Dienst ist ausgelastet.''"
| "messages TIMEOUT =
     js ''Die JA3Proxy-Anfrage hat das Zeitlimit '' @ [252] @ js ''berschritten.''"
| "messages CANCELLED =
     js ''Die JA3Proxy-Anfrage wurde abgebrochen.''"
| "messages DNS_ERROR =
     js ''Der Netzwerkname konnte nicht aufgel'' @ [246] @ js ''st werden.''"
| "messages PROXY_ERROR =
     js ''Die Verbindung '' @ [252] @ js ''ber den konfigurierten Proxy ist fehlgeschlagen.''"
| "messages TLS_ERROR =
     js ''Die verschl'' @ [252] @ js ''sselte Verbindung ist fehlgeschlagen.''"
| "messages CONNECT_ERROR =
     js ''Die Netzwerkverbindung konnte nicht hergestellt werden.''"
| "messages PROTOCOL_ERROR =
     js ''Der JA3Proxy-Dienst hat eine ung'' @ [252] @ js ''ltige '' @ [220] @ js ''bertragung geliefert.''"
| "messages CONTEXT_NOT_FOUND =
     js ''Die Transportsitzung ist nicht mehr verf'' @ [252] @ js ''gbar. Eine neue Sitzung muss ausdr'' @ [252] @ js ''cklich ge'' @ [246] @ js ''ffnet werden.''"
| "messages CONTEXT_CONFLICT =
     js ''Der Zustand der Transportsitzung wurde gleichzeitig ver'' @ [228] @ js ''ndert.''"
| "messages CONTEXT_LIMIT =
     js ''Die erlaubte Anzahl von Transportsitzungen ist erreicht.''"
| "messages COOKIE_LIMIT =
     js ''Der erlaubte Cookie-Speicher ist ausgesch'' @ [246] @ js ''pft.''"
| "messages DUPLICATE_REQUEST =
     js ''Diese Anfragekennung wurde bereits verwendet.''"
| "messages UNKNOWN =
     js ''Die JA3Proxy-Anfrage ist fehlgeschlagen.''"
subsection \<open>Patterns\<close>

text \<open>
  The regular expressions of the source are anchored character classes with a length range;
  \<open>$\<close> without the \<open>m\<close> flag matches at the end only. A class is given by its code units.
\<close>

definition units :: "string \<Rightarrow> nat \<Rightarrow> bool" where
  "units cs u \<longleftrightarrow> u \<in> set (js cs)"

definition upper :: "nat \<Rightarrow> bool" where "upper u \<longleftrightarrow> 65 \<le> u \<and> u \<le> 90"

definition lower :: "nat \<Rightarrow> bool" where "lower u \<longleftrightarrow> 97 \<le> u \<and> u \<le> 122"

definition digit :: "nat \<Rightarrow> bool" where "digit u \<longleftrightarrow> 48 \<le> u \<and> u \<le> 57"

definition re_class :: "(nat \<Rightarrow> bool) \<Rightarrow> nat \<Rightarrow> nat \<Rightarrow> jsstr \<Rightarrow> bool" where
  "re_class P lo hi s \<longleftrightarrow> lo \<le> length s \<and> length s \<le> hi \<and> list_all P s"

text \<open>\<open>/^[A-Za-z0-9_.:-]{1,128}$/\<close> and \<open>/^[a-z0-9_.]{1,64}$/\<close>.\<close>

definition re_opaque :: "jsstr \<Rightarrow> bool" where
  "re_opaque = re_class (\<lambda>u. upper u \<or> lower u \<or> digit u \<or> units ''_.:-'' u) 1 128"

definition re_profile :: "jsstr \<Rightarrow> bool" where
  "re_profile = re_class (\<lambda>u. lower u \<or> digit u \<or> units ''_.'' u) 1 64"

lemmas pattern_defs = re_class_def re_opaque_def re_profile_def units_def upper_def lower_def digit_def

subsection \<open>Diagnostics\<close>

text \<open>
  Object literals of the source: fields copied as they are, and fields spread in only when
  they are not \<open>undefined\<close>.
\<close>

definition pick :: "jsval \<Rightarrow> string list \<Rightarrow> (jsstr \<times> jsval) list" where
  "pick v ns = map (\<lambda>n. (js n, get v n)) ns"

definition pick_opt :: "jsval \<Rightarrow> string list \<Rightarrow> (jsstr \<times> jsval) list" where
  "pick_opt v ns = concat (map (\<lambda>n. if get v n = JUndef then [] else [(js n, get v n)]) ns)"

definition diagnostic_scalars :: "string list" where
  "diagnostic_scalars = [''requestId'', ''attempt'', ''phase'', ''delivery'', ''queueMs'', ''headersMs'',
     ''bodyMs'', ''totalMs'', ''requestBytes'', ''responseBytes'', ''tlsProfile'']"

definition diagnostic_optional :: "string list" where
  "diagnostic_optional = [''traceId'', ''spanId'', ''clientReused'', ''contextId'', ''cookieRevision'']"

definition documented :: "string list" where
  "documented = diagnostic_scalars @ diagnostic_optional"

definition copyDiagnostics :: "jsval \<Rightarrow> jsval" where
  "copyDiagnostics value = JObj (pick value diagnostic_scalars @ pick_opt value diagnostic_optional)"

definition initialDiagnostics :: "jsstr \<Rightarrow> jsnum \<Rightarrow> jsstr \<Rightarrow> jsval" where
  "initialDiagnostics requestId attempt tlsProfile = JObj
     [(js ''requestId'', JStr (if re_opaque requestId then requestId else js ''local'')),
      (js ''attempt'', JNum (if isSafeInteger attempt \<and> \<not> num_less attempt (Num 0) then attempt else Num 0)),
      (js ''tlsProfile'', JStr (if re_profile tlsProfile then tlsProfile else js ''unknown'')),
      (js ''phase'', jstr ''preparing''), (js ''delivery'', jstr ''not_started''),
      (js ''queueMs'', jint 0), (js ''headersMs'', JNull), (js ''bodyMs'', JNull),
      (js ''totalMs'', jint 0), (js ''requestBytes'', jint 0), (js ''responseBytes'', jint 0)]"

abbreviation localDiagnostics :: jsval where
  "localDiagnostics \<equiv> initialDiagnostics (js ''local'') (Num 0) (js ''unknown'')"

subsection \<open>Transport errors\<close>

type_synonym refs = "(jsstr \<times> jsstr) list"

record transport_error =
  te_message :: jsstr
  te_code :: error_code
  te_kind :: failure_kind
  te_diagnostics :: jsval
  te_delivery :: jsval
  te_usedProxy :: bool
  te_references :: "refs option"

definition new_TransportError ::
    "error_code \<Rightarrow> jsval \<Rightarrow> bool \<Rightarrow> failure_kind option \<Rightarrow> refs option \<Rightarrow> transport_error" where
  "new_TransportError code diagnostics usedProxy kind references =
     \<lparr>te_message = messages code, te_code = code,
      te_kind = (case kind of Some k \<Rightarrow> k
        | None \<Rightarrow> if code = PROXY_ERROR then Proxy_unreachable
            else if get diagnostics ''delivery'' = jstr ''response_started'' then Connection_lost else Unknown),
      te_diagnostics = copyDiagnostics diagnostics, te_delivery = get diagnostics ''delivery'',
      te_usedProxy = usedProxy, te_references = references\<rparr>"

definition withReferences :: "transport_error \<Rightarrow> refs option \<Rightarrow> transport_error" where
  "withReferences error references =
     (if references = None \<or> te_references error = references then error
      else new_TransportError (te_code error) (te_diagnostics error) (te_usedProxy error) (Some (te_kind error)) references)"

definition localError :: "error_code \<Rightarrow> failure_kind option \<Rightarrow> transport_error" where
  "localError code kind = new_TransportError code localDiagnostics False kind None"

text \<open>What a \<open>catch\<close> receives: an error of the SDK, or anything else.\<close>

datatype thrown = Transport transport_error | Other jsval

fun isJa3ProxyError :: "thrown \<Rightarrow> bool" where
  "isJa3ProxyError (Transport _) = True"
| "isJa3ProxyError (Other _) = False"

fun safeError :: "thrown \<Rightarrow> jsval \<Rightarrow> bool \<Rightarrow> transport_error" where
  "safeError (Transport e) fallback usedProxy = e"
| "safeError (Other _) fallback usedProxy = new_TransportError UNKNOWN fallback usedProxy None None"

subsection \<open>Facts\<close>

lemma map_of_pick: "map_of (pick v ns) k = (if k \<in> js ` set ns then Some (js_prop v k) else None)"
  by (induction ns) (auto simp: pick_def)

lemma map_of_pick_opt:
  "map_of (pick_opt v ns) k = (if k \<in> js ` set ns \<and> js_prop v k \<noteq> JUndef then Some (js_prop v k) else None)"
  by (induction ns) (auto simp: pick_opt_def)

lemma js_prop_pick:
  "js_prop (JObj (pick v ns @ pick_opt v ms)) k =
     (if k \<in> js ` set ns \<or> k \<in> js ` set ms then js_prop v k else JUndef)"
  by (auto simp: map_of_append map_add_def map_of_pick map_of_pick_opt split: option.split)

lemma own_pick_opt:
  "k \<in> fst ` set (pick v ns @ pick_opt v ms) \<Longrightarrow> k \<notin> js ` set ns \<Longrightarrow> js_prop v k \<noteq> JUndef"
  by (auto simp: pick_def pick_opt_def split: if_splits)

lemma get_copyDiagnostics:
  "js_prop (copyDiagnostics v) k =
     (if k \<in> js ` set documented then js_prop v k else JUndef)"
  unfolding copyDiagnostics_def js_prop_pick by (simp add: documented_def image_Un)

lemma documented_names:
  "set documented =
     {''requestId'', ''attempt'', ''phase'', ''delivery'', ''queueMs'', ''headersMs'', ''bodyMs'', ''totalMs'',
      ''requestBytes'', ''responseBytes'', ''tlsProfile'', ''traceId'', ''spanId'', ''clientReused'', ''contextId'',
      ''cookieRevision''}"
  by (auto simp: documented_def diagnostic_scalars_def diagnostic_optional_def)

lemma get_copyDiagnostics_documented [simp]: "n \<in> set documented \<Longrightarrow> get (copyDiagnostics v) n = get v n"
  by (simp add: get_copyDiagnostics)

lemma copied_fields:
  "get (copyDiagnostics v) ''requestId'' = get v ''requestId''"
  "get (copyDiagnostics v) ''attempt'' = get v ''attempt''"
  "get (copyDiagnostics v) ''phase'' = get v ''phase''"
  "get (copyDiagnostics v) ''delivery'' = get v ''delivery''"
  "get (copyDiagnostics v) ''queueMs'' = get v ''queueMs''"
  "get (copyDiagnostics v) ''headersMs'' = get v ''headersMs''"
  "get (copyDiagnostics v) ''bodyMs'' = get v ''bodyMs''"
  "get (copyDiagnostics v) ''totalMs'' = get v ''totalMs''"
  "get (copyDiagnostics v) ''requestBytes'' = get v ''requestBytes''"
  "get (copyDiagnostics v) ''responseBytes'' = get v ''responseBytes''"
  "get (copyDiagnostics v) ''tlsProfile'' = get v ''tlsProfile''"
  "get (copyDiagnostics v) ''traceId'' = get v ''traceId''"
  "get (copyDiagnostics v) ''spanId'' = get v ''spanId''"
  "get (copyDiagnostics v) ''clientReused'' = get v ''clientReused''"
  "get (copyDiagnostics v) ''contextId'' = get v ''contextId''"
  "get (copyDiagnostics v) ''cookieRevision'' = get v ''cookieRevision''"
  by (simp_all add: documented_names)

lemma keys_copyDiagnostics:
  "set (js_keys (copyDiagnostics v)) \<subseteq> js ` set documented"
  by (auto simp: copyDiagnostics_def documented_def pick_def pick_opt_def split: if_splits)

lemma pick_cong: "(\<And>n. n \<in> set ns \<Longrightarrow> get v n = get w n) \<Longrightarrow> pick v ns = pick w ns"
  by (simp add: pick_def)

lemma pick_opt_cong: "(\<And>n. n \<in> set ns \<Longrightarrow> get v n = get w n) \<Longrightarrow> pick_opt v ns = pick_opt w ns"
  unfolding pick_opt_def by (intro arg_cong [of _ _ concat] map_cong) auto

lemma copyDiagnostics_idem [simp]: "copyDiagnostics (copyDiagnostics v) = copyDiagnostics v"
  unfolding copyDiagnostics_def [of "copyDiagnostics v"]
  by (subst copyDiagnostics_def, intro arg_cong [of _ _ JObj] arg_cong2 [of _ _ _ _ append] pick_cong pick_opt_cong)
    (auto simp: get_copyDiagnostics documented_def)

text \<open>What holds of every error: it is the value its constructor builds from its own fields.\<close>

definition frozen_error :: "transport_error \<Rightarrow> bool" where
  "frozen_error e \<longleftrightarrow>
     new_TransportError (te_code e) (te_diagnostics e) (te_usedProxy e) (Some (te_kind e)) (te_references e) = e"

lemma new_TransportError_frozen [simp]: "frozen_error (new_TransportError c d u k r)"
  by (simp add: frozen_error_def new_TransportError_def documented_names)

subsection \<open>Properties\<close>

text \<open>
  \<open>copyDiagnostics\<close> keeps every documented field with its value and nothing else: a name
  outside the sixteen documented ones reads \<open>undefined\<close> and is not even a key of the copy.
\<close>

theorem copyDiagnostics_documented_only:
  "js_prop (copyDiagnostics v) k =
     (if k \<in> js ` set documented then js_prop v k else JUndef) \<and>
   set (js_keys (copyDiagnostics v)) \<subseteq> js ` set documented"
  by (simp only: get_copyDiagnostics keys_copyDiagnostics simp_thms)

text \<open>
  Attaching references to an error changes the references and nothing else, and the result
  is again an error as the constructor builds it; without references, or with those it already
  has, the error is returned as it is.
\<close>

theorem withReferences_only_references:
  assumes "frozen_error e"
  shows "withReferences e r = e\<lparr>te_references := (case r of None \<Rightarrow> te_references e | Some _ \<Rightarrow> r)\<rparr> \<and>
    frozen_error (withReferences e r)"
proof (cases "r = None \<or> te_references e = r")
  case True
  then have "withReferences e r = e" by (simp add: withReferences_def)
  with True assms show ?thesis by (auto split: option.split)
next
  case False
  then obtain x where r: "r = Some x" by auto
  have "withReferences e r =
      (new_TransportError (te_code e) (te_diagnostics e) (te_usedProxy e) (Some (te_kind e)) (te_references e))
        \<lparr>te_references := r\<rparr>"
    using False r by (auto simp: withReferences_def new_TransportError_def)
  also have "\<dots> = e\<lparr>te_references := r\<rparr>" using assms by (simp only: frozen_error_def)
  finally have "withReferences e r = e\<lparr>te_references := r\<rparr>" .
  moreover have "frozen_error (withReferences e r)" using False r by (auto simp: withReferences_def)
  ultimately show ?thesis using r by simp
qed

theorem withReferences_only_references_witness:
  "withReferences (localError BUSY (Some Queue_full)) (Some [(js ''a'', js ''b'')]) =
     (localError BUSY (Some Queue_full))\<lparr>te_references := Some [(js ''a'', js ''b'')]\<rparr>"
  using withReferences_only_references [of "localError BUSY (Some Queue_full)" "Some [(js ''a'', js ''b'')]"]
  by (simp add: localError_def)

end
