(* ===== verification/Guards.thy ===== *)
theory Guards
  imports Errors
begin

text \<open>
  The scalar guards of \<open>src/packages/typescript/src/protocol.ts\<close> that the whole client
  uses, and the object literals with spreads that several components build.
\<close>

subsection \<open>Scalars\<close>

definition record_js :: "jsval \<Rightarrow> bool" where
  "record_js value \<longleftrightarrow> value \<noteq> JNull \<and> js_typeof value = ''object'' \<and> \<not> is_array value"

fun positive :: "jsval \<Rightarrow> bool" where
  "positive (JNum n) = (isSafeInteger n \<and> num_less (Num 0) n)"
| "positive _ = False"

fun nonnegativeInteger :: "jsval \<Rightarrow> bool" where
  "nonnegativeInteger (JNum n) = (isSafeInteger n \<and> \<not> num_less n (Num 0))"
| "nonnegativeInteger _ = False"

fun opaque :: "jsval \<Rightarrow> bool" where
  "opaque (JStr s) = re_opaque s"
| "opaque _ = False"

subsection \<open>Spreads and own properties\<close>

fun spread_object :: "jsval \<Rightarrow> (jsstr \<times> jsval) list" where
  "spread_object (JObj ps) = ps"
| "spread_object (JBytes bs) = map (\<lambda>(i, b). (js (dec_digits i), jint (uint b))) (List.enumerate 0 bs)"
| "spread_object _ = []"

definition has_own :: "jsval \<Rightarrow> jsstr \<Rightarrow> bool" where
  "has_own v k \<longleftrightarrow> k \<in> fst ` set (spread_object v)"

text \<open>A property of an object literal that overrides or follows a spread.\<close>

fun set_prop :: "(jsstr \<times> 'v) list \<Rightarrow> jsstr \<Rightarrow> 'v \<Rightarrow> (jsstr \<times> 'v) list" where
  "set_prop [] k v = [(k, v)]"
| "set_prop ((k', v') # ps) k v = (if k' = k then (k, v) # ps else (k', v') # set_prop ps k v)"

subsection \<open>Facts\<close>

lemma js_prop_set_prop [simp]:
  "js_prop (JObj (set_prop ps k v)) k' = (if k' = k then v else js_prop (JObj ps) k')"
  by (induction ps) auto

lemma has_own_JObj: "has_own (JObj ps) k \<longleftrightarrow> k \<in> fst ` set ps"
  by (simp add: has_own_def)

lemma js_prop_not_own: "\<not> has_own (JObj ps) k \<Longrightarrow> js_prop (JObj ps) k = JUndef"
  by (simp add: has_own_JObj map_of_eq_None_iff [THEN iffD2])

lemma record_js_JObj [simp]: "record_js (JObj ps)"
  by (simp add: record_js_def)

lemma positive_jint [simp]: "positive (jint i) \<longleftrightarrow> 0 < i \<and> i \<le> MAX_SAFE_INTEGER"
  by (auto simp: MAX_SAFE_INTEGER_def)

lemma nonnegativeInteger_jint [simp]: "nonnegativeInteger (jint i) \<longleftrightarrow> 0 \<le> i \<and> i \<le> MAX_SAFE_INTEGER"
  by (auto simp: MAX_SAFE_INTEGER_def)

end
