(* ===== verification/Protocol.thy ===== *)
theory Protocol
  imports Wire_Contract Guards
begin

text \<open>
  The guards of \<open>src/packages/typescript/src/protocol.ts\<close>: what the client demands of the
  values it sends and receives beyond the wire schemas, the normalization of diagnostics of
  older services, and the copies it hands to callers. Values are JavaScript values; a guard is
  a Boolean function of its argument.
\<close>

subsection \<open>Headers\<close>

definition token_unit :: "nat \<Rightarrow> bool" where
  "token_unit u \<longleftrightarrow> units ''!#$%&'' u \<or> u = 39 \<or> units ''*+.^_`|~-'' u \<or> digit u \<or> upper u \<or> lower u"

definition one_line :: "jsstr \<Rightarrow> bool" where
  "one_line s \<longleftrightarrow> list_all (\<lambda>u. u \<noteq> 13 \<and> u \<noteq> 10 \<and> u \<noteq> 0) s"

fun header_pair :: "jsval \<Rightarrow> bool" where
  "header_pair (JArr [JStr name, JStr content]) = (name \<noteq> [] \<and> list_all token_unit name \<and> one_line content)"
| "header_pair _ = False"

definition headerPairs :: "jsval \<Rightarrow> bool" where
  "headerPairs value \<longleftrightarrow> is_array value \<and> list_all header_pair (array_items value)"

text \<open>
  \<open>HeadersInput\<close>: absent, a \<open>Headers\<close> object (its entries are strings), an array of pairs or a
  plain object. \<open>[...pair]\<close> iterates arrays, strings (by code point) and byte arrays and throws
  on the rest; \<open>None\<close> is the \<open>TypeError\<close> of either source.
\<close>

datatype headers_input =
    HeadersAbsent
  | HeadersObject "(jsstr \<times> jsstr) list"
  | HeadersArray "jsval list"
  | HeadersRecord "(jsstr \<times> jsval) list"

fun code_points :: "jsstr \<Rightarrow> jsstr list" where
  "code_points [] = []"
| "code_points [u] = [[u]]"
| "code_points (u # w # s) =
     (if 55296 \<le> u \<and> u < 56320 \<and> 56320 \<le> w \<and> w < 57344 then [u, w] # code_points s
      else [u] # code_points (w # s))"

fun spread_items :: "jsval \<Rightarrow> jsval list option" where
  "spread_items (JArr xs) = Some xs"
| "spread_items (JStr s) = Some (map JStr (code_points s))"
| "spread_items (JBytes bs) = Some (map (\<lambda>b. jint (uint b)) bs)"
| "spread_items _ = None"

fun spread_pairs :: "jsval list \<Rightarrow> jsval list option" where
  "spread_pairs [] = Some []"
| "spread_pairs (x # xs) = (case spread_items x of None \<Rightarrow> None
     | Some ys \<Rightarrow> map_option (\<lambda>zs. JArr ys # zs) (spread_pairs xs))"

fun header_candidates :: "headers_input \<Rightarrow> jsval list option" where
  "header_candidates HeadersAbsent = Some []"
| "header_candidates (HeadersObject ps) = Some (map (\<lambda>(n, c). JArr [JStr n, JStr c]) ps)"
| "header_candidates (HeadersArray xs) = spread_pairs xs"
| "header_candidates (HeadersRecord ps) = Some (map (\<lambda>(n, v). JArr [JStr n, v]) ps)"

definition ascii_lower :: "jsstr \<Rightarrow> jsstr" where
  "ascii_lower s = map (\<lambda>u. if upper u then u + 32 else u) s"

fun header_name :: "jsval \<Rightarrow> jsstr" where
  "header_name (JArr (JStr n # _)) = n"
| "header_name _ = []"

definition trace_header :: "jsval \<Rightarrow> bool" where
  "trace_header p \<longleftrightarrow> ascii_lower (header_name p) \<in> {js ''traceparent'', js ''tracestate'', js ''baggage''}"

definition headersFrom :: "headers_input \<Rightarrow> jsval list option" where
  "headersFrom value = (case header_candidates value of None \<Rightarrow> None
     | Some pairs \<Rightarrow> if headerPairs (JArr pairs) then Some (filter (\<lambda>p. \<not> trace_header p) pairs) else None)"

subsection \<open>Diagnostics, also of older services\<close>

definition legacyTraceId :: jsval where
  "legacyTraceId = jstr ''11111111111111111111111111111111''"

definition legacySpanId :: jsval where
  "legacySpanId = jstr ''1111111111111111''"

definition schemaDiagnostics :: "jsval \<Rightarrow> jsval" where
  "schemaDiagnostics value =
     (if \<not> record_js value \<or> has_own value (js ''spanId'') then value
      else JObj (set_prop
        (if has_own value (js ''traceId'') then spread_object value
         else set_prop (spread_object value) (js ''traceId'') legacyTraceId)
        (js ''spanId'') legacySpanId))"

definition validateDiagnosticEnvelope :: "wire_contract \<Rightarrow> jsval \<Rightarrow> bool" where
  "validateDiagnosticEnvelope name value =
     (if validateWire name value then True
      else if \<not> record_js value \<or> \<not> record_js (get value ''diagnostics'') then False
      else let normalized = set_prop (spread_object value) (js ''diagnostics'') (schemaDiagnostics (get value ''diagnostics''));
        normalized' = (if name = RequestStatus \<and> record_js (get value ''error'')
          then set_prop normalized (js ''error'') (JObj (set_prop (spread_object (get value ''error'')) (js ''diagnostics'')
              (schemaDiagnostics (get (get value ''error'') ''diagnostics''))))
          else normalized)
        in validateWire name (JObj normalized'))"

text \<open>\<open>/^(?!0{n}$)[a-f0-9]{n}$/\<close>.\<close>

definition hex_unit :: "nat \<Rightarrow> bool" where
  "hex_unit u \<longleftrightarrow> digit u \<or> 97 \<le> u \<and> u \<le> 102"

definition re_trace :: "nat \<Rightarrow> jsstr \<Rightarrow> bool" where
  "re_trace n s \<longleftrightarrow> s \<noteq> replicate n 48 \<and> re_class hex_unit n n s"

definition str_test :: "(jsstr \<Rightarrow> bool) \<Rightarrow> jsval \<Rightarrow> bool" where
  "str_test P v = (case v of JStr s \<Rightarrow> P s | _ \<Rightarrow> False)"

definition strict_eq :: "jsval \<Rightarrow> jsval \<Rightarrow> bool" where
  "strict_eq v w \<longleftrightarrow> v = w \<and> v \<noteq> JNum NaN"

definition diagnostics :: "jsval \<Rightarrow> jsstr option \<Rightarrow> jsnum option \<Rightarrow> bool" where
  "diagnostics value requestId attempt \<longleftrightarrow>
     record_js value \<and> validateWire Diagnostics (schemaDiagnostics value) \<and>
     opaque (get value ''requestId'') \<and>
     (case requestId of None \<Rightarrow> True | Some r \<Rightarrow> get value ''requestId'' = JStr r) \<and>
     (case attempt of None \<Rightarrow> True | Some a \<Rightarrow> strict_eq (get value ''attempt'') (JNum a)) \<and>
     str_test (\<lambda>p. if p = [] then get value ''delivery'' = jstr ''not_started'' else re_profile p) (get value ''tlsProfile'') \<and>
     (if get value ''traceId'' = JUndef then get value ''spanId'' = JUndef
      else str_test (re_trace 32) (get value ''traceId'') \<and>
        (get value ''spanId'' = JUndef \<or> str_test (re_trace 16) (get value ''spanId''))) \<and>
     (get value ''contextId'' = JUndef \<or> opaque (get value ''contextId'')) \<and>
     (get value ''clientReused'' = JUndef \<or> js_typeof (get value ''clientReused'') = ''boolean'') \<and>
     (get value ''cookieRevision'' = JUndef \<or> nonnegativeInteger (get value ''cookieRevision''))"

definition in_range :: "int \<Rightarrow> int \<Rightarrow> jsval \<Rightarrow> bool" where
  "in_range lo hi v = (case v of
     JNum n \<Rightarrow> \<not> isNaN n \<and> \<not> num_less n (Num (of_int lo)) \<and> \<not> num_less (Num (of_int hi)) n | _ \<Rightarrow> False)"

definition responseMetadata :: "jsval \<Rightarrow> jsstr \<Rightarrow> jsnum \<Rightarrow> bool" where
  "responseMetadata value requestId attempt \<longleftrightarrow>
     validateDiagnosticEnvelope ResponseMetadata value \<and> record_js value \<and>
     get value ''requestId'' = JStr requestId \<and> in_range 200 599 (get value ''status'') \<and>
     headerPairs (get value ''headers'') \<and>
     diagnostics (get value ''diagnostics'') (Some requestId) (Some attempt) \<and>
     get (get value ''diagnostics'') ''delivery'' = jstr ''response_started'' \<and>
     (get value ''cookieRevision'' = JUndef \<or> nonnegativeInteger (get value ''cookieRevision''))"

fun errorCode :: "jsval \<Rightarrow> bool" where
  "errorCode (JStr s) = (s \<in> set (map js ERROR_CODES))"
| "errorCode _ = False"

subsection \<open>Contexts and cookies\<close>

definition contextInfo :: "jsval \<Rightarrow> bool" where
  "contextInfo value \<longleftrightarrow>
     validateWire ContextInfo value \<and> record_js value \<and> opaque (get value ''contextId'') \<and>
     opaque (get value ''partition'') \<and> record_js (get value ''identity'') \<and>
     str_test re_profile (get (get value ''identity'') ''tlsProfile'') \<and>
     (get (get value ''identity'') ''userAgent'' = JUndef \<or> str_test one_line (get (get value ''identity'') ''userAgent''))"

definition cookieRecords :: "jsval \<Rightarrow> bool" where
  "cookieRecords value \<longleftrightarrow> is_array value \<and>
     list_all (\<lambda>cookie. validateWire CookieRecord cookie \<and> record_js cookie \<and> get cookie ''sameSite'' \<noteq> JNull \<and>
       get cookie ''expiresAtMs'' \<noteq> JNull) (array_items value)"

definition cookieSnapshot :: "jsval \<Rightarrow> bool" where
  "cookieSnapshot value \<longleftrightarrow>
     validateWire CookieSnapshot value \<and> record_js value \<and>
     str_test (\<lambda>k. 0 < length k \<and> length k \<le> 2048) (get value ''partitionKey'') \<and>
     cookieRecords (get value ''cookies'')"

subsection \<open>Copies\<close>

definition item :: "jsval \<Rightarrow> nat \<Rightarrow> jsval" where
  "item v i = (if i < length (array_items v) then array_items v ! i else JUndef)"

definition copy_pairs :: "jsval \<Rightarrow> jsval" where
  "copy_pairs v = JArr (map (\<lambda>p. JArr [item p 0, item p 1]) (array_items v))"

definition copyResponseMetadata :: "jsval \<Rightarrow> jsval" where
  "copyResponseMetadata value = JObj
     ([(js ''requestId'', get value ''requestId''), (js ''status'', get value ''status''),
       (js ''headers'', copy_pairs (get value ''headers'')),
       (js ''diagnostics'', copyDiagnostics (get value ''diagnostics''))] @
      pick_opt value [''cookieRevision''])"

definition copyContextInfo :: "jsval \<Rightarrow> jsval" where
  "copyContextInfo value = JObj
     (pick value [''contextId'', ''partition'', ''expiresAtMs'', ''revision'', ''cookieMode''] @
      [(js ''identity'', JObj (pick (get value ''identity'') [''tlsProfile'', ''emulateHeaders''] @
         pick_opt (get value ''identity'') [''userAgent'']))])"

subsection \<open>Reading through literals and spreads\<close>

lemma record_has_type: "record_js v \<longleftrightarrow> has_type TObject v"
  by (cases v) (simp_all add: record_js_def)

text \<open>An object schema that allows further properties only looks at the ones it names.\<close>

lemma valid_open_agree:
  assumes "has_type TObject d" and "has_type TObject e"
    and "\<And>p. p \<in> fst ` set ps \<or> p \<in> set rs \<Longrightarrow> get e p = get d p"
  shows "valid (constrainIntegers (Schema [Properties ps, Required rs, Type [TObject]])) e \<longleftrightarrow>
    valid (constrainIntegers (Schema [Properties ps, Required rs, Type [TObject]])) d"
proof -
  have "list_all (\<lambda>(p, s). get e p = JUndef \<or> valid (constrainIntegers s) (get e p)) ps \<longleftrightarrow>
      list_all (\<lambda>(p, s). get d p = JUndef \<or> valid (constrainIntegers s) (get d p)) ps"
    using assms(3) by (intro list.pred_cong) (force split: prod.split)+
  moreover have "list_all (\<lambda>r. get e r \<noteq> JUndef) rs \<longleftrightarrow> list_all (\<lambda>r. get d r \<noteq> JUndef) rs"
    using assms(3) by (intro list.pred_cong) auto
  ultimately show ?thesis
    using assms(1,2) by (simp add: narrow_simps valid_Open list.pred_map comp_def case_prod_unfold)
qed

lemmas diagnostics_schemas =
  sch_diagnostics_def sch_diagnostics_Delivery_def sch_diagnostics_Phase_def
  sch_responseMetadata_Diagnostics_def sch_responseMetadata_Delivery_def sch_responseMetadata_Phase_def
  sch_transportError_Diagnostics_def sch_transportError_Delivery_def sch_transportError_Phase_def
  sch_requestStatus_Diagnostics_def sch_requestStatus_Delivery_def sch_requestStatus_Phase_def

lemma same_diagnostics:
  "sch_responseMetadata_Diagnostics = sch_diagnostics" "sch_transportError_Diagnostics = sch_diagnostics"
  "sch_requestStatus_Diagnostics = sch_diagnostics"
  by (simp_all add: diagnostics_schemas)

subsection \<open>Normalized diagnostics\<close>

definition span_filled :: "jsval \<Rightarrow> jsstr \<Rightarrow> jsval" where
  "span_filled v k =
     (if get v ''spanId'' = JUndef \<and> k = js ''spanId'' then legacySpanId
      else if get v ''spanId'' = JUndef \<and> get v ''traceId'' = JUndef \<and> k = js ''traceId'' then legacyTraceId
      else js_prop v k)"

lemma schemaDiagnostics_filled:
  assumes "has_own (JObj ps) (js ''spanId'') \<longrightarrow> get (JObj ps) ''spanId'' \<noteq> JUndef"
    and "has_own (JObj ps) (js ''traceId'') \<longrightarrow> get (JObj ps) ''traceId'' \<noteq> JUndef"
  shows "js_prop (schemaDiagnostics (JObj ps)) k = span_filled (JObj ps) k"
proof (cases "has_own (JObj ps) (js ''spanId'')")
  case True
  with assms(1) have "get (JObj ps) ''spanId'' \<noteq> JUndef" by blast
  with True show ?thesis by (simp add: schemaDiagnostics_def span_filled_def del: js_prop.simps)
next
  case False
  note span = js_prop_not_own [OF this]
  show ?thesis
  proof (cases "has_own (JObj ps) (js ''traceId'')")
    case True
    with False span assms(2) show ?thesis by (simp add: schemaDiagnostics_def span_filled_def del: js_prop.simps)
  next
    case no_trace: False
    with False span js_prop_not_own [OF this] show ?thesis
      by (simp add: schemaDiagnostics_def span_filled_def del: js_prop.simps)
  qed
qed

lemma schemaDiagnostics_object [simp]: "has_type TObject (schemaDiagnostics (JObj ps))"
  by (simp add: schemaDiagnostics_def)

lemma valid_diagnostics_required:
  assumes "validateWire Diagnostics d" and "n \<in> {''requestId'', ''traceId'', ''spanId'', ''attempt'', ''delivery'', ''tlsProfile''}"
  shows "get d n \<noteq> JUndef"
  using assms by (auto simp: validateWire_schema sch_diagnostics_def narrow_simps valid_Open)

text \<open>In accepted diagnostics a missing span or trace is not an own property either.\<close>

lemma diagnostics_own:
  assumes "diagnostics v r a"
  obtains ps where "v = JObj ps" "has_own (JObj ps) (js ''spanId'') \<longrightarrow> get (JObj ps) ''spanId'' \<noteq> JUndef"
    "has_own (JObj ps) (js ''traceId'') \<longrightarrow> get (JObj ps) ''traceId'' \<noteq> JUndef"
proof -
  from assms have "opaque (get v ''requestId'')" and valid: "validateWire Diagnostics (schemaDiagnostics v)"
    by (auto simp: diagnostics_def)
  then obtain ps where v: "v = JObj ps" by (cases v) auto
  note req = valid_diagnostics_required [OF valid]
  have span: "has_own v (js ''spanId'') \<longrightarrow> get v ''spanId'' \<noteq> JUndef"
    using req [of "''spanId''"] by (auto simp: schemaDiagnostics_def v simp del: js_prop.simps)
  have "has_own v (js ''traceId'') \<longrightarrow> get v ''traceId'' \<noteq> JUndef"
    using req [of "''traceId''"] by (auto simp: schemaDiagnostics_def v simp del: js_prop.simps split: if_splits)
  with span v that show ?thesis by blast
qed

lemma copyDiagnostics_own:
  assumes "copyDiagnostics v = JObj ps" and "k \<in> {''spanId'', ''traceId''}" and "has_own (JObj ps) (js k)"
  shows "get (JObj ps) k \<noteq> JUndef"
proof -
  have "js k \<in> fst ` set (pick v diagnostic_scalars @ pick_opt v diagnostic_optional)"
    using assms(1,3) by (simp add: copyDiagnostics_def has_own_JObj)
  moreover have "js k \<notin> js ` set diagnostic_scalars"
    using assms(2) by (auto simp: diagnostic_scalars_def)
  ultimately have "get v k \<noteq> JUndef" by (rule own_pick_opt)
  moreover have "get (copyDiagnostics v) k = get v k"
    using assms(2) by (intro get_copyDiagnostics_documented) (auto simp: documented_names)
  ultimately show ?thesis using assms(1) by simp
qed

lemma copyDiagnostics_valid:
  assumes "diagnostics v r a"
  shows "validateWire Diagnostics (schemaDiagnostics (copyDiagnostics v))"
proof -
  obtain ps where v: "v = JObj ps" and own: "has_own (JObj ps) (js ''spanId'') \<longrightarrow> get (JObj ps) ''spanId'' \<noteq> JUndef"
    "has_own (JObj ps) (js ''traceId'') \<longrightarrow> get (JObj ps) ''traceId'' \<noteq> JUndef"
    using diagnostics_own [OF assms] .
  obtain qs where c: "copyDiagnostics v = JObj qs" by (simp add: copyDiagnostics_def)
  have "js_prop (schemaDiagnostics (copyDiagnostics v)) k = span_filled (copyDiagnostics v) k" for k
    unfolding c using copyDiagnostics_own [OF c] by (intro schemaDiagnostics_filled) auto
  then have agree: "get (schemaDiagnostics (copyDiagnostics v)) n = get (schemaDiagnostics v) n"
    if "n \<in> set documented" for n
    using that schemaDiagnostics_filled [OF own] v
    by (simp add: span_filled_def documented_names [THEN equalityD2, THEN subsetD] del: js_prop.simps)
  have "validateWire Diagnostics (schemaDiagnostics v)" using assms by (simp add: diagnostics_def)
  then show ?thesis
    unfolding validateWire_schema wire_schema.simps sch_diagnostics_def
    using agree c v unfolding documented_names by (subst valid_open_agree [where d = "schemaDiagnostics v"]) auto
qed

lemma record_copyDiagnostics [simp]: "record_js (copyDiagnostics v)"
  by (simp add: copyDiagnostics_def)

lemma diagnostics_copied: "diagnostics v r a \<Longrightarrow> diagnostics (copyDiagnostics v) r a"
  using copyDiagnostics_valid [of v r a] by (auto simp only: diagnostics_def copied_fields record_copyDiagnostics)

subsection \<open>Copied envelopes\<close>

text \<open>An open object schema still holds when each named property is kept or replaced by a valid one.\<close>

lemma valid_open_transfer:
  assumes "valid (constrainIntegers (Schema [Properties ps, Required rs, Type [TObject]])) d" and "has_type TObject e"
    and "\<And>p s. (p, s) \<in> set ps \<Longrightarrow> get e p = get d p \<or> valid (constrainIntegers s) (get e p)"
    and "\<And>p. p \<in> set rs \<Longrightarrow> get e p = get d p \<or> get e p \<noteq> JUndef"
  shows "valid (constrainIntegers (Schema [Properties ps, Required rs, Type [TObject]])) e"
  using assms by (fastforce simp: narrow_simps valid_Open list_all_iff)

lemma headerPairs_copy: "headerPairs v \<Longrightarrow> copy_pairs v = v"
proof -
  have pair: "JArr [item p 0, item p 1] = p" if "header_pair p" for p
    using that by (cases p rule: header_pair.cases) (simp_all add: item_def)
  assume v: "headerPairs v"
  then obtain xs where "v = JArr xs" "list_all header_pair xs"
    by (auto simp: headerPairs_def is_array_iff)
  moreover from this(2) have "map (\<lambda>p. JArr [item p 0, item p 1]) xs = xs"
    by (intro map_idI pair) (simp add: list_all_iff)
  ultimately show ?thesis by (simp add: copy_pairs_def)
qed

definition normalized_diagnostics :: "jsval \<Rightarrow> jsval" where
  "normalized_diagnostics v =
     JObj (set_prop (spread_object v) (js ''diagnostics'') (schemaDiagnostics (get v ''diagnostics'')))"

lemma envelope_responseMetadata:
  "validateDiagnosticEnvelope ResponseMetadata v \<longleftrightarrow> validateWire ResponseMetadata v \<or>
     record_js v \<and> record_js (get v ''diagnostics'') \<and> validateWire ResponseMetadata (normalized_diagnostics v)"
  by (auto simp: validateDiagnosticEnvelope_def normalized_diagnostics_def Let_def)

lemma get_normalized [simp]:
  "js_prop (normalized_diagnostics (JObj ps)) k =
     (if k = js ''diagnostics'' then schemaDiagnostics (get (JObj ps) ''diagnostics'') else js_prop (JObj ps) k)"
  by (simp add: normalized_diagnostics_def del: js_prop.simps)

lemma get_copyResponseMetadata:
  assumes "headerPairs (get v ''headers'')"
  shows "js_prop (copyResponseMetadata v) k =
    (if k = js ''diagnostics'' then copyDiagnostics (get v ''diagnostics'')
     else if k \<in> js ` {''requestId'', ''status'', ''headers'', ''cookieRevision''} then js_prop v k else JUndef)"
  using assms by (auto simp: copyResponseMetadata_def headerPairs_copy map_of_pick_opt)

lemma responseMetadata_copied:
  assumes "responseMetadata v r a"
  shows "responseMetadata (copyResponseMetadata v) r a"
proof -
  from assms have diag: "diagnostics (get v ''diagnostics'') (Some r) (Some a)" and headers: "headerPairs (get v ''headers'')"
    and env: "validateDiagnosticEnvelope ResponseMetadata v" and id: "get v ''requestId'' = JStr r"
    by (auto simp: responseMetadata_def)
  obtain ps where v: "v = JObj ps" using id by (cases v) auto
  obtain qs where c: "copyResponseMetadata v = JObj qs" by (simp add: copyResponseMetadata_def)
  note got = get_copyResponseMetadata [OF headers]
  obtain d where d: "validateWire ResponseMetadata d" "\<And>k. k \<noteq> js ''diagnostics'' \<Longrightarrow> js_prop d k = js_prop v k"
    using env v unfolding envelope_responseMetadata by (metis get_normalized)
  define n where "n = normalized_diagnostics (copyResponseMetadata v)"
  have read_n: "js_prop n k = (if k = js ''diagnostics'' then schemaDiagnostics (copyDiagnostics (get v ''diagnostics''))
      else js_prop (copyResponseMetadata v) k)" for k
    unfolding n_def using get_normalized [of qs k] got by (simp only: c) simp
  have obj: "has_type TObject n" by (simp add: n_def normalized_diagnostics_def)
  have new: "valid (constrainIntegers sch_diagnostics) (get n ''diagnostics'')" "get n ''diagnostics'' \<noteq> JUndef"
    using copyDiagnostics_valid [OF diag] read_n
    by (simp_all add: validateWire_schema copyDiagnostics_def schemaDiagnostics_def)
  have keep: "get n ''requestId'' = get d ''requestId''" "get n ''status'' = get d ''status''"
      "get n ''headers'' = get d ''headers''" "get n ''cookieRevision'' = get d ''cookieRevision''"
    by (simp_all add: read_n got d(2))
  have "validateWire ResponseMetadata n"
    unfolding validateWire_schema wire_schema.simps sch_responseMetadata_def same_diagnostics
    by (rule valid_open_transfer [OF d(1) [unfolded validateWire_schema wire_schema.simps sch_responseMetadata_def
            same_diagnostics] obj]) (use new keep in auto)
  then show ?thesis
    using assms diagnostics_copied [OF diag] got c unfolding n_def
    by (auto simp: responseMetadata_def envelope_responseMetadata copied_fields simp del: js_prop.simps)
qed

subsection \<open>Copied contexts\<close>

lemma copied_identity:
  assumes "valid (constrainIntegers sch_contextInfo_BrowserIdentity) i"
  shows "valid (constrainIntegers sch_contextInfo_BrowserIdentity)
    (JObj (pick i [''tlsProfile'', ''emulateHeaders''] @ pick_opt i [''userAgent'']))"
proof -
  define c where "c = JObj (pick i [''tlsProfile'', ''emulateHeaders''] @ pick_opt i [''userAgent''])"
  have "get c ''tlsProfile'' = get i ''tlsProfile''" "get c ''emulateHeaders'' = get i ''emulateHeaders''"
      "get c ''userAgent'' = get i ''userAgent''" "has_type TObject c"
    unfolding c_def js_prop_pick by simp_all
  moreover have "set (js_keys c) \<subseteq> js ` {''emulateHeaders'', ''tlsProfile'', ''userAgent''}"
    by (auto simp: c_def pick_def pick_opt_def split: if_splits)
  ultimately show ?thesis
    using assms unfolding c_def [symmetric]
    by (auto simp: sch_contextInfo_BrowserIdentity_def narrow_simps valid_Closed list_all_iff)
qed

lemma get_copyContextInfo:
  "get (copyContextInfo v) ''contextId'' = get v ''contextId''" "get (copyContextInfo v) ''partition'' = get v ''partition''"
  "get (copyContextInfo v) ''expiresAtMs'' = get v ''expiresAtMs''" "get (copyContextInfo v) ''revision'' = get v ''revision''"
  "get (copyContextInfo v) ''cookieMode'' = get v ''cookieMode''"
  "get (copyContextInfo v) ''identity'' = JObj (pick (get v ''identity'') [''tlsProfile'', ''emulateHeaders''] @
     pick_opt (get v ''identity'') [''userAgent''])"
  by (simp_all add: copyContextInfo_def pick_def)

lemma copyContextInfo_object: "has_type TObject (copyContextInfo v)"
  by (simp add: copyContextInfo_def)

lemma contextInfo_copied:
  assumes "contextInfo v"
  shows "contextInfo (copyContextInfo v)"
proof -
  have valid: "valid (constrainIntegers sch_contextInfo) v" using assms by (simp add: contextInfo_def validateWire_schema)
  then have identity: "valid (constrainIntegers sch_contextInfo_BrowserIdentity) (get v ''identity'')"
    by (auto simp: sch_contextInfo_def narrow_simps valid_Open)
  note new = copied_identity [OF identity, folded get_copyContextInfo(6)]
  have "get (copyContextInfo v) ''identity'' \<noteq> JUndef" by (simp add: get_copyContextInfo)
  with new have "valid (constrainIntegers sch_contextInfo) (copyContextInfo v)"
    unfolding sch_contextInfo_def
    by (intro valid_open_transfer [OF valid [unfolded sch_contextInfo_def] copyContextInfo_object])
      (auto simp: get_copyContextInfo(1-5))
  moreover have "get (get (copyContextInfo v) ''identity'') ''tlsProfile'' = get (get v ''identity'') ''tlsProfile''"
      "get (get (copyContextInfo v) ''identity'') ''userAgent'' = get (get v ''identity'') ''userAgent''"
      "record_js (get (copyContextInfo v) ''identity'')" "record_js (copyContextInfo v)"
    unfolding get_copyContextInfo js_prop_pick record_has_type using copyContextInfo_object by simp_all
  ultimately show ?thesis
    using assms by (simp add: contextInfo_def validateWire_schema get_copyContextInfo(1-5))
qed

subsection \<open>Sample values\<close>

text \<open>Diagnostics of an older service (no span, no trace), a response and a context.\<close>

definition sample_diagnostics :: jsval where
  "sample_diagnostics = JObj
     [(js ''requestId'', jstr ''r1''), (js ''attempt'', jint 1), (js ''tlsProfile'', jstr ''chrome_137''),
      (js ''phase'', jstr ''upstream''), (js ''delivery'', jstr ''response_started''), (js ''queueMs'', jint 0),
      (js ''headersMs'', jint 12), (js ''bodyMs'', JNull), (js ''totalMs'', jint 12), (js ''requestBytes'', jint 0),
      (js ''responseBytes'', jint 0), (js ''hop'', jstr ''edge'')]"

definition sample_response :: jsval where
  "sample_response = JObj
     [(js ''requestId'', jstr ''r1''), (js ''status'', jint 200), (js ''headers'', JArr [JArr [jstr ''etag'', jstr ''x'']]),
      (js ''diagnostics'', sample_diagnostics), (js ''cookieRevision'', jint 3)]"

definition sample_context :: jsval where
  "sample_context = JObj
     [(js ''contextId'', jstr ''c1''), (js ''partition'', jstr ''p''), (js ''expiresAtMs'', jint 1000), (js ''revision'', jint 0),
      (js ''cookieMode'', jstr ''managed''),
      (js ''identity'', JObj [(js ''tlsProfile'', jstr ''chrome_137''), (js ''emulateHeaders'', JBool True)])]"

lemma sample_patterns: "re_opaque (js ''r1'')" "re_opaque (js ''c1'')" "re_opaque (js ''p'')" "re_profile (js ''chrome_137'')"
  by (simp_all add: pattern_defs js_def)

lemma sample_pair: "header_pair (JArr [jstr ''etag'', jstr ''x''])"
  by (simp add: token_unit_def one_line_def pattern_defs js_def)

lemma sample_diagnostics_valid: "validateWire Diagnostics (schemaDiagnostics sample_diagnostics)"
  by (simp add: sample_diagnostics_def schemaDiagnostics_def has_own_JObj validateWire_schema diagnostics_schemas
      narrow_simps valid_simps legacySpanId_def legacyTraceId_def MAX_SAFE_INTEGER_def)

lemma sample_diagnostics_ok: "diagnostics sample_diagnostics (Some (js ''r1'')) (Some (Num 1))"
  using sample_diagnostics_valid sample_patterns
  by (simp add: diagnostics_def str_test_def strict_eq_def) (simp add: sample_diagnostics_def)

lemma sample_diagnostics_defined: "sample_diagnostics \<noteq> JUndef"
  by (simp add: sample_diagnostics_def)

lemma sample_response_ok: "responseMetadata sample_response (js ''r1'') (Num 1)"
proof -
  have "validateWire ResponseMetadata (normalized_diagnostics sample_response)"
    using sample_diagnostics_valid sample_diagnostics_defined
    by (simp add: sample_response_def normalized_diagnostics_def validateWire_schema sch_responseMetadata_def
        same_diagnostics narrow_simps valid_simps MAX_SAFE_INTEGER_def schemaDiagnostics_def)
  moreover have "record_js sample_diagnostics" "get sample_diagnostics ''delivery'' = jstr ''response_started''"
    by (simp_all add: sample_diagnostics_def)
  ultimately show ?thesis
    using sample_diagnostics_ok sample_pair
    by (simp add: responseMetadata_def envelope_responseMetadata del: header_pair.simps)
      (simp add: sample_response_def headerPairs_def in_range_def MAX_SAFE_INTEGER_def)
qed

lemma sample_context_ok: "contextInfo sample_context"
proof -
  have "validateWire ContextInfo sample_context"
    by (simp add: sample_context_def validateWire_schema sch_contextInfo_def sch_contextInfo_BrowserIdentity_def
        sch_contextInfo_CookieMode_def narrow_simps valid_simps MAX_SAFE_INTEGER_def)
  then show ?thesis
    using sample_patterns by (simp add: contextInfo_def) (simp add: sample_context_def str_test_def)
qed

subsection \<open>Properties\<close>

text \<open>
  The diagnostics the client makes up itself are always well-formed: whatever request id,
  attempt and profile they are asked for, \<open>initialDiagnostics\<close> passes the client's own guard.
\<close>

theorem initialDiagnostics_accepted: "diagnostics (initialDiagnostics r a p) None None"
proof -
  let ?d = "initialDiagnostics r a p"
  obtain s n q where d: "?d = JObj [(js ''requestId'', JStr s), (js ''attempt'', JNum n), (js ''tlsProfile'', JStr q),
      (js ''phase'', jstr ''preparing''), (js ''delivery'', jstr ''not_started''),
      (js ''queueMs'', jint 0), (js ''headersMs'', JNull), (js ''bodyMs'', JNull),
      (js ''totalMs'', jint 0), (js ''requestBytes'', jint 0), (js ''responseBytes'', jint 0)]"
    and s: "re_opaque s" and n: "isSafeInteger n" "\<not> num_less n (Num 0)" and q: "re_profile q"
  proof (rule that)
    show "?d = JObj [(js ''requestId'', JStr (if re_opaque r then r else js ''local'')),
      (js ''attempt'', JNum (if isSafeInteger a \<and> \<not> num_less a (Num 0) then a else Num 0)),
      (js ''tlsProfile'', JStr (if re_profile p then p else js ''unknown'')),
      (js ''phase'', jstr ''preparing''), (js ''delivery'', jstr ''not_started''),
      (js ''queueMs'', jint 0), (js ''headersMs'', JNull), (js ''bodyMs'', JNull),
      (js ''totalMs'', jint 0), (js ''requestBytes'', jint 0), (js ''responseBytes'', jint 0)]"
      by (simp add: initialDiagnostics_def)
  qed (simp_all add: pattern_defs js_def isSafeInteger_def MAX_SAFE_INTEGER_def)
  from n(1) obtain i where i: "n = Num (of_int i)" "i \<le> MAX_SAFE_INTEGER" "0 \<le> i"
    using n(2) by (elim isSafeIntegerE) auto
  have "q \<noteq> []" using q by (auto simp: pattern_defs)
  moreover have "validateWire Diagnostics (schemaDiagnostics ?d)"
    using i by (simp add: d schemaDiagnostics_def has_own_JObj validateWire_schema diagnostics_schemas narrow_simps valid_simps
        legacySpanId_def legacyTraceId_def MAX_SAFE_INTEGER_def)
  ultimately show ?thesis using s q by (simp add: diagnostics_def d str_test_def)
qed

text \<open>
  Copying keeps accepted diagnostics acceptable, for the same request and attempt: also
  those of an older service, whose missing span and trace are filled in for the schema only.
\<close>

theorem copyDiagnostics_accepted:
  assumes "diagnostics v r a"
  shows "diagnostics (copyDiagnostics v) r a"
  using assms by (rule diagnostics_copied)

theorem copyDiagnostics_accepted_witness: "diagnostics (copyDiagnostics sample_diagnostics) (Some (js ''r1'')) (Some (Num 1))"
  by (rule copyDiagnostics_accepted [OF sample_diagnostics_ok])

text \<open>
  The response metadata handed to the caller is accepted by the guard that admitted the
  metadata received, with the same request id, status, headers and cookie revision.
\<close>

theorem copyResponseMetadata_accepted:
  assumes "responseMetadata v r a"
  shows "responseMetadata (copyResponseMetadata v) r a \<and>
    (\<forall>n \<in> {''requestId'', ''status'', ''headers'', ''cookieRevision''}.
      get (copyResponseMetadata v) n = get v n)"
  using responseMetadata_copied [OF assms] assms
  by (simp add: responseMetadata_def get_copyResponseMetadata)

theorem copyResponseMetadata_accepted_witness:
  "responseMetadata (copyResponseMetadata sample_response) (js ''r1'') (Num 1)"
  using copyResponseMetadata_accepted [OF sample_response_ok] by blast

text \<open>
  The context information handed to the caller is accepted by the guard that admitted the
  one received, and names the same context, partition, revision, expiry, mode and profile.
\<close>

theorem copyContextInfo_accepted:
  assumes "contextInfo v"
  shows "contextInfo (copyContextInfo v) \<and>
    (\<forall>n \<in> {''contextId'', ''partition'', ''expiresAtMs'', ''revision'', ''cookieMode''}.
      get (copyContextInfo v) n = get v n) \<and>
    get (get (copyContextInfo v) ''identity'') ''tlsProfile'' = get (get v ''identity'') ''tlsProfile''"
  using contextInfo_copied [OF assms] by (auto simp: get_copyContextInfo js_prop_pick simp del: js_prop.simps)

theorem copyContextInfo_accepted_witness: "contextInfo (copyContextInfo sample_context)"
  using copyContextInfo_accepted [OF sample_context_ok] by blast

text \<open>
  \<open>headersFrom\<close> keeps the caller's headers in order, drops exactly the three trace headers
  (in any case), and what it returns is a list of valid header pairs.
\<close>

theorem headersFrom_result:
  assumes "headersFrom value = Some hs"
  shows "headerPairs (JArr hs) \<and> list_all (\<lambda>p. \<not> trace_header p) hs \<and>
    (\<exists>ps. header_candidates value = Some ps \<and> hs = filter (\<lambda>p. \<not> trace_header p) ps)"
  using assms by (auto simp: headersFrom_def headerPairs_def list_all_iff split: option.splits if_splits)

theorem headersFrom_result_witness:
  "list_all (\<lambda>p. \<not> trace_header p) [JArr [jstr ''accept'', jstr ''x'']]"
proof -
  have "headersFrom (HeadersRecord [(js ''Baggage'', jstr ''k''), (js ''accept'', jstr ''x'')]) =
      Some [JArr [jstr ''accept'', jstr ''x'']]"
    by (simp add: headersFrom_def headerPairs_def trace_header_def ascii_lower_def token_unit_def one_line_def
        pattern_defs js_def)
  from headersFrom_result [OF this] show ?thesis by blast
qed

end
