(* ===== verification/Service_Capabilities.thy ===== *)
theory Service_Capabilities
  imports Protocol Framing
begin

text \<open>
  The service description of \<open>src/packages/typescript/src/protocol.ts\<close>: the guard
  \<open>capabilities\<close>, the copy handed to callers and \<open>resolveProfile\<close>. Past the schema check the
  guard reads nested properties without further tests, so its model may fail: \<open>None\<close> is a
  \<open>TypeError\<close>, or an operand that the operators here are not defined for. The guard is shown
  never to reach \<open>None\<close>.
\<close>

subsection \<open>Operators that may throw\<close>

fun all_of :: "bool option list \<Rightarrow> bool option" where
  "all_of [] = Some True"
| "all_of (None # cs) = None"
| "all_of (Some False # cs) = Some False"
| "all_of (Some True # cs) = all_of cs"

definition read_prop :: "jsval \<Rightarrow> string \<Rightarrow> jsval option" where
  "read_prop v k = (if v = JUndef \<or> v = JNull then None else Some (get v k))"

fun nonempty :: "jsval \<Rightarrow> bool option" where
  "nonempty (JStr s) = Some (s \<noteq> [])"
| "nonempty (JArr xs) = Some (xs \<noteq> [])"
| "nonempty _ = None"

fun every :: "jsval \<Rightarrow> (jsval \<Rightarrow> bool option) \<Rightarrow> bool option" where
  "every (JArr xs) P = all_of (map P xs)"
| "every _ P = None"

definition every_entry :: "jsval \<Rightarrow> (jsstr \<Rightarrow> jsval \<Rightarrow> bool option) \<Rightarrow> bool option" where
  "every_entry v P = (if record_js v then all_of (map (\<lambda>(k, x). P k x) (spread_object v)) else None)"

fun js_includes :: "jsval \<Rightarrow> jsval \<Rightarrow> bool option" where
  "js_includes (JArr xs) x = Some (x \<in> set xs)"
| "js_includes _ x = None"

fun re_test :: "(jsstr \<Rightarrow> bool) \<Rightarrow> jsval \<Rightarrow> bool option" where
  "re_test re (JStr s) = Some (re s)"
| "re_test re _ = None"

fun at_most :: "nat \<Rightarrow> jsval \<Rightarrow> bool" where
  "at_most k (JNum n) = (\<not> isNaN n \<and> \<not> num_less (Num (of_nat k)) n)"
| "at_most k _ = False"

subsection \<open>The guard\<close>

definition CONTENT_TYPE :: string where
  "CONTENT_TYPE = ''application/vnd.ja3proxy''"

definition capabilities :: "jsval \<Rightarrow> bool option" where
  "capabilities value =
     (if \<not> validateWire Capabilities value \<or> \<not> record_js value then Some False
      else let raw = get value; profiles = raw ''profiles''; framing = raw ''framing''; modes = raw ''modes''
        in all_of
          [Some (raw ''service'' = jstr ''ja3proxy''),
           nonempty (raw ''build''), nonempty profiles, every profiles (re_test re_profile),
           every (raw ''headerDescriptors'') (\<lambda>item. all_of
             [Option.bind (read_prop item ''tlsProfile'') (js_includes profiles),
              map_option headerPairs (read_prop item ''headers'')]),
           every_entry (raw ''profileAliases'') (\<lambda>alias target. all_of
             [Some (re_profile alias), map_option Not (js_includes profiles (JStr alias)), js_includes profiles target]),
           map_option (\<lambda>x. x = jstr CONTENT_TYPE) (read_prop framing ''contentType''),
           map_option positive (read_prop framing ''maxMetadataBytes''),
           map_option (at_most FRAME_LIMIT) (read_prop framing ''maxMetadataBytes''),
           map_option positive (read_prop framing ''maxDataBytes''),
           map_option (at_most FRAME_LIMIT) (read_prop framing ''maxDataBytes''),
           map_option positive (read_prop framing ''maxUploadFrames''),
           every_entry (raw ''limits'') (\<lambda>key limit. Some
             (if key = js ''maxQueued'' \<or> key = js ''maxQueuedPerPartition'' then nonnegativeInteger limit else positive limit)),
           Option.bind (read_prop modes ''stream'') (\<lambda>m. js_includes m (jstr ''upload'')),
           Option.bind (read_prop modes ''stream'') (\<lambda>m. js_includes m (jstr ''download'')),
           Option.bind (read_prop modes ''cancel'') (\<lambda>m. js_includes m (jstr ''request'')),
           Option.bind (read_prop modes ''cancel'') (\<lambda>m. js_includes m (jstr ''stream-drop''))])"

definition resolveProfile :: "jsval \<Rightarrow> jsstr \<Rightarrow> jsval" where
  "resolveProfile caps name =
     (if JStr name \<in> set (array_items (get caps ''profiles'')) then JStr name
      else if has_own (get caps ''profileAliases'') name then js_prop (get caps ''profileAliases'') name
      else JUndef)"

definition limit_names :: "string list" where
  "limit_names = [''maxRequestBytes'', ''maxResponseBytes'', ''maxTimeoutMs'', ''maxControlBytes'', ''maxHeaders'',
     ''maxHeaderBytes'', ''maxConcurrent'', ''maxConcurrentPerPartition'', ''maxQueued'', ''maxQueuedPerPartition'',
     ''maxContexts'', ''maxContextsPerPartition'', ''contextIdleTtlMs'', ''contextMaxIdleTtlMs'', ''contextMaxAgeMs'',
     ''maxCookies'', ''maxCookieBytes'', ''maxEnvelopes'', ''envelopeTimeoutMs'', ''maxCookieSize'',
     ''maxAllowedOrigins'', ''registryCapacity'', ''registryTtlMs'']"

definition copy_array :: "jsval \<Rightarrow> jsval" where
  "copy_array v = JArr (array_items v)"

definition copyCapabilities :: "jsval \<Rightarrow> jsval" where
  "copyCapabilities value = (let raw = get value; framing = raw ''framing''; modes = raw ''modes'' in JObj
     [(js ''service'', raw ''service''), (js ''build'', raw ''build''), (js ''profiles'', copy_array (raw ''profiles'')),
      (js ''headerDescriptors'', JArr (map (\<lambda>d. JObj [(js ''tlsProfile'', get d ''tlsProfile''),
         (js ''headers'', copy_pairs (get d ''headers''))]) (array_items (raw ''headerDescriptors'')))),
      (js ''profileAliases'', JObj (spread_object (raw ''profileAliases''))),
      (js ''framing'', JObj (pick framing [''contentType'', ''maxMetadataBytes'', ''maxDataBytes'', ''maxUploadFrames''])),
      (js ''modes'', JObj (map (\<lambda>m. (js m, copy_array (get modes m))) [''egress'', ''cookies'', ''stream'', ''cancel''])),
      (js ''limits'', JObj (pick (raw ''limits'') limit_names))])"

subsection \<open>The operators on well-typed operands\<close>

lemma all_of_None: "all_of cs = None \<Longrightarrow> None \<in> set cs"
  by (induction cs rule: all_of.induct) auto

lemma all_of_total: "None \<notin> set cs \<Longrightarrow> \<exists>b. all_of cs = Some b"
  using all_of_None by (cases "all_of cs") auto

lemma all_of_True [simp]: "all_of cs = Some True \<longleftrightarrow> list_all (\<lambda>c. c = Some True) cs"
  by (induction cs rule: all_of.induct) auto

lemma every_total: "(\<And>x. x \<in> set xs \<Longrightarrow> P x \<noteq> None) \<Longrightarrow> every (JArr xs) P \<noteq> None"
  using all_of_total [of "map P xs"] by force

lemma every_True [simp]: "every v P = Some True \<longleftrightarrow> is_array v \<and> list_all (\<lambda>x. P x = Some True) (array_items v)"
  by (cases v) (auto simp: list_all_iff)

lemma read_prop_object [simp]: "has_type TObject v \<Longrightarrow> read_prop v k = Some (get v k)"
  by (cases v) (simp_all add: read_prop_def)

lemma every_entry_total:
  assumes "has_type TObject v" and "\<And>k x. P k x \<noteq> None"
  shows "every_entry v P \<noteq> None"
proof -
  have "None \<notin> set (map (\<lambda>(k, x). P k x) (spread_object v))" by (auto simp: assms(2) [THEN not_sym])
  from all_of_total [OF this] assms(1) show ?thesis by (auto simp: every_entry_def record_has_type)
qed

lemma every_entry_True [simp]:
  "every_entry v P = Some True \<longleftrightarrow> record_js v \<and> list_all (\<lambda>(k, x). P k x = Some True) (spread_object v)"
  by (auto simp: every_entry_def list_all_iff)

subsection \<open>What the schema guarantees\<close>

lemma string_schema [simp]: "valid (Schema [Type [TString]]) w \<longleftrightarrow> (\<exists>s. w = JStr s)"
  by (cases w) (simp_all add: valid_Type)

lemma capabilities_typed:
  assumes "validateWire Capabilities v"
  shows "has_type TObject v" "\<exists>s. get v ''build'' = JStr s"
    "\<exists>ps. get v ''profiles'' = JArr (map JStr ps)"
    "\<exists>ds. get v ''headerDescriptors'' = JArr ds \<and> list_all (\<lambda>d. has_type TObject d) ds"
    "has_type TObject (get v ''profileAliases'')" "has_type TObject (get v ''framing'')"
    "has_type TObject (get v ''limits'')" "has_type TObject (get v ''modes'')"
    "is_array (get (get v ''modes'') ''stream'')" "is_array (get (get v ''modes'') ''cancel'')"
proof -
  have strings: "\<exists>ps. xs = map JStr ps" if "list_all (\<lambda>x. \<exists>s. x = JStr s) xs" for xs
    using that by (induction xs) (auto intro: exI [of _ "_ # _"])
  from assms have v: "has_type TObject v \<and>
     valid (Schema [Type [TString]]) (get v ''build'') \<and>
     valid (Schema [Items (Schema [Type [TString]]), Type [TArray]]) (get v ''profiles'') \<and>
     valid (constrainIntegers (Schema [Items sch_capabilities_HeaderDescriptor, Type [TArray]])) (get v ''headerDescriptors'') \<and>
     valid (Schema [Additional (Schema [Type [TString]]), Type [TObject]]) (get v ''profileAliases'') \<and>
     valid (constrainIntegers sch_capabilities_FramingCapabilities) (get v ''framing'') \<and>
     valid (constrainIntegers sch_capabilities_CapabilityLimits) (get v ''limits'') \<and>
     valid (constrainIntegers sch_capabilities_CapabilityModes) (get v ''modes'')"
    by (auto simp: validateWire_schema sch_capabilities_def narrow_simps valid_Open)
  then show "has_type TObject v" "\<exists>s. get v ''build'' = JStr s" by simp_all
  from v show "\<exists>ps. get v ''profiles'' = JArr (map JStr ps)"
    by (auto simp: valid_Array is_array_iff dest: strings)
  from v show "\<exists>ds. get v ''headerDescriptors'' = JArr ds \<and> list_all (\<lambda>d. has_type TObject d) ds"
    by (auto simp: narrow_simps valid_Array is_array_iff sch_capabilities_HeaderDescriptor_def valid_Open list_all_iff)
  from v show "has_type TObject (get v ''profileAliases'')" by (simp add: valid_Map)
  from v show "has_type TObject (get v ''framing'')"
    by (simp add: sch_capabilities_FramingCapabilities_def narrow_simps valid_Open)
  from v show "has_type TObject (get v ''limits'')"
    by (simp add: sch_capabilities_CapabilityLimits_def narrow_simps valid_Open)
  from v have "valid (constrainIntegers sch_capabilities_CapabilityModes) (get v ''modes'')" by simp
  then show "has_type TObject (get v ''modes'')" "is_array (get (get v ''modes'') ''stream'')"
      "is_array (get (get v ''modes'') ''cancel'')"
    by (auto simp: sch_capabilities_CapabilityModes_def narrow_simps valid_Open valid_Array)
qed

lemma capabilities_never_throws: "\<exists>b. capabilities v = Some b"
proof (cases "validateWire Capabilities v \<and> record_js v")
  case True
  note typed = capabilities_typed [of v]
  from True obtain ps ds ss cs b where profiles: "get v ''profiles'' = JArr (map JStr ps)"
    and descriptors: "get v ''headerDescriptors'' = JArr ds" "list_all (\<lambda>d. has_type TObject d) ds"
    and modes: "get (get v ''modes'') ''stream'' = JArr ss" "get (get v ''modes'') ''cancel'' = JArr cs"
    and build: "get v ''build'' = JStr b"
    using typed by (auto simp: is_array_iff)
  have "every (get v ''profiles'') (re_test re_profile) \<noteq> None"
    unfolding profiles by (rule every_total) auto
  moreover have "every (get v ''headerDescriptors'') (\<lambda>item. all_of
      [Option.bind (read_prop item ''tlsProfile'') (js_includes (get v ''profiles'')),
       map_option headerPairs (read_prop item ''headers'')]) \<noteq> None"
    unfolding descriptors(1) using descriptors(2) profiles
    by (intro every_total) (auto simp: list_all_iff intro!: all_of_total)
  moreover have "every_entry (get v ''profileAliases'') (\<lambda>alias target. all_of
      [Some (re_profile alias), map_option Not (js_includes (get v ''profiles'') (JStr alias)),
       js_includes (get v ''profiles'') target]) \<noteq> None"
    using True typed(5) profiles by (intro every_entry_total) (auto intro!: all_of_total)
  moreover have "every_entry (get v ''limits'') (\<lambda>key limit. Some
      (if key = js ''maxQueued'' \<or> key = js ''maxQueuedPerPartition'' then nonnegativeInteger limit else positive limit)) \<noteq> None"
    using True typed(7) by (intro every_entry_total) auto
  ultimately show ?thesis
    using True typed(6,8) modes build profiles unfolding capabilities_def Let_def
    by (simp del: every.simps) (rule all_of_total, auto)
qed (auto simp: capabilities_def)

text \<open>The limits: 23 required natural numbers, listed in another order by the schema and by the copy.\<close>

fun kw_properties :: "schema \<Rightarrow> (string \<times> schema) list" where
  "kw_properties (Schema ks) = (case ks of Properties ps # _ \<Rightarrow> ps | _ \<Rightarrow> [])"

fun kw_required :: "schema \<Rightarrow> string list" where
  "kw_required (Schema ks) = (case ks of _ # Required rs # _ \<Rightarrow> rs | _ \<Rightarrow> [])"

abbreviation natural :: schema where
  "natural \<equiv> Schema [Minimum 0, Type [TInteger]]"

lemma limits_shape:
  "sch_capabilities_CapabilityLimits = Schema [Properties (kw_properties sch_capabilities_CapabilityLimits),
     Required (kw_required sch_capabilities_CapabilityLimits), Type [TObject]]"
  "list_all (\<lambda>(p, s). s = natural) (kw_properties sch_capabilities_CapabilityLimits)"
  by (simp_all add: sch_capabilities_CapabilityLimits_def)

lemma limits_names:
  "set (map fst (kw_properties sch_capabilities_CapabilityLimits)) = set limit_names"
  "set (kw_required sch_capabilities_CapabilityLimits) = set limit_names"
  by code_simp+

lemma natural_defined: "valid (constrainIntegers natural) w \<Longrightarrow> w \<noteq> JUndef"
  by (auto simp: narrow_simps valid_simps)

lemma valid_limits:
  "valid (constrainIntegers sch_capabilities_CapabilityLimits) d \<longleftrightarrow>
     has_type TObject d \<and> (\<forall>n \<in> set limit_names. valid (constrainIntegers natural) (get d n))"
proof -
  have "list_all (\<lambda>(p, s). get d p = JUndef \<or> valid (constrainIntegers s) (get d p)) (kw_properties sch_capabilities_CapabilityLimits)
      \<longleftrightarrow> (\<forall>n \<in> set limit_names. get d n = JUndef \<or> valid (constrainIntegers natural) (get d n))"
    using limits_shape(2) unfolding limits_names(1) [symmetric] by (fastforce simp: list_all_iff)
  then show ?thesis
    by (subst limits_shape(1), simp add: narrow_simps valid_Open list.pred_map comp_def case_prod_unfold)
      (use limits_names(2) natural_defined in \<open>fastforce simp: list_all_iff narrow_simps\<close>)
qed

subsection \<open>Profiles and aliases\<close>

lemma capabilities_profiles:
  assumes "capabilities v = Some True"
  obtains ps where "get v ''profiles'' = JArr (map JStr ps)" "list_all re_profile ps"
    "list_all (\<lambda>(k, x). re_profile k \<and> k \<notin> set ps \<and> (\<exists>p \<in> set ps. x = JStr p)) (spread_object (get v ''profileAliases''))"
proof -
  have "validateWire Capabilities v" using assms by (auto simp: capabilities_def split: if_splits)
  with capabilities_typed(3) obtain ps where ps: "get v ''profiles'' = JArr (map JStr ps)" by blast
  from assms have "list_all re_profile ps"
    "list_all (\<lambda>(k, x). re_profile k \<and> k \<notin> set ps \<and> (\<exists>p \<in> set ps. x = JStr p)) (spread_object (get v ''profileAliases''))"
    by (auto simp: capabilities_def ps Let_def list_all_iff image_iff split: if_splits)
  with ps that show ?thesis by blast
qed

lemma alias_read:
  assumes "has_own v k" and "list_all (\<lambda>(k, x). P k x) (spread_object v)" and "\<And>k n. \<not> P k (JNum n)"
  shows "P k (js_prop v k)"
proof (cases v)
  case (JObj ps)
  with assms(1) obtain x where "map_of ps k = Some x"
    by (auto simp: has_own_def dest: weak_map_of_SomeI)
  with assms(2) JObj show ?thesis by (auto simp: list_all_iff dest: map_of_SomeD)
next
  case (JBytes bs)
  with assms show ?thesis by (auto simp: has_own_def list_all_iff)
qed (use assms in \<open>auto simp: has_own_def\<close>)

lemma resolveProfile_cases:
  assumes "capabilities v = Some True"
  obtains "resolveProfile v name = JUndef"
  | p where "resolveProfile v name = JStr p" "re_profile p" "JStr p \<in> set (array_items (get v ''profiles''))"
proof -
  obtain ps where ps: "get v ''profiles'' = JArr (map JStr ps)" "list_all re_profile ps"
    and aliases: "list_all (\<lambda>(k, x). re_profile k \<and> k \<notin> set ps \<and> (\<exists>p \<in> set ps. x = JStr p)) (spread_object (get v ''profileAliases''))"
    using capabilities_profiles [OF assms] .
  show ?thesis
  proof (cases "JStr name \<in> set (array_items (get v ''profiles''))")
    case True
    with ps that(2) [of name] show ?thesis by (auto simp: resolveProfile_def list_all_iff)
  next
    case False
    note via = alias_read [OF _ aliases, of name]
    from False ps that via show ?thesis
      by (cases "has_own (get v ''profileAliases'') name") (auto simp: resolveProfile_def list_all_iff)
  qed
qed

subsection \<open>The copy\<close>

lemma get_copyCapabilities:
  "get (copyCapabilities v) ''service'' = get v ''service''" "get (copyCapabilities v) ''build'' = get v ''build''"
  "get (copyCapabilities v) ''profiles'' = copy_array (get v ''profiles'')"
  "get (copyCapabilities v) ''headerDescriptors'' = JArr (map (\<lambda>d. JObj [(js ''tlsProfile'', get d ''tlsProfile''),
     (js ''headers'', copy_pairs (get d ''headers''))]) (array_items (get v ''headerDescriptors'')))"
  "get (copyCapabilities v) ''profileAliases'' = JObj (spread_object (get v ''profileAliases''))"
  "get (copyCapabilities v) ''framing'' =
     JObj (pick (get v ''framing'') [''contentType'', ''maxMetadataBytes'', ''maxDataBytes'', ''maxUploadFrames''])"
  "get (copyCapabilities v) ''modes'' =
     JObj (map (\<lambda>m. (js m, copy_array (get (get v ''modes'') m))) [''egress'', ''cookies'', ''stream'', ''cancel''])"
  "get (copyCapabilities v) ''limits'' = JObj (pick (get v ''limits'') limit_names)"
  "has_type TObject (copyCapabilities v)"
  by (simp_all add: copyCapabilities_def Let_def)

lemma copy_array_id [simp]: "is_array v \<Longrightarrow> copy_array v = v"
  by (cases v) (simp_all add: copy_array_def)

lemma js_prop_pick_only: "js_prop (JObj (pick v ns)) k = (if k \<in> js ` set ns then js_prop v k else JUndef)"
  using js_prop_pick [of v ns "[]" k] by (simp add: pick_opt_def)

lemma own_value: "get v n \<noteq> JUndef \<Longrightarrow> (js n, get v n) \<in> set (spread_object v)"
  by (cases v) (auto split: option.splits dest: map_of_SomeD)

text \<open>Each part of the copy is valid where the part it copies is.\<close>

lemma copied_descriptor:
  assumes "valid (constrainIntegers sch_capabilities_HeaderDescriptor) d" and "headerPairs (get d ''headers'')"
  shows "valid (constrainIntegers sch_capabilities_HeaderDescriptor)
    (JObj [(js ''tlsProfile'', get d ''tlsProfile''), (js ''headers'', copy_pairs (get d ''headers''))])"
  using assms headerPairs_copy [OF assms(2)]
  by (auto simp: sch_capabilities_HeaderDescriptor_def narrow_simps valid_Open)

lemma copied_framing:
  assumes "valid (constrainIntegers sch_capabilities_FramingCapabilities) f"
  shows "valid (constrainIntegers sch_capabilities_FramingCapabilities)
    (JObj (pick f [''contentType'', ''maxMetadataBytes'', ''maxDataBytes'', ''maxUploadFrames'']))"
  using assms unfolding sch_capabilities_FramingCapabilities_def
  by (elim valid_open_transfer) (auto simp: js_prop_pick_only simp del: js_prop.simps)

lemma copied_modes:
  assumes "valid (constrainIntegers sch_capabilities_CapabilityModes) m"
  shows "valid (constrainIntegers sch_capabilities_CapabilityModes)
    (JObj (map (\<lambda>k. (js k, copy_array (get m k))) [''egress'', ''cookies'', ''stream'', ''cancel'']))"
  using assms by (simp add: sch_capabilities_CapabilityModes_def narrow_simps valid_Open valid_Array) (auto simp: copy_array_def)

lemma copied_limits:
  assumes "valid (constrainIntegers sch_capabilities_CapabilityLimits) l"
  shows "valid (constrainIntegers sch_capabilities_CapabilityLimits) (JObj (pick l limit_names))"
  using assms by (simp add: valid_limits js_prop_pick_only del: js_prop.simps)

lemma copied_aliases:
  assumes "has_type TObject a" and "list_all (\<lambda>(k, x). \<exists>p. x = JStr p) (spread_object a)"
  shows "valid (Schema [Additional (Schema [Type [TString]]), Type [TObject]]) (JObj (spread_object a))"
proof -
  have "\<exists>p. js_prop (JObj (spread_object a)) k = JStr p" if k: "k \<in> fst ` set (spread_object a)" for k
  proof -
    from k obtain x where "map_of (spread_object a) k = Some x" by (auto dest: weak_map_of_SomeI)
    with assms(2) show ?thesis by (auto simp: list_all_iff dest: map_of_SomeD)
  qed
  then show ?thesis by (simp add: valid_Map list_all_iff del: js_prop.simps)
qed

lemma capabilities_parts:
  assumes "validateWire Capabilities v"
  shows "valid (constrainIntegers (Schema [Items sch_capabilities_HeaderDescriptor, Type [TArray]])) (get v ''headerDescriptors'')"
    "valid (constrainIntegers sch_capabilities_FramingCapabilities) (get v ''framing'')"
    "valid (constrainIntegers sch_capabilities_CapabilityLimits) (get v ''limits'')"
    "valid (constrainIntegers sch_capabilities_CapabilityModes) (get v ''modes'')"
  using assms by (auto simp: validateWire_schema sch_capabilities_def narrow_simps valid_Open)

lemma capabilities_checked:
  assumes "capabilities v = Some True"
  shows "validateWire Capabilities v"
    "list_all (\<lambda>d. headerPairs (get d ''headers'')) (array_items (get v ''headerDescriptors''))"
    "list_all (\<lambda>(k, x). if k = js ''maxQueued'' \<or> k = js ''maxQueuedPerPartition'' then nonnegativeInteger x else positive x)
      (spread_object (get v ''limits''))"
proof -
  show valid: "validateWire Capabilities v" using assms by (auto simp: capabilities_def split: if_splits)
  show "list_all (\<lambda>d. headerPairs (get d ''headers'')) (array_items (get v ''headerDescriptors''))"
    using assms capabilities_typed(4) [OF valid] by (auto simp: capabilities_def Let_def list_all_iff split: if_splits)
  show "list_all (\<lambda>(k, x). if k = js ''maxQueued'' \<or> k = js ''maxQueuedPerPartition'' then nonnegativeInteger x else positive x)
      (spread_object (get v ''limits''))"
    using assms by (auto simp: capabilities_def Let_def list_all_iff split: if_splits)
qed

lemma copyCapabilities_valid:
  assumes "capabilities v = Some True"
  shows "validateWire Capabilities (copyCapabilities v)"
proof -
  define c where "c = copyCapabilities v"
  note read_c = get_copyCapabilities [of v, folded c_def]
  note checked = capabilities_checked [OF assms]
  note parts = capabilities_parts [OF checked(1)] and typed = capabilities_typed [OF checked(1)]
  obtain ps where profiles: "get v ''profiles'' = JArr (map JStr ps)"
    and aliases: "list_all (\<lambda>(k, x). re_profile k \<and> k \<notin> set ps \<and> (\<exists>p \<in> set ps. x = JStr p)) (spread_object (get v ''profileAliases''))"
    using capabilities_profiles [OF assms] .
  have "valid (Schema [Additional (Schema [Type [TString]]), Type [TObject]]) (get c ''profileAliases'')"
    unfolding read_c using typed(5) aliases by (intro copied_aliases) (auto simp: list_all_iff)
  moreover have "valid (constrainIntegers (Schema [Items sch_capabilities_HeaderDescriptor, Type [TArray]])) (get c ''headerDescriptors'')"
    using parts(1) checked(2) unfolding read_c
    by (auto simp: narrow_simps valid_Array list_all_iff intro!: copied_descriptor)
  moreover have "get c ''profiles'' = get v ''profiles''" using profiles by (simp add: read_c)
  moreover have "valid (constrainIntegers sch_capabilities_FramingCapabilities) (get c ''framing'')"
    "valid (constrainIntegers sch_capabilities_CapabilityLimits) (get c ''limits'')"
    "valid (constrainIntegers sch_capabilities_CapabilityModes) (get c ''modes'')"
    unfolding read_c by (intro copied_framing copied_limits copied_modes parts)+
  moreover have "get c ''profileAliases'' \<noteq> JUndef" "get c ''headerDescriptors'' \<noteq> JUndef" "get c ''framing'' \<noteq> JUndef"
      "get c ''limits'' \<noteq> JUndef" "get c ''modes'' \<noteq> JUndef"
    by (simp_all add: read_c)
  ultimately show ?thesis
    using read_c(1,2) unfolding c_def [symmetric] validateWire_schema wire_schema.simps sch_capabilities_def
    by (intro valid_open_transfer [OF checked(1) [unfolded validateWire_schema wire_schema.simps sch_capabilities_def] read_c(9)])
      (auto simp: narrow_simps)
qed

lemma copied_limit_entries:
  assumes "valid (constrainIntegers sch_capabilities_CapabilityLimits) l" and "list_all (\<lambda>(k, x). P k x) (spread_object l)"
  shows "list_all (\<lambda>(k, x). P k x) (pick l limit_names)"
proof -
  have "P (js n) (get l n)" if "n \<in> set limit_names" for n
    using own_value [of l n] natural_defined [of "get l n"] assms that by (auto simp: valid_limits list_all_iff)
  then show ?thesis by (simp add: pick_def list_all_iff)
qed

text \<open>The guard, once the schema has accepted the value.\<close>

lemma capabilities_iff:
  assumes "validateWire Capabilities v" and "get v ''profiles'' = JArr ps"
  shows "capabilities v = Some True \<longleftrightarrow>
    get v ''service'' = jstr ''ja3proxy'' \<and> nonempty (get v ''build'') = Some True \<and> ps \<noteq> [] \<and>
    list_all (\<lambda>p. re_test re_profile p = Some True) ps \<and>
    list_all (\<lambda>d. get d ''tlsProfile'' \<in> set ps \<and> headerPairs (get d ''headers'')) (array_items (get v ''headerDescriptors'')) \<and>
    list_all (\<lambda>(k, x). re_profile k \<and> JStr k \<notin> set ps \<and> x \<in> set ps) (spread_object (get v ''profileAliases'')) \<and>
    get (get v ''framing'') ''contentType'' = jstr CONTENT_TYPE \<and>
    list_all (\<lambda>n. positive (get (get v ''framing'') n) \<and> at_most FRAME_LIMIT (get (get v ''framing'') n))
      [''maxMetadataBytes'', ''maxDataBytes''] \<and> positive (get (get v ''framing'') ''maxUploadFrames'') \<and>
    list_all (\<lambda>(k, x). if k = js ''maxQueued'' \<or> k = js ''maxQueuedPerPartition'' then nonnegativeInteger x else positive x)
      (spread_object (get v ''limits'')) \<and>
    {jstr ''upload'', jstr ''download''} \<subseteq> set (array_items (get (get v ''modes'') ''stream'')) \<and>
    {jstr ''request'', jstr ''stream-drop''} \<subseteq> set (array_items (get (get v ''modes'') ''cancel''))"
proof -
  note typed = capabilities_typed [OF assms(1)]
  obtain ss cs ds where modes: "get (get v ''modes'') ''stream'' = JArr ss" "get (get v ''modes'') ''cancel'' = JArr cs"
    and ds: "get v ''headerDescriptors'' = JArr ds" "list_all (\<lambda>d. has_type TObject d) ds"
    using typed by (auto simp: is_array_iff)
  have "list_all (\<lambda>d. all_of [Option.bind (read_prop d ''tlsProfile'') (js_includes (JArr ps)),
        map_option headerPairs (read_prop d ''headers'')] = Some True) ds \<longleftrightarrow>
      list_all (\<lambda>d. get d ''tlsProfile'' \<in> set ps \<and> headerPairs (get d ''headers'')) ds"
    using ds(2) by (intro list.pred_cong) (auto simp: list_all_iff)
  then show ?thesis
    using assms typed(1,5-8) modes ds(1)
    by (simp add: capabilities_def Let_def record_has_type case_prod_unfold list.pred_map comp_def)
qed

lemma copyCapabilities_ok:
  assumes "capabilities v = Some True"
  shows "capabilities (copyCapabilities v) = Some True"
proof -
  define c where "c = copyCapabilities v"
  note read_c = get_copyCapabilities [of v, folded c_def]
  have valid: "validateWire Capabilities v" by (rule capabilities_checked(1) [OF assms])
  have valid_c: "validateWire Capabilities c" unfolding c_def by (rule copyCapabilities_valid [OF assms])
  obtain ps where ps: "get v ''profiles'' = JArr ps" using capabilities_typed(3) [OF valid] by auto
  then have ps_c: "get c ''profiles'' = JArr ps" by (simp add: read_c copy_array_def)
  note v = assms [unfolded capabilities_iff [OF valid ps]]
  have "list_all (\<lambda>d. get d ''tlsProfile'' \<in> set ps \<and> headerPairs (get d ''headers'')) (array_items (get c ''headerDescriptors''))"
    using v by (auto simp: read_c list_all_iff headerPairs_copy)
  moreover have "get (get c ''framing'') n = get (get v ''framing'') n"
    if "n \<in> {''contentType'', ''maxMetadataBytes'', ''maxDataBytes'', ''maxUploadFrames''}" for n
    using that unfolding read_c js_prop_pick_only by auto
  moreover have "list_all (\<lambda>(k, x). if k = js ''maxQueued'' \<or> k = js ''maxQueuedPerPartition'' then nonnegativeInteger x else positive x)
      (spread_object (get c ''limits''))"
    unfolding read_c spread_object.simps
    by (rule copied_limit_entries [OF capabilities_parts(3) [OF valid]]) (use v in blast)
  moreover have "array_items (get (get c ''modes'') n) = array_items (get (get v ''modes'') n)" if "n \<in> {''stream'', ''cancel''}" for n
    using that by (auto simp: read_c copy_array_def)
  ultimately have "capabilities c = Some True"
    using v unfolding capabilities_iff [OF valid_c ps_c] read_c(1,2,5) spread_object.simps by simp
  then show ?thesis by (simp only: c_def)
qed

lemma copyCapabilities_resolve:
  assumes "capabilities v = Some True"
  shows "resolveProfile (copyCapabilities v) name = resolveProfile v name"
proof -
  have "is_array (get v ''profiles'')"
    using capabilities_typed(3) [OF capabilities_checked(1) [OF assms]] by auto
  moreover have "js_prop (JObj (spread_object a)) name = js_prop a name" if "list_all (\<lambda>(k, x). \<exists>p. x = JStr p) (spread_object a)" for a
  proof (cases a)
    case (JBytes bs)
    with that show ?thesis by (cases bs) auto
  qed (use that in auto)
  moreover have "list_all (\<lambda>(k, x). \<exists>p. x = JStr p) (spread_object (get v ''profileAliases''))"
    using assms by (rule capabilities_profiles) (auto simp: list_all_iff)
  ultimately show ?thesis
    by (simp add: resolveProfile_def get_copyCapabilities has_own_def del: js_prop.simps)
qed

subsection \<open>Sample capabilities\<close>

definition sample_capabilities :: jsval where
  "sample_capabilities = JObj
     [(js ''service'', jstr ''ja3proxy''), (js ''build'', jstr ''1''),
      (js ''profiles'', JArr [jstr ''chrome_137'']),
      (js ''headerDescriptors'', JArr [JObj [(js ''tlsProfile'', jstr ''chrome_137''),
         (js ''headers'', JArr [JArr [jstr ''etag'', jstr ''x'']])]]),
      (js ''profileAliases'', JObj [(js ''chrome'', jstr ''chrome_137'')]),
      (js ''framing'', JObj [(js ''contentType'', jstr CONTENT_TYPE), (js ''maxMetadataBytes'', jint 65536),
         (js ''maxDataBytes'', jint 65536), (js ''maxUploadFrames'', jint 100)]),
      (js ''modes'', JObj [(js ''egress'', JArr []), (js ''cookies'', JArr []),
         (js ''stream'', JArr [jstr ''upload'', jstr ''download'']), (js ''cancel'', JArr [jstr ''request'', jstr ''stream-drop''])]),
      (js ''limits'', JObj (map (\<lambda>n. (js n, jint 1)) limit_names))]"

lemma limits_read: "k \<in> js ` set ns \<Longrightarrow> map_of (map (\<lambda>n. (js n, x)) ns) k = Some x"
  by (induction ns) auto

lemma sample_limits_valid:
  "valid (constrainIntegers sch_capabilities_CapabilityLimits) (JObj (map (\<lambda>n. (js n, jint 1)) limit_names))"
  by (simp add: valid_limits limits_read narrow_simps valid_simps MAX_SAFE_INTEGER_def)

lemma sample_capabilities_ok: "capabilities sample_capabilities = Some True"
proof -
  have short: "re_profile (js ''chrome'')" by (simp add: pattern_defs js_def)
  have valid: "validateWire Capabilities sample_capabilities"
    using sample_limits_valid
    by (simp add: sample_capabilities_def validateWire_schema sch_capabilities_def sch_capabilities_ServiceName_def
        sch_capabilities_HeaderDescriptor_def sch_capabilities_FramingCapabilities_def sch_capabilities_CapabilityModes_def
        narrow_simps valid_simps MAX_SAFE_INTEGER_def)
  have limits: "list_all (\<lambda>(k, x). positive x) (map (\<lambda>n. (js n, jint 1)) limit_names)"
      "list_all (\<lambda>(k, x). nonnegativeInteger x) (map (\<lambda>n. (js n, jint 1)) limit_names)"
    by (simp_all add: list_all_iff)
  show ?thesis
    using valid short limits sample_patterns sample_pair
    by (simp add: capabilities_def Let_def del: header_pair.simps)
      (simp add: sample_capabilities_def headerPairs_def FRAME_LIMIT_def MAX_SAFE_INTEGER_def list_all_iff del: header_pair.simps)
qed

subsection \<open>Properties\<close>

text \<open>
  C35: The guard \<open>capabilities\<close> returns a verdict on every value: the unchecked property reads
  behind the schema test never throw, since the schema has established the types they need.
\<close>

theorem capabilities_total: "\<exists>b. capabilities v = Some b"
  by (rule capabilities_never_throws)

text \<open>
  On accepted capabilities, \<open>resolveProfile\<close> gives \<open>undefined\<close> or the name of a concrete
  profile that the service offers and that resolves to itself: aliases never chain.
\<close>

theorem resolveProfile_concrete:
  assumes "capabilities v = Some True"
  shows "resolveProfile v name = JUndef \<or>
    (\<exists>p. resolveProfile v name = JStr p \<and> re_profile p \<and> JStr p \<in> set (array_items (get v ''profiles'')) \<and>
      resolveProfile v p = JStr p)"
  using assms
proof (cases rule: resolveProfile_cases [where name = name])
  case (2 p)
  then show ?thesis by (auto simp: resolveProfile_def)
qed simp

theorem resolveProfile_concrete_witness:
  "resolveProfile sample_capabilities (js ''chrome'') = jstr ''chrome_137'' \<and>
   resolveProfile sample_capabilities (js ''chrome_137'') = jstr ''chrome_137''"
proof -
  have "resolveProfile sample_capabilities (js ''chrome'') = jstr ''chrome_137''"
    by (simp add: resolveProfile_def sample_capabilities_def has_own_def)
  with resolveProfile_concrete [OF sample_capabilities_ok, of "js ''chrome''"] show ?thesis by auto
qed

text \<open>
  The copy of accepted capabilities that callers get is itself accepted by the guard and
  resolves every profile name to the same profile.
\<close>

theorem copyCapabilities_accepted:
  assumes "capabilities v = Some True"
  shows "capabilities (copyCapabilities v) = Some True \<and>
    resolveProfile (copyCapabilities v) name = resolveProfile v name"
  using copyCapabilities_ok [OF assms] copyCapabilities_resolve [OF assms] by blast

theorem copyCapabilities_accepted_witness: "capabilities (copyCapabilities sample_capabilities) = Some True"
  using copyCapabilities_accepted [OF sample_capabilities_ok] by blast

end
