(* ===== verification/Deadline.thy ===== *)
theory Deadline
  imports Guards
begin

text \<open>
  The class \<open>Deadline\<close> of \<open>src/packages/typescript/src/concurrency.ts\<close>: a timer and an
  optional parent signal that abort one controller. Time is the rational value of
  \<open>performance.now()\<close>, passed to the operations that read the clock. The reason of a signal is
  a \<open>TimeoutError\<close>, an error of the SDK, the default \<open>AbortError\<close>, or another value.
\<close>

subsection \<open>State and operations\<close>

datatype abort_reason = TimeoutReason | TransportReason transport_error | DefaultReason | OtherReason

definition MAX_TIMEOUT_MS :: int where
  "MAX_TIMEOUT_MS = 2147483647"

definition invalid_input :: transport_error where
  "invalid_input = localError INVALID_REQUEST (Some Invalid_input)"

definition timeoutValue :: "jsnum \<Rightarrow> transport_error + jsnum" where
  "timeoutValue value =
     (if \<not> positive (JNum value) \<or> num_less (Num (of_int MAX_TIMEOUT_MS)) value then Inl invalid_input else Inr value)"

text \<open>\<open>signal\<close> is the reason of the controller's signal once it is aborted.\<close>

record deadline =
  timeoutMs :: jsnum
  started :: rat
  timedOut :: bool
  signal :: "abort_reason option"

text \<open>\<open>controller.abort(reason)\<close>: the first call wins.\<close>

definition controller_abort :: "abort_reason \<Rightarrow> deadline \<Rightarrow> deadline" where
  "controller_abort r d = (case signal d of None \<Rightarrow> d\<lparr>signal := Some r\<rparr> | Some _ \<Rightarrow> d)"

definition onAbort :: "abort_reason \<Rightarrow> deadline \<Rightarrow> deadline" where
  "onAbort parent d =
     controller_abort (case parent of TimeoutReason \<Rightarrow> TimeoutReason | TransportReason e \<Rightarrow> TransportReason e | _ \<Rightarrow> DefaultReason)
       (d\<lparr>timedOut := (parent = TimeoutReason)\<rparr>)"

definition onTimer :: "deadline \<Rightarrow> deadline" where
  "onTimer d = controller_abort TimeoutReason (d\<lparr>timedOut := True\<rparr>)"

text \<open>The parent is given by its reason when it is aborted already.\<close>

definition new_Deadline :: "jsnum \<Rightarrow> rat \<Rightarrow> abort_reason option \<Rightarrow> transport_error + deadline" where
  "new_Deadline timeout now parent = (case timeoutValue timeout of
     Inl e \<Rightarrow> Inl e
   | Inr t \<Rightarrow>
       let d = \<lparr>timeoutMs = t, started = now, timedOut = False, signal = None\<rparr>
       in Inr (case parent of None \<Rightarrow> d | Some r \<Rightarrow> onAbort r d))"

fun num_value :: "jsnum \<Rightarrow> rat" where
  "num_value (Num q) = q"
| "num_value _ = 0"

definition remaining :: "deadline \<Rightarrow> rat \<Rightarrow> int" where
  "remaining d now = max 1 \<lfloor>num_value (timeoutMs d) - (now - started d)\<rfloor>"

definition deadline_error :: "deadline \<Rightarrow> rat \<Rightarrow> jsval \<Rightarrow> bool \<Rightarrow> transport_error" where
  "deadline_error d now diag usedProxy =
     new_TransportError (if timedOut d then TIMEOUT else CANCELLED)
       (JObj (set_prop (spread_object diag) (js ''totalMs'') (jint \<lfloor>now - started d\<rfloor>))) usedProxy
       (case signal d of Some (TransportReason e) \<Rightarrow> Some (te_kind e) | _ \<Rightarrow> None) None"

text \<open>
  \<open>race\<close>: how an awaited promise and the signal compete. The promise settles with a value or a
  thrown error, or not at all (\<open>None\<close>) before the signal aborts; \<open>d\<close> is the deadline at the
  start of the race and \<open>d'\<close> the one at the moment the signal aborts.
\<close>

definition race :: "deadline \<Rightarrow> deadline \<Rightarrow> rat \<Rightarrow> (thrown + 'a) option \<Rightarrow> jsval \<Rightarrow> bool \<Rightarrow> (thrown + 'a) option" where
  "race d d' now promise diag usedProxy =
     (if signal d \<noteq> None then Some (Inl (Transport (deadline_error d now diag usedProxy)))
      else case promise of
        Some r \<Rightarrow> Some r
      | None \<Rightarrow> if signal d' \<noteq> None then Some (Inl (Transport (deadline_error d' now diag usedProxy))) else None)"

subsection \<open>Facts\<close>

abbreviation aborted :: "deadline \<Rightarrow> bool" where
  "aborted d \<equiv> signal d \<noteq> None"

lemma aborted_stable [simp]:
  "aborted (controller_abort r d)" "aborted (onAbort r d)" "aborted (onTimer d)"
  by (auto simp: controller_abort_def onAbort_def onTimer_def split: option.split)

lemma controller_abort_fields [simp]:
  "timedOut (controller_abort r d) = timedOut d" "timeoutMs (controller_abort r d) = timeoutMs d"
  "started (controller_abort r d) = started d"
  by (simp_all add: controller_abort_def split: option.split)

lemma deadline_error_code: "te_code (deadline_error d now diag u) = (if timedOut d then TIMEOUT else CANCELLED)"
  by (simp add: deadline_error_def new_TransportError_def)

lemma timeoutValue_accepts:
  "positive (JNum t) \<and> \<not> num_less (Num (of_int MAX_TIMEOUT_MS)) t \<longleftrightarrow> (\<exists>i. t = Num (of_int i) \<and> 0 < i \<and> i \<le> MAX_TIMEOUT_MS)"
  by (auto simp: MAX_TIMEOUT_MS_def MAX_SAFE_INTEGER_def elim!: isSafeIntegerE)

lemma new_Deadline_signal:
  "new_Deadline t now parent = Inr d \<Longrightarrow> (signal d = None \<longleftrightarrow> parent = None) \<and> started d = now \<and> timeoutMs d = t"
  using aborted_stable(2) [of _ d]
  by (auto simp: new_Deadline_def timeoutValue_def onAbort_def controller_abort_def Let_def
      split: sum.splits option.splits if_splits)

subsection \<open>Properties\<close>

text \<open>
  A timeout is accepted exactly when it is an integer from 1 to the maximum of a timer, and
  refused as invalid input otherwise; a new deadline is aborted exactly when its parent
  is aborted already, and it always leaves at least one millisecond.
\<close>

theorem new_Deadline_outcome:
  "case new_Deadline t now parent of
     Inl e \<Rightarrow> e = invalid_input \<and> (\<nexists>i. t = Num (of_int i) \<and> 0 < i \<and> i \<le> MAX_TIMEOUT_MS)
   | Inr d \<Rightarrow> (\<exists>i. t = Num (of_int i) \<and> 0 < i \<and> i \<le> MAX_TIMEOUT_MS) \<and> (signal d = None \<longleftrightarrow> parent = None) \<and>
       1 \<le> remaining d now"
proof (cases "new_Deadline t now parent")
  case (Inl e)
  then show ?thesis
    unfolding timeoutValue_accepts [symmetric]
    by (auto simp: new_Deadline_def timeoutValue_def Let_def split: sum.splits if_splits)
next
  case (Inr d)
  then have "\<exists>i. t = Num (of_int i) \<and> 0 < i \<and> i \<le> MAX_TIMEOUT_MS"
    unfolding timeoutValue_accepts [symmetric]
    by (auto simp: new_Deadline_def timeoutValue_def Let_def split: sum.splits if_splits)
  with Inr new_Deadline_signal [OF Inr] show ?thesis by (simp add: remaining_def)
qed

text \<open>
  The reason of a deadline's signal is the first one and stays, but the error it reports
  follows the last event: after the timer has fired, a parent that aborts for another reason
  turns the reported \<open>TIMEOUT\<close> into \<open>CANCELLED\<close>, although the signal keeps its \<open>TimeoutError\<close>.
\<close>

theorem deadline_report_overwritten:
  assumes "signal d = None"
  shows "signal (onAbort DefaultReason (onTimer d)) = Some TimeoutReason \<and>
    te_code (deadline_error (onTimer d) now diag u) = TIMEOUT \<and>
    te_code (deadline_error (onAbort DefaultReason (onTimer d)) now diag u) = CANCELLED"
  using assms by (simp add: deadline_error_code) (simp add: onAbort_def onTimer_def controller_abort_def)

theorem deadline_report_overwritten_witness:
  "te_code (deadline_error (onAbort DefaultReason (onTimer
     \<lparr>timeoutMs = Num 5, started = 0, timedOut = False, signal = None\<rparr>)) 7 localDiagnostics False) = CANCELLED"
  using deadline_report_overwritten [of "\<lparr>timeoutMs = Num 5, started = 0, timedOut = False, signal = None\<rparr>"] by simp

end
