(* ===== verification/Lifetime.thy ===== *)
theory Lifetime
  imports Deadline
begin

text \<open>
  The class \<open>Lifetime\<close> of \<open>src/packages/typescript/src/concurrency.ts\<close>: the operations a client,
  a session or a service connection has accepted, and closing it. Deadlines live in a store, since
  an operation may track a deadline that somebody else owns; an operation is known by its position
  in the list of all operations ever registered. The promise \<open>closing\<close> is the stage its async
  function has reached.
\<close>

subsection \<open>State\<close>

record operation =
  op_deadline :: nat
  op_owns :: bool
  op_settled :: bool

datatype closing_stage =
    Draining "nat list"
  | Stopping "nat list"
  | Stopped "nat list"

record lifetime =
  store :: "deadline list"
  disposed :: "nat list"
  registered :: "operation list"
  operations :: "nat list"
  closed :: bool
  closing :: "closing_stage option"

definition new_Lifetime :: lifetime where
  "new_Lifetime = \<lparr>store = [], disposed = [], registered = [], operations = [], closed = False, closing = None\<rparr>"

definition client_closed :: transport_error where
  "client_closed = localError CANCELLED (Some Client_closed)"

subsection \<open>Operations\<close>

definition assertOpen :: "lifetime \<Rightarrow> transport_error option" where
  "assertOpen l = (if closed l then Some client_closed else None)"

definition stopAccepting :: "lifetime \<Rightarrow> lifetime" where
  "stopAccepting l = l\<lparr>closed := True\<rparr>"

definition register :: "nat \<Rightarrow> bool \<Rightarrow> lifetime \<Rightarrow> nat \<times> lifetime" where
  "register d owns l = (let i = length (registered l) in
     (i, l\<lparr>registered := registered l @ [\<lparr>op_deadline = d, op_owns = owns, op_settled = False\<rparr>],
        operations := operations l @ [i]\<rparr>))"

definition lifetime_begin :: "jsnum \<Rightarrow> rat \<Rightarrow> abort_reason option \<Rightarrow> lifetime \<Rightarrow> (transport_error + nat) \<times> lifetime" where
  "lifetime_begin timeout now parent l = (case assertOpen l of
     Some e \<Rightarrow> (Inl e, l)
   | None \<Rightarrow> (case new_Deadline timeout now parent of
       Inl e \<Rightarrow> (Inl e, l)
     | Inr d \<Rightarrow> (let (i, l') = register (length (store l)) True (l\<lparr>store := store l @ [d]\<rparr>) in (Inr i, l'))))"

definition track :: "nat \<Rightarrow> bool \<Rightarrow> lifetime \<Rightarrow> (transport_error + nat) \<times> lifetime" where
  "track d alreadyAccepted l = (case (if alreadyAccepted then None else assertOpen l) of
     Some e \<Rightarrow> (Inl e, l)
   | None \<Rightarrow> (let (i, l') = register d False l in (Inr i, l')))"

text \<open>\<open>operation.done()\<close>.\<close>

definition op_done :: "nat \<Rightarrow> lifetime \<Rightarrow> lifetime" where
  "op_done i l =
     (if i \<notin> set (operations l) then l
      else let p = registered l ! i in
        l\<lparr>operations := filter (\<lambda>j. j \<noteq> i) (operations l),
          disposed := (if op_owns p then disposed l @ [op_deadline p] else disposed l),
          registered := (registered l)[i := p\<lparr>op_settled := True\<rparr>]\<rparr>)"

definition abort_deadline :: "abort_reason \<Rightarrow> nat \<Rightarrow> lifetime \<Rightarrow> lifetime" where
  "abort_deadline r d l = l\<lparr>store := (store l)[d := controller_abort r (store l ! d)]\<rparr>"

text \<open>The loop that aborts what is still registered.\<close>

definition abort_operations :: "lifetime \<Rightarrow> lifetime" where
  "abort_operations l = fold (\<lambda>i. abort_deadline (TransportReason client_closed) (op_deadline (registered l ! i))) (operations l) l"

text \<open>
  \<open>close(options)\<close> up to the first \<open>await\<close>: \<open>Inl\<close> where it throws. \<open>options.timeoutMs\<close> and
  \<open>options.drain\<close> are given as values.
\<close>

definition nullish_or :: "jsval \<Rightarrow> jsval \<Rightarrow> jsval" where
  "nullish_or v d = (if v = JUndef \<or> v = JNull then d else v)"

definition timeout_js :: "jsval \<Rightarrow> transport_error + jsnum" where
  "timeout_js v = (case v of JNum n \<Rightarrow> timeoutValue n | _ \<Rightarrow> Inl invalid_input)"

fun truthy_drain :: "jsval \<Rightarrow> bool" where
  "truthy_drain (JBool b) = b"
| "truthy_drain _ = False"

definition lifetime_close :: "jsval \<Rightarrow> jsval \<Rightarrow> lifetime \<Rightarrow> transport_error option \<times> lifetime" where
  "lifetime_close timeout drain l =
     (if closing l \<noteq> None then (None, l)
      else case timeout_js (nullish_or timeout (jint 10000)) of
        Inl e \<Rightarrow> (Some e, l)
      | Inr _ \<Rightarrow>
          if drain \<noteq> JUndef \<and> js_typeof drain \<noteq> ''boolean'' then (Some invalid_input, l)
          else let pending = operations l; l1 = l\<lparr>closed := True\<rparr> in
            if truthy_drain drain then (None, l1\<lparr>closing := Some (Draining pending)\<rparr>)
            else (None, (abort_operations l1)\<lparr>closing := Some (Stopping pending)\<rparr>))"

text \<open>
  The continuations of that function: after the drain (\<open>elapsed\<close> says that its timer fired) and
  after \<open>await pending\<close>; a continuation that is not due does nothing.
\<close>

definition all_settled :: "nat list \<Rightarrow> lifetime \<Rightarrow> bool" where
  "all_settled is l = list_all (\<lambda>i. op_settled (registered l ! i)) is"

definition drain_ends :: "bool \<Rightarrow> lifetime \<Rightarrow> lifetime" where
  "drain_ends elapsed l = (case closing l of
     Some (Draining pending) \<Rightarrow>
       if all_settled pending l \<or> elapsed then (abort_operations l)\<lparr>closing := Some (Stopping pending)\<rparr> else l
   | _ \<Rightarrow> l)"

definition stop_ends :: "lifetime \<Rightarrow> lifetime" where
  "stop_ends l = (case closing l of
     Some (Stopping pending) \<Rightarrow> if all_settled pending l then l\<lparr>closing := Some (Stopped pending)\<rparr> else l
   | _ \<Rightarrow> l)"

text \<open>A timer or a parent aborts a deadline of the store that is not disposed; a tracked deadline is added to it.\<close>

definition deadline_fires :: "nat \<Rightarrow> (deadline \<Rightarrow> deadline) \<Rightarrow> lifetime \<Rightarrow> lifetime" where
  "deadline_fires d f l = (if d \<in> set (disposed l) then l else l\<lparr>store := (store l)[d := f (store l ! d)]\<rparr>)"

definition foreign_deadline :: "deadline \<Rightarrow> lifetime \<Rightarrow> lifetime" where
  "foreign_deadline d l = l\<lparr>store := store l @ [d]\<rparr>"

inductive life_step :: "lifetime \<Rightarrow> lifetime \<Rightarrow> bool" where
  begins: "life_step l (snd (lifetime_begin t now parent l))"
| tracks: "d < length (store l) \<Longrightarrow> life_step l (snd (track d accepted l))"
| settles: "life_step l (op_done i l)"
| stops_accepting: "life_step l (stopAccepting l)"
| closes: "life_step l (snd (lifetime_close timeout drain l))"
| drained: "life_step l (drain_ends elapsed l)"
| stopped: "life_step l (stop_ends l)"
| timer: "life_step l (deadline_fires d onTimer l)"
| parent_aborts: "life_step l (deadline_fires d (onAbort r) l)"
| caller_aborts: "life_step l (abort_deadline r d l)"
| foreign: "life_step l (foreign_deadline d l)"

inductive life_reachable :: "lifetime \<Rightarrow> bool" where
  life_init: "life_reachable new_Lifetime"
| life_next: "life_reachable l \<Longrightarrow> life_step l l' \<Longrightarrow> life_reachable l'"

subsection \<open>Facts\<close>

definition pending_of :: "closing_stage \<Rightarrow> nat list" where
  "pending_of st = (case st of Draining p \<Rightarrow> p | Stopping p \<Rightarrow> p | Stopped p \<Rightarrow> p)"

abbreviation settled_op :: "lifetime \<Rightarrow> nat \<Rightarrow> bool" where
  "settled_op l i \<equiv> op_settled (registered l ! i)"

abbreviation deadline_of :: "lifetime \<Rightarrow> nat \<Rightarrow> deadline" where
  "deadline_of l i \<equiv> store l ! op_deadline (registered l ! i)"

definition ops_ok :: "lifetime \<Rightarrow> bool" where
  "ops_ok l \<longleftrightarrow> distinct (operations l) \<and>
     set (operations l) = {i. i < length (registered l) \<and> \<not> settled_op l i} \<and>
     (\<forall>i < length (registered l). op_deadline (registered l ! i) < length (store l))"

definition disposed_ok :: "lifetime \<Rightarrow> bool" where
  "disposed_ok l \<longleftrightarrow> distinct (disposed l) \<and>
     (\<forall>i < length (registered l). \<forall>j < length (registered l). op_owns (registered l ! i) \<longrightarrow> op_owns (registered l ! j) \<longrightarrow>
        op_deadline (registered l ! i) = op_deadline (registered l ! j) \<longrightarrow> i = j) \<and>
     set (disposed l) = {op_deadline (registered l ! i) | i. i < length (registered l) \<and> op_owns (registered l ! i) \<and> settled_op l i}"

definition closing_ok :: "lifetime \<Rightarrow> bool" where
  "closing_ok l \<longleftrightarrow> (case closing l of None \<Rightarrow> True | Some st \<Rightarrow>
     closed l \<and> (\<forall>i \<in> set (pending_of st). i < length (registered l)) \<and>
     (\<forall>i < length (registered l). op_owns (registered l ! i) \<longrightarrow> settled_op l i \<or> i \<in> set (pending_of st)) \<and>
     (case st of Draining p \<Rightarrow> True
      | Stopping p \<Rightarrow> \<forall>i \<in> set p. settled_op l i \<or> aborted (deadline_of l i)
      | Stopped p \<Rightarrow> \<forall>i \<in> set p. settled_op l i))"

definition life_ok :: "lifetime \<Rightarrow> bool" where
  "life_ok l \<longleftrightarrow> ops_ok l \<and> disposed_ok l \<and> closing_ok l"

lemmas life_defs = ops_ok_def disposed_ok_def closing_ok_def

text \<open>Changing the deadlines of the store, aborted ones staying aborted, keeps the invariant.\<close>

lemma store_update_ok:
  assumes "life_ok l" and "length ds = length (store l)" and "\<And>d. d < length (store l) \<Longrightarrow> aborted (store l ! d) \<Longrightarrow> aborted (ds ! d)"
  shows "life_ok (l\<lparr>store := ds\<rparr>)"
proof -
  have "ops_ok (l\<lparr>store := ds\<rparr>)" "disposed_ok (l\<lparr>store := ds\<rparr>)"
    using assms(1,2) by (simp_all add: life_ok_def ops_ok_def disposed_ok_def)
  moreover have "aborted (ds ! op_deadline (registered l ! i))" if "i < length (registered l)" "aborted (deadline_of l i)" for i
    using assms(1,3) that by (simp add: life_ok_def ops_ok_def)
  with assms(1) have "closing_ok (l\<lparr>store := ds\<rparr>)"
    unfolding life_ok_def closing_ok_def
    by (auto simp: pending_of_def simp del: not_None_eq split: option.splits closing_stage.splits) (metis not_None_eq)
  ultimately show ?thesis by (simp add: life_ok_def)
qed

lemma abort_keeps: "aborted (xs ! d) \<Longrightarrow> d < length xs \<Longrightarrow> (\<And>x. aborted (f x)) \<Longrightarrow> aborted (xs[e := f (xs ! e)] ! d)"
  by (cases "e = d") simp_all

lemma abort_deadline_ok: "life_ok l \<Longrightarrow> life_ok (abort_deadline r d l)"
  unfolding abort_deadline_def by (rule store_update_ok) (simp_all add: abort_keeps)

lemma deadline_fires_ok: "life_ok l \<Longrightarrow> (\<And>x. aborted (f x)) \<Longrightarrow> life_ok (deadline_fires d f l)"
  unfolding deadline_fires_def by (cases "d \<in> set (disposed l)") (simp_all add: store_update_ok abort_keeps)

lemma fold_abort_fields [simp]:
  "registered (fold (\<lambda>i. abort_deadline r (g i)) is l) = registered l"
  "operations (fold (\<lambda>i. abort_deadline r (g i)) is l) = operations l"
  "disposed (fold (\<lambda>i. abort_deadline r (g i)) is l) = disposed l"
  "closed (fold (\<lambda>i. abort_deadline r (g i)) is l) = closed l"
  "closing (fold (\<lambda>i. abort_deadline r (g i)) is l) = closing l"
  "length (store (fold (\<lambda>i. abort_deadline r (g i)) is l)) = length (store l)"
  by (induction "is" arbitrary: l) (simp_all add: abort_deadline_def)

lemma fold_abort_store:
  "d < length (store l) \<Longrightarrow> aborted (store (fold (\<lambda>i. abort_deadline r (g i)) is l) ! d) \<longleftrightarrow> aborted (store l ! d) \<or> d \<in> g ` set is"
proof (induction "is" arbitrary: l)
  case (Cons i "is")
  then show ?case by (cases "g i = d") (auto simp: abort_deadline_def)
qed simp

lemma abort_operations_fields [simp]:
  "registered (abort_operations l) = registered l" "operations (abort_operations l) = operations l"
  "disposed (abort_operations l) = disposed l" "closed (abort_operations l) = closed l"
  "closing (abort_operations l) = closing l" "length (store (abort_operations l)) = length (store l)"
  by (simp_all add: abort_operations_def)

lemma abort_operations_aborts:
  assumes "ops_ok l" and "i < length (registered l)" and "\<not> settled_op l i"
  shows "aborted (deadline_of (abort_operations l) i)"
proof -
  have "op_deadline (registered l ! i) < length (store l)" "i \<in> set (operations l)"
    using assms by (simp_all add: ops_ok_def)
  then show ?thesis by (simp add: abort_operations_def fold_abort_store del: not_None_eq)
qed

lemma abort_operations_ok: "life_ok l \<Longrightarrow> life_ok (abort_operations l)"
proof -
  assume l: "life_ok l"
  have "life_ok (l\<lparr>store := store (abort_operations l)\<rparr>)"
    by (rule store_update_ok [OF l]) (simp_all add: abort_operations_def fold_abort_store del: not_None_eq)
  moreover have "l\<lparr>store := store (abort_operations l)\<rparr> = abort_operations l"
    by (rule lifetime.equality) simp_all
  ultimately show ?thesis by simp
qed

text \<open>One preservation lemma per operation.\<close>

lemma register_ok:
  assumes l: "life_ok l" and d: "d < length (store l)"
    and owns: "owns \<Longrightarrow> \<not> closed l \<and> (\<forall>i < length (registered l). op_deadline (registered l ! i) \<noteq> d)"
  shows "life_ok (snd (register d owns l))"
proof -
  let ?l = "snd (register d owns l)"
  have nth: "registered ?l ! i = (if i < length (registered l) then registered l ! i else \<lparr>op_deadline = d, op_owns = owns, op_settled = False\<rparr>)"
    if "i < length (registered ?l)" for i
    using that by (auto simp: register_def Let_def nth_append)
  have len: "length (registered ?l) = Suc (length (registered l))" "store ?l = store l" "closing ?l = closing l"
      "operations ?l = operations l @ [length (registered l)]" "disposed ?l = disposed l" "closed ?l = closed l"
    by (simp_all add: register_def Let_def)
  have "ops_ok ?l"
    using l d nth unfolding life_ok_def ops_ok_def len by (auto simp: less_Suc_eq)
  moreover have "disposed_ok ?l"
  proof -
    have "op_owns (registered ?l ! i) \<longrightarrow> op_owns (registered ?l ! j) \<longrightarrow>
        op_deadline (registered ?l ! i) = op_deadline (registered ?l ! j) \<longrightarrow> i = j"
      if "i < length (registered ?l)" "j < length (registered ?l)" for i j
      using l that owns nth [of i] nth [of j] unfolding life_ok_def disposed_ok_def len
      by (auto simp: less_Suc_eq split: if_splits)
    moreover have "{op_deadline (registered ?l ! i) | i. i < length (registered ?l) \<and> op_owns (registered ?l ! i) \<and> settled_op ?l i} =
        {op_deadline (registered l ! i) | i. i < length (registered l) \<and> op_owns (registered l ! i) \<and> settled_op l i}"
      using nth unfolding len by (force simp: less_Suc_eq)
    ultimately show ?thesis using l by (simp add: life_ok_def disposed_ok_def len)
  qed
  moreover have "closing_ok ?l"
    using l owns nth unfolding life_ok_def closing_ok_def len
    by (auto simp: pending_of_def less_Suc_eq simp del: not_None_eq split: option.splits closing_stage.splits)
  ultimately show ?thesis by (simp add: life_ok_def)
qed

lemma foreign_ok: "life_ok l \<Longrightarrow> life_ok (foreign_deadline d l)"
proof -
  assume l: "life_ok l"
  then have "store (foreign_deadline d l) ! op_deadline (registered l ! i) = deadline_of l i" if "i < length (registered l)" for i
    using that by (simp add: life_ok_def ops_ok_def foreign_deadline_def nth_append)
  with l show ?thesis
    by (auto simp: life_ok_def life_defs foreign_deadline_def pending_of_def less_Suc_eq_le simp del: not_None_eq
        split: option.splits closing_stage.splits)
qed

lemma lifetime_begin_ok: "life_ok l \<Longrightarrow> life_ok (snd (lifetime_begin t now parent l))"
proof -
  assume l: "life_ok l"
  have "life_ok (snd (register (length (store l)) True (foreign_deadline d l)))" if "\<not> closed l" for d
    by (rule register_ok [OF foreign_ok [OF l]])
      (use l that in \<open>auto simp: foreign_deadline_def life_ok_def ops_ok_def\<close>)
  with l show ?thesis
    by (auto simp: lifetime_begin_def assertOpen_def foreign_deadline_def case_prod_unfold Let_def split: sum.split)
qed

lemma track_ok: "life_ok l \<Longrightarrow> d < length (store l) \<Longrightarrow> life_ok (snd (track d accepted l))"
  using register_ok [of l d False] by (simp add: track_def case_prod_unfold Let_def split: option.split)

lemma op_done_ok: assumes l: "life_ok l" shows "life_ok (op_done i l)"
proof (cases "i \<in> set (operations l)")
  case True
  then have i: "i < length (registered l)" "\<not> settled_op l i" using l by (auto simp: life_ok_def ops_ok_def)
  let ?l = "op_done i l"
  have nth: "registered ?l ! j = (if j = i then (registered l ! i)\<lparr>op_settled := True\<rparr> else registered l ! j)"
    if "j < length (registered l)" for j
    using that True by (simp add: op_done_def Let_def nth_list_update)
  have same: "length (registered ?l) = length (registered l)" "store ?l = store l" "closing ?l = closing l" "closed ?l = closed l"
      "operations ?l = filter (\<lambda>j. j \<noteq> i) (operations l)"
      "disposed ?l = (if op_owns (registered l ! i) then disposed l @ [op_deadline (registered l ! i)] else disposed l)"
    using True by (simp_all add: op_done_def Let_def)
  have fields: "op_deadline (registered ?l ! j) = op_deadline (registered l ! j)" "op_owns (registered ?l ! j) = op_owns (registered l ! j)"
      "settled_op ?l j \<longleftrightarrow> settled_op l j \<or> j = i"
    if "j < length (registered l)" for j
    using nth [OF that] by auto
  have "ops_ok ?l"
    using l fields unfolding life_ok_def ops_ok_def same by auto
  moreover have "disposed_ok ?l"
  proof -
    have "{op_deadline (registered ?l ! j) | j. j < length (registered ?l) \<and> op_owns (registered ?l ! j) \<and> settled_op ?l j} =
        {op_deadline (registered l ! j) | j. j < length (registered l) \<and> op_owns (registered l ! j) \<and> settled_op l j} \<union>
        (if op_owns (registered l ! i) then {op_deadline (registered l ! i)} else {})"
      (is "?A = ?B")
    proof (intro equalityI subsetI)
      show "x \<in> ?B" if "x \<in> ?A" for x using that fields unfolding same by (auto split: if_splits)
      show "x \<in> ?A" if "x \<in> ?B" for x
        using that fields i unfolding same by (auto split: if_splits) (metis (lifting))+
    qed
    moreover have "op_deadline (registered l ! i) \<notin> set (disposed l)" if "op_owns (registered l ! i)"
      using l i that unfolding life_ok_def disposed_ok_def by auto
    ultimately show ?thesis
      using l fields unfolding life_ok_def disposed_ok_def same by auto
  qed
  moreover have "closing_ok ?l"
    using l fields unfolding life_ok_def closing_ok_def same
    by (auto simp: pending_of_def simp del: not_None_eq split: option.splits closing_stage.splits)
  ultimately show ?thesis by (simp add: life_ok_def)
qed (use l in \<open>simp add: op_done_def\<close>)

lemma stopAccepting_ok: "life_ok l \<Longrightarrow> life_ok (stopAccepting l)"
  by (auto simp: stopAccepting_def life_ok_def life_defs pending_of_def simp del: not_None_eq split: option.splits closing_stage.splits)

text \<open>Entering a stage: the rest of the state is as before.\<close>

lemma closing_update_ok:
  assumes "life_ok l" and "closing_ok (l\<lparr>closing := c\<rparr>)" shows "life_ok (l\<lparr>closing := c\<rparr>)"
  using assms by (simp add: life_ok_def ops_ok_def disposed_ok_def)

lemma live_operations:
  "life_ok l \<Longrightarrow> i \<in> set (operations l) \<longleftrightarrow> i < length (registered l) \<and> \<not> settled_op l i"
  by (simp add: life_ok_def ops_ok_def)

lemma stopping_ok:
  assumes l: "life_ok l" and "closed l" and "\<And>i. i \<in> set p \<Longrightarrow> i < length (registered l)"
    and "\<And>i. i < length (registered l) \<Longrightarrow> op_owns (registered l ! i) \<Longrightarrow> settled_op l i \<or> i \<in> set p"
  shows "life_ok ((abort_operations l)\<lparr>closing := Some (Stopping p)\<rparr>)"
proof (rule closing_update_ok [OF abort_operations_ok [OF l]])
  have "settled_op l i \<or> aborted (deadline_of (abort_operations l) i)" if "i \<in> set p" for i
    using abort_operations_aborts [of l i] assms(3) [OF that] l by (auto simp: life_ok_def)
  with assms show "closing_ok ((abort_operations l)\<lparr>closing := Some (Stopping p)\<rparr>)"
    by (auto simp: closing_ok_def pending_of_def)
qed

lemma lifetime_close_ok: assumes l: "life_ok l" shows "life_ok (snd (lifetime_close timeout drain l))"
proof -
  let ?l = "stopAccepting l"
  have "life_ok (?l\<lparr>closing := Some (Draining (operations l))\<rparr>)"
    by (rule closing_update_ok [OF stopAccepting_ok [OF l]])
      (auto simp: closing_ok_def pending_of_def stopAccepting_def live_operations [OF l])
  moreover have "life_ok ((abort_operations ?l)\<lparr>closing := Some (Stopping (operations l))\<rparr>)"
    by (rule stopping_ok [OF stopAccepting_ok [OF l]]) (auto simp: stopAccepting_def live_operations [OF l])
  ultimately show ?thesis
    using l by (auto simp: lifetime_close_def Let_def stopAccepting_def split: sum.split)
qed

lemma drain_ends_ok: assumes l: "life_ok l" shows "life_ok (drain_ends elapsed l)"
proof (cases "closing l")
  case (Some st)
  then show ?thesis
  proof (cases st)
    case (Draining p)
    have "life_ok ((abort_operations l)\<lparr>closing := Some (Stopping p)\<rparr>)"
      by (rule stopping_ok [OF l]) (use l Some Draining in \<open>auto simp: life_ok_def closing_ok_def pending_of_def\<close>)
    with l Some Draining show ?thesis by (simp add: drain_ends_def)
  qed (use l Some in \<open>simp_all add: drain_ends_def\<close>)
qed (use l in \<open>simp add: drain_ends_def\<close>)

lemma stop_ends_ok: assumes l: "life_ok l" shows "life_ok (stop_ends l)"
proof -
  have "life_ok (l\<lparr>closing := Some (Stopped p)\<rparr>)" if "closing l = Some (Stopping p)" "all_settled p l" for p
    by (rule closing_update_ok [OF l])
      (use l that in \<open>auto simp: life_ok_def closing_ok_def pending_of_def all_settled_def list_all_iff\<close>)
  with l show ?thesis by (simp add: stop_ends_def split: option.split closing_stage.split)
qed

lemma life_step_ok: "life_step l l' \<Longrightarrow> life_ok l \<Longrightarrow> life_ok l'"
  by (induction rule: life_step.induct)
    (simp_all add: lifetime_begin_ok track_ok op_done_ok stopAccepting_ok lifetime_close_ok drain_ends_ok stop_ends_ok
      deadline_fires_ok abort_deadline_ok foreign_ok)

lemma new_Lifetime_ok: "life_ok new_Lifetime"
  by (simp add: life_ok_def life_defs new_Lifetime_def)

lemma life_reachable_ok: "life_reachable l \<Longrightarrow> life_ok l"
  by (induction rule: life_reachable.induct) (auto intro: life_step_ok new_Lifetime_ok)

lemma op_done_idem: "op_done i (op_done i l) = op_done i l"
  by (simp add: op_done_def Let_def)

subsection \<open>Properties\<close>

text \<open>
  In every reachable state, the set of operations holds exactly the operations that are not
  settled, each once, and exactly the deadlines of settled operations that own theirs are
  disposed, each once: a deadline somebody else owns is never disposed here.
\<close>

theorem lifetime_accounting:
  assumes "life_reachable l"
  shows "distinct (operations l) \<and> set (operations l) = {i. i < length (registered l) \<and> \<not> op_settled (registered l ! i)} \<and>
    distinct (disposed l) \<and> set (disposed l) = {op_deadline (registered l ! i) | i. i < length (registered l) \<and>
      op_owns (registered l ! i) \<and> op_settled (registered l ! i)}"
  using life_reachable_ok [OF assms] by (simp add: life_ok_def ops_ok_def disposed_ok_def)

definition sample_lifetime :: lifetime where
  "sample_lifetime = snd (lifetime_close JUndef JUndef (op_done 0 (snd (lifetime_begin (Num 5) 0 None (snd (lifetime_begin (Num 9) 0 None new_Lifetime))))))"

lemma sample_lifetime_reachable: "life_reachable sample_lifetime"
  unfolding sample_lifetime_def by (intro life_next [OF _ closes] life_next [OF _ settles] life_next [OF _ begins] life_init)

lemmas sample_lifetime_eval = sample_lifetime_def new_Lifetime_def lifetime_begin_def assertOpen_def register_def Let_def
  new_Deadline_def timeoutValue_def MAX_TIMEOUT_MS_def op_done_def lifetime_close_def nullish_or_def timeout_js_def
  abort_operations_def abort_deadline_def MAX_SAFE_INTEGER_def

lemma sample_lifetime_state:
  "operations sample_lifetime = [1]" "disposed sample_lifetime = [0]" "closing sample_lifetime = Some (Stopping [1])"
  "\<not> op_settled (registered sample_lifetime ! 1)"
  by (simp_all add: sample_lifetime_eval)

theorem lifetime_accounting_witness: "distinct (operations sample_lifetime) \<and> distinct (disposed sample_lifetime) \<and>
    operations sample_lifetime = [1] \<and> disposed sample_lifetime = [0]"
  using lifetime_accounting [OF sample_lifetime_reachable] sample_lifetime_state by blast

text \<open>
  C38: Once a lifetime is closing, it refuses new operations; every operation that began before is
  settled or among those awaited; when the drain is over, every awaited operation is settled or
  its deadline is aborted; when closing has finished, every begun operation is settled. Closing
  does finish as soon as the awaited operations have settled.
\<close>

theorem lifetime_close_complete:
  assumes "life_reachable l" and "closing l = Some st"
  shows "lifetime_begin t now parent l = (Inl client_closed, l) \<and>
    (\<forall>i < length (registered l). op_owns (registered l ! i) \<longrightarrow> op_settled (registered l ! i) \<or> i \<in> set (pending_of st)) \<and>
    (\<forall>p i. st = Stopping p \<longrightarrow> i \<in> set p \<longrightarrow> op_settled (registered l ! i) \<or> aborted (store l ! op_deadline (registered l ! i))) \<and>
    (\<forall>p i. st = Stopped p \<longrightarrow> i < length (registered l) \<longrightarrow> op_owns (registered l ! i) \<longrightarrow> op_settled (registered l ! i)) \<and>
    (all_settled (pending_of st) l \<longrightarrow> closing (stop_ends (drain_ends False l)) = Some (Stopped (pending_of st)))"
proof -
  have ok: "closing_ok l" using life_reachable_ok [OF assms(1)] by (simp add: life_ok_def)
  have "lifetime_begin t now parent l = (Inl client_closed, l)"
    using ok assms(2) by (simp add: closing_ok_def lifetime_begin_def assertOpen_def)
  moreover have "closing (stop_ends (drain_ends False l)) = Some (Stopped (pending_of st))" if "all_settled (pending_of st) l"
    using that assms(2) by (cases st) (auto simp: drain_ends_def stop_ends_def pending_of_def all_settled_def list_all_iff)
  ultimately show ?thesis
    using ok assms(2) by (cases st) (auto simp: closing_ok_def pending_of_def simp del: not_None_eq)
qed

theorem lifetime_close_complete_witness:
  "lifetime_begin (Num 1) 0 None sample_lifetime = (Inl client_closed, sample_lifetime) \<and>
   aborted (store sample_lifetime ! op_deadline (registered sample_lifetime ! 1))"
  using lifetime_close_complete [OF sample_lifetime_reachable sample_lifetime_state(3), of "Num 1" 0 None] sample_lifetime_state(4)
  by simp

end
