(* ===== verification/Tally.thy ===== *)
theory Tally
  imports Prelude "HOL-Library.Multiset"
begin

text \<open>
  Counters per key, kept the way \<open>src/packages/typescript/src/concurrency.ts\<close> keeps its three
  \<open>Map<string, number>\<close> fields: a missing key counts zero, an increment stores the count plus
  one, a decrement deletes the key when it reaches zero. The interface says that such a map
  represents the multiset of the keys held at the moment.
\<close>

lemma int_size_remove [simp]: "k \<in># M \<Longrightarrow> int (size (M - {#k#})) = int (size M) - 1"
  by (metis add_mset_remove_trivial_If diff_add_cancel add_diff_cancel_right' of_nat_Suc size_add_mset insert_DiffM add.commute)

subsection \<open>The operations of the code\<close>

type_synonym 'k counts = "'k \<rightharpoonup> int"

text \<open>\<open>map.get(k) ?? 0\<close>, \<open>map.set(k, (map.get(k) ?? 0) + 1)\<close> and the decrement with deletion.\<close>

definition count_of :: "'k counts \<Rightarrow> 'k \<Rightarrow> int" where
  "count_of m k = (case m k of None \<Rightarrow> 0 | Some n \<Rightarrow> n)"

definition count_up :: "'k \<Rightarrow> 'k counts \<Rightarrow> 'k counts" where
  "count_up k m = m(k \<mapsto> count_of m k + 1)"

text \<open>The key is present whenever the code decrements; the lemmas below rest on that.\<close>

definition count_down :: "'k \<Rightarrow> 'k counts \<Rightarrow> 'k counts" where
  "count_down k m = (let r = count_of m k - 1 in if r = 0 then m(k := None) else m(k \<mapsto> r))"

subsection \<open>The interface\<close>

locale tally =
  fixes num :: "'m \<Rightarrow> 'k \<Rightarrow> int"
    and up :: "'k \<Rightarrow> 'm \<Rightarrow> 'm"
    and down :: "'k \<Rightarrow> 'm \<Rightarrow> 'm"
    and empty :: 'm
    and has :: "'m \<Rightarrow> 'k \<Rightarrow> bool"
    and holds :: "'m \<Rightarrow> 'k multiset \<Rightarrow> bool"
  assumes holds_empty: "holds empty {#}"
    and holds_up: "holds m M \<Longrightarrow> holds (up k m) (add_mset k M)"
    and holds_down: "holds m M \<Longrightarrow> k \<in># M \<Longrightarrow> holds (down k m) (M - {#k#})"
    and num_holds: "holds m M \<Longrightarrow> num m k = int (count M k)"
    and has_holds: "holds m M \<Longrightarrow> has m k \<longleftrightarrow> k \<in># M"
begin

lemma num_nonneg: "holds m M \<Longrightarrow> 0 \<le> num m k"
  by (simp add: num_holds)

lemma num_up: "holds m M \<Longrightarrow> num (up k m) j = num m j + (if j = k then 1 else 0)"
  using num_holds [OF holds_up, of m M k j] num_holds [of m M j] by simp

lemma num_down: "holds m M \<Longrightarrow> k \<in># M \<Longrightarrow> num (down k m) j = num m j - (if j = k then 1 else 0)"
  using num_holds [OF holds_down, of m M k j] num_holds [of m M j]
  by (simp add: of_nat_diff Suc_le_eq)

lemma num_down_le: "holds m M \<Longrightarrow> k \<in># M \<Longrightarrow> num m j \<le> b \<Longrightarrow> num (down k m) j \<le> b"
  by (auto simp: num_down)

lemma down_up: "holds m M \<Longrightarrow> holds (down k (up k m)) M"
  using holds_down [OF holds_up, of m M k k] by simp

lemma num_le_size: "holds m M \<Longrightarrow> num m k \<le> int (size M)"
  by (simp add: num_holds count_le_size)

lemma not_has: "holds m M \<Longrightarrow> \<not> has m k \<Longrightarrow> num m k = 0"
  by (simp add: num_holds has_holds not_in_iff)

end

subsection \<open>The maps of the code meet it\<close>

definition counts_of :: "'k counts \<Rightarrow> 'k multiset \<Rightarrow> bool" where
  "counts_of m M \<longleftrightarrow> (\<forall>k. m k = (if k \<in># M then Some (int (count M k)) else None))"

lemma count_of_counts: "counts_of m M \<Longrightarrow> count_of m k = int (count M k)"
  by (auto simp: counts_of_def count_of_def not_in_iff)

interpretation counts: tally count_of count_up count_down Map.empty "\<lambda>m k. m k \<noteq> None" counts_of
proof unfold_locales
  show "counts_of Map.empty {#}" by (simp add: counts_of_def)
next
  fix m :: "'a counts" and M k
  assume m: "counts_of m M"
  show "counts_of (count_up k m) (add_mset k M)"
    using m count_of_counts [OF m, of k] by (auto simp: counts_of_def count_up_def)
  show "count_of m k = int (count M k)" by (rule count_of_counts [OF m])
  show "m k \<noteq> None \<longleftrightarrow> k \<in># M" using m by (simp add: counts_of_def)
next
  fix m :: "'a counts" and M k
  assume m: "counts_of m M" and k: "k \<in># M"
  have "count_of m k - 1 = int (count M k - 1)"
    using count_of_counts [OF m, of k] k by (simp add: of_nat_diff Suc_le_eq)
  then have down: "count_down k m = (if count M k = 1 then m(k := None) else m(k \<mapsto> int (count M k - 1)))"
    using k by (auto simp: count_down_def Let_def)
  obtain n where "count M k = Suc n" using k by (metis count_eq_zero_iff not0_implies_Suc)
  then show "counts_of (count_down k m) (M - {#k#})"
    unfolding counts_of_def down using m k by (auto simp: counts_of_def in_diff_count not_in_iff)
qed

end
