(* ===== verification/Admission.thy ===== *)
theory Admission
  imports Deadline Tally
begin

text \<open>
  The classes \<open>Admission\<close> and \<open>BufferBudget\<close> of \<open>src/packages/typescript/src/concurrency.ts\<close>:
  bounded concurrency with a first-come queue per partition. The state holds the fields of the
  class, the closures it has handed out (a permit or reservation is its partition and its
  \<open>released\<close> flag, named by its position), the deadlines the waiting items refer to, and the
  promises settled so far.
\<close>

subsection \<open>State\<close>

record admission_limits =
  maxConcurrent :: int
  maxConcurrentPerPartition :: int
  maxQueued :: int
  maxQueuedPerPartition :: int

text \<open>A waiting item is named by its promise; it refers to its deadline by number.\<close>

record waiting_item =
  promise :: nat
  w_partition :: jsstr
  w_deadline :: nat
  w_diag :: jsval
  w_usedProxy :: bool

datatype settlement = Granted nat | Rejected transport_error

record admission =
  active :: int
  byPartition :: "jsstr counts"
  queuedByPartition :: "jsstr counts"
  waiting :: "waiting_item list"
  reserved :: int
  reservedByPartition :: "jsstr counts"
  limits :: admission_limits
  permits :: "(jsstr \<times> bool) list"
  reservations :: "(jsstr \<times> bool) list"
  deadlines :: "deadline list"
  clock :: rat
  settled :: "(nat \<times> jsstr \<times> settlement) list"
  promises :: nat

definition new_Admission :: "admission_limits \<Rightarrow> transport_error + admission" where
  "new_Admission l =
     (if \<not> positive (jint (maxConcurrent l)) \<or> \<not> positive (jint (maxConcurrentPerPartition l)) \<or>
         \<not> nonnegativeInteger (jint (maxQueued l)) \<or> \<not> nonnegativeInteger (jint (maxQueuedPerPartition l))
      then Inl invalid_input
      else Inr \<lparr>active = 0, byPartition = Map.empty, queuedByPartition = Map.empty, waiting = [], reserved = 0,
        reservedByPartition = Map.empty, limits = l, permits = [], reservations = [], deadlines = [], clock = 0,
        settled = [], promises = 0\<rparr>)"

definition constrain :: "admission_limits \<Rightarrow> admission \<Rightarrow> admission" where
  "constrain l s = s\<lparr>limits :=
     \<lparr>maxConcurrent = min (maxConcurrent (limits s)) (maxConcurrent l),
      maxConcurrentPerPartition = min (maxConcurrentPerPartition (limits s)) (maxConcurrentPerPartition l),
      maxQueued = min (maxQueued (limits s)) (maxQueued l),
      maxQueuedPerPartition = min (maxQueuedPerPartition (limits s)) (maxQueuedPerPartition l)\<rparr>\<rparr>"

subsection \<open>Reservations\<close>

definition phase_queued :: "jsval \<Rightarrow> jsval" where
  "phase_queued diag = JObj (set_prop (spread_object diag) (js ''phase'') (jstr ''queued''))"

definition queue_full :: "jsval \<Rightarrow> bool \<Rightarrow> transport_error" where
  "queue_full diag usedProxy = new_TransportError BUSY (phase_queued diag) usedProxy (Some Queue_full) None"

definition reserve :: "jsstr \<Rightarrow> jsval \<Rightarrow> bool \<Rightarrow> admission \<Rightarrow> (transport_error + nat) \<times> admission" where
  "reserve part diag usedProxy s =
     (if maxConcurrent (limits s) + maxQueued (limits s) \<le> reserved s \<or>
         maxConcurrentPerPartition (limits s) + maxQueuedPerPartition (limits s) \<le> count_of (reservedByPartition s) part
      then (Inl (queue_full diag usedProxy), s)
      else (Inr (length (reservations s)),
        s\<lparr>reserved := reserved s + 1, reservedByPartition := count_up part (reservedByPartition s),
          reservations := reservations s @ [(part, False)]\<rparr>))"

text \<open>The closure that \<open>reserve\<close> returned as number \<open>i\<close>; a second call does nothing.\<close>

definition release_reservation :: "nat \<Rightarrow> admission \<Rightarrow> admission" where
  "release_reservation i s =
     (if length (reservations s) \<le> i then s
      else let (part, released) = reservations s ! i in
        if released then s
        else s\<lparr>reservations := (reservations s)[i := (part, True)], reserved := reserved s - 1,
          reservedByPartition := count_down part (reservedByPartition s)\<rparr>)"

subsection \<open>Permits and the queue\<close>

definition available :: "admission \<Rightarrow> jsstr \<Rightarrow> bool" where
  "available s part \<longleftrightarrow> active s < maxConcurrent (limits s) \<and>
     count_of (byPartition s) part < maxConcurrentPerPartition (limits s)"

definition occupy :: "jsstr \<Rightarrow> admission \<Rightarrow> nat \<times> admission" where
  "occupy part s = (length (permits s),
     s\<lparr>active := active s + 1, byPartition := count_up part (byPartition s),
       permits := permits s @ [(part, False)]\<rparr>)"

definition settle :: "nat \<Rightarrow> jsstr \<Rightarrow> settlement \<Rightarrow> admission \<Rightarrow> admission" where
  "settle p part r s = s\<lparr>settled := settled s @ [(p, part, r)]\<rparr>"

definition remove_item :: "waiting_item \<Rightarrow> admission \<Rightarrow> bool \<times> admission" where
  "remove_item w s =
     (if w \<notin> set (waiting s) then (False, s)
      else (True, s\<lparr>waiting := filter (\<lambda>x. x \<noteq> w) (waiting s),
        queuedByPartition := count_down (w_partition w) (queuedByPartition s)\<rparr>))"

definition item_error :: "admission \<Rightarrow> waiting_item \<Rightarrow> jsval \<Rightarrow> transport_error" where
  "item_error s w diag = deadline_error (deadlines s ! w_deadline w) (clock s) diag (w_usedProxy w)"

text \<open>
  \<open>dispatch\<close> walks the waiting set in insertion order. Resolving or rejecting a promise runs no
  code before the walk is over, so the items visited are those waiting at its start.
\<close>

definition dispatch_item :: "waiting_item \<Rightarrow> admission \<Rightarrow> admission" where
  "dispatch_item w s =
     (if \<not> available s (w_partition w) then s
      else let s1 = snd (remove_item w s) in
        if aborted (deadlines s ! w_deadline w)
        then settle (promise w) (w_partition w) (Rejected (item_error s1 w (w_diag w))) s1
        else let (permit, s2) = occupy (w_partition w) s1
          in settle (promise w) (w_partition w) (Granted permit) s2)"

definition dispatch :: "admission \<Rightarrow> admission" where
  "dispatch s = fold dispatch_item (waiting s) s"

text \<open>The closure that \<open>occupy\<close> returned as number \<open>i\<close>.\<close>

definition release_permit :: "nat \<Rightarrow> admission \<Rightarrow> admission" where
  "release_permit i s =
     (if length (permits s) \<le> i then s
      else let (part, released) = permits s ! i in
        if released then s
        else dispatch (s\<lparr>permits := (permits s)[i := (part, True)], active := active s - 1,
          byPartition := count_down part (byPartition s)\<rparr>))"

text \<open>\<open>acquire\<close> returns a new promise, which may be settled at once.\<close>

definition acquire :: "jsstr \<Rightarrow> nat \<Rightarrow> jsval \<Rightarrow> bool \<Rightarrow> admission \<Rightarrow> admission" where
  "acquire part d diag usedProxy s =
     (let p = promises s; s1 = s\<lparr>promises := Suc p\<rparr> in
      if aborted (deadlines s ! d)
      then settle p part (Rejected (deadline_error (deadlines s ! d) (clock s) diag usedProxy)) s1
      else if available s part \<and> queuedByPartition s part = None
      then let (permit, s2) = occupy part s1 in settle p part (Granted permit) s2
      else if maxQueued (limits s) \<le> int (length (waiting s)) \<or>
        maxQueuedPerPartition (limits s) \<le> count_of (queuedByPartition s) part
      then settle p part (Rejected (queue_full diag usedProxy)) s1
      else s1\<lparr>waiting := waiting s @ [\<lparr>promise = p, w_partition = part, w_deadline = d, w_diag = diag,
          w_usedProxy = usedProxy\<rparr>], queuedByPartition := count_up part (queuedByPartition s)\<rparr>)"

definition abort_item :: "waiting_item \<Rightarrow> admission \<Rightarrow> admission" where
  "abort_item w s = (case remove_item w s of
     (False, s1) \<Rightarrow> s1
   | (True, s1) \<Rightarrow> dispatch (settle (promise w) (w_partition w) (Rejected (item_error s1 w (phase_queued (w_diag w)))) s1))"

text \<open>
  A deadline changes by \<open>f\<close> (its timer, its parent, a closing client). When that aborts its
  signal, the listeners that waiting items have registered run, in the order of registration.
\<close>

definition deadline_event :: "nat \<Rightarrow> (deadline \<Rightarrow> deadline) \<Rightarrow> admission \<Rightarrow> admission" where
  "deadline_event d f s =
     (let s1 = s\<lparr>deadlines := (deadlines s)[d := f (deadlines s ! d)]\<rparr> in
      if d < length (deadlines s) \<and> \<not> aborted (deadlines s ! d) \<and> aborted (f (deadlines s ! d))
      then fold abort_item (filter (\<lambda>w. w_deadline w = d) (waiting s)) s1 else s1)"

definition add_deadline :: "deadline \<Rightarrow> admission \<Rightarrow> nat \<times> admission" where
  "add_deadline d s = (length (deadlines s), s\<lparr>deadlines := deadlines s @ [d]\<rparr>)"

subsection \<open>Retained bytes\<close>

record buffer_budget =
  retained :: int
  budget_limit :: int

definition new_BufferBudget :: "int \<Rightarrow> transport_error + buffer_budget" where
  "new_BufferBudget l = (if \<not> positive (jint l) then Inl invalid_input else Inr \<lparr>retained = 0, budget_limit = l\<rparr>)"

definition budget_reserve :: "int \<Rightarrow> jsval \<Rightarrow> bool \<Rightarrow> buffer_budget \<Rightarrow> (transport_error + unit) \<times> buffer_budget" where
  "budget_reserve n diag usedProxy b =
     (if budget_limit b < retained b + n
      then (Inl (new_TransportError BODY_TOO_LARGE diag usedProxy (Some Buffer_limit) None), b)
      else (Inr (), b\<lparr>retained := retained b + n\<rparr>))"

definition budget_release :: "int \<Rightarrow> buffer_budget \<Rightarrow> buffer_budget" where
  "budget_release n b = b\<lparr>retained := retained b - n\<rparr>"

subsection \<open>The invariant\<close>

text \<open>The partitions of the closures that have not been called yet.\<close>

definition live :: "(jsstr \<times> bool) list \<Rightarrow> jsstr multiset" where
  "live xs = mset (map fst (filter (\<lambda>(p, r). \<not> r) xs))"

definition queue_of :: "admission \<Rightarrow> jsstr multiset" where
  "queue_of s = mset (map w_partition (waiting s))"

definition queue_ok :: "admission \<Rightarrow> bool" where
  "queue_ok s \<longleftrightarrow> sorted_wrt (\<lambda>v w. promise v < promise w) (waiting s) \<and> distinct (map fst (settled s)) \<and>
     (\<forall>w \<in> set (waiting s). promise w < promises s \<and> promise w \<notin> fst ` set (settled s) \<and> w_deadline w < length (deadlines s)) \<and>
     (\<forall>e \<in> set (settled s). fst e < promises s)"

definition adm_inv :: "admission \<Rightarrow> bool" where
  "adm_inv s \<longleftrightarrow> active s = int (size (live (permits s))) \<and> counts_of (byPartition s) (live (permits s)) \<and>
     counts_of (queuedByPartition s) (queue_of s) \<and>
     reserved s = int (size (live (reservations s))) \<and> counts_of (reservedByPartition s) (live (reservations s)) \<and>
     queue_ok s"

lemma live_Nil [simp]: "live [] = {#}"
  by (simp add: live_def)

lemma live_parts: "live (xs @ ys) = live xs + live ys" "live ((p, r) # xs) = (if r then live xs else add_mset p (live xs))"
  by (simp_all add: live_def)

lemma live_append [simp]: "live (xs @ [(p, False)]) = add_mset p (live xs)"
  by (simp add: live_parts)

lemma live_release:
  assumes "i < length xs" and "xs ! i = (p, False)"
  shows "p \<in># live xs" "live (xs[i := (p, True)]) = live xs - {#p#}"
proof -
  have "xs = take i xs @ (p, False) # drop (Suc i) xs" using assms by (metis id_take_nth_drop)
  then have "live xs = live (take i xs @ (p, False) # drop (Suc i) xs)" by (rule arg_cong)
  then have "live xs = add_mset p (live (take i xs) + live (drop (Suc i) xs))" by (simp add: live_parts)
  moreover have "live (xs[i := (p, True)]) = live (take i xs) + live (drop (Suc i) xs)"
    using assms(1) by (simp add: upd_conv_take_nth_drop live_parts)
  ultimately show "p \<in># live xs" "live (xs[i := (p, True)]) = live xs - {#p#}" by simp_all
qed

lemma queue_remove:
  assumes "distinct ws" and "w \<in> set ws"
  shows "mset (map f (filter (\<lambda>x. x \<noteq> w) ws)) = mset (map f ws) - {#f w#}"
proof -
  have "filter (\<lambda>x. x \<noteq> w) ws = remove1 w ws" using assms(1) by (auto simp: distinct_remove1_removeAll removeAll_filter_not_eq intro: filter_cong)
  with assms(2) show ?thesis by (simp add: mset_map image_mset_Diff)
qed

lemma queue_ok_distinct: "queue_ok s \<Longrightarrow> distinct (waiting s)"
  by (auto simp: queue_ok_def sorted_wrt_iff_nth_less distinct_conv_nth) (metis less_irrefl linorder_neqE_nat)

subsection \<open>The basic operations keep it\<close>

lemma occupy_inv: "adm_inv s \<Longrightarrow> adm_inv (snd (occupy part s))"
  by (auto simp: adm_inv_def occupy_def queue_of_def queue_ok_def intro: counts.holds_up)

lemma remove_item_inv:
  assumes "adm_inv s" and "w \<in> set (waiting s)"
  shows "adm_inv (snd (remove_item w s))"
proof -
  have "queue_ok s" and counts: "counts_of (queuedByPartition s) (queue_of s)" using assms(1) by (auto simp: adm_inv_def)
  then have "distinct (waiting s)" by (intro queue_ok_distinct)
  with queue_remove [OF this assms(2), of w_partition] counts.holds_down [OF counts, of "w_partition w"] assms
  have "counts_of (queuedByPartition (snd (remove_item w s))) (queue_of (snd (remove_item w s)))"
    by (auto simp: remove_item_def queue_of_def)
  with assms show ?thesis
    by (auto simp: adm_inv_def remove_item_def queue_ok_def sorted_wrt_filter)
qed

lemma settle_inv:
  assumes "adm_inv s" and "p < promises s" and "p \<notin> fst ` set (settled s)" and "\<forall>w \<in> set (waiting s). promise w \<noteq> p"
  shows "adm_inv (settle p part r s)"
  using assms by (auto simp: adm_inv_def settle_def queue_of_def queue_ok_def)

subsection \<open>Dispatching\<close>

text \<open>
  What a run of the dispatcher may change. \<open>fair s p part\<close>: nobody of the partition who came
  before promise \<open>p\<close> is still waiting.
\<close>

definition fair :: "admission \<Rightarrow> nat \<Rightarrow> jsstr \<Rightarrow> bool" where
  "fair s p part \<longleftrightarrow> (\<forall>w \<in> set (waiting s). w_partition w = part \<longrightarrow> p < promise w)"

definition same_frame :: "admission \<Rightarrow> admission \<Rightarrow> bool" where
  "same_frame s s' \<longleftrightarrow> limits s' = limits s \<and> deadlines s' = deadlines s \<and> clock s' = clock s \<and> promises s' = promises s \<and>
     reservations s' = reservations s \<and> reserved s' = reserved s \<and> reservedByPartition s' = reservedByPartition s"

definition progress :: "admission \<Rightarrow> admission \<Rightarrow> bool" where
  "progress s s' \<longleftrightarrow> adm_inv s' \<and> same_frame s s' \<and> set (waiting s') \<subseteq> set (waiting s) \<and> length (waiting s') \<le> length (waiting s) \<and>
     (\<forall>part. count_of (queuedByPartition s') part \<le> count_of (queuedByPartition s) part) \<and>
     active s \<le> active s' \<and> active s' \<le> max (active s) (maxConcurrent (limits s)) \<and>
     (\<forall>part. count_of (byPartition s) part \<le> count_of (byPartition s') part \<and>
       count_of (byPartition s') part \<le> max (count_of (byPartition s) part) (maxConcurrentPerPartition (limits s))) \<and>
     set (settled s) \<subseteq> set (settled s') \<and>
     (\<forall>p part k. (p, part, Granted k) \<in> set (settled s') - set (settled s) \<longrightarrow> fair s' p part)"

lemma progress_refl: "adm_inv s \<Longrightarrow> progress s s"
  by (simp add: progress_def same_frame_def)

lemma fair_mono: "fair s p part \<Longrightarrow> set (waiting s') \<subseteq> set (waiting s) \<Longrightarrow> fair s' p part"
  by (auto simp: fair_def)

lemma progress_trans:
  assumes a: "progress s s1" and b: "progress s1 s2"
  shows "progress s s2"
proof -
  have "fair s2 p part" if "(p, part, Granted k) \<in> set (settled s2) - set (settled s)" for p part k
  proof (cases "(p, part, Granted k) \<in> set (settled s1)")
    case True
    with that a have "fair s1 p part" unfolding progress_def by blast
    with b show ?thesis by (auto simp: progress_def intro: fair_mono)
  next
    case False
    with that b show ?thesis unfolding progress_def by blast
  qed
  moreover have "same_frame s s2" using a b by (simp add: progress_def same_frame_def)
  moreover have lim: "limits s1 = limits s" using a by (simp add: progress_def same_frame_def)
  moreover have "count_of (byPartition s) part \<le> count_of (byPartition s2) part \<and>
      count_of (byPartition s2) part \<le> max (count_of (byPartition s) part) (maxConcurrentPerPartition (limits s))" for part
    using a b lim unfolding progress_def by (smt (verit))
  moreover have "count_of (queuedByPartition s2) part \<le> count_of (queuedByPartition s) part" for part
    using a b unfolding progress_def by (meson order_trans)
  ultimately show ?thesis using a b unfolding progress_def by (auto dest: order_trans)
qed

lemma progress_available: "progress s s' \<Longrightarrow> available s' part \<Longrightarrow> available s part"
  by (auto simp: progress_def same_frame_def available_def dest: spec [of _ part])

lemma remove_item_simps:
  assumes "w \<in> set (waiting s)"
  shows "waiting (snd (remove_item w s)) = filter (\<lambda>x. x \<noteq> w) (waiting s)" "same_frame s (snd (remove_item w s))"
    "active (snd (remove_item w s)) = active s" "byPartition (snd (remove_item w s)) = byPartition s"
    "settled (snd (remove_item w s)) = settled s" "permits (snd (remove_item w s)) = permits s"
    "queuedByPartition (snd (remove_item w s)) = count_down (w_partition w) (queuedByPartition s)"
  using assms by (simp_all add: remove_item_def same_frame_def)

lemma queue_count_down:
  assumes "adm_inv s" and "w \<in> set (waiting s)"
  shows "count_of (count_down (w_partition w) (queuedByPartition s)) part \<le> count_of (queuedByPartition s) part"
proof -
  have "counts_of (queuedByPartition s) (queue_of s)" "w_partition w \<in># queue_of s"
    using assms by (auto simp: adm_inv_def queue_of_def)
  from counts.num_down [OF this] show ?thesis by simp
qed

lemma remove_item_progress:
  assumes "adm_inv s" and "w \<in> set (waiting s)"
  shows "progress s (snd (remove_item w s))"
  using remove_item_inv [OF assms] remove_item_simps [OF assms(2)] queue_count_down [OF assms]
  by (auto simp: progress_def)

lemma rejected_progress:
  assumes "adm_inv s" and "w \<in> set (waiting s)"
  shows "progress s (settle (promise w) part (Rejected e) (snd (remove_item w s)))"
proof -
  let ?s = "snd (remove_item w s)"
  have "queue_ok s" using assms(1) by (simp add: adm_inv_def)
  then have "promise w < promises s" "promise w \<notin> fst ` set (settled s)" "\<forall>v \<in> set (waiting s). v \<noteq> w \<longrightarrow> promise v \<noteq> promise w"
    using assms(2) by (auto simp: queue_ok_def sorted_wrt_iff_nth_less in_set_conv_nth) (metis less_irrefl linorder_neqE_nat)
  then have "adm_inv (settle (promise w) part (Rejected e) ?s)"
    using remove_item_inv [OF assms] remove_item_simps [OF assms(2)]
    by (intro settle_inv) (auto simp: same_frame_def)
  with remove_item_progress [OF assms] remove_item_simps(5) [OF assms(2)] show ?thesis
    by (auto simp: progress_def settle_def same_frame_def)
qed

lemma granted_progress:
  assumes inv: "adm_inv s" and w: "w \<in> set (waiting s)" and av: "available s (w_partition w)"
    and first: "\<forall>v \<in> set (waiting s). w_partition v = w_partition w \<longrightarrow> promise w \<le> promise v"
  shows "progress s (settle (promise w) (w_partition w) (Granted k) (snd (occupy (w_partition w) (snd (remove_item w s)))))"
proof -
  let ?s1 = "snd (remove_item w s)" and ?p = "w_partition w"
  let ?s2 = "snd (occupy ?p ?s1)"
  let ?s3 = "settle (promise w) ?p (Granted k) ?s2"
  note rm = remove_item_simps [OF w]
  have "queue_ok s" using inv by (simp add: adm_inv_def)
  then have w': "promise w < promises s" "promise w \<notin> fst ` set (settled s)"
    and others: "\<forall>v \<in> set (waiting s). v \<noteq> w \<longrightarrow> promise v \<noteq> promise w"
    using w by (auto simp: queue_ok_def sorted_wrt_iff_nth_less in_set_conv_nth) (metis less_irrefl linorder_neqE_nat)
  have inv2: "adm_inv ?s2" by (intro occupy_inv remove_item_inv inv w)
  have "adm_inv ?s3"
    using inv2 w' others rm by (intro settle_inv) (auto simp: occupy_def same_frame_def)
  moreover have "fair ?s3 (promise w) ?p"
    using first others rm by (fastforce simp: fair_def occupy_def settle_def)
  moreover have "counts_of (byPartition s) (live (permits s))" using inv by (simp add: adm_inv_def)
  note counts.num_up [OF this, of ?p]
  ultimately show ?thesis
    using remove_item_progress [OF inv w] rm av
    by (auto simp: progress_def settle_def occupy_def same_frame_def available_def)
qed

text \<open>
  One visit, and the walk: the items still to be visited are given by \<open>ws\<close>; those visited that
  still wait have no free slot.
\<close>

lemma dispatch_item_progress:
  assumes "adm_inv s" and "w \<in> set (waiting s)"
    and "available s (w_partition w) \<Longrightarrow> \<forall>v \<in> set (waiting s). w_partition v = w_partition w \<longrightarrow> promise w \<le> promise v"
  shows "progress s (dispatch_item w s)"
    and "waiting (dispatch_item w s) = (if available s (w_partition w) then filter (\<lambda>x. x \<noteq> w) (waiting s) else waiting s)"
  using assms progress_refl [of s] rejected_progress [of s w] granted_progress [of s w] remove_item_simps [of w s]
  by (auto simp: dispatch_item_def Let_def settle_def occupy_def same_frame_def case_prod_unfold)

lemma dispatch_walk:
  assumes "adm_inv s" and "sorted_wrt (\<lambda>v w. promise v < promise w) ws" and "set ws \<subseteq> set (waiting s)"
    and "\<forall>w \<in> set (waiting s) - set ws. \<not> available s (w_partition w)"
  shows "progress s (fold dispatch_item ws s) \<and>
    (\<forall>w \<in> set (waiting (fold dispatch_item ws s)). \<not> available (fold dispatch_item ws s) (w_partition w))"
  using assms
proof (induction ws arbitrary: s)
  case Nil
  then show ?case by (simp add: progress_refl)
next
  case (Cons w ws)
  let ?s = "dispatch_item w s"
  have w: "w \<in> set (waiting s)" using Cons.prems(3) by simp
  have first: "\<forall>v \<in> set (waiting s). w_partition v = w_partition w \<longrightarrow> promise w \<le> promise v" if "available s (w_partition w)"
  proof (intro ballI impI)
    fix v
    assume v: "v \<in> set (waiting s)" "w_partition v = w_partition w"
    then have "available s (w_partition v)" using that by simp
    with v(1) have "v \<in> set (w # ws)" using Cons.prems(4) by blast
    then show "promise w \<le> promise v" using Cons.prems(2) by auto
  qed
  note one = dispatch_item_progress [OF Cons.prems(1) w first]
  have inv: "adm_inv ?s" using one(1) by (simp add: progress_def)
  have nw: "w \<notin> set ws" using Cons.prems(2) by auto
  have sub: "set ws \<subseteq> set (waiting ?s)" using Cons.prems(3) nw one(2) by auto
  have rest: "\<forall>v \<in> set (waiting ?s) - set ws. \<not> available ?s (w_partition v)"
    using Cons.prems(4) one(2) progress_available [OF one(1)] by (auto split: if_splits)
  from Cons.IH [OF inv _ sub rest] Cons.prems(2) progress_trans [OF one(1)] show ?case by auto
qed

lemma dispatch_progress:
  assumes "adm_inv s"
  shows "progress s (dispatch s)" "\<forall>w \<in> set (waiting (dispatch s)). \<not> available (dispatch s) (w_partition w)"
  using dispatch_walk [of s "waiting s"] assms by (auto simp: dispatch_def adm_inv_def queue_ok_def)

subsection \<open>Whole operations\<close>

text \<open>No item waits while its partition has a free slot, and none waits on an aborted signal.\<close>

definition conserving :: "admission \<Rightarrow> bool" where
  "conserving s \<longleftrightarrow> (\<forall>w \<in> set (waiting s). \<not> available s (w_partition w))"

definition prompt :: "admission \<Rightarrow> bool" where
  "prompt s \<longleftrightarrow> (\<forall>w \<in> set (waiting s). \<not> aborted (deadlines s ! w_deadline w))"

text \<open>Every grant of a step is fair: nobody of the partition who asked before is left waiting.\<close>

definition fair_step :: "admission \<Rightarrow> admission \<Rightarrow> bool" where
  "fair_step s s' \<longleftrightarrow> (\<forall>p part k. (p, part, Granted k) \<in> set (settled s') - set (settled s) \<longrightarrow> fair s' p part)"

text \<open>The limits of the constructor bound everything, also after they were constrained.\<close>

definition bounded :: "admission_limits \<Rightarrow> admission \<Rightarrow> bool" where
  "bounded l s \<longleftrightarrow> active s \<le> maxConcurrent l \<and> (\<forall>part. count_of (byPartition s) part \<le> maxConcurrentPerPartition l) \<and>
     int (length (waiting s)) \<le> maxQueued l \<and> (\<forall>part. count_of (queuedByPartition s) part \<le> maxQueuedPerPartition l) \<and>
     reserved s \<le> maxConcurrent l + maxQueued l \<and>
     (\<forall>part. count_of (reservedByPartition s) part \<le> maxConcurrentPerPartition l + maxQueuedPerPartition l) \<and>
     maxConcurrent (limits s) \<le> maxConcurrent l \<and> maxConcurrentPerPartition (limits s) \<le> maxConcurrentPerPartition l \<and>
     maxQueued (limits s) \<le> maxQueued l \<and> maxQueuedPerPartition (limits s) \<le> maxQueuedPerPartition l"

lemma progress_fair: "progress s s' \<Longrightarrow> fair_step s s'"
  unfolding progress_def fair_step_def by blast

lemma progress_bounded:
  assumes "progress s s'" and "bounded l s"
  shows "bounded l s'"
proof -
  have p: "active s' \<le> max (active s) (maxConcurrent (limits s))" "length (waiting s') \<le> length (waiting s)" "same_frame s s'"
    using assms(1) by (auto simp: progress_def)
  have "count_of (byPartition s') part \<le> max (count_of (byPartition s) part) (maxConcurrentPerPartition (limits s))"
    "count_of (queuedByPartition s') part \<le> count_of (queuedByPartition s) part" for part
    using assms(1) by (auto simp: progress_def)
  then have "count_of (byPartition s') part \<le> maxConcurrentPerPartition l"
    "count_of (queuedByPartition s') part \<le> maxQueuedPerPartition l" for part
    using assms(2) unfolding bounded_def by (meson max.boundedI order_trans)+
  with p assms(2) show ?thesis by (auto simp: bounded_def same_frame_def)
qed

lemma progress_prompt: "progress s s' \<Longrightarrow> prompt s \<Longrightarrow> prompt s'"
  by (auto simp: progress_def prompt_def same_frame_def)

definition good :: "admission_limits \<Rightarrow> admission \<Rightarrow> bool" where
  "good l s \<longleftrightarrow> adm_inv s \<and> conserving s \<and> prompt s \<and> bounded l s"

lemma dispatch_good:
  assumes "adm_inv s" and "prompt s" and "bounded l s"
  shows "good l (dispatch s)" "fair_step s (dispatch s)"
  using dispatch_progress [OF assms(1)] progress_prompt [OF _ assms(2)] progress_bounded [OF _ assms(3)] progress_fair
  by (auto simp: good_def conserving_def progress_def)

lemma release_permit_good:
  assumes "good l s"
  shows "good l (release_permit i s) \<and> fair_step s (release_permit i s)"
proof (cases "i < length (permits s) \<and> \<not> snd (permits s ! i)")
  case True
  then obtain p where p: "permits s ! i = (p, False)" by (cases "permits s ! i") auto
  let ?s = "s\<lparr>permits := (permits s)[i := (p, True)], active := active s - 1, byPartition := count_down p (byPartition s)\<rparr>"
  have rel: "release_permit i s = dispatch ?s" using True p by (simp add: release_permit_def)
  have inv: "adm_inv s" and c: "counts_of (byPartition s) (live (permits s))" using assms by (auto simp: good_def adm_inv_def)
  note l = live_release [OF conjunct1 [OF True] p]
  have "adm_inv ?s"
    using inv l counts.holds_down [OF c l(1)]
    by (auto simp: adm_inv_def queue_of_def queue_ok_def simp del: size_Diff_singleton)
  moreover have "prompt ?s" using assms by (simp add: good_def prompt_def)
  moreover have "bounded l ?s"
    using assms counts.num_down_le [OF c l(1)] by (auto simp: good_def bounded_def)
  ultimately have "good l (dispatch ?s)" "fair_step ?s (dispatch ?s)" by (rule dispatch_good)+
  then show ?thesis by (simp add: rel fair_step_def)
next
  case False
  then have "release_permit i s = s" by (auto simp: release_permit_def case_prod_unfold)
  with assms show ?thesis by (simp add: fair_step_def)
qed

lemma acquire_good:
  assumes good: "good l s" and d: "d < length (deadlines s)"
  shows "good l (acquire part d diag u s) \<and> fair_step s (acquire part d diag u s)"
proof -
  let ?p = "promises s" and ?s = "s\<lparr>promises := Suc (promises s)\<rparr>"
  have inv: "adm_inv s" using good by (simp add: good_def)
  have fresh: "?p \<notin> fst ` set (settled s)" "\<forall>w \<in> set (waiting s). promise w \<noteq> ?p"
    using inv by (auto simp: adm_inv_def queue_ok_def)
  have inv1: "adm_inv ?s" using inv by (auto simp: adm_inv_def queue_of_def queue_ok_def less_SucI)
  have rejected: "good l (settle ?p part (Rejected e) ?s) \<and> fair_step s (settle ?p part (Rejected e) ?s)" for e
    using settle_inv [OF inv1, of ?p part "Rejected e"] fresh good
    by (auto simp: good_def conserving_def prompt_def bounded_def settle_def fair_step_def available_def)
  have queued: "counts_of (queuedByPartition s) (queue_of s)" and held: "counts_of (byPartition s) (live (permits s))"
    using inv by (auto simp: adm_inv_def)
  consider (aborted) "aborted (deadlines s ! d)" | (free) "\<not> aborted (deadlines s ! d)" "available s part" "queuedByPartition s part = None"
    | (full) "\<not> aborted (deadlines s ! d)" "\<not> (available s part \<and> queuedByPartition s part = None)"
      "maxQueued (limits s) \<le> int (length (waiting s)) \<or> maxQueuedPerPartition (limits s) \<le> count_of (queuedByPartition s) part"
    | (wait) "\<not> aborted (deadlines s ! d)" "\<not> (available s part \<and> queuedByPartition s part = None)"
      "int (length (waiting s)) < maxQueued (limits s)" "count_of (queuedByPartition s) part < maxQueuedPerPartition (limits s)"
    by linarith
  then show ?thesis
  proof cases
    case aborted
    with rejected show ?thesis by (simp add: acquire_def Let_def)
  next
    case full
    with rejected show ?thesis by (auto simp: acquire_def Let_def)
  next
    case free
    let ?s2 = "settle ?p part (Granted (length (permits s))) (snd (occupy part ?s))"
    have acq: "acquire part d diag u s = ?s2" using free by (simp add: acquire_def Let_def occupy_def)
    have "adm_inv ?s2" using occupy_inv [OF inv1] fresh by (intro settle_inv) (auto simp: occupy_def)
    moreover have "part \<notin># queue_of s" using free(3) counts.has_holds [OF queued, of part] by simp
    then have "fair ?s2 ?p part" by (auto simp: fair_def queue_of_def settle_def occupy_def)
    moreover have "count_of (byPartition s) part \<le> count_of (count_up part (byPartition s)) part" for part part'
      using counts.num_up [OF held] by simp
    ultimately show ?thesis
      unfolding acq using good free counts.num_up [OF held, of part]
      by (auto simp: good_def conserving_def prompt_def bounded_def settle_def occupy_def fair_step_def available_def fair_def)
  next
    case wait
    let ?w = "\<lparr>promise = ?p, w_partition = part, w_deadline = d, w_diag = diag, w_usedProxy = u\<rparr>"
    let ?s2 = "?s\<lparr>waiting := waiting s @ [?w], queuedByPartition := count_up part (queuedByPartition s)\<rparr>"
    have acq: "acquire part d diag u s = ?s2" using wait by (auto simp: acquire_def Let_def)
    have "\<not> available s part"
    proof
      assume av: "available s part"
      with wait(2) have "part \<in># queue_of s" using counts.has_holds [OF queued, of part] by simp
      then obtain w where "w \<in> set (waiting s)" "w_partition w = part" by (auto simp: queue_of_def)
      with av good show False by (auto simp: good_def conserving_def)
    qed
    moreover have "adm_inv ?s2"
      using inv fresh d counts.holds_up [OF queued, of part]
      by (auto simp: adm_inv_def queue_of_def queue_ok_def sorted_wrt_append less_SucI)
    ultimately show ?thesis
      unfolding acq using good wait counts.num_up [OF queued, of part]
      by (auto simp: good_def conserving_def prompt_def bounded_def fair_step_def available_def nth_append)
  qed
qed

lemma abort_item_good:
  assumes "adm_inv s" and "conserving s" and "bounded l s"
  shows "adm_inv (abort_item w s) \<and> conserving (abort_item w s) \<and> bounded l (abort_item w s) \<and> fair_step s (abort_item w s) \<and>
    set (waiting (abort_item w s)) \<subseteq> set (waiting s) - {w} \<and> same_frame s (abort_item w s)"
proof (cases "w \<in> set (waiting s)")
  case True
  let ?e = "item_error (snd (remove_item w s)) w (phase_queued (w_diag w))"
  let ?s = "settle (promise w) (w_partition w) (Rejected ?e) (snd (remove_item w s))"
  have ab: "abort_item w s = dispatch ?s" using True by (simp add: abort_item_def remove_item_def)
  note rej = rejected_progress [OF assms(1) True, of "w_partition w" ?e]
  have inv: "adm_inv ?s" using rej by (simp add: progress_def)
  note dis = dispatch_progress [OF inv]
  have p: "progress s (dispatch ?s)" by (rule progress_trans [OF rej dis(1)])
  have "w \<notin> set (waiting ?s)" using remove_item_simps(1) [OF True] by (simp add: settle_def)
  then have "w \<notin> set (waiting (dispatch ?s))" using dis(1) by (auto simp: progress_def)
  with p dis(2) progress_bounded [OF p assms(3)] progress_fair [OF p] show ?thesis
    by (auto simp: ab conserving_def progress_def)
next
  case False
  then have "abort_item w s = s" by (simp add: abort_item_def remove_item_def)
  with False assms show ?thesis by (simp add: fair_step_def same_frame_def)
qed

lemma fair_step_trans:
  assumes "fair_step s s1" and "fair_step s1 s2" and "set (waiting s2) \<subseteq> set (waiting s1)"
  shows "fair_step s s2"
  using assms fair_mono [of s1 _ _ s2] unfolding fair_step_def by blast

lemma abort_items_good:
  assumes "adm_inv s" and "conserving s" and "bounded l s"
  shows "adm_inv (fold abort_item ws s) \<and> conserving (fold abort_item ws s) \<and> bounded l (fold abort_item ws s) \<and>
    fair_step s (fold abort_item ws s) \<and> set (waiting (fold abort_item ws s)) \<subseteq> set (waiting s) - set ws \<and>
    same_frame s (fold abort_item ws s)"
  using assms
proof (induction ws arbitrary: s)
  case Nil
  then show ?case by (simp add: fair_step_def same_frame_def)
next
  case (Cons w ws)
  note one = abort_item_good [OF Cons.prems, of w]
  let ?s = "abort_item w s" and ?t = "fold abort_item ws (abort_item w s)"
  have rest: "adm_inv ?t \<and> conserving ?t \<and> bounded l ?t \<and> fair_step ?s ?t \<and> set (waiting ?t) \<subseteq> set (waiting ?s) - set ws \<and>
      same_frame ?s ?t"
    using one by (intro Cons.IH) auto
  have "fair_step s ?t"
    by (rule fair_step_trans [of s ?s]) (use one rest in blast)+
  moreover have "set (waiting ?t) \<subseteq> set (waiting s) - set (w # ws)" using one rest by (simp only: list.set) blast
  moreover have "same_frame s ?t" using one rest unfolding same_frame_def by metis
  ultimately show ?case using rest by simp
qed

text \<open>What may happen to a deadline, seen from the queue.\<close>

datatype deadline_change = TimerFires | ParentAborts abort_reason | CloserAborts transport_error

fun change_deadline :: "deadline_change \<Rightarrow> deadline \<Rightarrow> deadline" where
  "change_deadline TimerFires d = onTimer d"
| "change_deadline (ParentAborts r) d = onAbort r d"
| "change_deadline (CloserAborts e) d = controller_abort (TransportReason e) d"

lemma change_deadline_aborted [simp]: "signal (change_deadline c d) \<noteq> None"
  using aborted_stable by (cases c) auto

lemma deadline_event_good:
  assumes "good l s" and "d < length (deadlines s)"
  shows "good l (deadline_event d (change_deadline c) s) \<and> fair_step s (deadline_event d (change_deadline c) s)"
proof -
  let ?s = "s\<lparr>deadlines := (deadlines s)[d := change_deadline c (deadlines s ! d)]\<rparr>"
  have s: "adm_inv ?s" "conserving ?s" "bounded l ?s"
    using assms(1) by (auto simp: good_def adm_inv_def queue_of_def queue_ok_def conserving_def available_def bounded_def)
  show ?thesis
  proof (cases "aborted (deadlines s ! d)")
    case True
    then have none: "d \<noteq> w_deadline w" if "w \<in> set (waiting s)" for w
      using that assms(1) by (auto simp: good_def prompt_def)
    have "prompt ?s" using assms(1) none by (auto simp: good_def prompt_def)
    moreover have "deadline_event d (change_deadline c) s = ?s" using True by (simp add: deadline_event_def)
    ultimately show ?thesis using s by (simp add: good_def fair_step_def)
  next
    case False
    let ?ws = "filter (\<lambda>w. w_deadline w = d) (waiting s)"
    let ?t = "fold abort_item ?ws ?s"
    have ev: "deadline_event d (change_deadline c) s = ?t" using False assms(2) by (simp add: deadline_event_def Let_def)
    have t: "adm_inv ?t" "conserving ?t" "bounded l ?t" "fair_step ?s ?t" "set (waiting ?t) \<subseteq> set (waiting ?s) - set ?ws"
        "same_frame ?s ?t"
      using abort_items_good [OF s, of ?ws] by blast+
    have "prompt ?t"
      unfolding prompt_def
    proof
      fix w
      assume "w \<in> set (waiting ?t)"
      then have w: "w \<in> set (waiting s)" "d \<noteq> w_deadline w" using t(5) by auto
      have "deadlines ?t ! w_deadline w = deadlines s ! w_deadline w"
        using t(6) w(2) by (simp add: same_frame_def)
      with assms(1) w(1) show "\<not> aborted (deadlines ?t ! w_deadline w)" by (simp add: good_def prompt_def)
    qed
    with t show ?thesis by (simp add: ev good_def fair_step_def)
  qed
qed

lemma reserve_good:
  assumes "good l s"
  shows "good l (snd (reserve part diag u s)) \<and> fair_step s (snd (reserve part diag u s))"
proof -
  have c: "counts_of (reservedByPartition s) (live (reservations s))" using assms by (auto simp: good_def adm_inv_def)
  show ?thesis
    using assms counts.holds_up [OF c, of part] counts.num_up [OF c, of part]
    by (auto simp: reserve_def good_def adm_inv_def queue_of_def queue_ok_def conserving_def available_def prompt_def bounded_def
        fair_step_def)
qed

lemma release_reservation_good:
  assumes "good l s"
  shows "good l (release_reservation i s) \<and> fair_step s (release_reservation i s)"
proof (cases "i < length (reservations s) \<and> \<not> snd (reservations s ! i)")
  case True
  then obtain p where p: "reservations s ! i = (p, False)" by (cases "reservations s ! i") auto
  have c: "counts_of (reservedByPartition s) (live (reservations s))" using assms by (auto simp: good_def adm_inv_def)
  note l = live_release [OF conjunct1 [OF True] p]
  show ?thesis
    using assms True p l counts.holds_down [OF c l(1)] counts.num_down_le [OF c l(1)]
    by (auto simp: release_reservation_def good_def adm_inv_def queue_of_def queue_ok_def conserving_def available_def
        prompt_def bounded_def fair_step_def simp del: size_Diff_singleton)
next
  case False
  then have "release_reservation i s = s" by (auto simp: release_reservation_def case_prod_unfold)
  with assms show ?thesis by (simp add: fair_step_def)
qed

lemma constrain_good: "good l s \<Longrightarrow> good l (constrain c s) \<and> fair_step s (constrain c s)"
  by (auto simp: constrain_def good_def adm_inv_def queue_of_def queue_ok_def conserving_def available_def prompt_def
      bounded_def fair_step_def)

lemma new_Admission_good: "new_Admission l = Inr s \<Longrightarrow> good l s"
  by (auto simp: new_Admission_def good_def adm_inv_def queue_of_def queue_ok_def conserving_def prompt_def bounded_def
      counts_of_def count_of_def split: if_splits)

subsection \<open>Reachable states\<close>

text \<open>
  The operations in any order: the client acquires, releases, reserves and constrains, deadlines
  are added and abort, time passes.
\<close>

inductive adm_step :: "admission \<Rightarrow> admission \<Rightarrow> bool" where
  acquire: "d < length (deadlines s) \<Longrightarrow> adm_step s (acquire part d diag u s)"
| release: "adm_step s (release_permit i s)"
| abort: "d < length (deadlines s) \<Longrightarrow> adm_step s (deadline_event d (change_deadline c) s)"
| reserve: "adm_step s (snd (reserve part diag u s))"
| unreserve: "adm_step s (release_reservation i s)"
| constrain: "adm_step s (constrain c s)"
| deadline: "adm_step s (snd (add_deadline d s))"
| tick: "adm_step s (s\<lparr>clock := t\<rparr>)"

inductive adm_reachable :: "admission_limits \<Rightarrow> admission \<Rightarrow> bool" for l where
  start: "new_Admission l = Inr s \<Longrightarrow> adm_reachable l s"
| step: "adm_reachable l s \<Longrightarrow> adm_step s s' \<Longrightarrow> adm_reachable l s'"

lemma adm_step_good: "adm_step s s' \<Longrightarrow> good l s \<Longrightarrow> good l s' \<and> fair_step s s'"
proof (induction rule: adm_step.induct)
  case (deadline s d)
  then show ?case
    by (auto simp: add_deadline_def good_def adm_inv_def queue_of_def queue_ok_def conserving_def available_def prompt_def
        bounded_def fair_step_def nth_append)
next
  case (tick s t)
  then show ?case
    by (auto simp: good_def adm_inv_def queue_of_def queue_ok_def conserving_def available_def prompt_def bounded_def
        fair_step_def)
qed (simp_all add: acquire_good release_permit_good deadline_event_good reserve_good release_reservation_good constrain_good)

lemma adm_reachable_good: "adm_reachable l s \<Longrightarrow> good l s"
  by (induction rule: adm_reachable.induct) (auto dest: new_Admission_good adm_step_good)

subsection \<open>Promises and closures\<close>

definition accounted :: "admission \<Rightarrow> nat set" where
  "accounted s = promise ` set (waiting s) \<union> fst ` set (settled s)"

lemma dispatch_item_accounted: "accounted s \<subseteq> accounted (dispatch_item w s) \<and> promises (dispatch_item w s) = promises s"
  by (auto simp: accounted_def dispatch_item_def remove_item_def occupy_def settle_def Let_def)

lemma dispatch_accounted: "accounted s \<subseteq> accounted (dispatch s) \<and> promises (dispatch s) = promises s"
proof -
  have "accounted s \<subseteq> accounted (fold dispatch_item ws s) \<and> promises (fold dispatch_item ws s) = promises s" for ws
  proof (induction ws arbitrary: s)
    case (Cons w ws)
    from dispatch_item_accounted [of s w] Cons.IH [of "dispatch_item w s"] show ?case by auto
  qed simp
  then show ?thesis by (simp add: dispatch_def)
qed

lemma abort_item_accounted: "accounted s \<subseteq> accounted (abort_item w s) \<and> promises (abort_item w s) = promises s"
proof (cases "w \<in> set (waiting s)")
  case True
  let ?e = "item_error (snd (remove_item w s)) w (phase_queued (w_diag w))"
  let ?s = "settle (promise w) (w_partition w) (Rejected ?e) (snd (remove_item w s))"
  have "abort_item w s = dispatch ?s" using True by (simp add: abort_item_def remove_item_def)
  moreover have "accounted s \<subseteq> accounted ?s" "promises ?s = promises s"
    by (auto simp: accounted_def settle_def remove_item_def)
  ultimately show ?thesis using dispatch_accounted [of ?s] by auto
qed (simp add: abort_item_def remove_item_def)

lemma abort_items_accounted:
  "accounted s \<subseteq> accounted (fold abort_item ws s) \<and> promises (fold abort_item ws s) = promises s"
proof (induction ws arbitrary: s)
  case (Cons w ws)
  from abort_item_accounted [of s w] Cons.IH [of "abort_item w s"] show ?case by auto
qed simp

lemma adm_step_accounted: "adm_step s s' \<Longrightarrow> {..<promises s} \<subseteq> accounted s \<Longrightarrow> {..<promises s'} \<subseteq> accounted s'"
proof (induction rule: adm_step.induct)
  case (acquire d s part diag u)
  then show ?case by (auto simp: acquire_def accounted_def Let_def settle_def occupy_def lessThan_Suc)
next
  case (release s i)
  let ?s = "\<lambda>p. s\<lparr>permits := (permits s)[i := (p, True)], active := active s - 1, byPartition := count_down p (byPartition s)\<rparr>"
  have "accounted (?s p) = accounted s" "promises (?s p) = promises s" for p by (simp_all add: accounted_def)
  with release dispatch_accounted [of "?s (fst (permits s ! i))"] show ?case
    by (auto simp: release_permit_def case_prod_unfold Let_def)
next
  case (abort d s c)
  let ?s = "s\<lparr>deadlines := (deadlines s)[d := change_deadline c (deadlines s ! d)]\<rparr>"
  have "accounted ?s = accounted s" "promises ?s = promises s" by (simp_all add: accounted_def)
  with abort abort_items_accounted [of ?s "filter (\<lambda>w. w_deadline w = d) (waiting s)"] show ?case
    by (auto simp: deadline_event_def Let_def)
qed (auto simp: accounted_def reserve_def release_reservation_def constrain_def add_deadline_def case_prod_unfold Let_def)

lemma adm_reachable_accounted: "adm_reachable l s \<Longrightarrow> {..<promises s} \<subseteq> accounted s"
  by (induction rule: adm_reachable.induct)
    (auto simp: new_Admission_def dest: adm_step_accounted split: if_splits)

lemma dispatch_keeps_permits: "i < length (permits s) \<Longrightarrow> i < length (permits (dispatch s)) \<and> permits (dispatch s) ! i = permits s ! i"
proof -
  have "i < length (permits (fold dispatch_item ws s)) \<and> permits (fold dispatch_item ws s) ! i = permits s ! i"
    if "i < length (permits s)" for ws
    using that
  proof (induction ws arbitrary: s)
    case (Cons w ws)
    then have "i < length (permits (dispatch_item w s)) \<and> permits (dispatch_item w s) ! i = permits s ! i"
      by (auto simp: dispatch_item_def remove_item_def occupy_def settle_def Let_def nth_append)
    with Cons.IH [of "dispatch_item w s"] show ?case by auto
  qed simp
  then show "i < length (permits s) \<Longrightarrow> i < length (permits (dispatch s)) \<and> permits (dispatch s) ! i = permits s ! i"
    by (simp add: dispatch_def)
qed

subsection \<open>A reachable state\<close>

text \<open>One slot, taken, and one item waiting for it.\<close>

definition sample_limits :: admission_limits where
  "sample_limits = \<lparr>maxConcurrent = 1, maxConcurrentPerPartition = 1, maxQueued = 2, maxQueuedPerPartition = 2\<rparr>"

definition sample_start :: admission where
  "sample_start = \<lparr>active = 0, byPartition = Map.empty, queuedByPartition = Map.empty, waiting = [], reserved = 0,
     reservedByPartition = Map.empty, limits = sample_limits, permits = [], reservations = [], deadlines = [], clock = 0,
     settled = [], promises = 0\<rparr>"

definition sample_ready :: admission where
  "sample_ready = snd (add_deadline \<lparr>timeoutMs = Num 5, started = 0, timedOut = False, signal = None\<rparr> sample_start)"

definition sample_taken :: admission where
  "sample_taken = acquire (js ''p'') 0 localDiagnostics False sample_ready"

definition sample_busy :: admission where
  "sample_busy = acquire (js ''p'') 0 localDiagnostics False sample_taken"

lemma sample_busy_simps:
  "deadlines sample_busy = [\<lparr>timeoutMs = Num 5, started = 0, timedOut = False, signal = None\<rparr>]"
  "promises sample_busy = 2" "permits sample_busy = [(js ''p'', False)]" "settled sample_busy = [(0, js ''p'', Granted 0)]"
  "waiting sample_busy =
     [\<lparr>promise = 1, w_partition = js ''p'', w_deadline = 0, w_diag = localDiagnostics, w_usedProxy = False\<rparr>]"
  "limits sample_busy = sample_limits" "active sample_busy = 1"
  by (simp_all add: sample_busy_def sample_taken_def sample_ready_def sample_start_def sample_limits_def add_deadline_def acquire_def Let_def available_def
      count_of_def occupy_def settle_def count_up_def)

lemma sample_busy_reachable: "adm_reachable sample_limits sample_busy"
proof -
  have "adm_reachable sample_limits sample_start"
    by (rule adm_reachable.start) (simp add: new_Admission_def sample_start_def sample_limits_def MAX_SAFE_INTEGER_def)
  then have "adm_reachable sample_limits sample_ready"
    unfolding sample_ready_def by (rule adm_reachable.step [OF _ adm_step.deadline])
  then have "adm_reachable sample_limits sample_taken"
    unfolding sample_taken_def
    by (rule adm_reachable.step [OF _ adm_step.acquire]) (simp add: sample_ready_def add_deadline_def)
  then show ?thesis
    unfolding sample_busy_def
    by (rule adm_reachable.step [OF _ adm_step.acquire])
      (simp add: sample_taken_def sample_ready_def sample_start_def sample_limits_def add_deadline_def acquire_def Let_def
        available_def count_of_def settle_def occupy_def)
qed

definition sample_queue :: admission where
  "sample_queue = acquire (js ''p'') 0 localDiagnostics False sample_busy"

lemmas sample_defs =
  sample_queue_def sample_busy_def sample_taken_def sample_ready_def sample_start_def sample_limits_def add_deadline_def
  acquire_def Let_def available_def count_of_def settle_def occupy_def count_up_def count_down_def

lemma sample_queue_reachable: "adm_reachable sample_limits sample_queue"
  unfolding sample_queue_def
  by (rule adm_reachable.step [OF sample_busy_reachable adm_step.acquire]) (simp add: sample_busy_simps)

lemma sample_queue_settled: "settled sample_queue = [(0, js ''p'', Granted 0)]"
  by (simp add: sample_defs)

lemma sample_queue_release:
  "settled (release_permit 0 sample_queue) = [(0, js ''p'', Granted 0), (1, js ''p'', Granted 1)]"
  "waiting (release_permit 0 sample_queue) =
     [\<lparr>promise = 2, w_partition = js ''p'', w_deadline = 0, w_diag = localDiagnostics, w_usedProxy = False\<rparr>]"
  by (simp_all add: sample_defs release_permit_def dispatch_def dispatch_item_def remove_item_def)

subsection \<open>Properties\<close>

text \<open>
  C32: In every reachable state the counters of the class are exact: \<open>active\<close> and \<open>byPartition\<close>
  count the permits not yet released, \<open>queuedByPartition\<close> the items waiting, \<open>reserved\<close> and
  \<open>reservedByPartition\<close> the open reservations, in total and per partition.
\<close>

theorem admission_accounting:
  assumes "adm_reachable l s"
  shows "active s = int (size (live (permits s))) \<and> reserved s = int (size (live (reservations s))) \<and>
    (\<forall>part. count_of (byPartition s) part = int (count (live (permits s)) part) \<and>
      count_of (queuedByPartition s) part = int (length (filter (\<lambda>w. w_partition w = part) (waiting s))) \<and>
      count_of (reservedByPartition s) part = int (count (live (reservations s)) part))"
proof -
  have "adm_inv s" using adm_reachable_good [OF assms] by (simp add: good_def)
  moreover have "count (mset (map w_partition ws)) part = length (filter (\<lambda>w. w_partition w = part) ws)" for ws part
    by (induction ws) auto
  ultimately show ?thesis by (auto simp: adm_inv_def counts.num_holds queue_of_def simp del: mset_map)
qed

theorem admission_accounting_witness: "active sample_busy = int (size (live (permits sample_busy)))"
  using admission_accounting [OF sample_busy_reachable] by blast

text \<open>
  C33: The limits given to the constructor are never exceeded, in total and per partition, by
  running requests, by the queue or by reservations, also after \<open>constrain\<close> has lowered them.
\<close>

theorem admission_within_limits:
  assumes "adm_reachable l s"
  shows "active s \<le> maxConcurrent l \<and> count_of (byPartition s) part \<le> maxConcurrentPerPartition l \<and>
    int (length (waiting s)) \<le> maxQueued l \<and> count_of (queuedByPartition s) part \<le> maxQueuedPerPartition l \<and>
    reserved s \<le> maxConcurrent l + maxQueued l \<and>
    count_of (reservedByPartition s) part \<le> maxConcurrentPerPartition l + maxQueuedPerPartition l"
  using adm_reachable_good [OF assms] by (auto simp: good_def bounded_def)

theorem admission_within_limits_witness:
  "active sample_busy \<le> maxConcurrent sample_limits \<and> int (length (waiting sample_busy)) \<le> maxQueued sample_limits"
  using admission_within_limits [OF sample_busy_reachable] by blast

text \<open>
  C34: Nobody waits without need: a waiting item's partition, or the client as a whole, has no
  free slot at the moment, and its deadline has not been aborted. A saturated partition therefore never
  holds back another one.
\<close>

theorem admission_work_conserving:
  assumes "adm_reachable l s" and "w \<in> set (waiting s)"
  shows "(maxConcurrent (limits s) \<le> active s \<or>
      maxConcurrentPerPartition (limits s) \<le> count_of (byPartition s) (w_partition w)) \<and>
    signal (deadlines s ! w_deadline w) = None"
  using adm_reachable_good [OF assms(1)] assms(2)
  by (auto simp: good_def conserving_def prompt_def available_def not_less)

theorem admission_work_conserving_witness:
  "waiting sample_busy \<noteq> [] \<and> maxConcurrent (limits sample_busy) \<le> active sample_busy"
  using admission_work_conserving [OF sample_busy_reachable, of "hd (waiting sample_busy)"]
  by (simp add: sample_busy_simps sample_limits_def)

text \<open>
  C30: Within a partition permits are granted in the order of the requests: when a step grants
  one to a promise, no earlier request of the same partition is left waiting.
\<close>

theorem admission_fifo:
  assumes "adm_reachable l s" and "adm_step s s'" and "(p, part, Granted k) \<in> set (settled s') - set (settled s)"
    and "w \<in> set (waiting s')" and "w_partition w = part"
  shows "p < promise w"
  using adm_step_good [OF assms(2) adm_reachable_good [OF assms(1)]] assms(3-5)
  unfolding fair_step_def fair_def by blast

theorem admission_fifo_witness:
  "settled (release_permit 0 sample_queue) = [(0, js ''p'', Granted 0), (1, js ''p'', Granted 1)] \<and>
   1 < promise (hd (waiting (release_permit 0 sample_queue)))"
  using admission_fifo [OF sample_queue_reachable adm_step.release, of 1 "js ''p''" 1 0 "hd (waiting (release_permit 0 sample_queue))"]
  by (simp add: sample_queue_release sample_queue_settled)

text \<open>
  Every promise \<open>acquire\<close> has returned is either waiting or settled, never both, and is
  settled at most once; the fast path never overtakes the queue.
\<close>

theorem admission_promises:
  assumes "adm_reachable l s"
  shows "distinct (map fst (settled s)) \<and>
    (p < promises s \<longleftrightarrow> p \<in> promise ` set (waiting s) \<or> p \<in> fst ` set (settled s)) \<and>
    \<not> (p \<in> promise ` set (waiting s) \<and> p \<in> fst ` set (settled s))"
  using adm_reachable_good [OF assms] adm_reachable_accounted [OF assms]
  by (auto simp: good_def adm_inv_def queue_ok_def accounted_def)

theorem admission_promises_witness:
  "1 \<in> promise ` set (waiting sample_busy) \<and> \<not> 1 \<in> fst ` set (settled sample_busy)"
  using admission_promises [OF sample_busy_reachable, of 1] by (simp add: sample_busy_simps)

text \<open>Calling a release closure again changes nothing, whatever happened in the first call.\<close>

theorem release_permit_idempotent: "release_permit i (release_permit i s) = release_permit i s"
proof (cases "i < length (permits s)")
  case True
  obtain p r where pr: "permits s ! i = (p, r)" by fastforce
  let ?s = "s\<lparr>permits := (permits s)[i := (p, True)], active := active s - 1, byPartition := count_down p (byPartition s)\<rparr>"
  show ?thesis
  proof (cases r)
    case False
    with True pr have "release_permit i s = dispatch ?s" by (simp add: release_permit_def)
    moreover have "i < length (permits (dispatch ?s)) \<and> permits (dispatch ?s) ! i = (p, True)"
      using dispatch_keeps_permits [of i ?s] True by simp
    ultimately show ?thesis by (simp add: release_permit_def [of i "dispatch ?s"])
  qed (use True pr in \<open>simp add: release_permit_def\<close>)
qed (simp add: release_permit_def)

text \<open>
  The buffer budget admits a reservation exactly when the bytes retained stay within the
  limit, refuses it without a change otherwise, and releasing what was reserved restores the
  budget.
\<close>

theorem budget_reserve_release:
  "case budget_reserve n diag u b of
     (Inl e, b') \<Rightarrow> b' = b \<and> budget_limit b < retained b + n \<and> te_code e = BODY_TOO_LARGE \<and> te_kind e = Buffer_limit
   | (Inr _, b') \<Rightarrow> retained b' = retained b + n \<and> retained b' \<le> budget_limit b' \<and> budget_release n b' = b"
  by (simp add: budget_reserve_def budget_release_def new_TransportError_def)

end
