(* ===== verification/Service.thy ===== *)
theory Service
  imports Service_Capabilities Framing Lifetime Admission
begin

text \<open>
  \<open>src/packages/typescript/src/service.ts\<close>: the connection to the service, how errors of the
  service become errors of the SDK, control requests with their bounded response, the cached
  service description and the validation of a connection. Decoding JSON text (\<open>parse\<close>, \<open>None\<close>
  where it throws), taking a URL apart (\<open>parse_url\<close>) and converting a value to a string
  (\<open>to_string\<close>) are parameters.
\<close>

subsection \<open>Construction\<close>

text \<open>A parsed URL with the attributes the code reads; \<open>protocol\<close> ends in a colon.\<close>

record url =
  protocol :: jsstr
  username :: jsstr
  password :: jsstr
  hostname :: jsstr
  pathname :: jsstr
  search :: jsstr
  hash :: jsstr
  href :: jsstr

definition http_url :: "url \<Rightarrow> bool" where
  "http_url u \<longleftrightarrow> protocol u \<in> {js ''http:'', js ''https:''}"

text \<open>\<open>/[\s\x00-\x1f\x7f]/\<close>: white space, line ends and control characters.\<close>

definition space_unit :: "nat \<Rightarrow> bool" where
  "space_unit u \<longleftrightarrow> 9 \<le> u \<and> u \<le> 13 \<or> 8192 \<le> u \<and> u \<le> 8202 \<or> u \<in> {32, 160, 5760, 8232, 8233, 8239, 8287, 12288, 65279}"

definition token_ok :: "jsval \<Rightarrow> bool" where
  "token_ok = str_test (\<lambda>t. 32 \<le> length t \<and> \<not> list_ex (\<lambda>u. space_unit u \<or> u \<le> 31 \<or> u = 127) t)"

definition CONTROL_LIMIT :: int where
  "CONTROL_LIMIT = 1048576"

record service =
  base :: url
  token :: jsstr
  controlTimeoutMs :: jsnum
  ttlMs :: int
  controlLimit :: int
  cached :: "(rat \<times> jsval) option"
  loading :: bool
  service_closed :: bool

definition int_of :: "jsval \<Rightarrow> int" where
  "int_of v = (case v of JNum (Num q) \<Rightarrow> \<lfloor>q\<rfloor> | _ \<Rightarrow> 0)"

definition str_of :: "jsval \<Rightarrow> jsstr" where
  "str_of v = (case v of JStr s \<Rightarrow> s | _ \<Rightarrow> [])"

text \<open>\<open>pathname.replace(/\/+$/, '') + '/'\<close>.\<close>

definition directory :: "jsstr \<Rightarrow> jsstr" where
  "directory path = rev (dropWhile (\<lambda>u. u = 47) (rev path)) @ js ''/''"

definition new_Service :: "(jsval \<Rightarrow> url option) \<Rightarrow> jsval \<Rightarrow> jsval \<Rightarrow> transport_error + service" where
  "new_Service parse_url fetch options = (case parse_url (get options ''baseUrl'') of
     None \<Rightarrow> Inl invalid_input
   | Some u \<Rightarrow>
       if \<not> http_url u \<or> username u \<noteq> [] \<or> password u \<noteq> [] \<or> search u \<noteq> [] \<or> hash u \<noteq> [] then Inl invalid_input
       else if \<not> token_ok (get options ''token'') then Inl (localError UNAUTHORIZED None)
       else if js_typeof (nullish_or (get options ''transport'') fetch) \<noteq> ''function'' then Inl invalid_input
       else (case timeout_js (nullish_or (get options ''controlTimeoutMs'') (jint 10000)) of
           Inl e \<Rightarrow> Inl e
         | Inr t \<Rightarrow>
             let ttl = nullish_or (get options ''capabilitiesTtlMs'') (jint 60000) in
             if \<not> nonnegativeInteger ttl \<or> MAX_TIMEOUT_MS < int_of ttl then Inl invalid_input
             else Inr \<lparr>base = u\<lparr>pathname := directory (pathname u)\<rparr>, token = str_of (get options ''token''), controlTimeoutMs = t,
               ttlMs = int_of ttl, controlLimit = CONTROL_LIMIT, cached = None, loading = False, service_closed = False\<rparr>))"

subsection \<open>Errors reported by the service\<close>

definition all_codes :: "error_code list" where
  "all_codes = [UNAUTHORIZED, INVALID_REQUEST, UNSUPPORTED_CAPABILITY, INVALID_PROFILE, EGRESS_REQUIRED,
     SSRF_BLOCKED, BODY_TOO_LARGE, BUSY, TIMEOUT, CANCELLED, DNS_ERROR, PROXY_ERROR, TLS_ERROR, CONNECT_ERROR,
     PROTOCOL_ERROR, CONTEXT_NOT_FOUND, CONTEXT_CONFLICT, CONTEXT_LIMIT, COOKIE_LIMIT, DUPLICATE_REQUEST, UNKNOWN]"

text \<open>\<open>value.code\<close> at its type, once \<open>errorCode\<close> has accepted it.\<close>

definition code_of :: "jsval \<Rightarrow> error_code option" where
  "code_of v = List.find (\<lambda>c. v = jstr (code_name c)) all_codes"

definition request_of :: "jsval \<Rightarrow> jsstr option" where
  "request_of v = (case v of JStr s \<Rightarrow> Some s | _ \<Rightarrow> None)"

definition attempt_of :: "jsval \<Rightarrow> jsnum option" where
  "attempt_of v = (case v of JNum n \<Rightarrow> Some n | _ \<Rightarrow> None)"

definition transportError :: "jsval \<Rightarrow> jsval \<Rightarrow> bool \<Rightarrow> bool \<Rightarrow> transport_error" where
  "transportError value fallback usedProxy requireDiagnostics =
     (let protocol_error = new_TransportError PROTOCOL_ERROR fallback usedProxy None None;
        given = get value ''diagnostics''; id = get fallback ''requestId''; attempt = get fallback ''attempt'';
        control = (id = jstr ''control'')
      in if \<not> validateDiagnosticEnvelope TransportError value \<or> \<not> record_js value \<or> \<not> errorCode (get value ''code'')
        then protocol_error
      else if given \<noteq> JUndef \<and> \<not> diagnostics given (if control then None else request_of id) (if control then None else attempt_of attempt)
        then protocol_error
      else if requireDiagnostics \<and> \<not> diagnostics given (request_of id) (attempt_of attempt) then protocol_error
      else (case code_of (get value ''code'') of
          None \<Rightarrow> protocol_error
        | Some code \<Rightarrow> new_TransportError code (if diagnostics given None None then given else fallback) usedProxy None None))"

subsection \<open>Requests to the service\<close>

text \<open>
  Headers as an association list from lower-case names. The hook may throw or return anything a
  \<open>Headers\<close> object can be made of; \<open>extra\<close> is that object's \<open>get\<close>, \<open>None\<close> when it threw.
\<close>

definition service_headers :: "(jsstr \<Rightarrow> jsstr option) option \<Rightarrow> jsstr \<Rightarrow> jsstr option \<Rightarrow> (jsstr \<times> jsstr) list" where
  "service_headers extra bearer contentType =
     (let h0 = (case extra of None \<Rightarrow> []
        | Some get_extra \<Rightarrow> fold (\<lambda>key h. case get_extra key of None \<Rightarrow> h | Some v \<Rightarrow> set_prop h key v)
            [js ''traceparent'', js ''tracestate'', js ''baggage''] []);
        h1 = set_prop h0 (js ''authorization'') (js ''Bearer '' @ bearer)
      in case contentType of None \<Rightarrow> h1 | Some t \<Rightarrow> if t = [] then h1 else set_prop h1 (js ''content-type'') t)"

text \<open>
  The loop of \<open>readJson\<close>: chunks arrive, are no bytes, or the deadline aborts while waiting
  (\<open>ReadFails\<close> with the error of the race).
\<close>

datatype body_read = BodyChunk "byte list" | BodyOther | ReadFails thrown

fun read_chunks :: "nat \<Rightarrow> transport_error \<Rightarrow> body_read list \<Rightarrow> nat \<Rightarrow> byte list list \<Rightarrow> thrown + byte list list" where
  "read_chunks limit e [] sz chunks = Inr chunks"
| "read_chunks limit e (BodyOther # rs) sz chunks = Inl (Transport e)"
| "read_chunks limit e (ReadFails t # rs) sz chunks = Inl t"
| "read_chunks limit e (BodyChunk c # rs) sz chunks =
     (if limit < sz + length c then Inl (Transport e) else read_chunks limit e rs (sz + length c) (chunks @ [c]))"

fun join :: "byte list list \<Rightarrow> nat \<Rightarrow> byte list \<Rightarrow> byte list option" where
  "join [] off bytes = Some bytes"
| "join (c # cs) off bytes = (case typed_set bytes (int off) c of None \<Rightarrow> None | Some bytes' \<Rightarrow> join cs (off + length c) bytes')"

definition readJson :: "(byte list \<Rightarrow> jsval option) \<Rightarrow> nat \<Rightarrow> body_read list option \<Rightarrow> jsval \<Rightarrow> bool \<Rightarrow> thrown + jsval" where
  "readJson parse limit body diag usedProxy =
     (let e = new_TransportError PROTOCOL_ERROR diag usedProxy None None in
      case body of None \<Rightarrow> Inl (Transport e)
      | Some reads \<Rightarrow> (case read_chunks limit e reads 0 [] of
          Inl t \<Rightarrow> Inl t
        | Inr chunks \<Rightarrow> (case Option.bind (join chunks 0 (replicate (sum_list (map length chunks)) 0)) parse of
            None \<Rightarrow> Inl (Other JUndef)
          | Some v \<Rightarrow> Inr v)))"

subsection \<open>Control requests\<close>

text \<open>
  A response to a request, as far as the code looks at it. \<open>media_type\<close> is
  \<open>headers.get('content-type')?.split(';', 1)[0]?.trim().toLowerCase()\<close>; a header value is a byte
  string, so that lower case matters for ASCII letters only.
\<close>

record response =
  status :: int
  content_type :: "jsstr option"
  resp_body :: "body_read list option"

definition trim :: "jsstr \<Rightarrow> jsstr" where
  "trim s = rev (dropWhile space_unit (rev (dropWhile space_unit s)))"

definition media_type :: "response \<Rightarrow> jsstr option" where
  "media_type r = map_option (\<lambda>t. ascii_lower (trim (takeWhile (\<lambda>u. u \<noteq> 59) t))) (content_type r)"

abbreviation ok :: "response \<Rightarrow> bool" where
  "ok r \<equiv> 200 \<le> status r \<and> status r \<le> 299"

definition control_diag :: jsval where
  "control_diag = initialDiagnostics (js ''control'') (Num 0) (js ''unknown'')"

definition control_response :: "(byte list \<Rightarrow> jsval option) \<Rightarrow> int \<Rightarrow> response \<Rightarrow> thrown + jsval" where
  "control_response parse limit r =
     (let protocol_error = Transport (new_TransportError PROTOCOL_ERROR control_diag False None None) in
      if 300 \<le> status r \<and> status r \<le> 399 then Inl protocol_error
      else if ok r \<and> status r = 204 then Inr JUndef
      else if media_type r \<noteq> Some (js ''application/json'') then Inl protocol_error
      else (case readJson parse (nat limit) (resp_body r) control_diag False of
          Inl t \<Rightarrow> Inl t
        | Inr v \<Rightarrow> if \<not> ok r then Inl (Transport (transportError v control_diag False False)) else Inr v))"

text \<open>
  What \<open>control\<close> does first: it registers an operation with a deadline of its own, and on a closed
  client it throws there, before anything is queued or sent.
\<close>

definition control_begin :: "service \<Rightarrow> rat \<Rightarrow> abort_reason option \<Rightarrow> lifetime \<Rightarrow> (transport_error + nat) \<times> lifetime" where
  "control_begin s now parent l = lifetime_begin (controlTimeoutMs s) now parent l"

text \<open>
  The \<open>try\<close> block of \<open>control\<close>, with the flag \<open>received\<close> as it stands when the block ends. Its
  inputs are what its awaits give: whether \<open>acquire\<close> rejected, the encoded body (\<open>None\<close>: no
  body, \<open>Some None\<close>: it exceeds the limit), the error of a deadline found aborted before the
  request is sent, and the reply of the race between the transport and the deadline.
\<close>

definition control_try :: "(byte list \<Rightarrow> jsval option) \<Rightarrow> int \<Rightarrow> transport_error option \<Rightarrow> byte list option option \<Rightarrow>
    transport_error option \<Rightarrow> thrown + response \<Rightarrow> bool \<times> (thrown + jsval)" where
  "control_try parse limit rejected encoded expired reply = (case rejected of
     Some e \<Rightarrow> (False, Inl (Transport e))
   | None \<Rightarrow>
       if encoded = Some None then (False, Inl (Transport (new_TransportError BODY_TOO_LARGE control_diag False None None)))
       else (case expired of
         Some e \<Rightarrow> (False, Inl (Transport e))
       | None \<Rightarrow> (case reply of
           Inl t \<Rightarrow> (False, Inl t)
         | Inr r \<Rightarrow> (True, control_response parse limit r))))"

text \<open>\<open>d\<close> is the deadline when the exception is caught.\<close>

definition control_catch :: "deadline \<Rightarrow> rat \<Rightarrow> bool \<Rightarrow> thrown \<Rightarrow> transport_error" where
  "control_catch d now received t = (case t of
     Transport e \<Rightarrow> e
   | Other _ \<Rightarrow> if aborted d then deadline_error d now control_diag False
       else new_TransportError (if received then PROTOCOL_ERROR else CONNECT_ERROR) control_diag False (Some Service_unavailable) None)"

text \<open>What follows for a registered operation.\<close>

definition control :: "(byte list \<Rightarrow> jsval option) \<Rightarrow> int \<Rightarrow> deadline \<Rightarrow> rat \<Rightarrow> transport_error option \<Rightarrow> byte list option option \<Rightarrow>
    transport_error option \<Rightarrow> thrown + response \<Rightarrow> transport_error + jsval" where
  "control parse limit d now rejected encoded expired reply =
     (case control_try parse limit rejected encoded expired reply of
        (received, Inl t) \<Rightarrow> Inl (control_catch d now received t)
      | (received, Inr v) \<Rightarrow> Inr v)"

text \<open>The \<open>finally\<close> block: the permit, if one was granted, is released and the operation settles.\<close>

definition control_finally :: "nat option \<Rightarrow> nat \<Rightarrow> admission \<times> lifetime \<Rightarrow> admission \<times> lifetime" where
  "control_finally permit i = (\<lambda>(adm, life). (case permit of None \<Rightarrow> adm | Some p \<Rightarrow> release_permit p adm, op_done i life))"

subsection \<open>The cached service description\<close>

text \<open>
  What a call to \<open>capabilities\<close> does at time \<open>now\<close>, \<open>d\<close> being its new deadline: throw, serve the
  cache, or wait for a load, starting one if none runs.
\<close>

datatype cache_answer = Throw transport_error | Serve jsval | Await

definition service_capabilities :: "deadline \<Rightarrow> rat \<Rightarrow> service \<Rightarrow> cache_answer \<times> service" where
  "service_capabilities d now s =
     (if service_closed s then (Throw client_closed, s)
      else if aborted d then (Throw (deadline_error d now localDiagnostics False), s)
      else case cached s of
        Some (expires, v) \<Rightarrow> if now < expires then (Serve v, s) else (Await, s\<lparr>loading := True\<rparr>)
      | None \<Rightarrow> (Await, s\<lparr>loading := True\<rparr>))"

text \<open>The end of a load: a control request that failed, or the value it returned.\<close>

definition load_done :: "rat \<Rightarrow> transport_error + jsval \<Rightarrow> service \<Rightarrow> (transport_error + jsval) \<times> service" where
  "load_done now outcome s = (case outcome of
     Inl e \<Rightarrow> (Inl e, s\<lparr>loading := False\<rparr>)
   | Inr raw \<Rightarrow>
       if capabilities raw \<noteq> Some True then (Inl (localError UNSUPPORTED_CAPABILITY None), s\<lparr>loading := False\<rparr>)
       else let v = copyCapabilities raw in
         (Inr v, s\<lparr>controlLimit := min CONTROL_LIMIT (int_of (get (get raw ''limits'') ''maxControlBytes'')),
            cached := Some (now + of_int (ttlMs s), v), loading := False\<rparr>))"

definition service_close :: "service \<Rightarrow> service" where
  "service_close s = s\<lparr>cached := None, service_closed := True\<rparr>"

text \<open>The life of a connection: calls to \<open>capabilities\<close>, loads that end, closing.\<close>

inductive service_reachable :: "service \<Rightarrow> bool" where
  constructed: "new_Service parse_url fetch options = Inr s \<Longrightarrow> service_reachable s"
| asked: "service_reachable s \<Longrightarrow> service_reachable (snd (service_capabilities d now s))"
| loaded: "service_reachable s \<Longrightarrow> service_reachable (snd (load_done now outcome s))"
| shut: "service_reachable s \<Longrightarrow> service_reachable (service_close s)"

subsection \<open>Connections\<close>

definition validatePartition :: "jsval \<Rightarrow> transport_error option" where
  "validatePartition p = (if opaque p then None else Some invalid_input)"

definition proxy_schemes :: "jsstr list" where
  "proxy_schemes = map js [''http'', ''https'', ''socks4'', ''socks4a'', ''socks5'', ''socks5h'']"

text \<open>
  \<open>initialDiagnostics\<close> on a profile that need not be a string: the pattern is tested on its
  conversion \<open>to_string\<close>, the value itself is kept; \<open>undefined\<close> takes the default.
\<close>

definition profile_diagnostics :: "(jsval \<Rightarrow> jsstr) \<Rightarrow> jsval \<Rightarrow> jsval" where
  "profile_diagnostics to_string profile =
     JObj (set_prop (spread_object (initialDiagnostics (js ''control'') (Num 0) (js ''unknown''))) (js ''tlsProfile'')
       (if profile \<noteq> JUndef \<and> re_profile (case profile of JStr p \<Rightarrow> p | _ \<Rightarrow> to_string profile) then profile else jstr ''unknown''))"

definition validateConnection ::
    "(jsval \<Rightarrow> jsstr) \<Rightarrow> (jsval \<Rightarrow> url option) \<Rightarrow> jsval \<Rightarrow> jsval \<Rightarrow> transport_error option" where
  "validateConnection to_string parse_url caps spec =
     (let identity = get spec ''identity''; egress = get spec ''egress'';
        profile = get identity ''tlsProfile''; proxied = (get egress ''mode'' = jstr ''proxy'');
        diag = profile_diagnostics to_string profile
      in if \<not> record_js spec \<or> \<not> record_js identity \<or> \<not> record_js egress then Some invalid_input
      else if \<not> str_test (\<lambda>p. resolveProfile caps p \<noteq> JUndef) profile
        then Some (new_TransportError INVALID_PROFILE diag proxied None None)
      else if js_typeof (get identity ''emulateHeaders'') \<noteq> ''boolean'' \<or>
          (get identity ''userAgent'' \<noteq> JUndef \<and> \<not> str_test one_line (get identity ''userAgent''))
        then Some (new_TransportError INVALID_REQUEST diag False None None)
      else let mode = (if proxied then
            (case parse_url (get egress ''url'') of
               Some u \<Rightarrow> if butlast (protocol u) \<notin> set proxy_schemes \<or> hostname u = [] \<or> hash u \<noteq> [] \<or> search u \<noteq> []
                 then Inl (new_TransportError INVALID_REQUEST diag True None None) else Inr (butlast (protocol u))
             | None \<Rightarrow> Inl (new_TransportError INVALID_REQUEST diag True None None))
          else if get egress ''mode'' = jstr ''direct'' then Inr (js ''direct'')
          else Inl (new_TransportError EGRESS_REQUIRED diag False None None))
        in (case mode of
            Inl e \<Rightarrow> Some e
          | Inr m \<Rightarrow> if JStr m \<in> set (array_items (get (get caps ''modes'') ''egress'')) then None
              else Some (new_TransportError UNSUPPORTED_CAPABILITY diag proxied None None)))"

subsection \<open>Facts\<close>

lemma code_of_code_name: "code_of (jstr (code_name c)) = Some c"
  by (cases c) (simp_all add: code_of_def all_codes_def)

lemma errorCode_code_of: "errorCode v \<longleftrightarrow> (\<exists>c. v = jstr (code_name c) \<and> code_of v = Some c)"
proof
  assume "errorCode v"
  then obtain s where "v = JStr s" "s \<in> set (map js ERROR_CODES)" by (cases v) auto
  then obtain c where "v = jstr (code_name c)" unfolding ERROR_CODES_def set_map by blast
  with code_of_code_name show "\<exists>c. v = jstr (code_name c) \<and> code_of v = Some c" by blast
next
  assume "\<exists>c. v = jstr (code_name c) \<and> code_of v = Some c"
  then obtain c where "v = jstr (code_name c)" by blast
  moreover have "code_name c \<in> set ERROR_CODES" by (cases c) (simp_all add: ERROR_CODES_def)
  ultimately show "errorCode v" by simp
qed

lemma join_ok:
  assumes "length pre + length (concat cs) = length bytes" and "take (length pre) bytes = pre"
  shows "join cs (length pre) bytes = Some (pre @ concat cs)"
  using assms
proof (induction cs arbitrary: pre bytes)
  case (Cons c cs)
  let ?b = "take (length pre) bytes @ c @ drop (length pre + length c) bytes"
  have "typed_set bytes (int (length pre)) c = Some ?b" using Cons.prems(1) by (simp add: typed_set_def)
  moreover have "length (pre @ c) + length (concat cs) = length ?b" "take (length (pre @ c)) ?b = pre @ c"
    using Cons.prems by auto
  note Cons.IH [OF this]
  ultimately show ?case by simp
qed auto

lemma read_chunks_bytes:
  "read_chunks limit e (map BodyChunk ds) (length (concat cs)) cs =
     (if ds = [] \<or> length (concat cs) + length (concat ds) \<le> limit then Inr (cs @ ds) else Inl (Transport e))"
proof (induction ds arbitrary: cs)
  case (Cons d ds)
  show ?case using Cons.IH [of "cs @ [d]"] by (cases ds) auto
qed simp

lemma read_chunks_other:
  "read_chunks limit e reads sz cs = Inr chunks \<Longrightarrow> \<exists>ds. reads = map BodyChunk ds"
proof (induction reads arbitrary: sz cs)
  case (Cons r rs)
  then show ?case by (cases r) (auto split: if_splits simp: Cons_eq_map_conv)
qed simp

text \<open>\<open>readJson\<close> returns exactly the decoding of a body of bytes within the limit.\<close>

lemma readJson_iff:
  "readJson parse limit reads diag u = Inr v \<longleftrightarrow>
     (\<exists>ds. reads = Some (map BodyChunk ds) \<and> length (concat ds) \<le> limit \<and> parse (concat ds) = Some v)"
proof -
  let ?e = "new_TransportError PROTOCOL_ERROR diag u None None"
  have joined: "join ds 0 (replicate (sum_list (map length ds)) 0) = Some (concat ds)" for ds
    using join_ok [of "[]" ds "replicate (sum_list (map length ds)) 0"] by (simp add: length_concat)
  have bytes: "readJson parse limit (Some (map BodyChunk ds)) diag u = Inr v \<longleftrightarrow> length (concat ds) \<le> limit \<and> parse (concat ds) = Some v" for ds
    using read_chunks_bytes [of limit ?e ds "[]"] joined [of ds] by (cases ds) (auto simp: readJson_def Let_def split: option.split)
  show ?thesis
  proof
    assume r: "readJson parse limit reads diag u = Inr v"
    then obtain rs where "reads = Some rs" "\<exists>chunks. read_chunks limit ?e rs 0 [] = Inr chunks"
      by (auto simp: readJson_def Let_def split: option.splits sum.splits)
    with read_chunks_other obtain ds where "reads = Some (map BodyChunk ds)" by blast
    with r bytes show "\<exists>ds. reads = Some (map BodyChunk ds) \<and> length (concat ds) \<le> limit \<and> parse (concat ds) = Some v" by blast
  qed (use bytes in blast)
qed

lemma capabilities_limit:
  assumes "capabilities v = Some True" and "n \<in> set limit_names" and "n \<noteq> ''maxQueued''" "n \<noteq> ''maxQueuedPerPartition''"
  obtains i where "get (get v ''limits'') n = jint i" "0 < i"
proof -
  have "valid (constrainIntegers natural) (get (get v ''limits'') n)"
    using capabilities_parts(3) [OF capabilities_checked(1) [OF assms(1)]] assms(2) by (simp add: valid_limits)
  then have "(js n, get (get v ''limits'') n) \<in> set (spread_object (get v ''limits''))" by (intro own_value natural_defined)
  then have "positive (get (get v ''limits'') n)"
    using capabilities_checked(3) [OF assms(1)] assms(3,4) by (auto simp: list_all_iff)
  then show thesis using that by (cases "get (get v ''limits'') n") (auto elim!: isSafeIntegerE)
qed

definition service_ok :: "service \<Rightarrow> bool" where
  "service_ok s \<longleftrightarrow> (case cached s of None \<Rightarrow> True | Some (expires, v) \<Rightarrow> capabilities v = Some True) \<and>
     1 \<le> controlLimit s \<and> controlLimit s \<le> CONTROL_LIMIT"

lemma load_done_ok: assumes "service_ok s" shows "service_ok (snd (load_done now outcome s))"
proof (cases outcome)
  case (Inr raw)
  show ?thesis
  proof (cases "capabilities raw = Some True")
    case True
    obtain i where "get (get raw ''limits'') ''maxControlBytes'' = jint i" "0 < i"
      by (rule capabilities_limit [OF True, of "''maxControlBytes''"]) (auto simp: limit_names_def)
    then show ?thesis using True Inr copyCapabilities_ok [OF True]
      by (simp add: load_done_def service_ok_def Let_def int_of_def CONTROL_LIMIT_def)
  qed (use assms Inr in \<open>simp add: load_done_def service_ok_def\<close>)
qed (use assms in \<open>simp add: load_done_def service_ok_def\<close>)

lemma service_reachable_ok: "service_reachable s \<Longrightarrow> service_ok s"
proof (induction rule: service_reachable.induct)
  case (constructed parse_url fetch options s)
  then show ?case
    by (auto simp: new_Service_def service_ok_def CONTROL_LIMIT_def Let_def split: option.splits if_splits sum.splits)
next
  case (asked s d now)
  then show ?case by (auto simp: service_capabilities_def service_ok_def split: option.split)
next
  case (shut s)
  then show ?case by (simp add: service_close_def service_ok_def)
qed (rule load_done_ok)

subsection \<open>Properties\<close>

text \<open>
  Whatever the service sends as an error, the SDK reports an error with well-formed
  diagnostics, given that the fallback diagnostics are well-formed; it carries the service's code
  only if the value passed the schema and its diagnostics, where present, are accepted.
\<close>

theorem transportError_well_formed:
  assumes "diagnostics fallback None None"
  shows "diagnostics (te_diagnostics (transportError value fallback u req)) None None \<and>
    (te_code (transportError value fallback u req) = PROTOCOL_ERROR \<or>
     validateDiagnosticEnvelope TransportError value \<and> get value ''code'' = jstr (code_name (te_code (transportError value fallback u req))))"
proof -
  have new: "diagnostics (te_diagnostics (new_TransportError c d u k r)) None None" if "diagnostics d None None" for c d k r
    using diagnostics_copied [OF that] by (simp add: new_TransportError_def)
  show ?thesis
  proof (cases "validateDiagnosticEnvelope TransportError value \<and> errorCode (get value ''code'')")
    case True
    then obtain c where "get value ''code'' = jstr (code_name c)" "code_of (get value ''code'') = Some c"
      using errorCode_code_of by blast
    with True new assms show ?thesis by (auto simp: transportError_def Let_def new_TransportError_def)
  next
    case False
    then have "transportError value fallback u req = new_TransportError PROTOCOL_ERROR fallback u None None"
      by (auto simp: transportError_def Let_def)
    with new [OF assms] show ?thesis by (simp add: new_TransportError_def)
  qed
qed

theorem transportError_well_formed_witness:
  "diagnostics (te_diagnostics (transportError JNull sample_diagnostics False True)) None None"
proof -
  have "diagnostics sample_diagnostics None None" using sample_diagnostics_ok by (auto simp: diagnostics_def)
  from transportError_well_formed [OF this] show ?thesis by blast
qed

text \<open>
  C39: A control request returns a value exactly when it was admitted, its body fits the limit, it
  was sent before its deadline, and the answer is a 204, which gives \<open>undefined\<close>, or another
  success status with a JSON media type whose body is bytes within the control limit that decode
  to that value. Everything else ends in an error.
\<close>

theorem control_success:
  "control parse limit d now rejected encoded expired reply = Inr v \<longleftrightarrow>
     rejected = None \<and> encoded \<noteq> Some None \<and> expired = None \<and>
     (\<exists>r. reply = Inr r \<and> 200 \<le> status r \<and> status r \<le> 299 \<and>
       (if status r = 204 then v = JUndef
        else media_type r = Some (js ''application/json'') \<and>
          (\<exists>ds. resp_body r = Some (map BodyChunk ds) \<and> length (concat ds) \<le> nat limit \<and> parse (concat ds) = Some v)))"
proof -
  have response: "control_response parse limit r = Inr v \<longleftrightarrow> 200 \<le> status r \<and> status r \<le> 299 \<and>
      (if status r = 204 then v = JUndef
       else media_type r = Some (js ''application/json'') \<and> readJson parse (nat limit) (resp_body r) control_diag False = Inr v)" for r
    by (auto simp: control_response_def Let_def split: sum.split)
  have "control parse limit d now rejected encoded expired reply = Inr v \<longleftrightarrow>
      rejected = None \<and> encoded \<noteq> Some None \<and> expired = None \<and> (\<exists>r. reply = Inr r \<and> control_response parse limit r = Inr v)"
    by (auto simp: control_def control_try_def split: option.splits sum.splits prod.splits if_splits)
  then show ?thesis by (simp only: response readJson_iff)
qed

text \<open>
  A description of the service that the connection serves from its cache has passed the guard
  and has not expired, and a closed connection serves none; whatever the service announces, the
  limit on control bodies stays between one byte and the built-in limit.
\<close>

theorem service_cache_sound:
  assumes "service_reachable s"
  shows "1 \<le> controlLimit s \<and> controlLimit s \<le> CONTROL_LIMIT \<and>
    (\<forall>v s'. service_capabilities d now s = (Serve v, s') \<longrightarrow> capabilities v = Some True \<and> \<not> service_closed s \<and> s' = s \<and>
      (\<exists>expires. cached s = Some (expires, v) \<and> now < expires))"
  using service_reachable_ok [OF assms]
  by (auto simp: service_ok_def service_capabilities_def split: if_splits option.splits)

definition sample_url :: url where
  "sample_url = \<lparr>protocol = js ''http:'', username = [], password = [], hostname = js ''h'', pathname = js ''/'', search = [], hash = [],
     href = js ''http://h/''\<rparr>"

definition sample_service :: service where
  "sample_service = \<lparr>base = sample_url, token = replicate 32 97, controlTimeoutMs = Num 10000, ttlMs = 60000,
     controlLimit = CONTROL_LIMIT, cached = None, loading = False, service_closed = False\<rparr>"

lemma sample_service_reachable: "service_reachable sample_service"
proof (rule constructed)
  show "new_Service (\<lambda>_. Some sample_url) (JForeign 0) (JObj [(js ''token'', JStr (replicate 32 97))]) = Inr sample_service"
    by (simp add: new_Service_def http_url_def sample_url_def token_ok_def str_test_def space_unit_def nullish_or_def timeout_js_def
        timeoutValue_def MAX_TIMEOUT_MS_def MAX_SAFE_INTEGER_def int_of_def Let_def sample_service_def str_of_def directory_def js_def list_ex_iff)
qed

theorem service_cache_sound_witness:
  "\<exists>v. fst (service_capabilities \<lparr>timeoutMs = Num 1, started = 0, timedOut = False, signal = None\<rparr> 5
      (snd (load_done 0 (Inr sample_capabilities) sample_service))) = Serve v \<and> capabilities v = Some True"
proof -
  let ?s = "snd (load_done 0 (Inr sample_capabilities) sample_service)"
  let ?d = "\<lparr>timeoutMs = Num 1, started = 0, timedOut = False, signal = None\<rparr>"
  have "service_capabilities ?d 5 ?s = (Serve (copyCapabilities sample_capabilities), ?s)"
    using sample_capabilities_ok by (simp add: load_done_def service_capabilities_def sample_service_def Let_def)
  with service_cache_sound [OF loaded [OF sample_service_reachable], where d = ?d and now = 5] show ?thesis by fastforce
qed

text \<open>
  A connection that passes the validation names a profile that resolves to one the service
  offers, has well-typed identity fields, and leaves through an egress mode that the service
  lists: directly, or through a proxy whose URL has one of the known schemes, a host and neither
  query nor fragment.
\<close>

theorem validateConnection_accepts:
  assumes "validateConnection to_string parse_url caps spec = None"
  shows "\<exists>p m. get (get spec ''identity'') ''tlsProfile'' = JStr p \<and> resolveProfile caps p \<noteq> JUndef \<and>
    (\<exists>b. get (get spec ''identity'') ''emulateHeaders'' = JBool b) \<and>
    JStr m \<in> set (array_items (get (get caps ''modes'') ''egress'')) \<and>
    (get (get spec ''egress'') ''mode'' = jstr ''direct'' \<and> m = js ''direct'' \<or>
     get (get spec ''egress'') ''mode'' = jstr ''proxy'' \<and>
       (\<exists>u. parse_url (get (get spec ''egress'') ''url'') = Some u \<and> m = butlast (protocol u) \<and> m \<in> set proxy_schemes \<and>
         hostname u \<noteq> [] \<and> hash u = [] \<and> search u = []))"
proof -
  from assms obtain p where p: "get (get spec ''identity'') ''tlsProfile'' = JStr p" "resolveProfile caps p \<noteq> JUndef"
    by (cases "get (get spec ''identity'') ''tlsProfile''")
      (auto simp: validateConnection_def Let_def str_test_def split: if_splits simp del: js_prop.simps)
  moreover have "\<exists>b. get (get spec ''identity'') ''emulateHeaders'' = JBool b"
    using assms by (auto simp: validateConnection_def Let_def js_typeof_boolean split: if_splits simp del: js_prop.simps)
  ultimately show ?thesis
    using assms by (auto simp: validateConnection_def Let_def split: if_splits sum.splits option.splits simp del: js_prop.simps)
qed

theorem validateConnection_accepts_witness:
  "\<exists>u. Some sample_url = Some u \<and> butlast (protocol u) \<in> set proxy_schemes"
proof -
  let ?caps = "JObj [(js ''profiles'', JArr [jstr ''chrome_137'']), (js ''modes'', JObj [(js ''egress'', JArr [jstr ''http''])])]"
  let ?spec = "JObj [(js ''identity'', JObj [(js ''tlsProfile'', jstr ''chrome_137''), (js ''emulateHeaders'', JBool True)]),
    (js ''egress'', JObj [(js ''mode'', jstr ''proxy''), (js ''url'', jstr ''http://h/'')])]"
  have "validateConnection (\<lambda>_. []) (\<lambda>_. Some sample_url) ?caps ?spec = None"
    by (simp add: validateConnection_def Let_def str_test_def resolveProfile_def sample_url_def proxy_schemes_def js_def)
  from validateConnection_accepts [OF this] show ?thesis by auto
qed

end
