(* ===== verification/Buffering.thy ===== *)
theory Buffering
  imports Admission Framing
begin

text \<open>
  The method \<open>buffer\<close> of \<open>src/packages/typescript/src/client.ts\<close>: the body of a streaming
  exchange is collected in blocks of 64 KiB, each block reserved twice in the buffer budget (once
  for itself, once for the final assembly), and joined at the end.
\<close>

subsection \<open>Collecting chunks\<close>

definition BLOCK :: nat where
  "BLOCK = 65536"

record collector =
  blocks :: "byte list list"
  current :: "byte list"
  filled :: nat
  kept :: int
  bsize :: nat
  budget :: buffer_budget

text \<open>
  The errors of the loop: the budget refuses, or \<open>grown.set(current)\<close> does not fit. The third
  one marks a write position behind the block, where the loop of the source would not advance.
\<close>

datatype collect_error = Refused transport_error | TooLong | Corrupt

definition new_collector :: "buffer_budget \<Rightarrow> collector" where
  "new_collector b = \<lparr>blocks = [], current = [], filled = 0, kept = 0, bsize = 0, budget = b\<rparr>"

definition next_block :: "collector \<Rightarrow> collector" where
  "next_block c = (if filled c = BLOCK then c\<lparr>blocks := blocks c @ [current c], current := [], filled := 0\<rparr> else c)"

definition grow :: "jsval \<Rightarrow> nat \<Rightarrow> collector \<Rightarrow> (collect_error + unit) \<times> collector" where
  "grow diag needed c =
     (if filled c \<noteq> length (current c) then (Inr (), c)
      else let capacity = min BLOCK (max (length (current c) * 2) (filled c + needed));
        reservation = (int capacity - int (length (current c))) * 2
      in (case budget_reserve reservation diag False (budget c) of
        (Inl e, b) \<Rightarrow> (Inl (Refused e), c\<lparr>budget := b\<rparr>)
      | (Inr _, b) \<Rightarrow>
          let c1 = c\<lparr>budget := b, kept := kept c + reservation\<rparr> in
          if capacity < length (current c) then (Inl TooLong, c1)
          else (Inr (), c1\<lparr>current := current c @ replicate (capacity - length (current c)) 0\<rparr>)))"

definition copy_in :: "byte list \<Rightarrow> nat \<Rightarrow> nat \<Rightarrow> collector \<Rightarrow> collector" where
  "copy_in xs off n c = c\<lparr>current := take (filled c) (current c) @ take n (drop off xs) @ drop (filled c + n) (current c),
     filled := filled c + n, bsize := bsize c + n\<rparr>"

function collect :: "jsval \<Rightarrow> byte list \<Rightarrow> nat \<Rightarrow> collector \<Rightarrow> (collect_error + unit) \<times> collector" where
  "collect diag xs off c =
     (if off < length xs then
        let c1 = next_block c in
        if current c1 = [] then
          let remaining = drop off xs in
          (case budget_reserve (int (length remaining) * 2) diag False (budget c1) of
            (Inl e, b) \<Rightarrow> (Inl (Refused e), c1\<lparr>budget := b\<rparr>)
          | (Inr _, b) \<Rightarrow> (Inr (), c1\<lparr>budget := b, kept := kept c1 + int (length remaining) * 2, current := remaining,
              filled := length remaining, bsize := bsize c1 + length remaining\<rparr>))
        else (case grow diag (length xs - off) c1 of
          (Inl e, c2) \<Rightarrow> (Inl e, c2)
        | (Inr _, c2) \<Rightarrow>
            let n = min (length (current c2) - filled c2) (length xs - off) in
            if n = 0 then (Inl Corrupt, c2) else collect diag xs (off + n) (copy_in xs off n c2))
      else (Inr (), c))"
  by pat_completeness auto
termination
  by (relation "measure (\<lambda>(diag, xs, off, c). length xs - off)") (auto simp: min_def split: if_splits)

declare collect.simps [simp del]

fun collect_all :: "jsval \<Rightarrow> byte list list \<Rightarrow> collector \<Rightarrow> (collect_error + unit) \<times> collector" where
  "collect_all diag [] c = (Inr (), c)"
| "collect_all diag (v # vs) c = (case collect diag v 0 c of
     (Inl e, c1) \<Rightarrow> (Inl e, c1)
   | (Inr _, c1) \<Rightarrow> collect_all diag vs c1)"




subsection \<open>The invariant of the loop\<close>

definition stored :: "collector \<Rightarrow> byte list" where
  "stored c = concat (blocks c) @ take (filled c) (current c)"

definition coll_inv :: "buffer_budget \<Rightarrow> collector \<Rightarrow> bool" where
  "coll_inv b c \<longleftrightarrow> filled c \<le> length (current c) \<and> length (current c) \<le> BLOCK \<and> length (current c) \<le> 2 * filled c \<and>
     (\<forall>x \<in> set (blocks c). length x = BLOCK) \<and> bsize c = length (stored c) \<and>
     kept c = 2 * int (length (concat (blocks c)) + length (current c)) \<and>
     retained (budget c) = retained b + kept c \<and> budget_limit (budget c) = budget_limit b"

lemma budget_cases:
  obtains (refused) e where "budget_reserve n diag u b = (Inl e, b)" "budget_limit b < retained b + n" "te_kind e = Buffer_limit"
  | (admitted) "budget_reserve n diag u b = (Inr (), b\<lparr>retained := retained b + n\<rparr>)" "retained b + n \<le> budget_limit b"
  by (cases "budget_limit b < retained b + n") (auto simp: budget_reserve_def new_TransportError_def)

lemma next_block_inv:
  assumes "coll_inv b c"
  shows "coll_inv b (next_block c)" "stored (next_block c) = stored c" "current (next_block c) \<noteq> [] \<Longrightarrow> filled (next_block c) < BLOCK"
    "budget (next_block c) = budget c" "kept (next_block c) = kept c"
  using assms by (auto simp: next_block_def coll_inv_def stored_def)

lemma grow_inv:
  assumes inv: "coll_inv b c" and ne: "current c \<noteq> []" and lt: "filled c < BLOCK" and n: "0 < needed"
  shows "case grow diag needed c of
      (Inl e, c') \<Rightarrow> (\<exists>t. e = Refused t \<and> te_kind t = Buffer_limit) \<and> kept c' = kept c \<and> budget c' = budget c
    | (Inr _, c') \<Rightarrow> filled c' < length (current c') \<and> length (current c') \<le> BLOCK \<and> filled c' = filled c \<and>
        (length (current c') \<le> 2 * filled c \<or> length (current c') \<le> filled c + needed) \<and>
        stored c' = stored c \<and> blocks c' = blocks c \<and> bsize c' = bsize c \<and>
        kept c' = 2 * int (length (concat (blocks c)) + length (current c')) \<and>
        retained (budget c') = retained b + kept c' \<and> budget_limit (budget c') = budget_limit b"
proof (cases "filled c = length (current c)")
  case False
  then show ?thesis using inv by (auto simp: grow_def coll_inv_def)
next
  case True
  let ?len = "length (current c)"
  define cap where "cap = min BLOCK (max (?len * 2) (filled c + needed))"
  have cap: "?len < cap" "cap \<le> BLOCK" "cap \<le> 2 * filled c \<or> cap \<le> filled c + needed"
    using True ne lt n by (auto simp: cap_def)
  let ?r = "(int cap - int ?len) * 2"
  have grow: "grow diag needed c = (case budget_reserve ?r diag False (budget c) of
      (Inl e, b) \<Rightarrow> (Inl (Refused e), c\<lparr>budget := b\<rparr>)
    | (Inr _, b) \<Rightarrow> let c1 = c\<lparr>budget := b, kept := kept c + ?r\<rparr> in
        if cap < ?len then (Inl TooLong, c1) else (Inr (), c1\<lparr>current := current c @ replicate (cap - ?len) 0\<rparr>))"
    unfolding cap_def grow_def Let_def using True by (simp only: simp_thms if_False)
  show ?thesis
  proof (cases "budget c" rule: budget_cases [where n = ?r and diag = diag and u = False])
    case (refused e)
    then show ?thesis unfolding grow by simp
  next
    case admitted
    then show ?thesis
      using True cap inv unfolding grow by (auto simp: coll_inv_def stored_def Let_def)
  qed
qed

lemma copy_in_inv:
  assumes f: "filled c < length (current c)" "length (current c) \<le> BLOCK"
    and grown: "length (current c) \<le> 2 * filled c \<or> length (current c) \<le> filled c + (length xs - off)"
    and blocks: "\<forall>x \<in> set (blocks c). length x = BLOCK" and size: "bsize c = length (stored c)"
    and kept: "kept c = 2 * int (length (concat (blocks c)) + length (current c))"
    and budget: "retained (budget c) = retained b + kept c" "budget_limit (budget c) = budget_limit b"
    and n: "n = min (length (current c) - filled c) (length xs - off)"
  shows "coll_inv b (copy_in xs off n c)" "stored (copy_in xs off n c) = stored c @ take n (drop off xs)"
proof -
  have len: "length (take n (drop off xs)) = n" "filled c + n \<le> length (current c)" using n f(1) by (auto simp: min_def)
  show stored: "stored (copy_in xs off n c) = stored c @ take n (drop off xs)"
    using f(1) len by (simp add: stored_def copy_in_def)
  have "length (current (copy_in xs off n c)) = length (current c)" using f(1) len by (simp add: copy_in_def)
  moreover have "length (current c) \<le> 2 * (filled c + n)" using grown n f by auto
  moreover have "filled (copy_in xs off n c) = filled c + n" "blocks (copy_in xs off n c) = blocks c"
      "bsize (copy_in xs off n c) = bsize c + n" "kept (copy_in xs off n c) = kept c" "budget (copy_in xs off n c) = budget c"
    by (simp_all add: copy_in_def)
  moreover have "length (stored (copy_in xs off n c)) = length (stored c) + n" using stored len(1) by simp
  ultimately show "coll_inv b (copy_in xs off n c)"
    using f(2) len(2) blocks size kept budget by (simp only: coll_inv_def simp_thms)
qed

lemma collect_inv:
  assumes "coll_inv b c" and "length xs - off \<le> BLOCK"
  shows "case collect diag xs off c of
      (Inl e, c') \<Rightarrow> (\<exists>t. e = Refused t \<and> te_kind t = Buffer_limit) \<and> retained (budget c') = retained b + kept c' \<and>
        budget_limit (budget c') = budget_limit b
    | (Inr _, c') \<Rightarrow> coll_inv b c' \<and> stored c' = stored c @ drop off xs"
  using assms
proof (induction diag xs off c rule: collect.induct)
  case (1 diag xs off c)
  show ?case
  proof (cases "off < length xs")
    case False
    with "1.prems" show ?thesis by (simp add: collect.simps [of diag xs off c])
  next
    case lt: True
    let ?c1 = "next_block c"
    note nb = next_block_inv [OF "1.prems"(1)]
    show ?thesis
    proof (cases "current ?c1 = []")
      case empty: True
      let ?n = "int (length (drop off xs)) * 2"
      show ?thesis
      proof (cases "budget ?c1" rule: budget_cases [where n = ?n and diag = diag and u = False])
        case (refused e)
        with lt empty nb(1) show ?thesis
          by (simp add: collect.simps [of diag xs off c] Let_def coll_inv_def)
      next
        case admitted
        with lt empty nb(1,2) "1.prems"(2) show ?thesis
          by (auto simp: collect.simps [of diag xs off c] Let_def coll_inv_def stored_def)
      qed
    next
      case ne: False
      have need: "0 < length xs - off" using lt by simp
      note gr = grow_inv [OF nb(1) ne nb(3) [OF ne] need, of diag]
      obtain r c2 where g: "grow diag (length xs - off) ?c1 = (r, c2)" by fastforce
      show ?thesis
      proof (cases r)
        case (Inl e)
        with gr g nb(1) have "(\<exists>t. e = Refused t \<and> te_kind t = Buffer_limit) \<and> kept c2 = kept ?c1 \<and> budget c2 = budget ?c1" by simp
        with Inl g lt ne nb(1) show ?thesis
          by (auto simp: collect.simps [of diag xs off c] Let_def coll_inv_def)
      next
        case (Inr u)
        define n where "n = min (length (current c2) - filled c2) (length xs - off)"
        from gr g Inr have c2: "filled c2 < length (current c2)" "length (current c2) \<le> BLOCK"
            "length (current c2) \<le> 2 * filled c2 \<or> length (current c2) \<le> filled c2 + (length xs - off)"
            "stored c2 = stored ?c1" "blocks c2 = blocks ?c1" "bsize c2 = bsize ?c1"
            "kept c2 = 2 * int (length (concat (blocks c2)) + length (current c2))"
            "retained (budget c2) = retained b + kept c2" "budget_limit (budget c2) = budget_limit b"
          by auto
        have "\<forall>x \<in> set (blocks c2). length x = BLOCK" "bsize c2 = length (stored c2)"
          using nb(1) c2 by (auto simp: coll_inv_def)
        note ci = copy_in_inv [OF c2(1-3) this c2(7-9) n_def]
        have n0: "n \<noteq> 0" using c2(1) need by (simp add: n_def)
        have eq: "collect diag xs off c = collect diag xs (off + n) (copy_in xs off n c2)"
          using lt ne g Inr n0 unfolding n_def
          by (simp add: collect.simps [of diag xs off c] Let_def) (auto simp: min_def split: if_splits)
        have IH: "case collect diag xs (off + n) (copy_in xs off n c2) of
            (Inl e, c') \<Rightarrow> (\<exists>t. e = Refused t \<and> te_kind t = Buffer_limit) \<and> retained (budget c') = retained b + kept c' \<and>
              budget_limit (budget c') = budget_limit b
          | (Inr _, c') \<Rightarrow> coll_inv b c' \<and> stored c' = stored (copy_in xs off n c2) @ drop (off + n) xs"
          by (rule "1.IH" [OF lt refl ne _ _ n_def n0 ci(1)]) (use g Inr "1.prems"(2) in auto)
        have "take n (drop off xs) @ drop (off + n) xs = drop off xs"
          by (metis add.commute append_take_drop_id drop_drop)
        with IH ci(2) c2(4) nb(2) show ?thesis unfolding eq by (simp add: case_prod_unfold split: sum.splits)
      qed
    qed
  qed
qed

lemma collect_all_inv:
  assumes "coll_inv b c" and "\<forall>v \<in> set vs. length v \<le> BLOCK"
  shows "case collect_all diag vs c of
      (Inl e, c') \<Rightarrow> (\<exists>t. e = Refused t \<and> te_kind t = Buffer_limit) \<and> retained (budget c') = retained b + kept c' \<and>
        budget_limit (budget c') = budget_limit b
    | (Inr _, c') \<Rightarrow> coll_inv b c' \<and> stored c' = stored c @ concat vs"
  using assms
proof (induction vs arbitrary: c)
  case (Cons v vs)
  have "length v - 0 \<le> BLOCK" using Cons.prems(2) by simp
  note one = collect_inv [OF Cons.prems(1) this, of diag]
  show ?case
  proof (cases "collect diag v 0 c")
    case (Pair r c1)
    show ?thesis
    proof (cases r)
      case (Inr u)
      with one Pair have c1: "coll_inv b c1" "stored c1 = stored c @ v" by auto
      with Cons.IH [OF c1(1)] Cons.prems(2) Pair Inr show ?thesis by (simp add: case_prod_unfold split: sum.splits)
    qed (use one Pair in simp)
  qed
qed simp



lemma new_collector_inv: "coll_inv b (new_collector b)" "stored (new_collector b) = []"
  by (simp_all add: coll_inv_def new_collector_def stored_def)

subsection \<open>Properties\<close>



text \<open>
  The memory a buffered response holds is bounded by its size: the reservation is at least
  twice and at most four times the bytes received.
\<close>

theorem buffer_reservation_bounded:
  assumes "\<forall>v \<in> set chunks. length v \<le> BLOCK" and "collect_all diag chunks (new_collector b) = (Inr u, c)"
  shows "bsize c = length (concat chunks) \<and> 2 * int (bsize c) \<le> kept c \<and> kept c \<le> 4 * int (bsize c)"
proof -
  have "coll_inv b c" "stored c = concat chunks"
    using collect_all_inv [OF new_collector_inv(1) assms(1), of b diag] assms(2) new_collector_inv(2) [of b] by auto
  moreover from this(1) have "length (stored c) = length (concat (blocks c)) + filled c" "filled c \<le> length (current c)"
      "length (current c) \<le> 2 * filled c" "bsize c = length (stored c)"
      "kept c = 2 * int (length (concat (blocks c)) + length (current c))"
    by (auto simp: coll_inv_def stored_def)
  ultimately show ?thesis by simp
qed

theorem buffer_reservation_bounded_witness:
  "\<exists>c. collect_all localDiagnostics [[1, 2]] (new_collector \<lparr>retained = 0, budget_limit = 100\<rparr>) = (Inr (), c) \<and> kept c \<le> 8"
proof -
  obtain c where c: "collect_all localDiagnostics [[1, 2]] (new_collector \<lparr>retained = 0, budget_limit = 100\<rparr>) = (Inr (), c)"
    by (simp add: new_collector_def collect.simps next_block_def BLOCK_def budget_reserve_def Let_def)
  from buffer_reservation_bounded [OF _ c] have "kept c \<le> 8" by (simp add: BLOCK_def)
  with c show ?thesis by blast
qed

end
