(* ===== verification/Request.thy ===== *)
theory Request
  imports Service Upload
begin

text \<open>
  What \<open>src/packages/typescript/src/client.ts\<close> checks before a request leaves the client, and the
  two control calls of the client about a request. A URL is taken apart by the parameter
  \<open>parse_url\<close>; JSON text is produced by the parameter \<open>encode\<close>, \<open>None\<close> where it exceeds the limit.
\<close>

subsection \<open>Diagnostics and text\<close>

text \<open>
  \<open>initialDiagnostics\<close> on arguments that need not have their type: a pattern is tested on the
  conversion \<open>to_string\<close> to a string, and the value itself is kept.
\<close>

definition initial_diag :: "(jsval \<Rightarrow> jsstr) \<Rightarrow> jsval \<Rightarrow> jsval \<Rightarrow> jsval \<Rightarrow> jsval" where
  "initial_diag to_string requestId attempt profile =
     (let text = (\<lambda>v. case v of JStr s \<Rightarrow> s | _ \<Rightarrow> to_string v) in JObj
      [(js ''requestId'', if re_opaque (text requestId) then requestId else jstr ''local''),
       (js ''attempt'', if nonnegativeInteger attempt then attempt else jint 0),
       (js ''tlsProfile'', if re_profile (text profile) then profile else jstr ''unknown''),
       (js ''phase'', jstr ''preparing''), (js ''delivery'', jstr ''not_started''),
       (js ''queueMs'', jint 0), (js ''headersMs'', JNull), (js ''bodyMs'', JNull),
       (js ''totalMs'', jint 0), (js ''requestBytes'', jint 0), (js ''responseBytes'', jint 0)])"

text \<open>\<open>TextEncoder\<close>: UTF-8 of a string of UTF-16 code units, a lone surrogate becoming U+FFFD.\<close>

definition utf8_point :: "nat \<Rightarrow> byte list" where
  "utf8_point c =
     (if c < 128 then [word_of_nat c]
      else if c < 2048 then [word_of_nat (192 + c div 64), word_of_nat (128 + c mod 64)]
      else if c < 65536 then [word_of_nat (224 + c div 4096), word_of_nat (128 + c div 64 mod 64), word_of_nat (128 + c mod 64)]
      else [word_of_nat (240 + c div 262144), word_of_nat (128 + c div 4096 mod 64), word_of_nat (128 + c div 64 mod 64),
        word_of_nat (128 + c mod 64)])"

definition scalar :: "jsstr \<Rightarrow> nat" where
  "scalar p = (case p of
     [u, w] \<Rightarrow> 65536 + (u - 55296) * 1024 + (w - 56320)
   | [u] \<Rightarrow> if 55296 \<le> u \<and> u < 57344 then 65533 else u
   | _ \<Rightarrow> 65533)"

definition utf8 :: "jsstr \<Rightarrow> byte list" where
  "utf8 s = concat (map (\<lambda>p. utf8_point (scalar p)) (code_points s))"

definition ascii_upper :: "jsstr \<Rightarrow> jsstr" where
  "ascii_upper s = map (\<lambda>u. if lower u then u - 32 else u) s"

subsection \<open>The checks before admission\<close>

text \<open>\<open>options.body\<close>: nothing, text, bytes, a stream or async iterator (its reads), or another value.\<close>

datatype body_input = BodyAbsent | BodyText jsstr | BodyBytes "byte list" | BodyStream "src_read list" | BodyUnknown

fun encode_body :: "body_input \<Rightarrow> request_body option" where
  "encode_body BodyAbsent = Some NoBody"
| "encode_body (BodyText s) = Some (BytesBody (utf8 s))"
| "encode_body (BodyBytes b) = Some (BytesBody b)"
| "encode_body (BodyStream s) = Some (StreamBody s)"
| "encode_body BodyUnknown = None"

record request =
  requestId :: jsstr
  attempt :: jsnum
  rq_partition :: jsstr
  contextId :: jsval
  connection :: jsval
  own_connection :: bool
  usedProxy :: bool
  target :: jsstr
  meth :: jsstr
  rq_headers :: "jsval list"
  browserOrder :: bool
  rq_body :: request_body
  maximum :: nat

definition method_ok :: "jsval \<Rightarrow> bool" where
  "method_ok = str_test (\<lambda>m. m \<noteq> [] \<and> list_all token_unit m)"

definition target_ok :: "url \<Rightarrow> bool" where
  "target_ok u \<longleftrightarrow> http_url u \<and> username u = [] \<and> password u = [] \<and> hash u = []"

text \<open>
  Lines 140 to 205: \<open>options\<close> with the headers and the body as values of their own, the fresh
  identifier \<open>uuid\<close>, the connection a session adds, and the client's default for the maximum.
\<close>

definition request_diag :: "(jsval \<Rightarrow> jsstr) \<Rightarrow> jsval \<Rightarrow> jsval \<Rightarrow> jsstr \<Rightarrow> jsval" where
  "request_diag to_string options hint uuid =
     initial_diag to_string (nullish_or (get options ''requestId'') (JStr uuid)) (nullish_or (get options ''attempt'') (jint 0))
       (nullish_or (get (get (nullish_or (get options ''connection'') hint) ''identity'') ''tlsProfile'') (jstr ''unknown''))"

definition check_request :: "(jsval \<Rightarrow> jsstr) \<Rightarrow> (jsval \<Rightarrow> url option) \<Rightarrow> jsval \<Rightarrow> headers_input \<Rightarrow> body_input \<Rightarrow> jsval \<Rightarrow>
    jsstr \<Rightarrow> jsval \<Rightarrow> transport_error + request" where
  "check_request to_string parse_url options hs bd hint uuid dflt =
     (let id = nullish_or (get options ''requestId'') (JStr uuid); att = nullish_or (get options ''attempt'') (jint 0);
        conn = nullish_or (get options ''connection'') hint; proxied = (get (get conn ''egress'') ''mode'' = jstr ''proxy'');
        invalid = new_TransportError INVALID_REQUEST (request_diag to_string options hint uuid) proxied (Some Invalid_input) None;
        context = get options ''contextId''; order = get options ''headerOrder''; verb = get options ''method'';
        max_bytes = nullish_or (get options ''maxResponseBytes'') dflt
      in if \<not> record_js options then Inl invalid_input
      else if \<not> opaque id \<or> \<not> nonnegativeInteger att then Inl invalid
      else case validatePartition (get options ''partition'') of Some e \<Rightarrow> Inl e | None \<Rightarrow>
        if ((context = JUndef) = (get options ''connection'' = JUndef)) \<or> (context \<noteq> JUndef \<and> \<not> opaque context) then Inl invalid
        else if order \<noteq> JUndef \<and> order \<noteq> jstr ''caller'' \<and> order \<noteq> jstr ''browser'' then Inl invalid
        else (case (parse_url (get options ''url''), headersFrom hs, encode_body bd) of
          (Some u, Some headers, Some b) \<Rightarrow>
            if \<not> target_ok u \<or> \<not> method_ok verb then Inl invalid
            else if ascii_upper (str_of verb) \<in> {js ''GET'', js ''HEAD''} \<and> b \<noteq> NoBody then Inl invalid
            else if \<not> positive max_bytes then Inl invalid
            else Inr \<lparr>requestId = str_of id, attempt = (case att of JNum n \<Rightarrow> n | _ \<Rightarrow> NaN), rq_partition = str_of (get options ''partition''),
              contextId = context, connection = conn, own_connection = truthy (get options ''connection''), usedProxy = proxied,
              target = href u, meth = ascii_upper (str_of verb), rq_headers = headers, browserOrder = (order = jstr ''browser''),
              rq_body = b, maximum = nat (int_of max_bytes)\<rparr>
        | _ \<Rightarrow> Inl invalid))"

subsection \<open>The checks against the service's limits\<close>

definition limit_of :: "jsval \<Rightarrow> string \<Rightarrow> int" where
  "limit_of caps n = int_of (get (get caps ''limits'') n)"

definition header_bytes :: "jsval list \<Rightarrow> nat" where
  "header_bytes hs = sum_list (map (\<lambda>p. length (utf8 (str_of (item p 0))) + length (utf8 (str_of (item p 1)))) hs)"

definition body_length :: "request_body \<Rightarrow> nat option" where
  "body_length b = (case b of BytesBody bs \<Rightarrow> Some (length bs) | _ \<Rightarrow> None)"

definition wire_request :: "request \<Rightarrow> int \<Rightarrow> jsval" where
  "wire_request rq left = JObj
     ([(js ''requestId'', JStr (requestId rq)), (js ''partition'', JStr (rq_partition rq)),
       (if own_connection rq then (js ''connection'', connection rq) else (js ''contextId'', contextId rq)),
       (js ''url'', JStr (target rq)), (js ''method'', JStr (meth rq)), (js ''headers'', JArr (rq_headers rq))] @
      (if browserOrder rq then [(js ''headerOrder'', jstr ''browser'')] else []) @
      [(js ''timeoutMs'', jint left), (js ''maxResponseBytes'', jint (int (maximum rq))), (js ''attempt'', JNum (attempt rq)),
       (js ''hasBody'', JBool (rq_body rq \<noteq> NoBody))] @
      (case body_length (rq_body rq) of None \<Rightarrow> [] | Some n \<Rightarrow> [(js ''bodyLength'', jint (int n))]))"

text \<open>Lines 217 to 226, up to the upload stream; \<open>diag\<close> has the queueing time already.\<close>

definition prepare_upload :: "(jsval \<Rightarrow> jsstr) \<Rightarrow> (jsval \<Rightarrow> url option) \<Rightarrow> (jsval \<Rightarrow> int \<Rightarrow> byte list option) \<Rightarrow> jsval \<Rightarrow> request \<Rightarrow>
    deadline \<Rightarrow> rat \<Rightarrow> jsval \<Rightarrow> transport_error + upload" where
  "prepare_upload to_string parse_url encode caps rq d now diag =
     (case (if \<not> truthy (connection rq) then None else validateConnection to_string parse_url caps (connection rq)) of
        Some e \<Rightarrow> Inl e
      | None \<Rightarrow>
          if of_int (limit_of caps ''maxTimeoutMs'') < num_value (timeoutMs d) \<or> limit_of caps ''maxResponseBytes'' < int (maximum rq) \<or>
             limit_of caps ''maxHeaders'' < int (length (rq_headers rq)) \<or> limit_of caps ''maxHeaderBytes'' < int (header_bytes (rq_headers rq))
          then Inl (new_TransportError INVALID_REQUEST diag (usedProxy rq) None None)
          else if (case body_length (rq_body rq) of None \<Rightarrow> False | Some n \<Rightarrow> limit_of caps ''maxRequestBytes'' < int n)
          then Inl (new_TransportError BODY_TOO_LARGE diag (usedProxy rq) None None)
          else let wire = wire_request rq (remaining d now) in
            if \<not> validateWire RequestMetadata wire then Inl (new_TransportError INVALID_REQUEST diag (usedProxy rq) None None)
            else (case encode wire (int_of (get (get caps ''framing'') ''maxMetadataBytes'')) of
                None \<Rightarrow> Inl (new_TransportError BODY_TOO_LARGE diag (usedProxy rq) None None)
              | Some bytes \<Rightarrow> Inr (uploadFrames bytes (rq_body rq) (nat (limit_of caps ''maxRequestBytes''))
                  (nat (int_of (get (get caps ''framing'') ''maxDataBytes''))) (nat (int_of (get (get caps ''framing'') ''maxUploadFrames''))))))"

subsection \<open>Asking about a request\<close>

text \<open>\<open>requestStatus\<close> and \<open>cancelRequest\<close>: the checks before the control call and on its value.\<close>

definition check_request_id :: "lifetime \<Rightarrow> jsval \<Rightarrow> jsval \<Rightarrow> transport_error option" where
  "check_request_id life rid part = (case assertOpen life of Some e \<Rightarrow> Some e
     | None \<Rightarrow> (case validatePartition part of Some e \<Rightarrow> Some e | None \<Rightarrow> if opaque rid then None else Some invalid_input))"

datatype request_status = StatusFailed jsval transport_error | StatusOther jsstr jsval

definition status_value :: "jsstr \<Rightarrow> jsval \<Rightarrow> transport_error + request_status" where
  "status_value rid value =
     (let d = get value ''diagnostics''; st = get value ''state''; err = get value ''error''; bad = localError PROTOCOL_ERROR None
      in if \<not> validateDiagnosticEnvelope RequestStatus value \<or> \<not> record_js value \<or> \<not> diagnostics d (Some rid) None \<or>
          st \<notin> {jstr ''queued'', jstr ''active'', jstr ''complete'', jstr ''failed''} then Inl bad
      else if st = jstr ''failed'' then
        if err = JUndef then Inl bad else Inr (StatusFailed (copyDiagnostics d) (transportError err d False True))
      else if err \<noteq> JUndef \<or> (st = jstr ''complete'' \<and> get d ''phase'' \<noteq> jstr ''complete'') then Inl bad
      else Inr (StatusOther (str_of st) (copyDiagnostics d)))"

definition cancel_value :: "jsstr \<Rightarrow> jsval \<Rightarrow> transport_error option" where
  "cancel_value rid value =
     (if validateDiagnosticEnvelope RequestStatus value \<and> record_js value \<and> diagnostics (get value ''diagnostics'') (Some rid) None
      then None else Some (localError PROTOCOL_ERROR None))"

end
