(* ===== verification/Observation.thy ===== *)
theory Observation
  imports Guards
begin

text \<open>
  \<open>src/packages/typescript/src/observation.ts\<close>: what observers are shown, the correlation
  references they may supply, and the isolation of an exchange from their hooks. An observer
  is known by a number; what it does when called is a function of that number and of the
  snapshot it gets. Parsing and printing a URL without its credentials belongs to the platform
  and is the parameter \<open>strip\<close>, \<open>None\<close> where \<open>new URL\<close> throws.
\<close>

subsection \<open>References\<close>

definition MAX_REFERENCES :: nat where
  "MAX_REFERENCES = 16"

definition re_reference :: "jsstr \<Rightarrow> bool" where
  "re_reference s = (case s of [] \<Rightarrow> False
     | u # us \<Rightarrow> (upper u \<or> lower u) \<and> re_class (\<lambda>u. upper u \<or> lower u \<or> digit u \<or> units ''_.-'' u) 0 63 us)"

text \<open>\<open>\p{Cc}\<close>: the C0 and C1 control characters, none of which needs a surrogate pair.\<close>

definition control_unit :: "nat \<Rightarrow> bool" where
  "control_unit u \<longleftrightarrow> u \<le> 31 \<or> 127 \<le> u \<and> u \<le> 159"

fun reference_entry :: "jsstr \<times> jsval \<Rightarrow> bool" where
  "reference_entry (key, JStr text) =
     (re_reference key \<and> text \<noteq> [] \<and> length text \<le> 256 \<and> \<not> list_ex control_unit text)"
| "reference_entry _ = False"

fun entry_text :: "jsstr \<times> jsval \<Rightarrow> jsstr \<times> jsstr" where
  "entry_text (key, JStr text) = (key, text)"
| "entry_text (key, _) = (key, [])"

definition copyReferences :: "jsval \<Rightarrow> refs option" where
  "copyReferences value =
     (if \<not> record_js value then None
      else let entries = spread_object value in
        if entries = [] \<or> MAX_REFERENCES < length entries then None
        else if \<not> list_all reference_entry entries then None
        else Some (map entry_text entries))"

text \<open>\<open>{ ...references, ...supplied }\<close>.\<close>

definition merge_refs :: "refs option \<Rightarrow> refs \<Rightarrow> refs" where
  "merge_refs references supplied =
     fold (\<lambda>(k, v) acc. set_prop acc k v) supplied (case references of None \<Rightarrow> [] | Some r \<Rightarrow> r)"

subsection \<open>The observers of an exchange\<close>

datatype observed =
    Throws
  | Nothing
  | Observes jsval

record observation =
  observations :: "nat list"
  finished :: bool
  references :: "refs option"

definition observer_snapshot :: "(jsstr \<Rightarrow> jsstr option) \<Rightarrow> jsval \<Rightarrow> jsval option" where
  "observer_snapshot strip start =
     (let connection = get start ''connection''; egress = get connection ''egress'' in
      if get egress ''mode'' = jstr ''proxy'' then
        (case get egress ''url'' of
           JStr url \<Rightarrow> map_option (\<lambda>url'. JObj (set_prop (spread_object start) (js ''connection'')
             (JObj (set_prop (spread_object connection) (js ''egress'')
               (JObj (set_prop (spread_object egress) (js ''url'') (JStr url'))))))) (strip url)
         | _ \<Rightarrow> None)
      else Some start)"

definition observe :: "(nat \<Rightarrow> jsval \<Rightarrow> observed) \<Rightarrow> (jsstr \<Rightarrow> jsstr option) \<Rightarrow> jsval \<Rightarrow> nat \<Rightarrow> observation \<Rightarrow> observation" where
  "observe call strip start i obs = (case observer_snapshot strip start of
     None \<Rightarrow> obs
   | Some snapshot \<Rightarrow> (case call i snapshot of
       Throws \<Rightarrow> obs
     | Nothing \<Rightarrow> obs
     | Observes supplied \<Rightarrow>
         let obs1 = obs\<lparr>observations := observations obs @ [i]\<rparr> in
         (case copyReferences supplied of
            None \<Rightarrow> obs1
          | Some s \<Rightarrow>
              let merged = merge_refs (references obs) s in
              if length merged \<le> MAX_REFERENCES then obs1\<lparr>references := Some merged\<rparr> else obs1)))"

text \<open>\<open>new Set(observers)\<close> keeps the first of equal observers; absent ones are skipped.\<close>

definition observer_set :: "nat option list \<Rightarrow> nat list" where
  "observer_set observers = rev (remdups (rev (map the (filter (\<lambda>i. i \<noteq> None) observers))))"

definition new_Observation ::
    "(nat \<Rightarrow> jsval \<Rightarrow> observed) \<Rightarrow> (jsstr \<Rightarrow> jsstr option) \<Rightarrow> jsval \<Rightarrow> nat option list \<Rightarrow> observation" where
  "new_Observation call strip start observers =
     fold (observe call strip start) (observer_set observers) \<lparr>observations = [], finished = False, references = None\<rparr>"

text \<open>
  \<open>finish\<close> calls the hook of each observation; what it passes is the outcome. The result lists
  the hooks called.
\<close>

definition observation_finish :: "'o \<Rightarrow> observation \<Rightarrow> (nat \<times> 'o) list \<times> observation" where
  "observation_finish out obs =
     (if finished obs then ([], obs)
      else (map (\<lambda>i. (i, out)) (observations obs), obs\<lparr>finished := True, observations := []\<rparr>))"

text \<open>
  \<open>run\<close>: a hook is given \<open>once\<close> and calls it some number of times, then \<open>run\<close> calls it itself.
  \<open>once\<close> remembers the result of the first call; the operation acts on a state.
\<close>

definition once :: "('s \<Rightarrow> 'r \<times> 's) \<Rightarrow> 'r option \<times> 's \<Rightarrow> 'r option \<times> 's" where
  "once inner ms = (case ms of (Some r, s) \<Rightarrow> (Some r, s) | (None, s) \<Rightarrow> let (r, s') = inner s in (Some r, s'))"

fun run_hooks :: "nat list \<Rightarrow> ('s \<Rightarrow> 'r \<times> 's) \<Rightarrow> 's \<Rightarrow> 'r \<times> 's" where
  "run_hooks [] operation s = operation s"
| "run_hooks (calls # hooks) operation s =
     (let (m, s') = once (run_hooks hooks operation) ((once (run_hooks hooks operation) ^^ calls) (None, s)) in (the m, s'))"

subsection \<open>Facts\<close>

lemma once_Some [simp]: "(once inner ^^ n) (Some r, s) = (Some r, s)"
  by (induction n) (simp_all add: once_def)

lemma once_iter: "once inner ((once inner ^^ n) (None, s)) = (Some (fst (inner s)), snd (inner s))"
proof (cases n)
  case 0
  then show ?thesis by (simp add: once_def case_prod_unfold Let_def)
next
  case (Suc k)
  have "(once inner ^^ Suc k) (None, s) = (once inner ^^ k) (once inner (None, s))"
    by (simp only: funpow_Suc_right comp_apply)
  also have "\<dots> = (Some (fst (inner s)), snd (inner s))" by (simp add: once_def case_prod_unfold Let_def)
  finally show ?thesis using Suc by (simp add: once_def)
qed

lemma set_prop_keys: "set (map fst (set_prop ps k v)) = insert k (set (map fst ps))"
proof (induction ps)
  case (Cons p ps)
  then show ?case by (cases p) (simp add: insert_commute)
qed simp

lemma set_prop_distinct: "distinct (map fst ps) \<Longrightarrow> distinct (map fst (set_prop ps k v))"
proof (induction ps)
  case (Cons p ps)
  then show ?case using set_prop_keys [of ps k v] by (cases p) auto
qed simp

lemma map_of_set_prop: "map_of (set_prop ps k v) j = (if j = k then Some v else map_of ps j)"
  by (induction ps) auto

lemma set_prop_all: "list_all P ps \<Longrightarrow> P (k, v) \<Longrightarrow> list_all P (set_prop ps k v)"
  by (induction ps) auto

lemma fold_set_prop:
  "distinct (map fst ps) \<Longrightarrow> distinct (map fst (fold (\<lambda>(k, v) acc. set_prop acc k v) qs ps))"
  "list_all P ps \<Longrightarrow> list_all P qs \<Longrightarrow> list_all P (fold (\<lambda>(k, v) acc. set_prop acc k v) qs ps)"
  "set (map fst (fold (\<lambda>(k, v) acc. set_prop acc k v) qs ps)) = set (map fst ps) \<union> set (map fst qs)"
  by (induction qs arbitrary: ps) (auto simp: set_prop_distinct set_prop_all set_prop_keys simp del: set_map)

definition reference_pair :: "jsstr \<times> jsstr \<Rightarrow> bool" where
  "reference_pair p \<longleftrightarrow> reference_entry (fst p, JStr (snd p))"

definition refs_ok :: "refs option \<Rightarrow> bool" where
  "refs_ok r = (case r of None \<Rightarrow> True
     | Some ps \<Rightarrow> ps \<noteq> [] \<and> length ps \<le> MAX_REFERENCES \<and> distinct (map fst ps) \<and> list_all reference_pair ps)"

lemma entry_text_ok: "reference_entry e \<Longrightarrow> reference_pair (entry_text e) \<and> fst (entry_text e) = fst e"
  by (cases e rule: reference_entry.cases) (simp_all add: reference_pair_def)

lemma copyReferences_ok:
  assumes "copyReferences value = Some s"
  shows "s \<noteq> [] \<and> length s \<le> MAX_REFERENCES \<and> list_all reference_pair s"
  using assms entry_text_ok
  by (auto simp: copyReferences_def Let_def list_all_iff split: if_splits)

lemma observe_refs_ok: "refs_ok (references obs) \<Longrightarrow> refs_ok (references (observe call strip start i obs))"
proof -
  assume ok: "refs_ok (references obs)"
  have "refs_ok (Some (merge_refs (references obs) s))"
    if s: "copyReferences v = Some s" and len: "length (merge_refs (references obs) s) \<le> MAX_REFERENCES" for v s
  proof -
    let ?base = "case references obs of None \<Rightarrow> [] | Some r \<Rightarrow> r"
    have base: "distinct (map fst ?base)" "list_all reference_pair ?base"
      using ok by (auto simp: refs_ok_def split: option.splits)
    note s_ok = copyReferences_ok [OF s]
    have "set (map fst (merge_refs (references obs) s)) = set (map fst ?base) \<union> set (map fst s)"
      unfolding merge_refs_def by (rule fold_set_prop(3))
    moreover have "set (map fst s) \<noteq> {}" using s_ok by simp
    ultimately have "merge_refs (references obs) s \<noteq> []" by force
    with base s_ok len show ?thesis by (simp add: refs_ok_def merge_refs_def fold_set_prop)
  qed
  with ok show ?thesis
    by (auto simp: observe_def Let_def split: option.splits observed.splits)
qed

lemma fold_observe_refs_ok: "refs_ok (references obs) \<Longrightarrow> refs_ok (references (fold (observe call strip start) is obs))"
  by (induction "is" arbitrary: obs) (simp_all add: observe_refs_ok)

subsection \<open>Properties\<close>

text \<open>
  Whatever the observers return, throw or are, the references of an exchange are absent or a
  set of 1 to 16 entries with distinct keys, each of the documented form.
\<close>

theorem observation_references_bounded:
  "case references (new_Observation call strip start observers) of None \<Rightarrow> True
   | Some ps \<Rightarrow> 1 \<le> length ps \<and> length ps \<le> 16 \<and> distinct (map fst ps) \<and>
       list_all (\<lambda>(k, t). re_reference k \<and> 1 \<le> length t \<and> length t \<le> 256 \<and> \<not> list_ex control_unit t) ps"
proof -
  have "refs_ok (references (new_Observation call strip start observers))"
    unfolding new_Observation_def by (rule fold_observe_refs_ok) (simp add: refs_ok_def)
  then show ?thesis
    by (auto simp: refs_ok_def MAX_REFERENCES_def reference_pair_def list_all_iff Suc_le_eq split: option.splits)
qed

text \<open>
  When reference sets are merged, the later set wins on equal keys and every other key
  keeps its value.
\<close>

theorem merge_refs_later_wins:
  "map_of (merge_refs earlier supplied) k = (case map_of (rev supplied) k of
     Some v \<Rightarrow> Some v | None \<Rightarrow> (case earlier of None \<Rightarrow> None | Some r \<Rightarrow> map_of r k))"
proof -
  have "map_of (fold (\<lambda>(k, v) acc. set_prop acc k v) qs ps) k = (case map_of (rev qs) k of Some v \<Rightarrow> Some v | None \<Rightarrow> map_of ps k)"
    for qs and ps :: refs
    by (induction qs arbitrary: ps) (auto simp: map_of_set_prop map_add_def split: option.splits)
  then show ?thesis by (simp add: merge_refs_def split: option.splits)
qed

text \<open>
  Hooks cannot change an exchange: however often each observer's \<open>run\<close> hook calls the
  function it is given (also never), the operation runs exactly once and its result is returned.
\<close>

theorem run_hooks_transparent: "run_hooks hooks operation s = operation s"
  by (induction hooks) (simp_all add: once_iter)

text \<open>
  Every observer is told the end of an exchange exactly once: the first \<open>finish\<close> calls each
  observation's hook, a second one calls none.
\<close>

theorem observation_finish_once:
  "fst (observation_finish out' (snd (observation_finish out obs))) = [] \<and>
   (finished obs \<or> map fst (fst (observation_finish out obs)) = observations obs)"
  by (simp add: observation_finish_def comp_def)

end
