(* ===== verification/Exchange.thy ===== *)
theory Exchange
  imports Request Observation
begin

text \<open>
  The streaming exchange of \<open>src/packages/typescript/src/client.ts\<close> (\<open>executeStream\<close>) as a state
  machine. The closure's variables are the fields of \<open>exchange\<close>; a step is the code that runs
  between two awaits, or a callback (the deadline's listener, a pull, a cancellation, the upload).
  Steps may come in any order their phase allows, so that every interleaving is covered. Calls on
  shared objects are recorded in \<open>effects\<close>. Decoding JSON text is the parameter \<open>parse\<close>; the
  checks of a request against the service are the parameter \<open>prepare\<close>, which is
  \<open>prepare_upload\<close> of theory \<open>Request\<close> in the client.
\<close>

subsection \<open>State\<close>

datatype effect = ReleasePermit nat | ReleaseReservation nat | OperationDone | ObserverFinish | Constrain jsval

datatype stream_state = NoStream | Readable | StreamClosed | StreamErrored transport_error

text \<open>Where a pull waits: for the next frame, or for the end after the last frame.\<close>

datatype pull_state = Idle | AwaitFrame | AwaitEndOfError transport_error | AwaitEnd jsval

datatype phase =
    Opening
  | Discovering
  | Queued jsval
  | Sending jsval
  | Heading jsval
  | HeadError transport_error
  | Streaming
  | Thrown transport_error

record exchange =
  rq :: request
  x_deadline :: deadline
  x_diag :: jsval
  x_finished :: bool
  sent :: bool
  responseBytes :: nat
  failure :: "transport_error option"
  permit :: "nat option"
  reservation :: "nat option"
  observed_by :: "observation option"
  reader :: "frame_reader option"
  uploading :: "upload option"
  x_metadata :: "jsval option"
  x_stream :: stream_state
  delivered :: "byte list list"
  pulling :: pull_state
  x_phase :: phase
  terminal :: "(transport_error + jsval) list"
  effects :: "effect list"
  wire :: "read_result list"

text \<open>\<open>wire\<close> remembers the reads of the response body from the start, for the statements below.\<close>

definition new_exchange :: "request \<Rightarrow> deadline \<Rightarrow> jsval \<Rightarrow> exchange" where
  "new_exchange r d diag =
     \<lparr>rq = r, x_deadline = d, x_diag = diag, x_finished = False, sent = False, responseBytes = 0, failure = None,
      permit = None, reservation = None, observed_by = None, reader = None, uploading = None, x_metadata = None,
      x_stream = NoStream, delivered = [], pulling = Idle, x_phase = Opening, terminal = [], effects = [], wire = []\<rparr>"

subsection \<open>Finishing\<close>

definition updateLocal :: "rat \<Rightarrow> exchange \<Rightarrow> jsval" where
  "updateLocal now x = JObj (set_prop (set_prop (set_prop (spread_object (x_diag x))
     (js ''totalMs'') (jint \<lfloor>now - started (x_deadline x)\<rfloor>))
     (js ''requestBytes'') (jint (case uploading x of None \<Rightarrow> 0 | Some u \<Rightarrow> int (sentBytes u))))
     (js ''responseBytes'') (jint (int (responseBytes x))))"

text \<open>The closures an exchange holds, in the order \<open>finish\<close> calls them.\<close>

definition held :: "exchange \<Rightarrow> effect list" where
  "held x = (case permit x of None \<Rightarrow> [] | Some p \<Rightarrow> [ReleasePermit p]) @
     (case reservation x of None \<Rightarrow> [] | Some i \<Rightarrow> [ReleaseReservation i]) @ [OperationDone] @
     (case observed_by x of None \<Rightarrow> [] | Some _ \<Rightarrow> [ObserverFinish])"

definition x_references :: "exchange \<Rightarrow> refs option" where
  "x_references x = Option.bind (observed_by x) references"

definition finish_exchange :: "transport_error option \<Rightarrow> exchange \<Rightarrow> exchange" where
  "finish_exchange error x =
     (if x_finished x then x
      else let err = map_option (\<lambda>e. withReferences e (x_references x)) error;
        x1 = (case err of None \<Rightarrow> x | Some e \<Rightarrow>
          x\<lparr>x_diag := te_diagnostics e, reader := map_option FrameReader_cancel (reader x),
            x_deadline := controller_abort DefaultReason (x_deadline x),
            x_stream := (if x_stream x = Readable then StreamErrored e else x_stream x)\<rparr>)
      in x1\<lparr>x_finished := True, failure := err, uploading := map_option upload_cancel (uploading x),
           effects := effects x @ held x,
           observed_by := map_option (\<lambda>obs. snd (observation_finish () obs)) (observed_by x),
           terminal := terminal x @ [case err of Some e \<Rightarrow> Inl e | None \<Rightarrow> Inr (x_diag x)]\<rparr>)"

definition normalize :: "rat \<Rightarrow> thrown \<Rightarrow> exchange \<Rightarrow> transport_error" where
  "normalize now t x = (case failure x of Some e \<Rightarrow> e | None \<Rightarrow> (case t of
     Transport e \<Rightarrow> e
   | Other _ \<Rightarrow> if aborted (x_deadline x) then deadline_error (x_deadline x) now (updateLocal now x) (usedProxy (rq x))
       else new_TransportError (if sent x then PROTOCOL_ERROR else INVALID_REQUEST) (updateLocal now x) (usedProxy (rq x))
         (if sent x \<and> x_metadata x = None then Some Service_unavailable else None) None))"

text \<open>The \<open>catch\<close> of \<open>executeStream\<close>.\<close>

definition fail :: "rat \<Rightarrow> thrown \<Rightarrow> exchange \<Rightarrow> exchange" where
  "fail now t x = (let e = withReferences (normalize now t x) (x_references x) in (finish_exchange (Some e) x)\<lparr>x_phase := Thrown e\<rparr>)"

definition throw_failure :: "exchange \<Rightarrow> thrown" where
  "throw_failure x = (case failure x of Some e \<Rightarrow> Transport e | None \<Rightarrow> Other JUndef)"

definition protocol_error :: "jsval \<Rightarrow> exchange \<Rightarrow> thrown" where
  "protocol_error diag x = Transport (new_TransportError PROTOCOL_ERROR diag (usedProxy (rq x)) None None)"

subsection \<open>Callbacks\<close>

text \<open>The deadline changes; the listener \<open>onAbort\<close> runs when that aborts the signal.\<close>

definition deadline_changes :: "rat \<Rightarrow> deadline_change \<Rightarrow> exchange \<Rightarrow> exchange" where
  "deadline_changes now c x =
     (let d = change_deadline c (x_deadline x); x1 = x\<lparr>x_deadline := d\<rparr> in
      if \<not> aborted (x_deadline x) \<and> aborted d
      then finish_exchange (Some (deadline_error d now (updateLocal now x1) (usedProxy (rq x)))) x1 else x1)"

definition cancelled :: "rat \<Rightarrow> exchange \<Rightarrow> transport_error" where
  "cancelled now x = new_TransportError CANCELLED (updateLocal now x) (usedProxy (rq x)) None None"

definition exchange_close :: "rat \<Rightarrow> exchange \<Rightarrow> exchange" where
  "exchange_close now x = finish_exchange (Some (cancelled now x)) x"

text \<open>The consumer cancels the body: the stream is closed before its \<open>cancel\<close> runs.\<close>

definition consumer_cancels :: "rat \<Rightarrow> exchange \<Rightarrow> exchange" where
  "consumer_cancels now x =
     (if x_stream x = Readable then finish_exchange (Some (cancelled now x)) (x\<lparr>x_stream := StreamClosed\<rparr>) else x)"

definition fail_stream :: "rat \<Rightarrow> transport_error \<Rightarrow> exchange \<Rightarrow> exchange" where
  "fail_stream now e x = finish_exchange (Some (new_TransportError (te_code e) (updateLocal now x) (usedProxy (rq x)) (Some (te_kind e)) None)) x"

fun range_error :: "upload_error \<Rightarrow> bool" where
  "range_error BodyTooLarge = True"
| "range_error EmptyReadLimit = True"
| "range_error InvalidBody = False"
| "range_error SourceError = False"

definition upload_steps :: "rat \<Rightarrow> exchange \<Rightarrow> exchange" where
  "upload_steps now x = (case uploading x of None \<Rightarrow> x | Some u \<Rightarrow> (case upload_pull u of
     (Fail e, u') \<Rightarrow> finish_exchange (Some (new_TransportError (if range_error e then BODY_TOO_LARGE else INVALID_REQUEST)
         (updateLocal now x) (usedProxy (rq x)) None None)) (x\<lparr>uploading := Some u'\<rparr>)
   | (_, u') \<Rightarrow> x\<lparr>uploading := Some u'\<rparr>))"

subsection \<open>The way to a response\<close>

text \<open>
  From the checks of the request to the reservation. \<open>during\<close> is what the observers, which run
  here, do to the deadline, if anything; \<open>slot\<close> is the result of \<open>admission.reserve\<close>.
\<close>

definition during_hooks :: "rat \<Rightarrow> deadline_change option \<Rightarrow> exchange \<Rightarrow> exchange" where
  "during_hooks now during x = (case during of None \<Rightarrow> x | Some c \<Rightarrow> deadline_changes now c x)"

definition x_refused :: "rat \<Rightarrow> transport_error \<Rightarrow> exchange \<Rightarrow> exchange" where
  "x_refused now e x = (if x_phase x = Opening then fail now (Transport e) x else x)"

definition x_open :: "rat \<Rightarrow> deadline_change option \<Rightarrow> observation \<Rightarrow> transport_error + nat \<Rightarrow> exchange \<Rightarrow> exchange" where
  "x_open now during obs slot x =
     (if x_phase x \<noteq> Opening then x
      else let x1 = (during_hooks now during x)\<lparr>observed_by := Some obs\<rparr> in
        if x_finished x1 then fail now (throw_failure x1)
          (x1\<lparr>observed_by := Some (snd (observation_finish () obs)), effects := effects x1 @ [ObserverFinish]\<rparr>)
        else if aborted (x_deadline x1)
          then fail now (Transport (deadline_error (x_deadline x1) now (x_diag x1) (usedProxy (rq x1)))) x1
        else (case slot of Inl e \<Rightarrow> fail now (Transport e) x1
          | Inr i \<Rightarrow> x1\<lparr>reservation := Some i, x_phase := Discovering\<rparr>))"

definition got_capabilities :: "rat \<Rightarrow> thrown + jsval \<Rightarrow> exchange \<Rightarrow> exchange" where
  "got_capabilities now outcome x = (case x_phase x of
     Discovering \<Rightarrow> (case outcome of Inl t \<Rightarrow> fail now t x
       | Inr caps \<Rightarrow> x\<lparr>effects := effects x @ [Constrain (get caps ''limits'')], x_phase := Queued caps\<rparr>)
   | _ \<Rightarrow> x)"

text \<open>
  The permit, the checks against the service's description, the upload, and the call of the
  transport. \<open>during\<close> stands for the run hooks and the header hook before that call.
\<close>

type_synonym preparation = "jsval \<Rightarrow> request \<Rightarrow> deadline \<Rightarrow> rat \<Rightarrow> jsval \<Rightarrow> transport_error + upload"

definition send :: "rat \<Rightarrow> deadline_change option \<Rightarrow> exchange \<Rightarrow> exchange" where
  "send now during x =
     (let expired = (\<lambda>x. Transport (deadline_error (x_deadline x) now (x_diag x) (usedProxy (rq x)))) in
      if aborted (x_deadline x) then fail now (expired x) x
      else let x1 = during_hooks now during x in
        if aborted (x_deadline x1) then fail now (case failure x1 of Some e \<Rightarrow> Transport e | None \<Rightarrow> expired x1) x1
        else let d1 = set_prop (set_prop (spread_object (x_diag x1)) (js ''phase'') (jstr ''upstream'')) (js ''delivery'') (jstr ''possibly_sent'')
          in x1\<lparr>sent := True,
               x_diag := JObj (if contextId (rq x1) = JUndef then d1 else set_prop d1 (js ''contextId'') (contextId (rq x1)))\<rparr>)"

definition got_permit :: "preparation \<Rightarrow> rat \<Rightarrow> deadline_change option \<Rightarrow> transport_error + nat \<Rightarrow> exchange \<Rightarrow> exchange" where
  "got_permit prepare now during outcome x = (case x_phase x of
     Queued caps \<Rightarrow> (case outcome of
       Inl e \<Rightarrow> fail now (Transport e) x
     | Inr p \<Rightarrow>
         if x_finished x then fail now (throw_failure x) (x\<lparr>permit := Some p, effects := effects x @ [ReleasePermit p]\<rparr>)
         else let diag = JObj (set_prop (spread_object (x_diag x)) (js ''queueMs'') (jint \<lfloor>now - started (x_deadline x)\<rfloor>));
             x1 = x\<lparr>permit := Some p, x_diag := diag, x_phase := Sending caps\<rparr>
           in (case prepare caps (rq x) (x_deadline x) now diag of
               Inl e \<Rightarrow> fail now (Transport e) x1
             | Inr u \<Rightarrow> send now during (x1\<lparr>uploading := Some u\<rparr>)))
   | _ \<Rightarrow> x)"

fun to_read :: "body_read \<Rightarrow> read_result" where
  "to_read (BodyChunk c) = Chunk c"
| "to_read BodyOther = NotBytes"
| "to_read (ReadFails t) = NotBytes"

definition framing_limit :: "jsval \<Rightarrow> string \<Rightarrow> nat" where
  "framing_limit caps n = nat (int_of (get (get caps ''framing'') n))"

definition got_response :: "(byte list \<Rightarrow> jsval option) \<Rightarrow> nat \<Rightarrow> rat \<Rightarrow> thrown + response \<Rightarrow> exchange \<Rightarrow> exchange" where
  "got_response parse limit now outcome x = (case x_phase x of
     Sending caps \<Rightarrow> (case outcome of
       Inl t \<Rightarrow> fail now t x
     | Inr r \<Rightarrow>
         if \<not> ok r then (case readJson parse limit (resp_body r) (x_diag x) (usedProxy (rq x)) of
             Inl t \<Rightarrow> fail now t x
           | Inr v \<Rightarrow> fail now (Transport (transportError v (x_diag x) (usedProxy (rq x)) False)) x)
         else (case resp_body r of
             Some reads \<Rightarrow> if status r \<noteq> 200 \<or> media_type r \<noteq> Some (js CONTENT_TYPE) then fail now (protocol_error (x_diag x) x) x
               else x\<lparr>reader := Some (new_FrameReader (map to_read reads) (framing_limit caps ''maxMetadataBytes'') (framing_limit caps ''maxDataBytes'')),
                   wire := map to_read reads, x_phase := Heading caps\<rparr>
           | None \<Rightarrow> fail now (protocol_error (x_diag x) x) x))
   | _ \<Rightarrow> x)"

text \<open>
  One raced read of a frame: the race is lost to the deadline (\<open>interrupted\<close>), or the reader
  gives a frame, the end, or an error that is none of the SDK's own.
\<close>

definition read_next :: "thrown option \<Rightarrow> exchange \<Rightarrow> (thrown + (nat \<times> byte list) option) \<times> exchange" where
  "read_next interrupted x = (case (interrupted, reader x) of
     (None, Some r) \<Rightarrow> (case FrameReader_next r of
         (Inl e, r') \<Rightarrow> (Inl (Other JUndef), x\<lparr>reader := Some r'\<rparr>)
       | (Inr f, r') \<Rightarrow> (Inr f, x\<lparr>reader := Some r'\<rparr>))
   | (Some t, _) \<Rightarrow> (Inl t, x)
   | (None, None) \<Rightarrow> (Inl (Other JUndef), x))"

text \<open>\<open>next?.type === n\<close> with its payload, and \<open>next?.type === n ? parseJson(next.payload) : undefined\<close>.\<close>

definition frame_payload :: "nat \<Rightarrow> (nat \<times> byte list) option \<Rightarrow> byte list option" where
  "frame_payload n f = (case f of Some (t, p) \<Rightarrow> if t = n then Some p else None | None \<Rightarrow> None)"

definition decode_frame :: "(byte list \<Rightarrow> jsval option) \<Rightarrow> nat \<Rightarrow> (nat \<times> byte list) option \<Rightarrow> jsval option" where
  "decode_frame parse n f = (case frame_payload n f of Some p \<Rightarrow> parse p | None \<Rightarrow> Some JUndef)"

definition head_accepted :: "jsval \<Rightarrow> request \<Rightarrow> jsval \<Rightarrow> bool" where
  "head_accepted caps r v \<longleftrightarrow> responseMetadata v (requestId r) (attempt r) \<and>
     (contextId r = JUndef \<or> get (get v ''diagnostics'') ''contextId'' = contextId r) \<and>
     (connection r = JUndef \<or> get (get v ''diagnostics'') ''tlsProfile'' =
        resolveProfile caps (str_of (get (get (connection r) ''identity'') ''tlsProfile'')))"

definition head :: "rat \<Rightarrow> jsval \<Rightarrow> exchange \<Rightarrow> exchange" where
  "head now v x =
     (let m = copyResponseMetadata v; x1 = x\<lparr>x_metadata := Some m, x_diag := get m ''diagnostics''\<rparr> in
      if x_finished x then fail now (throw_failure x)
        (x1\<lparr>x_stream := (case failure x of Some e \<Rightarrow> StreamErrored e | None \<Rightarrow> Readable)\<rparr>)
      else x1\<lparr>x_stream := Readable, x_phase := Streaming\<rparr>)"

definition got_first :: "(byte list \<Rightarrow> jsval option) \<Rightarrow> rat \<Rightarrow> thrown option \<Rightarrow> exchange \<Rightarrow> exchange" where
  "got_first parse now interrupted x = (case x_phase x of
     Heading caps \<Rightarrow> (case read_next interrupted x of
       (Inl t, x1) \<Rightarrow> fail now t x1
     | (Inr f, x1) \<Rightarrow>
         (case frame_payload 4 f of
           Some p \<Rightarrow> (case parse p of
             None \<Rightarrow> fail now (Other JUndef) x1
           | Some v \<Rightarrow> x1\<lparr>x_phase := HeadError (transportError v (x_diag x1) (usedProxy (rq x1)) True)\<rparr>)
         | None \<Rightarrow> (case decode_frame parse 1 f of
             None \<Rightarrow> fail now (Other JUndef) x1
           | Some v \<Rightarrow> if head_accepted caps (rq x1) v then head now v x1 else fail now (protocol_error (x_diag x1) x1) x1)))
   | _ \<Rightarrow> x)"

definition head_error_ends :: "rat \<Rightarrow> thrown option \<Rightarrow> exchange \<Rightarrow> exchange" where
  "head_error_ends now interrupted x = (case x_phase x of
     HeadError e \<Rightarrow> (case read_next interrupted x of
       (Inl t, x1) \<Rightarrow> fail now t x1
     | (Inr None, x1) \<Rightarrow> fail now (Transport e) x1
     | (Inr (Some _), x1) \<Rightarrow> fail now (protocol_error (x_diag x1) x1) x1)
   | _ \<Rightarrow> x)"

subsection \<open>The body\<close>

definition bodyless :: "exchange \<Rightarrow> bool" where
  "bodyless x \<longleftrightarrow> meth (rq x) = js ''HEAD'' \<or>
     (case x_metadata x of None \<Rightarrow> False | Some m \<Rightarrow> get m ''status'' \<in> {jint 204, jint 205, jint 304})"

text \<open>The \<open>catch\<close> of a pull.\<close>

definition pull_fails :: "rat \<Rightarrow> thrown \<Rightarrow> exchange \<Rightarrow> exchange" where
  "pull_fails now t x = (finish_exchange (Some (normalize now t x)) x)\<lparr>pulling := Idle\<rparr>"

definition pull_starts :: "exchange \<Rightarrow> exchange" where
  "pull_starts x = (if x_phase x = Streaming \<and> x_stream x = Readable \<and> pulling x = Idle \<and> \<not> x_finished x
     then x\<lparr>pulling := AwaitFrame\<rparr> else x)"

text \<open>A data frame; \<open>enqueue\<close> on a stream that is closed or errored throws a \<open>TypeError\<close>.\<close>

definition pull_data :: "rat \<Rightarrow> byte list \<Rightarrow> exchange \<Rightarrow> exchange" where
  "pull_data now p x =
     (if bodyless x \<or> p = [] then pull_fails now (protocol_error (updateLocal now x) x) x
      else if maximum (rq x) < responseBytes x + length p
        then pull_fails now (Transport (new_TransportError BODY_TOO_LARGE (updateLocal now x) (usedProxy (rq x)) None None)) x
      else let n = responseBytes x + length p;
          x1 = x\<lparr>responseBytes := n, x_diag := JObj (set_prop (set_prop (spread_object (x_diag x)) (js ''phase'') (jstr ''body''))
            (js ''responseBytes'') (jint (int n)))\<rparr>
        in if x_stream x1 = Readable then x1\<lparr>delivered := delivered x1 @ [p], pulling := Idle\<rparr>
           else pull_fails now (Other JUndef) x1)"

definition completes :: "exchange \<Rightarrow> jsval \<Rightarrow> bool" where
  "completes x v \<longleftrightarrow> diagnostics v (Some (requestId (rq x))) (Some (attempt (rq x))) \<and> get v ''phase'' = jstr ''complete'' \<and>
     get v ''delivery'' = jstr ''response_started'' \<and> get v ''responseBytes'' = jint (int (responseBytes x)) \<and>
     (contextId (rq x) = JUndef \<or> get v ''contextId'' = contextId (rq x)) \<and>
     (case x_metadata x of None \<Rightarrow> True | Some m \<Rightarrow>
        get m ''cookieRevision'' = JUndef \<or> get v ''cookieRevision'' = get m ''cookieRevision'')"

definition pull_frame :: "(byte list \<Rightarrow> jsval option) \<Rightarrow> rat \<Rightarrow> thrown option \<Rightarrow> exchange \<Rightarrow> exchange" where
  "pull_frame parse now interrupted x =
     (if pulling x \<noteq> AwaitFrame then x
      else (case read_next interrupted x of
        (Inl t, x1) \<Rightarrow> pull_fails now t x1
      | (Inr f, x1) \<Rightarrow>
          (case frame_payload 2 f of Some p \<Rightarrow> pull_data now p x1
          | None \<Rightarrow> (case frame_payload 4 f of Some p \<Rightarrow> (case parse p of
              None \<Rightarrow> pull_fails now (Other JUndef) x1
            | Some v \<Rightarrow> let e = transportError v (updateLocal now x1) (usedProxy (rq x1)) True in
                if te_delivery e \<noteq> jstr ''response_started'' then pull_fails now (protocol_error (updateLocal now x1) x1) x1
                else x1\<lparr>pulling := AwaitEndOfError e\<rparr>)
          | None \<Rightarrow> (case decode_frame parse 3 f of
              None \<Rightarrow> pull_fails now (Other JUndef) x1
            | Some v \<Rightarrow> if completes x1 v then x1\<lparr>pulling := AwaitEnd v\<rparr>
                else pull_fails now (protocol_error (updateLocal now x1) x1) x1)))))"

text \<open>\<open>current.close()\<close> after \<open>finish()\<close> closes a readable stream and throws on any other, to no effect.\<close>

definition complete :: "jsval \<Rightarrow> exchange \<Rightarrow> exchange" where
  "complete v x =
     (let x1 = finish_exchange None (x\<lparr>x_diag := copyDiagnostics v\<rparr>) in
      x1\<lparr>pulling := Idle, x_stream := (if x_stream x1 = Readable then StreamClosed else x_stream x1)\<rparr>)"

definition pull_ends :: "rat \<Rightarrow> thrown option \<Rightarrow> exchange \<Rightarrow> exchange" where
  "pull_ends now interrupted x =
     (if pulling x = Idle \<or> pulling x = AwaitFrame then x
      else (case read_next interrupted x of
        (Inl t, x1) \<Rightarrow> pull_fails now t x1
      | (Inr (Some _), x1) \<Rightarrow> pull_fails now (protocol_error (updateLocal now x1) x1) x1
      | (Inr None, x1) \<Rightarrow> (case pulling x1 of
            AwaitEndOfError e \<Rightarrow> pull_fails now (Transport e) x1
          | AwaitEnd v \<Rightarrow> complete v x1
          | _ \<Rightarrow> x1)))"

inductive x_step :: "preparation \<Rightarrow> (byte list \<Rightarrow> jsval option) \<Rightarrow> nat \<Rightarrow> exchange \<Rightarrow> exchange \<Rightarrow> bool"
    for prepare parse limit where
  refused: "x_step prepare parse limit x (x_refused now e x)"
| opened: "x_step prepare parse limit x (x_open now during obs slot x)"
| discovered: "x_step prepare parse limit x (got_capabilities now caps x)"
| admitted: "x_step prepare parse limit x (got_permit prepare now during granted x)"
| answered: "x_step prepare parse limit x (got_response parse limit now reply x)"
| headed: "x_step prepare parse limit x (got_first parse now interrupted x)"
| head_failed: "x_step prepare parse limit x (head_error_ends now interrupted x)"
| pulled: "x_step prepare parse limit x (pull_starts x)"
| framed: "x_step prepare parse limit x (pull_frame parse now interrupted x)"
| ended: "x_step prepare parse limit x (pull_ends now interrupted x)"
| expired: "x_step prepare parse limit x (deadline_changes now c x)"
| closed_by_caller: "x_step prepare parse limit x (exchange_close now x)"
| cancelled_by_consumer: "x_step prepare parse limit x (consumer_cancels now x)"
| failed_by_buffer: "x_step prepare parse limit x (fail_stream now e x)"
| uploaded: "x_step prepare parse limit x (upload_steps now x)"

inductive x_reachable :: "preparation \<Rightarrow> (byte list \<Rightarrow> jsval option) \<Rightarrow> nat \<Rightarrow> exchange \<Rightarrow> bool"
    for prepare parse limit where
  x_init: "x_reachable prepare parse limit (new_exchange r d diag)"
| x_next: "x_reachable prepare parse limit x \<Longrightarrow> x_step prepare parse limit x x' \<Longrightarrow> x_reachable prepare parse limit x'"

end
