(* ===== verification/Exchange_Correct.thy ===== *)
theory Exchange_Correct
  imports Exchange
begin

text \<open>
  What holds of every reachable state of an exchange: the invariant, one lemma per step, a sample
  run, and the properties.
\<close>

subsection \<open>Frames and bytes\<close>

lemma setUint32_getUint32:
  assumes "length bs = 4" shows "setUint32 (getUint32 bs) = bs"
proof -
  obtain a b c d where bs: "bs = [a, b, c, d]"
    using assms by (auto simp: numeral_eq_Suc length_Suc_conv)
  define n where "n = 256 * (256 * (256 * unat a + unat b) + unat c) + unat d"
  have bound: "unat x < 256" for x :: byte using unsigned_less [of x] by simp
  have digit: "(256 * q + unat x) div 256 = q" "(256 * q + unat x) mod 256 = unat x" for q and x :: byte
    using bound [of x] by simp_all
  have "n div 256 ^ 2 = n div 256 div 256" "n div 256 ^ 3 = n div 256 div 256 div 256"
    by (simp_all add: div_mult2_eq [symmetric])
  then have "n div 256 ^ 3 mod 256 = unat a" "n div 256 ^ 2 mod 256 = unat b" "n div 256 ^ 1 mod 256 = unat c" "n div 256 ^ 0 mod 256 = unat d"
    using bound [of a] by (simp_all only: n_def digit power_one_right power_0 div_by_1) simp
  moreover have "getUint32 bs = n" by (simp add: bs getUint32_def n_def)
  ultimately show ?thesis by (simp add: setUint32_def bs)
qed

lemma getUint32_less: "length bs = 4 \<Longrightarrow> getUint32 bs < 2 ^ 32"
  by (metis getUint32_setUint32 setUint32_getUint32 mod_less_divisor zero_less_numeral zero_less_power)

lemma parse_frame_bytes:
  assumes "parse_frame ml dl bs = Inr (Some (t, p, rest))" shows "bs = frame t p @ rest"
proof -
  let ?h = "take 4 (drop 1 bs)"
  have bs: "5 \<le> length bs" "t = unat (bs ! 0)" "p = take (getUint32 ?h) (drop 5 bs)" "rest = drop (5 + getUint32 ?h) bs"
      "5 + getUint32 ?h \<le> length bs"
    using assms by (auto simp: parse_frame_def Let_def split: if_splits)
  then have h: "length ?h = 4" and len: "length p = getUint32 ?h" by auto
  have "frame t p = bs ! 0 # ?h @ p"
    using getUint32_less [OF h] setUint32_getUint32 [OF h] by (simp add: frame_def bs(2) len)
  moreover have "bs = bs ! 0 # ?h @ p @ rest"
  proof -
    obtain x xs where cons: "bs = x # xs" using bs(1) by (cases bs) auto
    have "take 4 xs @ drop 4 xs = xs" "take n (drop 4 xs) @ drop (4 + n) xs = drop 4 xs" for n
      by (simp_all add: add.commute [of 4] drop_drop [symmetric] del: drop_drop)
    moreover have "drop (5 + n) (x # xs) = drop (4 + n) xs" for n
    proof -
      have "5 + n = Suc (4 + n)" by simp
      then show ?thesis by (simp only: drop_Suc_Cons)
    qed
    ultimately show ?thesis using cons unfolding bs(3,4) by simp
  qed
  ultimately show ?thesis by simp
qed

lemma next_frame:
  assumes "reader_ok r" and "FrameReader_next r = (Inr (Some (t, p)), r')"
  shows "reader_ok r' \<and> unread r = frame t p @ unread r'"
  using FrameReader_next_cases [OF assms(1)] assms(2)
  by (auto split: sum.splits option.splits dest!: parse_frame_bytes)

lemma next_end:
  assumes "reader_ok r" and "FrameReader_next r = (Inr None, r')" shows "unread r = []"
  using FrameReader_next_cases [OF assms(1)] assms(2)
  by (auto simp: parse_frame_def Let_def split: sum.splits option.splits if_splits)

subsection \<open>The invariant\<close>

text \<open>The closures called so far; constraining the admission is no such call.\<close>

fun is_release :: "effect \<Rightarrow> bool" where
  "is_release (Constrain l) = False"
| "is_release e = True"

definition releases :: "exchange \<Rightarrow> effect list" where
  "releases x = filter is_release (effects x)"

definition wire_bytes :: "exchange \<Rightarrow> byte list" where
  "wire_bytes x = concat (map chunk_bytes (wire x))"

definition body_frames :: "exchange \<Rightarrow> byte list" where
  "body_frames x = concat (map (frame 2) (delivered x))"

text \<open>The reader has consumed exactly \<open>pre\<close> of a body that yields bytes.\<close>

definition consumed :: "exchange \<Rightarrow> byte list \<Rightarrow> bool" where
  "consumed x pre \<longleftrightarrow> NotBytes \<notin> set (wire x) \<longrightarrow> (\<exists>r. reader x = Some r \<and> reader_ok r \<and> wire_bytes x = pre @ unread r)"

definition idle :: "exchange \<Rightarrow> bool" where
  "idle x \<longleftrightarrow> pulling x = Idle \<and> delivered x = [] \<and> responseBytes x = 0 \<and> x_stream x = NoStream"

definition head_of :: "(byte list \<Rightarrow> jsval option) \<Rightarrow> exchange \<Rightarrow> byte list \<Rightarrow> bool" where
  "head_of parse x m \<longleftrightarrow> (\<exists>v. parse m = Some v \<and> x_metadata x = Some (copyResponseMetadata v) \<and>
     responseMetadata v (requestId (rq x)) (attempt (rq x)))"

definition streaming :: "(byte list \<Rightarrow> jsval option) \<Rightarrow> exchange \<Rightarrow> bool" where
  "streaming parse x \<longleftrightarrow> x_stream x = Readable \<and> responseBytes x = length (concat (delivered x)) \<and> responseBytes x \<le> maximum (rq x) \<and>
     (\<exists>m. head_of parse x m \<and> (case pulling x of
        AwaitEndOfError e \<Rightarrow> True
      | AwaitEnd v \<Rightarrow> completes x v \<and> (\<exists>c. parse c = Some v \<and> consumed x (frame 1 m @ body_frames x @ frame 3 c))
      | _ \<Rightarrow> consumed x (frame 1 m @ body_frames x)))"

definition live_shape :: "(byte list \<Rightarrow> jsval option) \<Rightarrow> exchange \<Rightarrow> bool" where
  "live_shape parse x = (case x_phase x of
     Opening \<Rightarrow> idle x \<and> observed_by x = None \<and> permit x = None
   | Discovering \<Rightarrow> idle x \<and> permit x = None
   | Queued _ \<Rightarrow> idle x \<and> permit x = None
   | Sending _ \<Rightarrow> idle x
   | Heading _ \<Rightarrow> idle x \<and> consumed x []
   | HeadError _ \<Rightarrow> idle x
   | Streaming \<Rightarrow> streaming parse x
   | Thrown _ \<Rightarrow> False)"

definition live_inv :: "(byte list \<Rightarrow> jsval option) \<Rightarrow> exchange \<Rightarrow> bool" where
  "live_inv parse x \<longleftrightarrow> terminal x = [] \<and> releases x = [] \<and> failure x = None \<and> live_shape parse x"

text \<open>What a successful end means.\<close>

definition completed :: "(byte list \<Rightarrow> jsval option) \<Rightarrow> exchange \<Rightarrow> jsval \<Rightarrow> bool" where
  "completed parse x d \<longleftrightarrow> (\<exists>m c v. head_of parse x m \<and> parse c = Some v \<and> d = copyDiagnostics v \<and>
     diagnostics v (Some (requestId (rq x))) (Some (attempt (rq x))) \<and> get v ''phase'' = jstr ''complete'' \<and>
     get v ''responseBytes'' = jint (int (length (concat (delivered x)))) \<and>
     (NotBytes \<notin> set (wire x) \<longrightarrow> wire_bytes x = frame 1 m @ body_frames x @ frame 3 c))"

fun before_permit :: "phase \<Rightarrow> bool" where
  "before_permit Opening = True"
| "before_permit Discovering = True"
| "before_permit (Queued c) = True"
| "before_permit _ = False"

definition done_inv :: "(byte list \<Rightarrow> jsval option) \<Rightarrow> exchange \<Rightarrow> bool" where
  "done_inv parse x \<longleftrightarrow> mset (releases x) = mset (held x) \<and> x_stream x \<noteq> Readable \<and>
     length (concat (delivered x)) \<le> responseBytes x \<and> responseBytes x \<le> maximum (rq x) \<and>
     (x_phase x = Opening \<longrightarrow> observed_by x = None) \<and>
     (before_permit (x_phase x) \<longrightarrow> permit x = None) \<and>
     ((\<exists>e. terminal x = [Inl e] \<and> failure x = Some e) \<or>
      (\<exists>d. terminal x = [Inr d] \<and> failure x = None \<and> x_phase x = Streaming \<and> completed parse x d))"

definition x_inv :: "(byte list \<Rightarrow> jsval option) \<Rightarrow> exchange \<Rightarrow> bool" where
  "x_inv parse x \<longleftrightarrow> (if x_finished x then done_inv parse x else live_inv parse x)"

lemma new_exchange_inv: "x_inv parse (new_exchange r d diag)"
  by (simp add: x_inv_def live_inv_def live_shape_def idle_def releases_def new_exchange_def)

lemma held_release: "e \<in> set (held x) \<Longrightarrow> is_release e"
  by (auto simp: held_def split: option.splits)

lemma filter_held [simp]: "filter is_release (held x) = held x"
  by (rule filter_True) (simp add: held_release)

lemma finish_done [simp]: "x_finished x \<Longrightarrow> finish_exchange e x = x"
  by (simp add: finish_exchange_def)

lemma finish_finished [simp]: "x_finished (finish_exchange e x)"
  by (simp add: finish_exchange_def Let_def)

lemma finish_fields [simp]:
  "x_phase (finish_exchange e x) = x_phase x" "permit (finish_exchange e x) = permit x" "reservation (finish_exchange e x) = reservation x"
  "delivered (finish_exchange e x) = delivered x" "responseBytes (finish_exchange e x) = responseBytes x" "rq (finish_exchange e x) = rq x"
  "x_metadata (finish_exchange e x) = x_metadata x" "wire (finish_exchange e x) = wire x" "pulling (finish_exchange e x) = pulling x"
  by (simp_all add: finish_exchange_def Let_def split: option.split)

lemma finish_observed: "observed_by (finish_exchange e x) = None \<longleftrightarrow> observed_by x = None"
  by (simp add: finish_exchange_def Let_def split: option.split)

lemma finish_held [simp]: "held (finish_exchange e x) = held x"
  using finish_observed [of e x] unfolding held_def finish_fields by (cases "observed_by x") (auto split: option.splits)

lemma live_bytes: "live_shape parse x \<Longrightarrow> responseBytes x = length (concat (delivered x)) \<and> responseBytes x \<le> maximum (rq x)"
  by (auto simp: live_shape_def idle_def streaming_def split: phase.splits)

lemma live_stream: "live_shape parse x \<Longrightarrow> x_stream x = (if x_phase x = Streaming then Readable else NoStream)"
  by (auto simp: live_shape_def idle_def streaming_def split: phase.splits)

text \<open>Finishing with an error ends a live exchange in a well-formed way.\<close>

lemma finish_error_inv:
  assumes "x_inv parse x" shows "x_inv parse (finish_exchange (Some e) x)"
proof (cases "x_finished x")
  case False
  with assms have x: "terminal x = []" "releases x = []" "failure x = None" "live_shape parse x"
    by (simp_all add: x_inv_def live_inv_def)
  let ?x = "finish_exchange (Some e) x"
  have "releases ?x = held x" using False x(2) by (simp add: finish_exchange_def Let_def releases_def)
  moreover have "\<exists>e. terminal ?x = [Inl e] \<and> failure ?x = Some e" using False x(1) by (simp add: finish_exchange_def Let_def)
  moreover have "x_stream ?x \<noteq> Readable" using False by (simp add: finish_exchange_def Let_def)
  moreover have "(x_phase x = Opening \<longrightarrow> observed_by x = None) \<and>
      (before_permit (x_phase x) \<longrightarrow> permit x = None)"
    using x(4) by (auto simp: live_shape_def split: phase.splits)
  ultimately show ?thesis
    using live_bytes [OF x(4)] by (simp add: x_inv_def done_inv_def finish_observed)
qed (use assms in simp)

lemmas x_inv_defs = x_inv_def done_inv_def live_inv_def live_shape_def idle_def streaming_def completed_def consumed_def
  head_of_def completes_def releases_def held_def wire_bytes_def body_frames_def

text \<open>Fields the invariant does not look at.\<close>

lemma x_inv_neutral [simp]:
  "x_inv parse (x\<lparr>x_deadline := d\<rparr>) = x_inv parse x" "x_inv parse (x\<lparr>x_diag := j\<rparr>) = x_inv parse x"
  "x_inv parse (x\<lparr>uploading := u\<rparr>) = x_inv parse x" "x_inv parse (x\<lparr>sent := b\<rparr>) = x_inv parse x"
  by (simp_all add: x_inv_defs cong: phase.case_cong pull_state.case_cong option.case_cong)

lemma fail_inv:
  assumes "x_inv parse x" and "x_phase x \<noteq> Streaming" shows "x_inv parse (fail now t x)"
proof -
  obtain e where "fail now t x = (finish_exchange (Some e) x)\<lparr>x_phase := Thrown e\<rparr>" by (simp add: fail_def Let_def)
  moreover have "done_inv parse (finish_exchange (Some e) x)"
    using finish_error_inv [OF assms(1), of e] by (simp add: x_inv_def)
  ultimately show ?thesis using assms(2) by (auto simp: x_inv_def done_inv_def held_def releases_def)
qed

lemma finish_phase: "finish_exchange e (x\<lparr>x_phase := ph\<rparr>) = (finish_exchange e x)\<lparr>x_phase := ph\<rparr>"
  by (cases e) (simp_all add: finish_exchange_def Let_def held_def x_references_def)

lemma normalize_phase: "normalize now t (x\<lparr>x_phase := ph\<rparr>) = normalize now t x"
  by (cases "failure x"; cases t) (simp_all add: normalize_def updateLocal_def)

lemma fail_phase: "fail now t (x\<lparr>x_phase := ph\<rparr>) = fail now t x"
  by (simp add: fail_def Let_def normalize_phase finish_phase x_references_def)

lemma fail_phase_inv: "x_inv parse (x\<lparr>x_phase := ph\<rparr>) \<Longrightarrow> ph \<noteq> Streaming \<Longrightarrow> x_inv parse (fail now t x)"
  using fail_inv [of parse "x\<lparr>x_phase := ph\<rparr>" now t] by (simp add: fail_phase)

lemma deadline_changes_inv: "x_inv parse x \<Longrightarrow> x_inv parse (deadline_changes now c x)"
  by (simp add: deadline_changes_def Let_def finish_error_inv)

lemma during_hooks_inv: "x_inv parse x \<Longrightarrow> x_inv parse (during_hooks now during x)"
  by (simp add: during_hooks_def deadline_changes_inv split: option.split)

lemma during_hooks_fields [simp]:
  "x_phase (during_hooks now during x) = x_phase x" "permit (during_hooks now during x) = permit x"
  "rq (during_hooks now during x) = rq x"
  by (simp_all add: during_hooks_def deadline_changes_def Let_def split: option.split)

lemma consumer_cancels_inv: assumes "x_inv parse x" shows "x_inv parse (consumer_cancels now x)"
proof (cases "x_stream x = Readable")
  case True
  let ?x = "finish_exchange (Some (cancelled now x)) x"
  have live: "\<not> x_finished x" using assms True by (auto simp: x_inv_def done_inv_def)
  then have "finish_exchange (Some (cancelled now x)) (x\<lparr>x_stream := StreamClosed\<rparr>) = ?x\<lparr>x_stream := StreamClosed\<rparr>"
    by (simp add: finish_exchange_def Let_def held_def x_references_def)
  moreover have "done_inv parse ?x" using finish_error_inv [OF assms] by (simp add: x_inv_def)
  then have "done_inv parse (?x\<lparr>x_stream := StreamClosed\<rparr>)"
    by (simp add: done_inv_def held_def releases_def completed_def head_of_def wire_bytes_def body_frames_def)
  ultimately show ?thesis using True by (simp add: consumer_cancels_def x_inv_def)
qed (use assms in \<open>simp add: consumer_cancels_def\<close>)

lemma upload_steps_inv: "x_inv parse x \<Longrightarrow> x_inv parse (upload_steps now x)"
  by (auto simp: upload_steps_def finish_error_inv split: option.split prod.split pull_result.split)

text \<open>The way to a response.\<close>

lemma x_open_inv: assumes "x_inv parse x" shows "x_inv parse (x_open now during obs slot x)"
proof (cases "x_phase x = Opening")
  case True
  let ?y = "during_hooks now during x" and ?z = "(during_hooks now during x)\<lparr>observed_by := Some obs\<rparr>"
  have y: "x_inv parse ?y" using during_hooks_inv [OF assms] .
  show ?thesis
  proof (cases "x_finished ?y")
    case fin: True
    let ?w = "?y\<lparr>observed_by := Some (snd (observation_finish () obs)), effects := effects ?y @ [ObserverFinish]\<rparr>"
    have "x_inv parse (?w\<lparr>x_phase := Discovering\<rparr>)"
      using y fin True
      by (auto simp: x_inv_def done_inv_def held_def releases_def completed_def head_of_def wire_bytes_def body_frames_def)
    then have "x_inv parse (fail now t ?w)" for t by (rule fail_phase_inv) simp
    then show ?thesis using fin True by (simp add: x_open_def Let_def)
  next
    case live: False
    have z: "x_inv parse (?z\<lparr>reservation := r, x_phase := Discovering\<rparr>)" for r
      using y live True by (auto simp: x_inv_def live_inv_def live_shape_def idle_def releases_def)
    from z [of "reservation ?z"] have "x_inv parse (?z\<lparr>x_phase := Discovering\<rparr>)" by simp
    then have "x_inv parse (fail now t ?z)" for t by (rule fail_phase_inv) simp
    with z live True show ?thesis by (auto simp: x_open_def Let_def split: sum.split)
  qed
qed (use assms in \<open>simp add: x_open_def\<close>)

lemma got_capabilities_inv: assumes "x_inv parse x" shows "x_inv parse (got_capabilities now outcome x)"
proof (cases "x_phase x = Discovering")
  case True
  have "x_inv parse (x\<lparr>effects := effects x @ [Constrain l], x_phase := Queued caps\<rparr>)" for l caps
    using assms True
    by (cases "x_finished x")
      (auto simp: x_inv_def done_inv_def live_inv_def live_shape_def idle_def held_def releases_def)
  with True fail_inv [OF assms] show ?thesis by (auto simp: got_capabilities_def split: sum.split)
qed (use assms in \<open>auto simp: got_capabilities_def split: phase.split\<close>)

lemma send_inv: assumes "x_inv parse x" and "x_phase x = Sending c" shows "x_inv parse (send now during x)"
proof -
  have y: "x_inv parse (during_hooks now during x)" using during_hooks_inv [OF assms(1)] .
  show ?thesis using fail_inv [OF assms(1)] fail_inv [OF y] y assms(2) by (simp add: send_def Let_def)
qed

lemma got_permit_inv: assumes "x_inv parse x" shows "x_inv parse (got_permit prepare now during outcome x)"
proof (cases "\<exists>caps. x_phase x = Queued caps")
  case True
  then obtain caps where q: "x_phase x = Queued caps" by blast
  show ?thesis
  proof (cases "x_finished x")
    case fin: True
    have "x_inv parse ((x\<lparr>permit := Some p, effects := effects x @ [ReleasePermit p]\<rparr>)\<lparr>x_phase := Sending caps\<rparr>)" for p
      using assms fin q by (auto simp: x_inv_def done_inv_def held_def releases_def)
    from fail_phase_inv [OF this] show ?thesis using fail_inv [OF assms] q fin by (simp add: got_permit_def split: sum.split)
  next
    case live: False
    have x1: "x_inv parse (x\<lparr>permit := Some p, x_diag := diag, x_phase := Sending caps\<rparr>)" for p diag
      using assms live q by (auto simp: x_inv_def live_inv_def live_shape_def idle_def releases_def)
    then have "x_inv parse (x\<lparr>permit := Some p, x_diag := diag, x_phase := Sending caps, uploading := u\<rparr>)" for p diag u by simp
    from send_inv [OF this, of _ _ _ caps] fail_inv [OF x1] fail_inv [OF assms] q live show ?thesis
      by (auto simp: got_permit_def Let_def split: sum.split)
  qed
qed (use assms in \<open>auto simp: got_permit_def split: phase.split\<close>)

lemma read_chunk_reader:
  "NotBytes \<notin> set rs \<Longrightarrow> reader_ok (new_FrameReader rs ml dl)" "unread (new_FrameReader rs ml dl) = concat (map chunk_bytes rs)"
  by (simp_all add: reader_ok_def unread_def new_FrameReader_def)

lemma got_response_inv: assumes "x_inv parse x" shows "x_inv parse (got_response parse limit now outcome x)"
proof (cases "\<exists>caps. x_phase x = Sending caps")
  case True
  then obtain caps where q: "x_phase x = Sending caps" by blast
  have "x_inv parse (x\<lparr>reader := Some (new_FrameReader rs ml dl), wire := rs, x_phase := Heading caps\<rparr>)" for rs ml dl
    using assms q read_chunk_reader [of rs ml dl]
    by (cases "x_finished x")
      (auto simp: x_inv_def done_inv_def live_inv_def live_shape_def idle_def held_def releases_def consumed_def wire_bytes_def)
  with fail_inv [OF assms] q show ?thesis by (auto simp: got_response_def split: sum.split option.split)
qed (use assms in \<open>auto simp: got_response_def split: phase.split\<close>)

text \<open>One read: what the exchange keeps, and what has been consumed.\<close>

lemma read_next_fields:
  assumes "read_next interrupted x = (res, x1)"
  shows "\<exists>r. x1 = x\<lparr>reader := r\<rparr>"
  using assms by (auto simp: read_next_def split: option.splits prod.splits sum.splits intro: exI [of _ "reader x"])

lemma x_inv_reader: "x_finished x \<Longrightarrow> x_inv parse (x\<lparr>reader := r\<rparr>) = x_inv parse x"
  by (simp add: x_inv_defs cong: phase.case_cong option.case_cong)

lemma read_next_frame:
  assumes "read_next interrupted x = (Inr (Some (t, p)), x1)" and "consumed x pre"
  shows "consumed x1 (pre @ frame t p)"
proof -
  obtain r r' where "reader x = Some r" "FrameReader_next r = (Inr (Some (t, p)), r')" "x1 = x\<lparr>reader := Some r'\<rparr>"
    using assms(1) by (auto simp: read_next_def split: option.splits prod.splits sum.splits)
  with assms(2) next_frame [of r t p r'] show ?thesis by (auto simp: consumed_def wire_bytes_def)
qed

lemma read_next_end:
  assumes "read_next interrupted x = (Inr None, x1)" and "consumed x pre" and "NotBytes \<notin> set (wire x)"
  shows "wire_bytes x = pre"
proof -
  obtain r r' where "reader x = Some r" "FrameReader_next r = (Inr None, r')"
    using assms(1) by (auto simp: read_next_def split: option.splits prod.splits sum.splits)
  with assms(2,3) next_end [of r r'] show ?thesis by (auto simp: consumed_def)
qed

text \<open>While the head is read, an exchange whose reader has moved can fail or wait for the end.\<close>

fun reads_head :: "phase \<Rightarrow> bool" where
  "reads_head (Heading c) = True"
| "reads_head (HeadError e) = True"
| "reads_head _ = False"

lemma moved_inv:
  assumes "x_inv parse x" and "reads_head (x_phase x)" and "read_next interrupted x = (res, x1)"
  shows "x_inv parse (x1\<lparr>x_phase := HeadError e\<rparr>)" "x_inv parse (fail now t x1)"
proof -
  obtain r where x1: "x1 = x\<lparr>reader := r\<rparr>" using read_next_fields [OF assms(3)] by blast
  show head: "x_inv parse (x1\<lparr>x_phase := HeadError e\<rparr>)" for e
    using assms(1,2) x1
    by (cases "x_phase x"; cases "x_finished x")
      (auto simp: x_inv_def done_inv_def live_inv_def live_shape_def idle_def held_def releases_def)
  show "x_inv parse (fail now t x1)" by (rule fail_phase_inv [OF head]) simp
qed

lemma head_error_ends_inv: assumes "x_inv parse x" shows "x_inv parse (head_error_ends now interrupted x)"
proof (cases "\<exists>e. x_phase x = HeadError e")
  case True
  then have "reads_head (x_phase x)" by auto
  from moved_inv(2) [OF assms this] True show ?thesis
    by (auto simp: head_error_ends_def split: prod.split sum.split option.split)
qed (use assms in \<open>auto simp: head_error_ends_def split: phase.split\<close>)

lemma head_inv:
  assumes "x_inv parse x" and "x_phase x = Heading c" and "read_next interrupted x = (Inr f, x1)"
    and "decode_frame parse 1 f = Some v" and "head_accepted caps (rq x1) v"
  shows "x_inv parse (head now v x1)"
proof -
  obtain r where x1: "x1 = x\<lparr>reader := r\<rparr>" using read_next_fields [OF assms(3)] by blast
  have meta: "responseMetadata v (requestId (rq x)) (attempt (rq x))" using assms(5) x1 by (simp add: head_accepted_def)
  then have "v \<noteq> JUndef" by (auto simp: responseMetadata_def record_js_def)
  then obtain m where f: "f = Some (1, m)" and m: "parse m = Some v"
    using assms(4) by (auto simp: decode_frame_def frame_payload_def split: option.splits if_splits)
  show ?thesis
  proof (cases "x_finished x")
    case True
    then obtain e where "failure x = Some e" using assms(1,2) by (auto simp: x_inv_def done_inv_def)
    then have "x_inv parse ((x1\<lparr>x_metadata := Some j, x_diag := k, x_stream := StreamErrored e\<rparr>)\<lparr>x_phase := HeadError e\<rparr>)" for j k
      using assms(1,2) True x1 by (auto simp: x_inv_def done_inv_def held_def releases_def)
    from fail_phase_inv [OF this] \<open>failure x = Some e\<close> True x1 show ?thesis by (simp add: head_def Let_def)
  next
    case False
    then have shape: "idle x" "consumed x []" "terminal x = []" "releases x = []" "failure x = None"
      using assms(1,2) by (simp_all add: x_inv_def live_inv_def live_shape_def)
    from read_next_frame [OF assms(3) [unfolded f] shape(2)] have "consumed x1 (frame 1 m)" by simp
    with False shape m meta x1 show ?thesis
      by (auto simp: head_def Let_def x_inv_def live_inv_def live_shape_def idle_def streaming_def head_of_def consumed_def
          body_frames_def wire_bytes_def releases_def)
  qed
qed

lemma got_first_inv: assumes "x_inv parse x" shows "x_inv parse (got_first parse now interrupted x)"
proof (cases "\<exists>c. x_phase x = Heading c")
  case True
  then obtain c where c: "x_phase x = Heading c" by blast
  then have "reads_head (x_phase x)" by simp
  note moved = moved_inv [OF assms this]
  obtain res x1 where rn: "read_next interrupted x = (res, x1)" by fastforce
  from moved(1) [OF rn] moved(2) [OF rn] head_inv [OF assms c] rn c show ?thesis
    by (auto simp: got_first_def split: sum.split option.split)
qed (use assms in \<open>auto simp: got_first_def split: phase.split\<close>)

text \<open>The body. A pull that fails ends the exchange, wherever its reader stands.\<close>

lemma done_pulling: "done_inv parse (x\<lparr>pulling := q\<rparr>) = done_inv parse x" "done_inv parse (x\<lparr>reader := r\<rparr>) = done_inv parse x"
  by (simp_all add: done_inv_def held_def releases_def completed_def head_of_def wire_bytes_def body_frames_def)

lemma finish_reader:
  "\<not> x_finished x \<Longrightarrow> finish_exchange (Some e) (x\<lparr>reader := r\<rparr>) = (finish_exchange (Some e) x)\<lparr>reader := map_option FrameReader_cancel r\<rparr>"
  by (simp add: finish_exchange_def Let_def held_def x_references_def)

lemma pull_fails_inv:
  assumes "x_inv parse x" and "read_next interrupted x = (res, x1)" shows "x_inv parse (pull_fails now t x1)"
proof -
  obtain r where x1: "x1 = x\<lparr>reader := r\<rparr>" using read_next_fields [OF assms(2)] by blast
  have "done_inv parse (finish_exchange (Some e) x)" for e using finish_error_inv [OF assms(1)] by (simp add: x_inv_def)
  then have "done_inv parse (finish_exchange (Some e) x1)" for e
    using finish_reader [of x e r] x1 by (cases "x_finished x") (simp_all add: done_pulling)
  then show ?thesis by (simp add: pull_fails_def x_inv_def done_pulling)
qed

lemma live_streaming: "x_inv parse x \<Longrightarrow> \<not> x_finished x \<Longrightarrow> pulling x \<noteq> Idle \<Longrightarrow> x_phase x = Streaming \<and> streaming parse x"
  by (auto simp: x_inv_def live_inv_def live_shape_def idle_def split: phase.splits)

lemma pull_starts_inv: assumes "x_inv parse x" shows "x_inv parse (pull_starts x)"
proof (cases "x_phase x = Streaming \<and> x_stream x = Readable \<and> pulling x = Idle \<and> \<not> x_finished x")
  case True
  with assms have "streaming parse x" by (simp add: x_inv_def live_inv_def live_shape_def)
  with True have "streaming parse (x\<lparr>pulling := AwaitFrame\<rparr>)"
    by (simp add: streaming_def head_of_def consumed_def body_frames_def wire_bytes_def)
  with True assms show ?thesis by (simp add: pull_starts_def x_inv_def live_inv_def live_shape_def releases_def)
next
  case False
  then show ?thesis using assms unfolding pull_starts_def by (simp only: if_False)
qed

lemma pull_data_done:
  assumes "done_inv parse x" and "n \<le> maximum (rq x)" and "responseBytes x \<le> n"
  shows "done_inv parse (x\<lparr>responseBytes := n, x_diag := j\<rparr>)"
  using assms by (simp add: done_inv_def held_def releases_def completed_def head_of_def wire_bytes_def body_frames_def)

lemma pull_data_inv:
  assumes "x_inv parse x" and "pulling x = AwaitFrame" and "read_next interrupted x = (Inr (Some (2, p)), x1)"
  shows "x_inv parse (pull_data now p x1)"
proof -
  obtain r where x1: "x1 = x\<lparr>reader := r\<rparr>" using read_next_fields [OF assms(3)] by blast
  let ?n = "responseBytes x + length p"
  show ?thesis
  proof (cases "bodyless x1 \<or> p = [] \<or> maximum (rq x1) < ?n")
    case True
    with x1 pull_fails_inv [OF assms(1,3)] show ?thesis by (auto simp: pull_data_def)
  next
    case fits: False
    show ?thesis
    proof (cases "x_finished x")
      case True
      then have "done_inv parse x" "x_stream x \<noteq> Readable" using assms(1) by (simp_all add: x_inv_def done_inv_def)
      then have "done_inv parse (x1\<lparr>responseBytes := ?n, x_diag := j\<rparr>)" for j
        using fits x1 pull_data_done [of parse x1 ?n j] by (simp add: done_pulling)
      with True fits x1 \<open>x_stream x \<noteq> Readable\<close> show ?thesis
        by (simp add: pull_data_def Let_def pull_fails_def x_inv_def done_pulling)
    next
      case live: False
      with live_streaming [OF assms(1)] assms(2) have x: "x_phase x = Streaming" "streaming parse x" by simp_all
      then obtain m where m: "head_of parse x m" "consumed x (frame 1 m @ body_frames x)"
        using assms(2) by (auto simp: streaming_def)
      from read_next_frame [OF assms(3) m(2)] have "consumed x1 (frame 1 m @ body_frames x @ frame 2 p)" by simp
      with m(1) x live fits x1 assms(1) show ?thesis
        by (auto simp: pull_data_def Let_def x_inv_def live_inv_def live_shape_def streaming_def head_of_def consumed_def body_frames_def
            wire_bytes_def releases_def)
    qed
  qed
qed

lemma await_inv:
  assumes "x_inv parse x" and "pulling x \<noteq> Idle" and "read_next interrupted x = (res, x1)"
    and "\<not> x_finished x \<Longrightarrow> streaming parse (x1\<lparr>pulling := q\<rparr>)"
  shows "x_inv parse (x1\<lparr>pulling := q\<rparr>)"
proof -
  obtain r where x1: "x1 = x\<lparr>reader := r\<rparr>" using read_next_fields [OF assms(3)] by blast
  show ?thesis
  proof (cases "x_finished x")
    case False
    with assms live_streaming [OF assms(1)] x1 show ?thesis by (simp add: x_inv_def live_inv_def live_shape_def releases_def)
  qed (use assms(1) x1 in \<open>simp add: x_inv_def done_pulling\<close>)
qed

lemma await_error_inv:
  assumes "x_inv parse x" and "pulling x \<noteq> Idle" and "read_next interrupted x = (res, x1)"
  shows "x_inv parse (x1\<lparr>pulling := AwaitEndOfError e\<rparr>)"
proof (rule await_inv [OF assms])
  assume "\<not> x_finished x"
  with live_streaming [OF assms(1)] assms(2) have "streaming parse x" by simp
  with read_next_fields [OF assms(3)] show "streaming parse (x1\<lparr>pulling := AwaitEndOfError e\<rparr>)"
    by (auto simp: streaming_def head_of_def) blast
qed

lemma await_end_inv:
  assumes "x_inv parse x" and "pulling x = AwaitFrame" and "read_next interrupted x = (Inr f, x1)"
    and "decode_frame parse 3 f = Some v" and "completes x1 v"
  shows "x_inv parse (x1\<lparr>pulling := AwaitEnd v\<rparr>)"
proof (rule await_inv [OF assms(1) _ assms(3)])
  assume live: "\<not> x_finished x"
  obtain r where x1: "x1 = x\<lparr>reader := r\<rparr>" using read_next_fields [OF assms(3)] by blast
  from assms(5) have "v \<noteq> JUndef" by (auto simp: completes_def diagnostics_def record_js_def)
  then obtain c where f: "f = Some (3, c)" and c: "parse c = Some v"
    using assms(4) by (auto simp: decode_frame_def frame_payload_def split: option.splits if_splits)
  from live live_streaming [OF assms(1)] assms(2) have st: "streaming parse x" by simp
  then obtain m where m: "head_of parse x m" "consumed x (frame 1 m @ body_frames x)"
    using assms(2) by (auto simp: streaming_def)
  from read_next_frame [OF assms(3) [unfolded f] m(2)] have "consumed x1 (frame 1 m @ body_frames x @ frame 3 c)" by simp
  with st m(1) c x1 assms(5) show "streaming parse (x1\<lparr>pulling := AwaitEnd v\<rparr>)"
    by (auto simp: streaming_def head_of_def consumed_def completes_def body_frames_def wire_bytes_def)
qed (use assms(2) in simp)

lemma pull_frame_inv: assumes "x_inv parse x" shows "x_inv parse (pull_frame parse now interrupted x)"
proof (cases "pulling x = AwaitFrame")
  case True
  obtain res x1 where rn: "read_next interrupted x = (res, x1)" by fastforce
  show ?thesis
  proof (cases res)
    case (Inl t)
    with True rn pull_fails_inv [OF assms rn] show ?thesis by (simp add: pull_frame_def)
  next
    case (Inr f)
    have "x_inv parse (pull_data now p x1)" if "frame_payload 2 f = Some p" for p
      using pull_data_inv [OF assms True] rn Inr that by (auto simp: frame_payload_def split: option.splits if_splits)
    moreover have "x_inv parse (x1\<lparr>pulling := AwaitEnd v\<rparr>)" if "decode_frame parse 3 f = Some v" "completes x1 v" for v
      using await_end_inv [OF assms True _ that] rn Inr by blast
    moreover have "x_inv parse (x1\<lparr>pulling := AwaitEndOfError e\<rparr>)" for e using await_error_inv [OF assms _ rn] True by simp
    ultimately show ?thesis
      using True rn Inr pull_fails_inv [OF assms rn] by (auto simp: pull_frame_def Let_def split: option.split)
  qed
qed (use assms in \<open>simp add: pull_frame_def\<close>)

lemma complete_inv:
  assumes "x_inv parse x" and "pulling x = AwaitEnd v" and "read_next interrupted x = (Inr None, x1)"
  shows "x_inv parse (complete v x1)"
proof -
  obtain r where x1: "x1 = x\<lparr>reader := r\<rparr>" using read_next_fields [OF assms(3)] by blast
  show ?thesis
  proof (cases "x_finished x")
    case True
    then have "done_inv parse (x1\<lparr>x_diag := j, pulling := Idle\<rparr>)" for j
      using assms(1) x1 by (simp add: x_inv_def done_inv_def held_def releases_def completed_def head_of_def wire_bytes_def body_frames_def)
    moreover have "x_stream x \<noteq> Readable" using True assms(1) by (simp add: x_inv_def done_inv_def)
    ultimately show ?thesis using True x1 by (simp add: complete_def Let_def x_inv_def)
  next
    case False
    with live_streaming [OF assms(1)] assms(2) have x: "x_phase x = Streaming" "streaming parse x" by simp_all
    then obtain m c where m: "head_of parse x m" "completes x v" "parse c = Some v"
        "consumed x (frame 1 m @ body_frames x @ frame 3 c)"
      using assms(2) by (auto simp: streaming_def)
    have bytes: "responseBytes x = length (concat (delivered x))" "responseBytes x \<le> maximum (rq x)" "x_stream x = Readable"
      using x(2) by (simp_all add: streaming_def)
    have "completed parse (complete v x1) (copyDiagnostics v)"
      unfolding completed_def
    proof (intro exI conjI)
      show "NotBytes \<notin> set (wire (complete v x1)) \<longrightarrow> wire_bytes (complete v x1) = frame 1 m @ body_frames (complete v x1) @ frame 3 c"
        using read_next_end [OF assms(3) m(4)] x1 by (simp add: complete_def Let_def wire_bytes_def body_frames_def)
    qed (use m(1-3) bytes(1) x1 in \<open>auto simp: complete_def Let_def head_of_def completes_def\<close>)
    moreover have "releases x = []" "terminal x = []" using assms(1) False by (simp_all add: x_inv_def live_inv_def)
    ultimately show ?thesis
      using False x(1) bytes x1
      by (simp add: x_inv_def done_inv_def complete_def finish_exchange_def Let_def releases_def held_def split: option.split)
  qed
qed

lemma pull_ends_inv: assumes "x_inv parse x" shows "x_inv parse (pull_ends now interrupted x)"
proof (cases "pulling x = Idle \<or> pulling x = AwaitFrame")
  case False
  obtain res x1 where rn: "read_next interrupted x = (res, x1)" by fastforce
  then obtain r where x1: "x1 = x\<lparr>reader := r\<rparr>" using read_next_fields by blast
  show ?thesis
  proof (cases "res = Inr None")
    case True
    then show ?thesis
      using False rn x1 pull_fails_inv [OF assms rn] complete_inv [OF assms, of _ interrupted x1]
      by (auto simp: pull_ends_def split: pull_state.split)
  next
    case more: False
    then show ?thesis
      using False rn pull_fails_inv [OF assms rn] by (auto simp: pull_ends_def split: sum.split option.split)
  qed
qed (use assms in \<open>simp add: pull_ends_def\<close>)

lemma x_refused_inv: "x_inv parse x \<Longrightarrow> x_inv parse (x_refused now e x)"
  by (simp add: x_refused_def fail_inv)

lemmas x_step_lemmas = x_refused_inv x_open_inv got_capabilities_inv got_permit_inv got_response_inv got_first_inv head_error_ends_inv
  pull_starts_inv pull_frame_inv pull_ends_inv deadline_changes_inv consumer_cancels_inv upload_steps_inv finish_error_inv

lemma x_step_inv: "x_step prepare parse limit x x' \<Longrightarrow> x_inv parse x \<Longrightarrow> x_inv parse x'"
  by (induction rule: x_step.induct) (simp_all add: x_step_lemmas exchange_close_def fail_stream_def)

lemma x_reachable_inv: "x_reachable prepare parse limit x \<Longrightarrow> x_inv parse x"
  by (induction rule: x_reachable.induct) (auto intro: x_step_inv new_exchange_inv)

subsection \<open>A sample exchange\<close>

definition sample_final :: jsval where
  "sample_final = JObj
     [(js ''requestId'', jstr ''r1''), (js ''attempt'', jint 1), (js ''tlsProfile'', jstr ''chrome_137''),
      (js ''phase'', jstr ''complete''), (js ''delivery'', jstr ''response_started''), (js ''queueMs'', jint 0),
      (js ''headersMs'', jint 12), (js ''bodyMs'', jint 3), (js ''totalMs'', jint 15), (js ''requestBytes'', jint 0),
      (js ''responseBytes'', jint 2), (js ''cookieRevision'', jint 3)]"

lemma sample_final_ok: "diagnostics sample_final (Some (js ''r1'')) (Some (Num 1))"
proof -
  have "validateWire Diagnostics (schemaDiagnostics sample_final)"
    by (simp add: sample_final_def schemaDiagnostics_def has_own_JObj validateWire_schema diagnostics_schemas
        narrow_simps valid_simps legacySpanId_def legacyTraceId_def MAX_SAFE_INTEGER_def)
  then show ?thesis using sample_patterns
    by (simp add: diagnostics_def str_test_def strict_eq_def) (simp add: sample_final_def MAX_SAFE_INTEGER_def)
qed

definition sample_parse :: "byte list \<Rightarrow> jsval option" where
  "sample_parse bs = (if bs = [1] then Some sample_response else if bs = [2] then Some sample_final else None)"

definition sample_request :: request where
  "sample_request = \<lparr>requestId = js ''r1'', attempt = Num 1, rq_partition = js ''p'', contextId = JUndef, connection = JUndef,
     own_connection = False, usedProxy = False, target = js ''http://h/'', meth = js ''GET'', rq_headers = [], browserOrder = False,
     rq_body = NoBody, maximum = 10\<rparr>"

definition sample_deadline :: deadline where
  "sample_deadline = \<lparr>timeoutMs = Num 1000, started = 0, timedOut = False, signal = None\<rparr>"

definition sample_prepare :: preparation where
  "sample_prepare caps r d now diag = Inr (uploadFrames [] NoBody 10 10 10)"

definition sample_caps :: jsval where
  "sample_caps = JObj [(js ''framing'', JObj [(js ''maxMetadataBytes'', jint 10), (js ''maxDataBytes'', jint 10)])]"

definition sample_reads :: "byte list list" where
  "sample_reads = [[1, 0, 0, 0, 1, 1], [2, 0, 0, 0, 2, 7, 8], [3, 0, 0, 0, 1, 2]]"

definition sample_queued :: exchange where
  "sample_queued = got_capabilities 1 (Inr sample_caps) (x_open 0 None \<lparr>observations = [], finished = False, references = None\<rparr> (Inr 0)
     (new_exchange sample_request sample_deadline sample_diagnostics))"

definition sample_heading :: exchange where
  "sample_heading = got_response sample_parse 100 3
     (Inr \<lparr>status = 200, content_type = Some (js CONTENT_TYPE), resp_body = Some (map BodyChunk sample_reads)\<rparr>)
     (got_permit sample_prepare 2 None (Inr 7) sample_queued)"

definition sample_streaming :: exchange where
  "sample_streaming = got_first sample_parse 4 None sample_heading"

definition sample_body :: exchange where
  "sample_body = pull_frame sample_parse 5 None (pull_starts sample_streaming)"

definition sample_done :: exchange where
  "sample_done = pull_ends 7 None (pull_frame sample_parse 6 None (pull_starts sample_body))"

lemma sample_done_reachable: "x_reachable sample_prepare sample_parse 100 sample_done"
  unfolding sample_done_def sample_body_def sample_streaming_def sample_heading_def sample_queued_def
  by (intro x_next [OF _ ended] x_next [OF _ framed] x_next [OF _ pulled] x_next [OF _ headed] x_next [OF _ answered]
      x_next [OF _ admitted] x_next [OF _ discovered] x_next [OF _ opened] x_init)

lemma sample_media: "media_type \<lparr>status = 200, content_type = Some (js CONTENT_TYPE), resp_body = b\<rparr> = Some (js CONTENT_TYPE)"
  by (simp add: media_type_def CONTENT_TYPE_def js_def ascii_lower_def trim_def space_unit_def upper_def)

lemma sample_heading_state:
  "rq sample_heading = sample_request" "x_finished sample_heading = False" "failure sample_heading = None" "terminal sample_heading = []"
  "permit sample_heading = Some 7" "delivered sample_heading = []" "responseBytes sample_heading = 0" "pulling sample_heading = Idle"
  "x_phase sample_heading = Heading sample_caps" "wire sample_heading = map Chunk sample_reads"
  "reader sample_heading = Some (new_FrameReader (map Chunk sample_reads) 10 10)"
  by (simp_all add: sample_heading_def sample_queued_def got_response_def got_permit_def got_capabilities_def x_open_def during_hooks_def
      send_def new_exchange_def sample_deadline_def sample_prepare_def sample_request_def sample_media Let_def
      framing_limit_def sample_caps_def int_of_def comp_def)

definition sample_reader :: "nat \<Rightarrow> frame_reader" where
  "sample_reader k = \<lparr>chunk = sample_reads ! k, offset = length (sample_reads ! k), metadataLimit = 10, dataLimit = 10,
     source = map Chunk (drop (Suc k) sample_reads), released = False\<rparr>"

lemma sample_reader_next:
  "FrameReader_next (new_FrameReader (map Chunk sample_reads) 10 10) = (Inr (Some (1, [1])), sample_reader 0)"
  "FrameReader_next (sample_reader 0) = (Inr (Some (2, [7, 8])), sample_reader 1)"
  "FrameReader_next (sample_reader 1) = (Inr (Some (3, [2])), sample_reader 2)"
  "fst (FrameReader_next (sample_reader 2)) = Inr None"
  by code_simp+

lemma sample_head: "head_accepted sample_caps sample_request sample_response"
  using sample_response_ok by (simp add: head_accepted_def sample_request_def)

lemmas sample_steps = read_next_def frame_payload_def decode_frame_def sample_parse_def sample_reader_next Let_def

lemma sample_streaming_state:
  "rq sample_streaming = sample_request" "x_finished sample_streaming = False" "failure sample_streaming = None"
  "terminal sample_streaming = []" "permit sample_streaming = Some 7" "delivered sample_streaming = []"
  "responseBytes sample_streaming = 0" "pulling sample_streaming = Idle" "x_phase sample_streaming = Streaming"
  "x_stream sample_streaming = Readable" "wire sample_streaming = map Chunk sample_reads"
  "reader sample_streaming = Some (sample_reader 0)" "x_metadata sample_streaming = Some (copyResponseMetadata sample_response)"
  using sample_head by (simp_all add: sample_streaming_def got_first_def sample_heading_state sample_steps head_def)

lemma sample_metadata_reads:
  "get (copyResponseMetadata sample_response) ''status'' = jint 200"
  "get (copyResponseMetadata sample_response) ''cookieRevision'' = jint 3"
  by (simp_all add: copyResponseMetadata_def sample_response_def pick_opt_def)

lemma sample_body_state:
  "rq sample_body = sample_request" "x_finished sample_body = False" "failure sample_body = None"
  "terminal sample_body = []" "permit sample_body = Some 7" "delivered sample_body = [[7, 8]]"
  "responseBytes sample_body = 2" "pulling sample_body = Idle" "x_phase sample_body = Streaming"
  "x_stream sample_body = Readable" "wire sample_body = map Chunk sample_reads"
  "reader sample_body = Some (sample_reader 1)" "x_metadata sample_body = Some (copyResponseMetadata sample_response)"
  by (simp_all add: sample_body_def pull_frame_def pull_starts_def pull_data_def bodyless_def sample_streaming_state sample_steps
      sample_metadata_reads sample_request_def)

lemma sample_completes: "completes (x\<lparr>pulling := p, reader := r\<rparr>) sample_final \<longleftrightarrow> completes x sample_final"
  by (simp add: completes_def)

lemma sample_body_completes: "completes sample_body sample_final"
  using sample_final_ok
  by (simp add: completes_def sample_body_state sample_metadata_reads sample_request_def) (simp add: sample_final_def)

lemma sample_ending:
  "pull_frame sample_parse 6 None (pull_starts sample_body) = sample_body\<lparr>pulling := AwaitEnd sample_final, reader := Some (sample_reader 2)\<rparr>"
  using sample_body_completes
  by (simp add: pull_frame_def pull_starts_def sample_body_state sample_steps sample_completes [of _ AwaitFrame] del: One_nat_def)

lemma sample_done_state:
  "rq sample_done = sample_request" "terminal sample_done = [Inr (copyDiagnostics sample_final)]" "permit sample_done = Some 7"
  "delivered sample_done = [[7, 8]]" "wire sample_done = map Chunk sample_reads"
proof -
  obtain r where "FrameReader_next (sample_reader 2) = (Inr None, r)" using sample_reader_next(4) by (metis fst_conv surj_pair)
  then have eq: "sample_done = complete sample_final (sample_body\<lparr>pulling := AwaitEnd sample_final, reader := Some r\<rparr>)"
    by (simp add: sample_done_def sample_ending pull_ends_def read_next_def)
  show "rq sample_done = sample_request" "terminal sample_done = [Inr (copyDiagnostics sample_final)]" "permit sample_done = Some 7"
      "delivered sample_done = [[7, 8]]" "wire sample_done = map Chunk sample_reads"
    unfolding eq by (simp_all add: complete_def finish_exchange_def Let_def sample_body_state)
qed

subsection \<open>Properties\<close>

text \<open>
  C3: An exchange ends once and gives everything back: whatever order the awaits, callbacks,
  cancellations and expiries come in, nothing is released and no outcome is given before the
  end, and afterwards there is exactly one outcome and each closure the exchange holds (its
  permit, its reservation, its operation, its observers) has been called exactly once. A call
  that has thrown has ended, and an outcome that is an error is the failure all later calls see.
\<close>

theorem exchange_ends_once:
  assumes "x_reachable prepare parse limit x"
  shows "(\<not> x_finished x \<longrightarrow> terminal x = [] \<and> releases x = []) \<and>
    (x_finished x \<longrightarrow> length (terminal x) = 1 \<and> mset (releases x) = mset (held x)) \<and>
    (\<forall>e. x_phase x = Thrown e \<longrightarrow> x_finished x) \<and> (\<forall>e. terminal x = [Inl e] \<longrightarrow> failure x = Some e)"
  using x_reachable_inv [OF assms]
  by (cases "x_finished x") (auto simp: x_inv_def live_inv_def live_shape_def done_inv_def)

theorem exchange_ends_once_witness:
  "length (terminal sample_done) = 1 \<and> mset (releases sample_done) = mset (held sample_done) \<and> permit sample_done = Some 7"
  using exchange_ends_once [OF sample_done_reachable] sample_done_state by auto

text \<open>
  C4: A completed exchange has delivered the response and nothing else: when its outcome is a
  success and the body yields bytes, these bytes are one metadata frame, one data frame per
  chunk delivered, in order, and one final frame, and then end; the final frame decodes to
  accepted diagnostics of this request whose byte count is the number of bytes delivered.
\<close>

theorem exchange_completion:
  assumes "x_reachable prepare parse limit x" and "terminal x = [Inr d]" and "NotBytes \<notin> set (wire x)"
  shows "\<exists>m c v. concat (map chunk_bytes (wire x)) = frame 1 m @ concat (map (frame 2) (delivered x)) @ frame 3 c \<and>
    parse c = Some v \<and> d = copyDiagnostics v \<and> diagnostics v (Some (requestId (rq x))) (Some (attempt (rq x))) \<and>
    get d ''phase'' = jstr ''complete'' \<and> get d ''responseBytes'' = jint (int (length (concat (delivered x))))"
proof -
  have "x_finished x" using x_reachable_inv [OF assms(1)] assms(2) by (auto simp: x_inv_def live_inv_def split: if_splits)
  with x_reachable_inv [OF assms(1)] assms(2) have "completed parse x d" by (auto simp: x_inv_def done_inv_def)
  with assms(3) show ?thesis
    unfolding completed_def wire_bytes_def body_frames_def by (metis copied_fields(3,10))
qed

theorem exchange_completion_witness:
  "\<exists>m c. concat sample_reads = frame 1 m @ concat (map (frame 2) (delivered sample_done)) @ frame 3 c \<and> delivered sample_done = [[7, 8]]"
proof -
  have "NotBytes \<notin> set (wire sample_done)" by (auto simp: sample_done_state(5))
  from exchange_completion [OF sample_done_reachable sample_done_state(2) this] show ?thesis
    unfolding sample_done_state(4,5) by (auto simp: comp_def)
qed

text \<open>
  C5: No exchange hands its caller more bytes than the maximum of the request, in any state,
  whatever the service sends.
\<close>

theorem exchange_body_bounded:
  assumes "x_reachable prepare parse limit x"
  shows "length (concat (delivered x)) \<le> maximum (rq x)"
  using x_reachable_inv [OF assms] live_bytes [of parse x]
  by (cases "x_finished x") (auto simp: x_inv_def done_inv_def live_inv_def)

theorem exchange_body_bounded_witness: "length (concat (delivered sample_done)) \<le> 10"
  using exchange_body_bounded [OF sample_done_reachable] by (simp add: sample_done_state sample_request_def)

end
