(* ===== verification/Ipc.thy ===== *)
theory Ipc
  imports Request
begin

text \<open>
  \<open>src/packages/typescript/src/sync/ipc.ts\<close>: the values that cross the boundary between the
  synchronous client and its worker. Every converter takes a value apart and builds a fresh one
  from what it has checked, or throws. What the platform does with \<open>URL\<close> and \<open>Headers\<close> objects is
  the record \<open>platform\<close>; a plain object is the list of its own enumerable data properties.
\<close>

subsection \<open>Throwing\<close>

definition bind_ok :: "'e + 'a \<Rightarrow> ('a \<Rightarrow> 'e + 'b) \<Rightarrow> 'e + 'b" where
  "bind_ok m f = (case m of Inl e \<Rightarrow> Inl e | Inr x \<Rightarrow> f x)"

fun map_ok :: "('a \<Rightarrow> 'e + 'b) \<Rightarrow> 'a list \<Rightarrow> 'e + 'b list" where
  "map_ok f [] = Inr []"
| "map_ok f (x # xs) = bind_ok (f x) (\<lambda>y. bind_ok (map_ok f xs) (\<lambda>ys. Inr (y # ys)))"

definition guard :: "bool \<Rightarrow> transport_error + 'a \<Rightarrow> transport_error + 'a" where
  "guard b m = (if b then m else Inl invalid_input)"

text \<open>\<open>...(value === undefined ? {} : { name: f(value) })\<close>.\<close>

definition opt_field :: "string \<Rightarrow> jsval \<Rightarrow> (jsval \<Rightarrow> transport_error + jsval) \<Rightarrow> transport_error + (jsstr \<times> jsval) list" where
  "opt_field n v f = (if v = JUndef then Inr [] else bind_ok (f v) (\<lambda>w. Inr [(js n, w)]))"

subsection \<open>Scalars\<close>

definition MAX_METADATA_BYTES :: nat where
  "MAX_METADATA_BYTES = 1048576"

record platform =
  parse_url :: "jsstr \<Rightarrow> url option"
  url_href :: "jsval \<Rightarrow> jsstr option"
  headers_entries :: "jsval \<Rightarrow> (jsstr \<times> jsstr) list option"
  headers_ok :: "(jsstr \<times> jsstr) list \<Rightarrow> bool"

definition ipc_object :: "jsval \<Rightarrow> transport_error + (jsstr \<times> jsval) list" where
  "ipc_object v = (case v of JObj ps \<Rightarrow> Inr ps | _ \<Rightarrow> Inl invalid_input)"

definition ipc_keys :: "(jsstr \<times> jsval) list \<Rightarrow> string list \<Rightarrow> bool" where
  "ipc_keys ps allowed = list_all (\<lambda>(k, v). k \<in> set (map js allowed)) ps"

definition ipc_text :: "nat \<Rightarrow> jsval \<Rightarrow> transport_error + jsval" where
  "ipc_text mx v = guard (str_test (\<lambda>s. s \<noteq> [] \<and> length s \<le> mx) v) (Inr v)"

definition ipc_integer :: "int \<Rightarrow> int \<Rightarrow> jsval \<Rightarrow> transport_error + jsval" where
  "ipc_integer fallback mx v = (let n = (if v = JUndef then jint fallback else v) in guard (positive n \<and> int_of n \<le> mx) (Inr n))"

definition ipc_url :: "platform \<Rightarrow> jsval \<Rightarrow> transport_error + jsval" where
  "ipc_url pf v =
     bind_ok (case url_href pf v of Some h \<Rightarrow> Inr h | None \<Rightarrow> bind_ok (ipc_text MAX_METADATA_BYTES v) (\<lambda>w. Inr (str_of w)))
       (\<lambda>s. case parse_url pf s of None \<Rightarrow> Inl invalid_input
          | Some u \<Rightarrow> guard (http_url u \<and> username u = [] \<and> password u = []) (Inr (JStr (href u))))"

subsection \<open>Identities, connections, headers\<close>

definition ipc_identity :: "jsval \<Rightarrow> transport_error + jsval" where
  "ipc_identity v = bind_ok (ipc_object v) (\<lambda>ps. guard (ipc_keys ps [''tlsProfile'', ''emulateHeaders'', ''userAgent''] \<and>
       js_typeof (get v ''emulateHeaders'') = ''boolean'')
     (bind_ok (ipc_text 64 (get v ''tlsProfile'')) (\<lambda>profile.
       bind_ok (opt_field ''userAgent'' (get v ''userAgent'') (ipc_text 8192)) (\<lambda>agent.
         Inr (JObj ([(js ''tlsProfile'', profile), (js ''emulateHeaders'', get v ''emulateHeaders'')] @ agent))))))"

definition ipc_connection :: "jsval \<Rightarrow> transport_error + jsval" where
  "ipc_connection v = bind_ok (ipc_object v) (\<lambda>ps. guard (ipc_keys ps [''egress'', ''identity''])
     (let egress = get v ''egress'' in bind_ok (ipc_object egress) (\<lambda>es. guard (ipc_keys es [''mode'', ''url''])
       (if get egress ''mode'' = jstr ''direct'' \<and> get egress ''url'' = JUndef then
          bind_ok (ipc_identity (get v ''identity'')) (\<lambda>i.
            Inr (JObj [(js ''egress'', JObj [(js ''mode'', jstr ''direct'')]), (js ''identity'', i)]))
        else guard (get egress ''mode'' = jstr ''proxy'')
          (bind_ok (ipc_text 8192 (get egress ''url'')) (\<lambda>u. bind_ok (ipc_identity (get v ''identity'')) (\<lambda>i.
             Inr (JObj [(js ''egress'', JObj [(js ''mode'', jstr ''proxy''), (js ''url'', u)]), (js ''identity'', i)]))))))))"

fun string_pair :: "jsval \<Rightarrow> transport_error + jsstr \<times> jsstr" where
  "string_pair (JArr [JStr a, JStr b]) = Inr (a, b)"
| "string_pair _ = Inl invalid_input"

fun string_entry :: "jsstr \<times> jsval \<Rightarrow> transport_error + jsstr \<times> jsstr" where
  "string_entry (k, JStr s) = Inr (k, s)"
| "string_entry _ = Inl invalid_input"

definition pairs_size :: "(jsstr \<times> jsstr) list \<Rightarrow> nat" where
  "pairs_size hs = sum_list (map (\<lambda>(n, c). length (utf8 n) + length (utf8 c)) hs)"

definition pair_values :: "(jsstr \<times> jsstr) list \<Rightarrow> jsval" where
  "pair_values hs = JArr (map (\<lambda>(n, c). JArr [JStr n, JStr c]) hs)"

definition ipc_headers :: "platform \<Rightarrow> jsval \<Rightarrow> transport_error + jsval" where
  "ipc_headers pf v =
     bind_ok (case headers_entries pf v of Some hs \<Rightarrow> Inr hs
       | None \<Rightarrow> (case v of JArr xs \<Rightarrow> map_ok string_pair xs | _ \<Rightarrow> bind_ok (ipc_object v) (map_ok string_entry)))
     (\<lambda>hs. guard (length hs \<le> 4096 \<and> pairs_size hs \<le> MAX_METADATA_BYTES \<and> headers_ok pf hs) (Inr (pair_values hs)))"

subsection \<open>Requests and sessions\<close>

fun body_size :: "jsval \<Rightarrow> nat option" where
  "body_size JUndef = Some 0"
| "body_size JNull = Some 0"
| "body_size (JStr s) = Some (length (utf8 s))"
| "body_size (JBytes b) = Some (length b)"
| "body_size _ = None"

text \<open>\<open>compactBytes\<close> copies bytes that share a buffer; the value is the same.\<close>

abbreviation request_keys :: "string list" where
  "request_keys \<equiv> [''url'', ''method'', ''headers'', ''body'', ''timeoutMs'', ''maxResponseBytes'', ''attempt'', ''requestId'']"

definition ipc_sessionRequest :: "platform \<Rightarrow> nat \<Rightarrow> jsval \<Rightarrow> transport_error + jsval" where
  "ipc_sessionRequest pf cap v = bind_ok (ipc_object v) (\<lambda>ps.
     guard (ipc_keys ps request_keys)
     (case body_size (get v ''body'') of None \<Rightarrow> Inl invalid_input
      | Some n \<Rightarrow> if cap < n then Inl (localError BODY_TOO_LARGE (Some Buffer_limit))
          else guard (get v ''attempt'' = JUndef \<or> nonnegativeInteger (get v ''attempt''))
           (bind_ok (opt_field ''headers'' (get v ''headers'') (ipc_headers pf)) (\<lambda>hs.
            bind_ok (ipc_url pf (get v ''url'')) (\<lambda>u. bind_ok (ipc_text 64 (get v ''method'')) (\<lambda>m.
            bind_ok (opt_field ''timeoutMs'' (get v ''timeoutMs'') (ipc_integer 1 MAX_TIMEOUT_MS)) (\<lambda>t.
            bind_ok (opt_field ''maxResponseBytes'' (get v ''maxResponseBytes'') (ipc_integer 1 MAX_SAFE_INTEGER)) (\<lambda>mx.
            bind_ok (opt_field ''requestId'' (get v ''requestId'') (ipc_text 128)) (\<lambda>r.
              Inr (JObj ([(js ''url'', u), (js ''method'', m)] @ hs @ pick_opt v [''body''] @ t @ mx @ pick_opt v [''attempt''] @ r)))))))))))"

definition ipc_request :: "platform \<Rightarrow> nat \<Rightarrow> jsval \<Rightarrow> transport_error + jsval" where
  "ipc_request pf cap v = bind_ok (ipc_object v) (\<lambda>ps.
     let rest = filter (\<lambda>(k, w). k \<notin> set (map js [''partition'', ''connection'', ''contextId''])) ps;
       spec = get v ''connection''; context = get v ''contextId'' in
     bind_ok (ipc_sessionRequest pf cap (JObj rest)) (\<lambda>common. bind_ok (ipc_text 1024 (get v ''partition'')) (\<lambda>p.
       if spec \<noteq> JUndef \<and> context = JUndef then bind_ok (ipc_connection spec) (\<lambda>c.
         Inr (JObj (spread_object common @ [(js ''partition'', p), (js ''connection'', c)])))
       else if context \<noteq> JUndef \<and> spec = JUndef then bind_ok (ipc_text 256 context) (\<lambda>c.
         Inr (JObj (spread_object common @ [(js ''partition'', p), (js ''contextId'', c)])))
       else Inl invalid_input)))"

definition ipc_origins :: "platform \<Rightarrow> jsval \<Rightarrow> transport_error + jsval" where
  "ipc_origins pf v = (case v of JArr xs \<Rightarrow> guard (length xs \<le> 4096) (bind_ok (map_ok (ipc_url pf) xs) (\<lambda>us. Inr (JArr us)))
     | _ \<Rightarrow> Inl invalid_input)"

definition ipc_sessionOptions :: "platform \<Rightarrow> jsval \<Rightarrow> transport_error + jsval" where
  "ipc_sessionOptions pf v = bind_ok (ipc_object v) (\<lambda>ps.
     guard (ipc_keys ps [''partition'', ''connection'', ''cookieMode'', ''allowedOrigins'', ''ttlMs'', ''timeoutMs'', ''maxResponseBytes''])
     (bind_ok (opt_field ''allowedOrigins'' (get v ''allowedOrigins'') (ipc_origins pf)) (\<lambda>origins.
      bind_ok (ipc_text 1024 (get v ''partition'')) (\<lambda>p. bind_ok (ipc_connection (get v ''connection'')) (\<lambda>c.
      bind_ok (opt_field ''ttlMs'' (get v ''ttlMs'') (ipc_integer 1 MAX_TIMEOUT_MS)) (\<lambda>ttl.
      bind_ok (opt_field ''timeoutMs'' (get v ''timeoutMs'') (ipc_integer 1 MAX_TIMEOUT_MS)) (\<lambda>t.
      bind_ok (opt_field ''maxResponseBytes'' (get v ''maxResponseBytes'') (ipc_integer 1 MAX_SAFE_INTEGER)) (\<lambda>mx.
        let common = [(js ''partition'', p), (js ''connection'', c)] @ ttl @ t @ mx in
        if get v ''cookieMode'' = jstr ''managed'' \<and> array_items (get (JObj origins) ''allowedOrigins'') \<noteq> []
        then Inr (JObj (common @ [(js ''cookieMode'', jstr ''managed'')] @ origins))
        else guard (get v ''cookieMode'' = jstr ''external'') (Inr (JObj (common @ [(js ''cookieMode'', jstr ''external'')] @ origins)))))))))))"

subsection \<open>Configuration\<close>

definition BATCH_LIMIT :: int where
  "BATCH_LIMIT = MAX_SAFE_INTEGER div 2"

fun fields_ok :: "(string \<times> (jsval \<Rightarrow> transport_error + jsval)) list \<Rightarrow> jsval \<Rightarrow> transport_error + (jsstr \<times> jsval) list" where
  "fields_ok [] v = Inr []"
| "fields_ok ((n, f) # fs) v = bind_ok (opt_field n (get v n) f) (\<lambda>p. bind_ok (fields_ok fs v) (\<lambda>ps. Inr (p @ ps)))"

definition zero_or :: "(jsval \<Rightarrow> transport_error + jsval) \<Rightarrow> jsval \<Rightarrow> transport_error + jsval" where
  "zero_or f v = (if v = jint 0 then Inr v else f v)"

definition ipc_limits :: "jsval \<Rightarrow> transport_error + jsval" where
  "ipc_limits v = bind_ok (ipc_object v) (\<lambda>ps.
     guard (ipc_keys ps [''maxConcurrent'', ''maxConcurrentPerPartition'', ''maxQueued'', ''maxQueuedPerPartition'', ''maxBufferedBytes''])
     (bind_ok (fields_ok
        [(''maxConcurrent'', ipc_integer 1 MAX_SAFE_INTEGER), (''maxConcurrentPerPartition'', ipc_integer 1 MAX_SAFE_INTEGER),
         (''maxQueued'', zero_or (ipc_integer 1 MAX_SAFE_INTEGER)), (''maxQueuedPerPartition'', zero_or (ipc_integer 1 MAX_SAFE_INTEGER)),
         (''maxBufferedBytes'', ipc_integer 1 MAX_SAFE_INTEGER)] v) (\<lambda>ls. Inr (JObj ls))))"

definition ipc_config :: "platform \<Rightarrow> jsval \<Rightarrow> transport_error + jsval" where
  "ipc_config pf v = bind_ok (ipc_object v) (\<lambda>ps.
     guard (ipc_keys ps [''baseUrl'', ''token'', ''limits'', ''controlTimeoutMs'', ''capabilitiesTtlMs'', ''defaultTimeoutMs'', ''maxResponseBytes'',
       ''startupTimeoutMs'', ''operationTimeoutMs'', ''maxRequestBytes'', ''maxBatchRequests'', ''maxBatchBytes'', ''maxBatchConcurrency''])
     (bind_ok (ipc_url pf (get v ''baseUrl'')) (\<lambda>base. bind_ok (ipc_text 16384 (get v ''token'')) (\<lambda>token.
      bind_ok (fields_ok
        [(''controlTimeoutMs'', ipc_integer 1 MAX_TIMEOUT_MS), (''defaultTimeoutMs'', ipc_integer 1 MAX_TIMEOUT_MS),
         (''maxResponseBytes'', ipc_integer 1 MAX_SAFE_INTEGER), (''capabilitiesTtlMs'', zero_or (ipc_integer 1 MAX_TIMEOUT_MS)),
         (''limits'', ipc_limits)] v) (\<lambda>client.
      bind_ok (ipc_integer 10000 MAX_TIMEOUT_MS (get v ''startupTimeoutMs'')) (\<lambda>a.
      bind_ok (ipc_integer 60000 MAX_TIMEOUT_MS (get v ''operationTimeoutMs'')) (\<lambda>b.
      bind_ok (ipc_integer 16777216 MAX_SAFE_INTEGER (get v ''maxRequestBytes'')) (\<lambda>c.
      bind_ok (ipc_integer 128 4096 (get v ''maxBatchRequests'')) (\<lambda>d.
      bind_ok (ipc_integer 16777216 BATCH_LIMIT (get v ''maxBatchBytes'')) (\<lambda>e.
      bind_ok (ipc_integer 8 64 (get v ''maxBatchConcurrency'')) (\<lambda>f.
        Inr (JObj [(js ''client'', JObj ([(js ''baseUrl'', base), (js ''token'', token)] @ client)), (js ''startupTimeoutMs'', a),
          (js ''operationTimeoutMs'', b), (js ''maxRequestBytes'', c), (js ''maxBatchRequests'', d), (js ''maxBatchBytes'', e),
          (js ''maxBatchConcurrency'', f)]))))))))))))"

subsection \<open>Errors and results\<close>

primrec kind_name :: "failure_kind \<Rightarrow> string" where
  "kind_name Proxy_unreachable = ''proxy_unreachable''"
| "kind_name Service_unavailable = ''service_unavailable''"
| "kind_name Connection_lost = ''connection_lost''"
| "kind_name Unknown = ''unknown''"
| "kind_name Client_closed = ''client_closed''"
| "kind_name Queue_full = ''queue_full''"
| "kind_name Buffer_limit = ''buffer_limit''"
| "kind_name Invalid_input = ''invalid_input''"
| "kind_name Worker_unavailable = ''worker_unavailable''"

definition all_kinds :: "failure_kind list" where
  "all_kinds = [Proxy_unreachable, Service_unavailable, Connection_lost, Unknown, Client_closed, Queue_full, Buffer_limit,
     Invalid_input, Worker_unavailable]"

definition encodeError :: "thrown \<Rightarrow> jsval" where
  "encodeError t =
     (let error = (case t of Transport e \<Rightarrow> e | Other _ \<Rightarrow> localError UNKNOWN (Some Worker_unavailable)) in JObj
      [(js ''code'', jstr (code_name (te_code error))), (js ''kind'', jstr (kind_name (te_kind error))),
       (js ''usedProxy'', JBool (te_usedProxy error)), (js ''diagnostics'', copyDiagnostics (te_diagnostics error))])"

definition wire_value :: "wire_contract \<Rightarrow> jsval \<Rightarrow> transport_error + jsval" where
  "wire_value name v = (if validateWire name v then Inr v else Inl (localError PROTOCOL_ERROR None))"

definition ipcDiagnostics :: "jsval \<Rightarrow> transport_error + jsval" where
  "ipcDiagnostics v = (if diagnostics v None None then Inr v else Inl (localError PROTOCOL_ERROR None))"

definition decodeError :: "jsval \<Rightarrow> transport_error + transport_error" where
  "decodeError v = bind_ok (ipc_object v) (\<lambda>ps.
     case (code_of (get v ''code''), List.find (\<lambda>k. get v ''kind'' = jstr (kind_name k)) all_kinds, get v ''usedProxy'') of
       (Some code, Some kind, JBool u) \<Rightarrow> bind_ok (ipcDiagnostics (get v ''diagnostics'')) (\<lambda>d. Inr (new_TransportError code d u (Some kind) None))
     | _ \<Rightarrow> Inl (localError PROTOCOL_ERROR None))"

definition plainResponse :: "jsval \<Rightarrow> jsval" where
  "plainResponse v = JObj (pick v [''status'', ''headers'', ''body'', ''elapsed'', ''diagnostics''])"

definition header_list :: "jsval \<Rightarrow> bool" where
  "header_list v \<longleftrightarrow> is_array v \<and> list_all (\<lambda>x. js_typeof x = ''string'') (array_items v)"

fun finite_nonneg :: "jsval \<Rightarrow> bool" where
  "finite_nonneg (JNum (Num q)) = (0 \<le> q)"
| "finite_nonneg _ = False"

fun is_bytes :: "jsval \<Rightarrow> bool" where
  "is_bytes (JBytes b) = True"
| "is_bytes _ = False"

definition status_ok :: "jsval \<Rightarrow> bool" where
  "status_ok v = (case v of JNum n \<Rightarrow> is_integer n \<and> in_range 100 599 v | _ \<Rightarrow> False)"

definition ipc_response :: "jsval \<Rightarrow> transport_error + jsval" where
  "ipc_response v = bind_ok (ipc_object v) (\<lambda>ps.
     if \<not> status_ok (get v ''status'') \<or> \<not> is_bytes (get v ''body'') \<or> \<not> finite_nonneg (get v ''elapsed'')
     then Inl (localError PROTOCOL_ERROR None)
     else bind_ok (ipc_object (get v ''headers'')) (\<lambda>hs.
       if \<not> list_all (\<lambda>(n, xs). header_list xs) hs then Inl (localError PROTOCOL_ERROR None)
       else bind_ok (ipcDiagnostics (get v ''diagnostics'')) (\<lambda>d.
         Inr (JObj [(js ''status'', get v ''status''), (js ''headers'', JObj hs), (js ''body'', get v ''body''), (js ''elapsed'', get v ''elapsed''),
           (js ''diagnostics'', d)]))))"

definition ipc_result :: "jsval \<Rightarrow> transport_error + (transport_error + jsval)" where
  "ipc_result v = bind_ok (ipc_object v) (\<lambda>ps.
     if get v ''ok'' = JBool True then bind_ok (ipc_response (get v ''value'')) (\<lambda>r. Inr (Inr r))
     else if get v ''ok'' = JBool False then bind_ok (decodeError (get v ''error'')) (\<lambda>e. Inr (Inl e))
     else Inl (localError PROTOCOL_ERROR None))"

definition uncertainError :: "error_code \<Rightarrow> transport_error" where
  "uncertainError code = new_TransportError code
     (JObj (set_prop (spread_object localDiagnostics) (js ''delivery'') (jstr ''possibly_sent''))) False (Some Worker_unavailable) None"

subsection \<open>Facts\<close>

lemma bind_ok_Inr [simp]: "bind_ok m f = Inr y \<longleftrightarrow> (\<exists>x. m = Inr x \<and> f x = Inr y)"
  by (simp add: bind_ok_def split: sum.split)

lemma bind_ok_simps [simp]: "bind_ok (Inr x) f = f x" "bind_ok (Inl e) f = Inl e"
  by (simp_all add: bind_ok_def)

lemma guard_Inr [simp]: "guard b m = Inr y \<longleftrightarrow> b \<and> m = Inr y"
  by (simp add: guard_def)

lemma guard_True [simp]: "guard True m = m"
  by (simp add: guard_def)

lemma ipc_object_Inr [simp]: "ipc_object v = Inr ps \<longleftrightarrow> v = JObj ps"
  by (cases v) (auto simp: ipc_object_def)

text \<open>A field that is there unless its value is \<open>undefined\<close>.\<close>

definition opt :: "string \<Rightarrow> jsval \<Rightarrow> (jsstr \<times> jsval) list" where
  "opt n x = (if x = JUndef then [] else [(js n, x)])"

definition opt_ok :: "(jsval \<Rightarrow> transport_error + jsval) \<Rightarrow> jsval \<Rightarrow> jsval \<Rightarrow> bool" where
  "opt_ok f v x \<longleftrightarrow> (if v = JUndef then x = JUndef else f v = Inr x)"

lemma opt_field_Inr: "(\<And>w. f w \<noteq> Inr JUndef) \<Longrightarrow> opt_field n v f = Inr p \<longleftrightarrow> (\<exists>x. p = opt n x \<and> opt_ok f v x)"
  by (cases "v = JUndef"; cases "f v") (auto simp: opt_field_def opt_def opt_ok_def split: if_splits)

lemma pick_opt_single: "pick_opt v [n] = opt n (get v n)"
  by (simp add: pick_opt_def opt_def)

lemma get_literal:
  "js_prop (JObj ((k, x) # ps)) j = (if j = k then x else js_prop (JObj ps) j)"
  "js_prop (JObj (opt n x @ ps)) j = (if j = js n \<and> x \<noteq> JUndef then x else js_prop (JObj ps) j)"
  "js_prop (JObj (opt n x)) j = (if j = js n then x else JUndef)" "js_prop (JObj []) j = JUndef"
  by (auto simp: opt_def)

declare js_prop.simps [simp del]

lemma keys_opt: "ipc_keys (ps @ qs) ks \<longleftrightarrow> ipc_keys ps ks \<and> ipc_keys qs ks" "ipc_keys (opt n x) ks \<longleftrightarrow> x = JUndef \<or> n \<in> set ks"
    "ipc_keys (p # ps) ks \<longleftrightarrow> fst p \<in> js ` set ks \<and> ipc_keys ps ks" "ipc_keys [] ks"
  by (auto simp: ipc_keys_def opt_def case_prod_unfold)

text \<open>A converter is stable when what it returns passes it again unchanged.\<close>

definition stable :: "(jsval \<Rightarrow> transport_error + jsval) \<Rightarrow> bool" where
  "stable f \<longleftrightarrow> (\<forall>v w. f v = Inr w \<longrightarrow> w \<noteq> JUndef \<and> f w = Inr w)"

lemma stableD: "stable f \<Longrightarrow> f v = Inr w \<Longrightarrow> w \<noteq> JUndef \<and> f w = Inr w"
  by (simp add: stable_def)

lemma stable_not_undef: "stable f \<Longrightarrow> f w \<noteq> Inr JUndef"
  by (auto simp: stable_def)

lemma stable_opt: "stable f \<Longrightarrow> opt_ok f v x \<Longrightarrow> opt_ok f x x"
  by (auto simp: opt_ok_def dest: stableD split: if_splits)

lemma stable_text [simp]: "stable (ipc_text n)"
  by (auto simp: stable_def ipc_text_def str_test_def)

lemma stable_integer [simp]: "stable (ipc_integer a b)"
  by (auto simp: stable_def ipc_integer_def Let_def split: if_splits)

lemmas opt_fields = opt_field_Inr [OF stable_not_undef]

lemma opt_field_opt: "stable f \<Longrightarrow> opt_ok f x x \<Longrightarrow> opt_field n x f = Inr (opt n x)"
  using stable_not_undef [of f] by (auto simp: opt_field_def opt_ok_def opt_def)

text \<open>Rebuilding an optional field from what a first conversion left.\<close>

lemma opt_again:
  assumes "stable f" and "opt_field n v f = Inr p"
  obtains x where "p = opt n x" "opt_field n x f = Inr (opt n x)"
proof -
  from assms opt_fields [OF assms(1)] obtain x where "p = opt n x" "opt_ok f v x" by auto
  with that show thesis using opt_field_opt [OF assms(1) stable_opt [OF assms(1)]] by simp
qed

lemma stable_identity [simp]: "stable ipc_identity"
  unfolding stable_def
proof (intro allI impI)
  fix v w assume "ipc_identity v = Inr w"
  then obtain profile agent where parts: "ipc_text 64 (get v ''tlsProfile'') = Inr profile"
      "opt_field ''userAgent'' (get v ''userAgent'') (ipc_text 8192) = Inr agent" "js_typeof (get v ''emulateHeaders'') = ''boolean''"
    and w: "w = JObj ([(js ''tlsProfile'', profile), (js ''emulateHeaders'', get v ''emulateHeaders'')] @ agent)"
    by (auto simp: ipc_identity_def)
  from opt_again [OF stable_text parts(2)] obtain a where a: "agent = opt ''userAgent'' a"
      "opt_field ''userAgent'' a (ipc_text 8192) = Inr (opt ''userAgent'' a)" .
  show "w \<noteq> JUndef \<and> ipc_identity w = Inr w"
    using stableD [OF stable_text parts(1)] parts(3) a(2) unfolding w a(1) by (simp add: ipc_identity_def ipc_object_def keys_opt get_literal)
qed

lemma stable_connection [simp]: "stable ipc_connection"
  unfolding stable_def
proof (intro allI impI)
  fix v w assume v: "ipc_connection v = Inr w"
  then obtain i where i: "ipc_identity (get v ''identity'') = Inr i"
    and "w = JObj [(js ''egress'', JObj [(js ''mode'', jstr ''direct'')]), (js ''identity'', i)] \<or>
      (\<exists>u. ipc_text 8192 (get (get v ''egress'') ''url'') = Inr u \<and>
        w = JObj [(js ''egress'', JObj [(js ''mode'', jstr ''proxy''), (js ''url'', u)]), (js ''identity'', i)])"
    by (auto simp: ipc_connection_def Let_def split: if_splits)
  then show "w \<noteq> JUndef \<and> ipc_connection w = Inr w"
    using stableD [OF stable_identity i] by (auto simp: ipc_connection_def ipc_object_def keys_opt get_literal dest: stableD [OF stable_text])
qed

lemma string_pairs: "map_ok string_pair (map (\<lambda>(n, c). JArr [JStr n, JStr c]) hs) = Inr hs"
  by (induction hs) auto

text \<open>What the code relies on from the platform: parsing a serialized URL gives it back.\<close>

definition platform_laws :: "platform \<Rightarrow> bool" where
  "platform_laws pf \<longleftrightarrow> (\<forall>s u. parse_url pf s = Some u \<longrightarrow> parse_url pf (href u) = Some u \<and> href u \<noteq> []) \<and>
     (\<forall>s. url_href pf (JStr s) = None) \<and> (\<forall>xs. headers_entries pf (JArr xs) = None)"

lemma stable_headers: "platform_laws pf \<Longrightarrow> stable (ipc_headers pf)"
  unfolding stable_def ipc_headers_def
  by (auto simp: platform_laws_def pair_values_def string_pairs)

lemma stable_url:
  assumes "platform_laws pf" and "ipc_url pf v = Inr w" and "length (str_of w) \<le> MAX_METADATA_BYTES"
  shows "ipc_url pf w = Inr w"
proof -
  obtain s u where u: "parse_url pf s = Some u" "http_url u" "username u = []" "password u = []" "w = JStr (href u)"
    using assms(2) by (auto simp: ipc_url_def split: option.splits)
  with assms(1,3) show ?thesis
    by (auto simp: platform_laws_def ipc_url_def ipc_text_def str_test_def str_of_def)
qed

lemma sessionRequest_again:
  assumes laws: "platform_laws pf" and v: "ipc_sessionRequest pf cap v = Inr w"
    and short: "length (str_of (get w ''url'')) \<le> MAX_METADATA_BYTES"
  shows "ipc_sessionRequest pf cap w = Inr w"
proof -
  from v obtain n hs u m t mx r where body: "body_size (get v ''body'') = Some n" "\<not> cap < n"
    and attempt: "get v ''attempt'' = JUndef \<or> nonnegativeInteger (get v ''attempt'')"
    and parts: "opt_field ''headers'' (get v ''headers'') (ipc_headers pf) = Inr hs" "ipc_url pf (get v ''url'') = Inr u"
      "ipc_text 64 (get v ''method'') = Inr m" "opt_field ''timeoutMs'' (get v ''timeoutMs'') (ipc_integer 1 MAX_TIMEOUT_MS) = Inr t"
      "opt_field ''maxResponseBytes'' (get v ''maxResponseBytes'') (ipc_integer 1 MAX_SAFE_INTEGER) = Inr mx"
      "opt_field ''requestId'' (get v ''requestId'') (ipc_text 128) = Inr r"
    and w: "w = JObj ([(js ''url'', u), (js ''method'', m)] @ hs @ pick_opt v [''body''] @ t @ mx @ pick_opt v [''attempt''] @ r)"
    by (auto simp: ipc_sessionRequest_def split: option.splits if_splits)
  from opt_again [OF stable_headers [OF laws] parts(1)] obtain h where h: "hs = opt ''headers'' h"
      "opt_field ''headers'' h (ipc_headers pf) = Inr (opt ''headers'' h)" .
  from opt_again [OF stable_integer parts(4)] obtain t' where t: "t = opt ''timeoutMs'' t'"
      "opt_field ''timeoutMs'' t' (ipc_integer 1 MAX_TIMEOUT_MS) = Inr (opt ''timeoutMs'' t')" .
  from opt_again [OF stable_integer parts(5)] obtain x where x: "mx = opt ''maxResponseBytes'' x"
      "opt_field ''maxResponseBytes'' x (ipc_integer 1 MAX_SAFE_INTEGER) = Inr (opt ''maxResponseBytes'' x)" .
  from opt_again [OF stable_text parts(6)] obtain r' where r: "r = opt ''requestId'' r'"
      "opt_field ''requestId'' r' (ipc_text 128) = Inr (opt ''requestId'' r')" .
  define ps where "ps = [(js ''url'', u), (js ''method'', m)] @ opt ''headers'' h @ opt ''body'' (get v ''body'') @ opt ''timeoutMs'' t' @
    opt ''maxResponseBytes'' x @ opt ''attempt'' (get v ''attempt'') @ opt ''requestId'' r'"
  have w': "w = JObj ps" unfolding w ps_def h(1) t(1) x(1) r(1) pick_opt_single ..
  have reads: "get w ''url'' = u" "get w ''method'' = m" "get w ''headers'' = h" "get w ''body'' = get v ''body''" "get w ''timeoutMs'' = t'"
      "get w ''maxResponseBytes'' = x" "get w ''attempt'' = get v ''attempt''" "get w ''requestId'' = r'"
    unfolding w' ps_def by (simp_all add: get_literal)
  have "ipc_url pf u = Inr u" using stable_url [OF laws parts(2)] short unfolding reads .
  moreover have "ipc_object w = Inr ps"
    "ipc_keys ps request_keys"
    using w' unfolding ps_def by (simp_all add: keys_opt)
  ultimately show ?thesis
    using stableD [OF stable_text parts(3)] h(2) t(2) x(2) r(2) body attempt
    unfolding ipc_sessionRequest_def pick_opt_single reads by (simp add: w' ps_def)
qed

text \<open>The keys of a converted request, and reading behind them.\<close>

lemma opt_field_keys: "opt_field n v f = Inr p \<Longrightarrow> n \<in> set ks \<Longrightarrow> ipc_keys p ks"
  by (auto simp: opt_field_def ipc_keys_def split: if_splits)

lemma sessionRequest_keys: "ipc_sessionRequest pf cap v = Inr w \<Longrightarrow> \<exists>ps. w = JObj ps \<and> ipc_keys ps request_keys"
  by (auto simp: ipc_sessionRequest_def keys_opt pick_opt_single split: option.splits if_splits) (erule opt_field_keys, simp)+

lemma js_prop_append: "js_prop (JObj (ps @ qs)) k = (if k \<in> fst ` set ps then js_prop (JObj ps) k else js_prop (JObj qs) k)"
  by (auto simp: js_prop.simps map_add_def map_of_eq_None_iff split: option.split) (force dest: map_of_SomeD)+

lemma rest_of_request:
  assumes "ipc_keys ps request_keys" and "list_all (\<lambda>(k, w). k \<in> set (map js [''partition'', ''connection'', ''contextId''])) qs"
  shows "filter (\<lambda>(k, w). k \<notin> set (map js [''partition'', ''connection'', ''contextId''])) (ps @ qs) = ps"
    and "n \<in> {''partition'', ''connection'', ''contextId''} \<Longrightarrow> get (JObj (ps @ qs)) n = get (JObj qs) n"
    and "n \<in> set request_keys \<Longrightarrow> get (JObj (ps @ qs)) n = get (JObj ps) n"
proof -
  let ?names = "js ` {''partition'', ''connection'', ''contextId''}"
  have ps: "fst ` set ps \<subseteq> js ` set request_keys" and qs: "fst ` set qs \<subseteq> ?names"
    using assms by (auto simp: ipc_keys_def list_all_iff)
  have apart: "js ` set request_keys \<inter> ?names = {}" by simp
  have "filter (\<lambda>(k, w). k \<notin> ?names) ps = ps" "filter (\<lambda>(k, w). k \<notin> ?names) qs = []"
    using ps qs apart by (auto simp: filter_id_conv filter_empty_conv)
  then show "filter (\<lambda>(k, w). k \<notin> set (map js [''partition'', ''connection'', ''contextId''])) (ps @ qs) = ps" by simp
  show "get (JObj (ps @ qs)) n = get (JObj qs) n" if "n \<in> {''partition'', ''connection'', ''contextId''}"
    using ps apart imageI [OF that, of js] unfolding js_prop_append by auto
  show "get (JObj (ps @ qs)) n = get (JObj ps) n" if "n \<in> set request_keys"
  proof -
    have "js n \<notin> fst ` set qs" using qs apart imageI [OF that, of js] by blast
    then have "js_prop (JObj qs) (js n) = JUndef" "js n \<notin> fst ` set ps \<Longrightarrow> js_prop (JObj ps) (js n) = JUndef"
      by (auto simp: js_prop.simps map_of_eq_None_iff split: option.split dest: map_of_SomeD) (force dest: map_of_SomeD)+
    then show ?thesis unfolding js_prop_append by simp
  qed
qed

subsection \<open>Properties\<close>

lemma diagnostics_any: "diagnostics v r a \<Longrightarrow> diagnostics v None None"
  by (simp add: diagnostics_def)

lemma find_kind: "List.find (\<lambda>k. kind_name j = kind_name k) all_kinds = Some j"
  by (cases j) (simp_all add: all_kinds_def)

lemma decode_encode:
  assumes "frozen_error e" and "diagnostics (te_diagnostics e) None None"
  shows "decodeError (encodeError (Transport e)) = Inr (e\<lparr>te_references := None\<rparr>)"
proof -
  have "new_TransportError (te_code e) (copyDiagnostics (te_diagnostics e)) (te_usedProxy e) (Some (te_kind e)) None = e\<lparr>te_references := None\<rparr>"
    using assms(1) by (cases e) (simp add: frozen_error_def new_TransportError_def)
  then show ?thesis
    using diagnostics_copied [OF assms(2)]
    by (simp add: decodeError_def encodeError_def get_literal code_of_code_name find_kind ipcDiagnostics_def ipc_object_def)
qed

text \<open>The two ways a request names where it goes, each with its converter.\<close>

definition destination :: "string \<Rightarrow> (jsval \<Rightarrow> transport_error + jsval) \<Rightarrow> bool" where
  "destination n f \<longleftrightarrow> n = ''connection'' \<and> f = ipc_connection \<or> n = ''contextId'' \<and> f = ipc_text 256"

lemma request_parts:
  assumes "ipc_request pf cap v = Inr w"
  obtains ps common p n c f where "v = JObj ps"
    "ipc_sessionRequest pf cap (JObj (filter (\<lambda>(k, w). k \<notin> set (map js [''partition'', ''connection'', ''contextId''])) ps)) = Inr common"
    "ipc_text 1024 (get v ''partition'') = Inr p" "destination n f" "f (get v n) = Inr c"
    "w = JObj (spread_object common @ [(js ''partition'', p), (js n, c)])"
  using assms that [of _ _ _ "''connection''" ipc_connection] that [of _ _ _ "''contextId''" "ipc_text 256"]
  by (auto simp: ipc_request_def Let_def destination_def split: if_splits)

lemma request_again:
  assumes "platform_laws pf" and v: "ipc_request pf cap v = Inr w"
    and short: "length (str_of (get w ''url'')) \<le> MAX_METADATA_BYTES"
  shows "ipc_request pf cap w = Inr w \<and> (get w ''connection'' = JUndef) = (get w ''contextId'' \<noteq> JUndef) \<and>
    (\<exists>n \<le> cap. body_size (get w ''body'') = Some n)"
proof -
  from request_parts [OF v] obtain vs common p n c f where
    common: "ipc_sessionRequest pf cap (JObj (filter (\<lambda>(k, w). k \<notin> set (map js [''partition'', ''connection'', ''contextId''])) vs)) = Inr common"
    and p: "ipc_text 1024 (get v ''partition'') = Inr p" and c: "destination n f" "f (get v n) = Inr c"
    and w: "w = JObj (spread_object common @ [(js ''partition'', p), (js n, c)])" .
  from sessionRequest_keys [OF common] obtain ps where ps: "common = JObj ps" "ipc_keys ps request_keys" by blast
  have tail: "list_all (\<lambda>(k, w). k \<in> set (map js [''partition'', ''connection'', ''contextId''])) [(js ''partition'', p), (js n, c)]"
    using c(1) by (auto simp: destination_def)
  note rest = rest_of_request [OF ps(2) tail]
  have fields: "get w ''url'' = get common ''url''" "get w ''body'' = get common ''body''"
    unfolding w ps(1) spread_object.simps by (rule rest(3), simp)+
  have stable: "stable f" using c(1) by (auto simp: destination_def)
  have again: "ipc_sessionRequest pf cap common = Inr common"
    using sessionRequest_again [OF assms(1) common] short fields by simp
  have "get w k = get (JObj [(js ''partition'', p), (js n, c)]) k" if "k \<in> {''partition'', ''connection'', ''contextId''}" for k
    using rest(2) [OF that] unfolding w ps(1) spread_object.simps .
  then have reads: "get w ''partition'' = p" "get w ''connection'' = (if n = ''connection'' then c else JUndef)"
      "get w ''contextId'' = (if n = ''contextId'' then c else JUndef)"
    using c(1) by (auto simp: destination_def get_literal)
  have "ipc_request pf cap w = Inr w"
    using c(1) again stableD [OF stable_text p] stableD [OF stable c(2)] reads rest(1)
    unfolding ipc_request_def w ps(1) by (auto simp: ipc_object_def Let_def destination_def)
  moreover have "\<exists>n \<le> cap. body_size (get w ''body'') = Some n"
    using again unfolding fields by (auto simp: ipc_sessionRequest_def split: option.splits if_splits)
  ultimately show ?thesis using c(1) reads stableD [OF stable c(2)] by (auto simp: destination_def)
qed

text \<open>
  A request that the synchronous client converted passes the worker's conversion unchanged:
  for any request the caller's side accepts (with a URL that serializes within the metadata
  limit), the worker accepts the converted value and gets the very same value back. Such a value
  also names exactly one of a connection and a context, and its body is within the cap.
\<close>

theorem request_crosses:
  assumes "platform_laws pf" and "ipc_request pf cap v = Inr w"
    and "length (str_of (get w ''url'')) \<le> MAX_METADATA_BYTES"
  shows "ipc_request pf cap w = Inr w \<and> (get w ''connection'' = JUndef) = (get w ''contextId'' \<noteq> JUndef) \<and>
    (\<exists>n \<le> cap. body_size (get w ''body'') = Some n)"
  by (rule request_again [OF assms])

definition sample_platform :: platform where
  "sample_platform = \<lparr>parse_url = (\<lambda>s. if s \<in> {js ''http://h'', js ''http://h/''} then Some sample_url else None),
     url_href = (\<lambda>v. None), headers_entries = (\<lambda>v. None), headers_ok = (\<lambda>hs. True)\<rparr>"

definition sample_call :: "jsval \<Rightarrow> jsval \<Rightarrow> jsval" where
  "sample_call u hs = JObj [(js ''url'', u), (js ''method'', jstr ''POST''), (js ''headers'', hs), (js ''body'', JBytes [1, 2]),
     (js ''partition'', jstr ''p''), (js ''contextId'', jstr ''c'')]"

theorem request_crosses_witness:
  "ipc_request sample_platform 2 (sample_call (jstr ''http://h/'') (JArr [JArr [jstr ''a'', jstr ''b'']])) =
     Inr (sample_call (jstr ''http://h/'') (JArr [JArr [jstr ''a'', jstr ''b'']]))"
proof -
  have "platform_laws sample_platform" by (auto simp: platform_laws_def sample_platform_def sample_url_def)
  moreover have "ipc_request sample_platform 2 (sample_call (jstr ''http://h'') (JObj [(js ''a'', jstr ''b'')])) =
      Inr (sample_call (jstr ''http://h/'') (JArr [JArr [jstr ''a'', jstr ''b'']]))"
    by (simp add: ipc_request_def ipc_sessionRequest_def sample_call_def keys_opt get_literal pick_opt_single opt_field_def ipc_headers_def
        ipc_object_def ipc_url_def ipc_text_def str_test_def str_of_def pairs_size_def pair_values_def sample_platform_def sample_url_def
        http_url_def MAX_METADATA_BYTES_def Let_def opt_def utf8_def utf8_point_def js_def)
  moreover have "length (str_of (get (sample_call (jstr ''http://h/'') (JArr [JArr [jstr ''a'', jstr ''b'']])) ''url'')) \<le> MAX_METADATA_BYTES"
    by (simp add: sample_call_def get_literal str_of_def MAX_METADATA_BYTES_def js_def)
  ultimately show ?thesis using request_crosses by blast
qed

text \<open>
  An error that the worker serializes arrives as the same error: the code, the kind, the
  message, the delivery state, the proxy flag and the diagnostics are those of the error thrown;
  only the caller's own references are left out.
\<close>

theorem error_crosses:
  assumes "frozen_error e" and "diagnostics (te_diagnostics e) None None"
  shows "decodeError (encodeError (Transport e)) = Inr (e\<lparr>te_references := None\<rparr>) \<and>
    ipc_result (JObj [(js ''ok'', JBool False), (js ''error'', encodeError (Transport e))]) = Inr (Inl (e\<lparr>te_references := None\<rparr>))"
  by (simp add: decode_encode [OF assms] ipc_result_def ipc_object_def get_literal)

theorem error_crosses_witness:
  "decodeError (encodeError (Transport (new_TransportError BUSY sample_diagnostics True (Some Queue_full) None))) =
     Inr (new_TransportError BUSY sample_diagnostics True (Some Queue_full) None)"
proof -
  let ?e = "new_TransportError BUSY sample_diagnostics True (Some Queue_full) None"
  from diagnostics_any [OF sample_diagnostics_ok] have "diagnostics (te_diagnostics ?e) None None" by (simp add: new_TransportError_def diagnostics_copied)
  from error_crosses [OF new_TransportError_frozen this] show ?thesis by (simp add: new_TransportError_def)
qed

end
