(* ===== verification/Batch.thy ===== *)
theory Batch
  imports Ipc
begin

text \<open>
  \<open>batch\<close> of \<open>src/packages/typescript/src/sync/worker.ts\<close>: many requests over a few lanes that share
  two byte counters. A lane is at the \<open>await\<close> its loop has reached; the counters are the closure
  variables. \<open>received\<close> records, per request, the bytes its stream has delivered.
\<close>

subsection \<open>The input\<close>

record batch_settings =
  maxBatchRequests :: int
  maxRequestBytes :: nat
  maxBatchConcurrency :: int
  maxBatchBytes :: int

definition batch_input :: "platform \<Rightarrow> batch_settings \<Rightarrow> jsval \<Rightarrow> transport_error + jsval list \<times> nat \<times> nat" where
  "batch_input pf st v = bind_ok (ipc_object v) (\<lambda>ps. case get v ''requests'' of
     JArr xs \<Rightarrow> guard (int (length xs) \<le> maxBatchRequests st)
       (bind_ok (map_ok (ipc_request pf (maxRequestBytes st)) xs) (\<lambda>rs.
        bind_ok (ipc_integer 1 (maxBatchConcurrency st) (get v ''concurrency'')) (\<lambda>c.
        bind_ok (ipc_integer 1 (maxBatchBytes st) (get v ''maxTotalBytes'')) (\<lambda>mx.
          Inr (rs, nat (int_of c), nat (int_of mx))))))
   | _ \<Rightarrow> Inl invalid_input)"

subsection \<open>State\<close>

datatype batch_result =
    BatchOk jsval "(jsstr \<times> jsstr list) list" "byte list" jsval
  | BatchFailed jsval

datatype job_phase = Opening | Reading | Completing | Closing batch_result

record job =
  j_index :: nat
  j_phase :: job_phase
  j_bytes :: nat
  j_reserved :: nat
  j_chunks :: "byte list list"
  j_diag :: jsval
  j_metadata :: jsval

datatype lane = LaneFree | LaneBusy job | LaneDone

record batch =
  requests :: "jsval list"
  maxTotal :: nat
  next_index :: nat
  payloadBytes :: nat
  workingBytes :: nat
  results :: "batch_result option list"
  lanes :: "lane list"
  batch_aborted :: bool
  received :: "nat \<Rightarrow> byte list"

abbreviation maxWorking :: "batch \<Rightarrow> nat" where
  "maxWorking b \<equiv> 2 * maxTotal b"

definition new_batch :: "jsval list \<Rightarrow> nat \<Rightarrow> nat \<Rightarrow> batch" where
  "new_batch rs concurrency mx = \<lparr>requests = rs, maxTotal = mx, next_index = 0, payloadBytes = 0, workingBytes = 0,
     results = replicate (length rs) None, lanes = replicate (min concurrency (length rs)) LaneFree, batch_aborted = False,
     received = (\<lambda>_. [])\<rparr>"

definition set_lane :: "nat \<Rightarrow> lane \<Rightarrow> batch \<Rightarrow> batch" where
  "set_lane l x b = b\<lparr>lanes := (lanes b)[l := x]\<rparr>"

subsection \<open>One request\<close>

definition proxied :: "jsval \<Rightarrow> bool" where
  "proxied opts \<longleftrightarrow> get (get (get opts ''connection'') ''egress'') ''mode'' = jstr ''proxy''"

definition start_job :: "nat \<Rightarrow> jsval \<Rightarrow> job" where
  "start_job i opts = \<lparr>j_index = i, j_phase = Opening, j_bytes = 0, j_reserved = 0, j_chunks = [],
     j_diag = initial_diag str_of (nullish_or (get opts ''requestId'') (jstr ''local'')) (nullish_or (get opts ''attempt'') (jint 0))
       (nullish_or (get (get (get opts ''connection'') ''identity'') ''tlsProfile'') (jstr ''unknown'')), j_metadata = JUndef\<rparr>"

text \<open>The \<open>catch\<close> block gives back what the request had counted; \<open>finally\<close> then awaits the stream, if there is one.\<close>

definition job_fails :: "nat \<Rightarrow> job \<Rightarrow> thrown \<Rightarrow> batch \<Rightarrow> batch" where
  "job_fails l j e b =
     (let b1 = b\<lparr>payloadBytes := payloadBytes b - j_bytes j, workingBytes := workingBytes b - j_reserved j\<rparr>; r = BatchFailed (encodeError e) in
      if j_phase j = Opening then set_lane l LaneFree (b1\<lparr>results := (results b)[j_index j := Some r]\<rparr>)
      else set_lane l (LaneBusy (j\<lparr>j_phase := Closing r, j_bytes := 0, j_reserved := 0\<rparr>)) b1)"

definition lane_next :: "nat \<Rightarrow> batch \<Rightarrow> batch" where
  "lane_next l b = (let i = next_index b; b1 = b\<lparr>next_index := Suc i\<rparr> in
     if length (requests b) \<le> i then set_lane l LaneDone b1
     else if batch_aborted b then b1\<lparr>results := (results b)[i := Some (BatchFailed (encodeError (Transport (uncertainError TIMEOUT))))]\<rparr>
     else set_lane l (LaneBusy (start_job i (requests b ! i))) b1)"

definition job_opened :: "nat \<Rightarrow> job \<Rightarrow> thrown + jsval \<Rightarrow> batch \<Rightarrow> batch" where
  "job_opened l j r b = (case r of Inl e \<Rightarrow> job_fails l j e b
     | Inr md \<Rightarrow> set_lane l (LaneBusy (j\<lparr>j_phase := Reading, j_diag := get md ''diagnostics'', j_metadata := md\<rparr>)) b)"

definition too_large :: "jsval \<Rightarrow> job \<Rightarrow> batch \<Rightarrow> thrown" where
  "too_large diag j b = Transport (new_TransportError BODY_TOO_LARGE diag (proxied (requests b ! j_index j)) (Some Buffer_limit) None)"

definition body_diag :: "job \<Rightarrow> jsval" where
  "body_diag j = JObj (set_prop (set_prop (set_prop (spread_object (j_diag j)) (js ''phase'') (jstr ''body'')) (js ''delivery'')
     (jstr ''response_started'')) (js ''responseBytes'') (jint (int (j_bytes j))))"

definition job_chunk :: "nat \<Rightarrow> job \<Rightarrow> byte list \<Rightarrow> batch \<Rightarrow> batch" where
  "job_chunk l j c b =
     (if maxTotal b < payloadBytes b + length c \<or> maxWorking b < workingBytes b + length c then job_fails l j (too_large (body_diag j) j b) b
      else set_lane l (LaneBusy (j\<lparr>j_bytes := j_bytes j + length c, j_reserved := j_reserved j + length c, j_chunks := j_chunks j @ [c]\<rparr>))
        (b\<lparr>payloadBytes := payloadBytes b + length c, workingBytes := workingBytes b + length c,
           received := (received b)(j_index j := received b (j_index j) @ c)\<rparr>))"

definition job_read_ends :: "nat \<Rightarrow> job \<Rightarrow> batch \<Rightarrow> batch" where
  "job_read_ends l j = set_lane l (LaneBusy (j\<lparr>j_phase := Completing\<rparr>))"

fun group_headers :: "(jsstr \<times> jsstr) list \<Rightarrow> (jsstr \<times> jsstr list) list" where
  "group_headers [] = []"
| "group_headers ((n, v) # hs) = (ascii_lower n, v # map snd (filter (\<lambda>(m, _). ascii_lower m = ascii_lower n) hs)) #
     group_headers (filter (\<lambda>(m, _). ascii_lower m \<noteq> ascii_lower n) hs)"

definition metadata_headers :: "jsval \<Rightarrow> (jsstr \<times> jsstr) list" where
  "metadata_headers md = map (\<lambda>p. (str_of (item p 0), str_of (item p 1))) (array_items (get md ''headers''))"

text \<open>
  After \<open>stream.completion\<close>. \<open>whole\<close> says that the only chunk is the whole of an unshared buffer, so
  that it needs no copy; the assembly reserves and gives back within one turn.
\<close>

definition job_completed :: "nat \<Rightarrow> job \<Rightarrow> bool \<Rightarrow> transport_error + jsval \<Rightarrow> batch \<Rightarrow> batch" where
  "job_completed l j whole r b = (case r of Inl e \<Rightarrow> job_fails l j (Transport e) b
     | Inr d \<Rightarrow>
         if \<not> (length (j_chunks j) = 1 \<and> whole) \<and> maxWorking b < workingBytes b + j_bytes j then job_fails l j (too_large d j b) b
         else set_lane l (LaneBusy (j\<lparr>j_phase := Closing (BatchOk (get (j_metadata j) ''status'') (group_headers (metadata_headers (j_metadata j)))
           (concat (j_chunks j)) d)\<rparr>)) b)"

definition job_closed :: "nat \<Rightarrow> job \<Rightarrow> batch_result \<Rightarrow> batch \<Rightarrow> batch" where
  "job_closed l j r b = set_lane l LaneFree (b\<lparr>results := (results b)[j_index j := Some r]\<rparr>)"

subsection \<open>The lanes together\<close>

definition lane_at :: "batch \<Rightarrow> nat \<Rightarrow> lane \<Rightarrow> bool" where
  "lane_at b l x \<longleftrightarrow> l < length (lanes b) \<and> lanes b ! l = x"

inductive batch_step :: "batch \<Rightarrow> batch \<Rightarrow> bool" where
  takes: "lane_at b l LaneFree \<Longrightarrow> batch_step b (lane_next l b)"
| opens: "lane_at b l (LaneBusy j) \<Longrightarrow> j_phase j = Opening \<Longrightarrow> batch_step b (job_opened l j r b)"
| reads: "lane_at b l (LaneBusy j) \<Longrightarrow> j_phase j = Reading \<Longrightarrow> batch_step b (job_chunk l j c b)"
| read_fails: "lane_at b l (LaneBusy j) \<Longrightarrow> j_phase j = Reading \<Longrightarrow> batch_step b (job_fails l j e b)"
| read_ends: "lane_at b l (LaneBusy j) \<Longrightarrow> j_phase j = Reading \<Longrightarrow> batch_step b (job_read_ends l j b)"
| completes: "lane_at b l (LaneBusy j) \<Longrightarrow> j_phase j = Completing \<Longrightarrow> batch_step b (job_completed l j whole r' b)"
| closed: "lane_at b l (LaneBusy j) \<Longrightarrow> j_phase j = Closing res \<Longrightarrow> batch_step b (job_closed l j res b)"
| aborts: "batch_step b (b\<lparr>batch_aborted := True\<rparr>)"

inductive batch_reachable :: "batch \<Rightarrow> bool" where
  batch_starts: "1 \<le> concurrency \<Longrightarrow> batch_reachable (new_batch rs concurrency mx)"
| batch_moves: "batch_reachable b \<Longrightarrow> batch_step b b' \<Longrightarrow> batch_reachable b'"

subsection \<open>The accounts\<close>

fun lane_bytes :: "lane \<Rightarrow> nat" where
  "lane_bytes (LaneBusy j) = j_bytes j"
| "lane_bytes _ = 0"

fun lane_index :: "lane \<Rightarrow> nat option" where
  "lane_index (LaneBusy j) = Some (j_index j)"
| "lane_index _ = None"

fun result_bytes :: "batch_result option \<Rightarrow> nat" where
  "result_bytes (Some (BatchOk st hs body d)) = length body"
| "result_bytes _ = 0"

text \<open>Bytes held by requests in progress, and by the results that are kept.\<close>

definition held_bytes :: "batch \<Rightarrow> nat" where
  "held_bytes b = sum_list (map lane_bytes (lanes b)) + sum_list (map result_bytes (results b))"

definition job_ok :: "batch \<Rightarrow> job \<Rightarrow> bool" where
  "job_ok b j \<longleftrightarrow> j_index j < next_index b \<and> j_index j < length (requests b) \<and> results b ! j_index j = None \<and> j_reserved j = j_bytes j \<and>
     (case j_phase j of
        Closing (BatchFailed _) \<Rightarrow> j_bytes j = 0
      | Closing (BatchOk st hs body d) \<Rightarrow> body = received b (j_index j) \<and> j_bytes j = length body
      | Opening \<Rightarrow> j_bytes j = 0 \<and> j_chunks j = [] \<and> received b (j_index j) = []
      | _ \<Rightarrow> concat (j_chunks j) = received b (j_index j) \<and> j_bytes j = length (received b (j_index j)))"

definition lane_ok :: "batch \<Rightarrow> lane \<Rightarrow> bool" where
  "lane_ok b x = (case x of LaneFree \<Rightarrow> True | LaneBusy j \<Rightarrow> job_ok b j | LaneDone \<Rightarrow> length (requests b) \<le> next_index b)"

definition lanes_apart :: "batch \<Rightarrow> bool" where
  "lanes_apart b \<longleftrightarrow> (\<forall>l < length (lanes b). \<forall>m < length (lanes b). l \<noteq> m \<longrightarrow> lane_index (lanes b ! l) = lane_index (lanes b ! m) \<longrightarrow>
     lane_index (lanes b ! l) = None)"

definition result_ok :: "batch \<Rightarrow> nat \<Rightarrow> bool" where
  "result_ok b i = (if next_index b \<le> i then results b ! i = None \<and> received b i = []
     else case results b ! i of
       Some (BatchOk st hs body d) \<Rightarrow> body = received b i
     | Some (BatchFailed e) \<Rightarrow> True
     | None \<Rightarrow> Some i \<in> set (map lane_index (lanes b)))"

definition batch_ok :: "batch \<Rightarrow> bool" where
  "batch_ok b \<longleftrightarrow> length (results b) = length (requests b) \<and> (requests b \<noteq> [] \<longrightarrow> lanes b \<noteq> []) \<and>
     (\<forall>l < length (lanes b). lane_ok b (lanes b ! l)) \<and> lanes_apart b \<and> (\<forall>i < length (requests b). result_ok b i) \<and>
     payloadBytes b = held_bytes b \<and> workingBytes b = held_bytes b \<and> held_bytes b \<le> maxTotal b"

lemma new_batch_ok: "1 \<le> n \<Longrightarrow> batch_ok (new_batch rs n mx)"
  by (auto simp: batch_ok_def new_batch_def held_bytes_def lane_ok_def lanes_apart_def result_ok_def sum_list_replicate)

text \<open>
  The frame of every step: lane \<open>l\<close> changes to \<open>y\<close>, and only the request \<open>k\<close> that the lane has, or
  takes next, is touched.
\<close>

definition touches :: "nat \<Rightarrow> nat \<Rightarrow> batch \<Rightarrow> batch \<Rightarrow> bool" where
  "touches l k b b' \<longleftrightarrow> requests b' = requests b \<and> maxTotal b' = maxTotal b \<and> length (results b') = length (results b) \<and>
     (\<forall>i. i \<noteq> k \<longrightarrow> results b' ! i = results b ! i \<and> received b' i = received b i) \<and>
     (lane_index (lanes b ! l) = Some k \<and> next_index b' = next_index b \<or>
      lane_index (lanes b ! l) = None \<and> k = next_index b \<and> next_index b' = Suc k)"

lemma lane_step:
  assumes b: "batch_ok b" and l: "l < length (lanes b)" and lanes: "lanes b' = (lanes b)[l := y]" and t: "touches l k b b'"
    and y: "lane_ok b' y" "lane_index y = None \<or> lane_index y = Some k" and k: "k < length (requests b) \<Longrightarrow> result_ok b' k"
    and sums: "payloadBytes b' = held_bytes b'" "workingBytes b' = held_bytes b'" "held_bytes b' \<le> maxTotal b"
  shows "batch_ok b'"
proof -
  have same: "requests b' = requests b" "maxTotal b' = maxTotal b" "length (results b') = length (results b)"
    and others: "\<And>i. i \<noteq> k \<Longrightarrow> results b' ! i = results b ! i" "\<And>i. i \<noteq> k \<Longrightarrow> received b' i = received b i"
    and grows: "next_index b \<le> next_index b'" using t by (auto simp: touches_def)
  have apart: "lane_index (lanes b ! m) \<noteq> Some k" if "m < length (lanes b)" "m \<noteq> l" for m
  proof (cases "lane_index (lanes b ! l)")
    case None
    then have "k = next_index b" using t by (simp add: touches_def)
    moreover have "lane_ok b (lanes b ! m)" using b that by (simp add: batch_ok_def)
    ultimately show ?thesis by (cases "lanes b ! m") (auto simp: lane_ok_def job_ok_def)
  next
    case (Some i)
    then have "lane_index (lanes b ! l) = Some k" using t by (simp add: touches_def)
    moreover have "lane_index (lanes b ! l) = lane_index (lanes b ! m) \<longrightarrow> lane_index (lanes b ! l) = None"
      using b l that unfolding batch_ok_def lanes_apart_def by metis
    ultimately show ?thesis by auto
  qed
  have "lane_ok b' (lanes b ! m)" if m: "m < length (lanes b)" "m \<noteq> l" for m
  proof -
    have "lane_ok b (lanes b ! m)" using b m by (simp add: batch_ok_def)
    then show ?thesis
      using apart [OF m] others grows same by (cases "lanes b ! m") (auto simp: lane_ok_def job_ok_def split: job_phase.splits batch_result.splits)
  qed
  then have "lane_ok b' (lanes b' ! m)" if "m < length (lanes b')" for m
    using that y(1) l unfolding lanes by (cases "m = l") simp_all
  moreover have "lanes_apart b'"
    unfolding lanes_apart_def
  proof (intro allI impI)
    fix m n assume mn: "m < length (lanes b')" "n < length (lanes b')" "m \<noteq> n" "lane_index (lanes b' ! m) = lane_index (lanes b' ! n)"
    have "lanes_apart b" using b by (simp add: batch_ok_def)
    then show "lane_index (lanes b' ! m) = None"
      using mn y(2) apart [of m] apart [of n] unfolding lanes lanes_apart_def by (cases "m = l"; cases "n = l") auto
  qed
  moreover have "result_ok b' i" if i: "i < length (requests b)" for i
  proof (cases "i = k")
    case False
    have old: "result_ok b i" using b i by (simp add: batch_ok_def)
    have "Some i \<in> set (map lane_index (lanes b'))" if "Some i \<in> set (map lane_index (lanes b))"
    proof -
      from that obtain m where m: "m < length (lanes b)" "lane_index (lanes b ! m) = Some i" by (auto simp: in_set_conv_nth)
      moreover have "m \<noteq> l" using m(2) t False by (auto simp: touches_def)
      ultimately have "lanes b' ! m = lanes b ! m" "m < length (lanes b')" unfolding lanes by simp_all
      with m(2) show ?thesis by (metis length_map nth_map nth_mem)
    qed
    moreover have "next_index b' \<le> i \<longleftrightarrow> next_index b \<le> i" using t False by (auto simp: touches_def)
    ultimately show ?thesis
      using old others [OF False] by (auto simp: result_ok_def split: option.splits batch_result.splits if_splits)
  qed (use k i in simp)
  ultimately show ?thesis
    using b l sums same unfolding batch_ok_def by (auto simp: lanes)
qed

lemma sum_update: "k < length xs \<Longrightarrow> sum_list (map f (xs[k := x])) + f (xs ! k) = sum_list (map f xs) + (f x :: nat)"
  by (simp add: map_update sum_list_update member_le_sum_list trans_le_add1)

lemma held_update:
  assumes "l < length (lanes b)" and "lanes b' = (lanes b)[l := y]" and "results b' = results b"
  shows "held_bytes b' + lane_bytes (lanes b ! l) = held_bytes b + lane_bytes y"
  using sum_update [OF assms(1), of lane_bytes y] assms(2,3) by (simp add: held_bytes_def)

lemma held_result:
  assumes "l < length (lanes b)" and "lanes b' = (lanes b)[l := y]" and "k < length (results b)" and "results b' = (results b)[k := r]"
    and "results b ! k = None"
  shows "held_bytes b' + lane_bytes (lanes b ! l) = held_bytes b + lane_bytes y + result_bytes r"
  using sum_update [OF assms(1), of lane_bytes y] sum_update [OF assms(3), of result_bytes r] assms(2,4,5) by (simp add: held_bytes_def)

text \<open>A job in progress, with what the invariant says of it.\<close>

lemma busyD:
  assumes "batch_ok b" and "lane_at b l (LaneBusy j)"
  shows "l < length (lanes b)" "lanes b ! l = LaneBusy j" "job_ok b j" "j_index j < length (results b)"
    "payloadBytes b = held_bytes b" "workingBytes b = held_bytes b" "held_bytes b \<le> maxTotal b" "j_bytes j \<le> held_bytes b"
proof -
  show l: "l < length (lanes b)" "lanes b ! l = LaneBusy j" using assms(2) by (simp_all add: lane_at_def)
  then have "lane_ok b (LaneBusy j)" using assms(1) by (metis batch_ok_def)
  then show j: "job_ok b j" by (simp add: lane_ok_def)
  show "j_index j < length (results b)" "payloadBytes b = held_bytes b" "workingBytes b = held_bytes b" "held_bytes b \<le> maxTotal b"
    using assms(1) j by (simp_all add: batch_ok_def job_ok_def)
  have "lane_bytes (lanes b ! l) \<le> sum_list (map lane_bytes (lanes b))" using l(1) by (simp add: member_le_sum_list)
  then show "j_bytes j \<le> held_bytes b" using l(2) by (simp add: held_bytes_def)
qed

lemma pending_result: "lane_index (lanes b' ! l) = Some k \<Longrightarrow> l < length (lanes b') \<Longrightarrow> results b' ! k = None \<Longrightarrow> k < next_index b' \<Longrightarrow> result_ok b' k"
proof -
  assume "lane_index (lanes b' ! l) = Some k" "l < length (lanes b')" "results b' ! k = None" "k < next_index b'"
  moreover from this(2) have "lane_index (lanes b' ! l) \<in> set (map lane_index (lanes b'))" by simp
  ultimately show ?thesis by (simp add: result_ok_def)
qed

lemma busy_step:
  assumes b: "batch_ok b" and at: "lane_at b l (LaneBusy j)" and j': "job_ok b' j'" "j_index j' = j_index j"
    and b': "lanes b' = (lanes b)[l := LaneBusy j']" "results b' = results b" "requests b' = requests b" "maxTotal b' = maxTotal b"
      "next_index b' = next_index b" "\<And>i. i \<noteq> j_index j \<Longrightarrow> received b' i = received b i"
    and sums: "payloadBytes b' + j_bytes j = payloadBytes b + j_bytes j'" "workingBytes b' + j_bytes j = workingBytes b + j_bytes j'" "payloadBytes b' \<le> maxTotal b"
  shows "batch_ok b'"
proof (rule lane_step [OF b _ b'(1), of "j_index j"])
  note d = busyD [OF b at]
  have "held_bytes b' + j_bytes j = held_bytes b + j_bytes j'" using held_update [OF d(1) b'(1,2)] d(2) by simp
  then show "payloadBytes b' = held_bytes b'" "workingBytes b' = held_bytes b'" "held_bytes b' \<le> maxTotal b" using sums d(5,6) by simp_all
  show "touches l (j_index j) b b'" using b' d(2) by (simp add: touches_def)
  show "lane_ok b' (LaneBusy j')" using j'(1) by (simp add: lane_ok_def)
  show "result_ok b' (j_index j)" by (rule pending_result [of _ l]) (use j' b' d in \<open>simp_all add: job_ok_def\<close>)
qed (use j'(2) busyD(1) [OF b at] in auto)

lemma done_step:
  assumes b: "batch_ok b" and at: "lane_at b l (LaneBusy j)" and r: "result_bytes (Some r) = j_bytes j"
      "\<And>st hs body d. r = BatchOk st hs body d \<Longrightarrow> body = received b (j_index j)"
    and b': "lanes b' = (lanes b)[l := LaneFree]" "results b' = (results b)[j_index j := Some r]" "requests b' = requests b" "maxTotal b' = maxTotal b"
      "next_index b' = next_index b" "received b' = received b" "payloadBytes b' = payloadBytes b" "workingBytes b' = workingBytes b"
  shows "batch_ok b'"
proof (rule lane_step [OF b _ b'(1), of "j_index j"])
  note d = busyD [OF b at]
  have "held_bytes b' + j_bytes j = held_bytes b + result_bytes (Some r)"
    using held_result [OF d(1) b'(1) d(4) b'(2)] d(2,3) by (simp add: job_ok_def)
  then show "payloadBytes b' = held_bytes b'" "workingBytes b' = held_bytes b'" "held_bytes b' \<le> maxTotal b" using r(1) b' d(5-7) by simp_all
  show "touches l (j_index j) b b'" using b' d(2) by (simp add: touches_def)
  show "result_ok b' (j_index j)" using r(2) b'(2,5,6) d(3,4) by (cases r) (simp_all add: result_ok_def job_ok_def)
qed (use busyD(1) [OF b at] in \<open>auto simp: lane_ok_def\<close>)

lemma job_fails_ok:
  assumes "batch_ok b" and "lane_at b l (LaneBusy j)" and "\<And>r. j_phase j \<noteq> Closing r"
  shows "batch_ok (job_fails l j e b)"
proof (cases "j_phase j = Opening")
  case True
  then have "j_bytes j = 0" "j_reserved j = 0" using busyD(3) [OF assms(1,2)] by (simp_all add: job_ok_def)
  with True show ?thesis
    by (intro done_step [OF assms(1,2), of "BatchFailed (encodeError e)"]) (simp_all add: job_fails_def set_lane_def Let_def)
next
  case False
  note d = busyD [OF assms(1,2)]
  have "job_ok (job_fails l j e b) (j\<lparr>j_phase := Closing (BatchFailed (encodeError e)), j_bytes := 0, j_reserved := 0\<rparr>)"
    using d(3) False by (simp add: job_ok_def job_fails_def set_lane_def Let_def)
  moreover have "j_reserved j = j_bytes j" using d(3) by (simp add: job_ok_def)
  ultimately show ?thesis
    by (intro busy_step [OF assms(1,2)]) (use d(5-8) False in \<open>auto simp: job_fails_def set_lane_def Let_def\<close>)
qed

lemma job_opened_ok:
  assumes "batch_ok b" and "lane_at b l (LaneBusy j)" and "j_phase j = Opening"
  shows "batch_ok (job_opened l j r b)"
proof (cases r)
  case (Inl e)
  with assms job_fails_ok show ?thesis by (simp add: job_opened_def)
next
  case (Inr md)
  note d = busyD [OF assms(1,2)]
  have "job_ok (job_opened l j r b) (j\<lparr>j_phase := Reading, j_diag := get md ''diagnostics'', j_metadata := md\<rparr>)"
    using d(3) assms(3) Inr by (simp add: job_ok_def job_opened_def set_lane_def)
  then show ?thesis
    by (rule busy_step [OF assms(1,2)]) (use d(5,7) Inr in \<open>auto simp: job_opened_def set_lane_def\<close>)
qed

lemma job_chunk_ok:
  assumes "batch_ok b" and "lane_at b l (LaneBusy j)" and "j_phase j = Reading"
  shows "batch_ok (job_chunk l j c b)"
proof (cases "maxTotal b < payloadBytes b + length c \<or> maxWorking b < workingBytes b + length c")
  case True
  with assms job_fails_ok show ?thesis by (simp add: job_chunk_def)
next
  case False
  note d = busyD [OF assms(1,2)]
  have "job_ok (job_chunk l j c b) (j\<lparr>j_bytes := j_bytes j + length c, j_reserved := j_reserved j + length c, j_chunks := j_chunks j @ [c]\<rparr>)"
    using d(3) assms(3) False by (simp add: job_ok_def job_chunk_def set_lane_def)
  then show ?thesis by (rule busy_step [OF assms(1,2)]) (use False in \<open>auto simp: job_chunk_def set_lane_def\<close>)
qed

text \<open>Both counters count the same bytes, so that the assembly always has room.\<close>

lemma completes_room:
  assumes "batch_ok b" and "lane_at b l (LaneBusy j)"
  shows "\<not> maxWorking b < workingBytes b + j_bytes j"
  using busyD(6-8) [OF assms] by simp

lemma job_read_ends_ok:
  assumes "batch_ok b" and "lane_at b l (LaneBusy j)" and "j_phase j = Reading"
  shows "batch_ok (job_read_ends l j b)"
  using busyD [OF assms(1,2)] assms(3)
  by (intro busy_step [OF assms(1,2), of _ "j\<lparr>j_phase := Completing\<rparr>"]) (auto simp: job_read_ends_def set_lane_def job_ok_def)

lemma job_completed_ok:
  assumes "batch_ok b" and "lane_at b l (LaneBusy j)" and "j_phase j = Completing"
  shows "batch_ok (job_completed l j whole r b)"
proof (cases r)
  case (Inl e)
  with assms job_fails_ok show ?thesis by (simp add: job_completed_def)
next
  case (Inr v)
  note d = busyD [OF assms(1,2)]
  let ?j = "j\<lparr>j_phase := Closing (BatchOk (get (j_metadata j) ''status'') (group_headers (metadata_headers (j_metadata j))) (concat (j_chunks j)) v)\<rparr>"
  have "job_completed l j whole r b = set_lane l (LaneBusy ?j) b"
    using Inr completes_room [OF assms(1,2)] by (simp add: job_completed_def)
  with d assms(3) show ?thesis
    by (intro busy_step [OF assms(1,2), of _ ?j]) (auto simp: set_lane_def job_ok_def)
qed

lemma job_closed_ok:
  assumes "batch_ok b" and "lane_at b l (LaneBusy j)" and "j_phase j = Closing r"
  shows "batch_ok (job_closed l j r b)"
proof (rule done_step [OF assms(1,2), of r])
  have "job_ok b j" using busyD(3) [OF assms(1,2)] .
  then show "result_bytes (Some r) = j_bytes j" "\<And>st hs body d. r = BatchOk st hs body d \<Longrightarrow> body = received b (j_index j)"
    using assms(3) by (cases r; simp add: job_ok_def)+
qed (simp_all add: job_closed_def set_lane_def)

lemma lane_next_ok:
  assumes b: "batch_ok b" and at: "lane_at b l LaneFree"
  shows "batch_ok (lane_next l b)"
proof -
  let ?k = "next_index b"
  have l: "l < length (lanes b)" "lanes b ! l = LaneFree" using at by (simp_all add: lane_at_def)
  have sums: "payloadBytes b = held_bytes b" "workingBytes b = held_bytes b" "held_bytes b \<le> maxTotal b" "length (results b) = length (requests b)"
    using b by (simp_all add: batch_ok_def)
  have fresh: "results b ! ?k = None \<and> received b ?k = []" if "?k < length (requests b)"
    using b that by (auto simp: batch_ok_def result_ok_def)
  consider "length (requests b) \<le> ?k" | "?k < length (requests b)" "batch_aborted b" | "?k < length (requests b)" "\<not> batch_aborted b" by linarith
  then show ?thesis
  proof cases
    case 1
    then have eq: "lane_next l b = b\<lparr>next_index := Suc ?k, lanes := (lanes b)[l := LaneDone]\<rparr>" by (simp add: lane_next_def set_lane_def)
    have "held_bytes (lane_next l b) = held_bytes b" using held_update [OF l(1), of "lane_next l b" LaneDone] l(2) eq by simp
    then show ?thesis
      by (intro lane_step [OF b l(1), of _ LaneDone ?k]) (use 1 sums l eq in \<open>auto simp: touches_def lane_ok_def\<close>)
  next
    case 2
    let ?r = "BatchFailed (encodeError (Transport (uncertainError TIMEOUT)))"
    have eq: "lane_next l b = b\<lparr>next_index := Suc ?k, results := (results b)[?k := Some ?r]\<rparr>" using 2 by (simp add: lane_next_def Let_def)
    have "(lanes b)[l := LaneFree] = lanes b" using list_update_id [of "lanes b" l] l(2) by simp
    then have lanes: "lanes (lane_next l b) = (lanes b)[l := LaneFree]" using eq by simp
    have "held_bytes (lane_next l b) = held_bytes b"
      using held_result [OF l(1) lanes, of ?k "Some ?r"] fresh 2 l(2) sums(4) eq by simp
    then show ?thesis
      by (intro lane_step [OF b l(1) lanes, of ?k]) (use 2 sums l eq in \<open>auto simp: touches_def lane_ok_def result_ok_def\<close>)
  next
    case 3
    let ?j = "start_job ?k (requests b ! ?k)"
    have eq: "lane_next l b = b\<lparr>next_index := Suc ?k, lanes := (lanes b)[l := LaneBusy ?j]\<rparr>" using 3 by (simp add: lane_next_def set_lane_def Let_def)
    have "held_bytes (lane_next l b) = held_bytes b"
      using held_update [OF l(1), of "lane_next l b" "LaneBusy ?j"] l(2) eq by (simp add: start_job_def)
    moreover have "result_ok (lane_next l b) ?k"
      by (rule pending_result [of _ l]) (use 3 eq l fresh in \<open>simp_all add: start_job_def\<close>)
    moreover have "lane_ok (lane_next l b) (LaneBusy ?j)"
      using 3 fresh eq by (simp add: lane_ok_def job_ok_def start_job_def)
    ultimately show ?thesis
      by (intro lane_step [OF b l(1), of _ "LaneBusy ?j" ?k]) (use 3 sums l eq in \<open>auto simp: touches_def start_job_def\<close>)
  qed
qed

lemma aborted_same [simp]:
  "job_ok (b\<lparr>batch_aborted := x\<rparr>) j = job_ok b j" "lane_ok (b\<lparr>batch_aborted := x\<rparr>) y = lane_ok b y"
  "result_ok (b\<lparr>batch_aborted := x\<rparr>) i = result_ok b i" "lanes_apart (b\<lparr>batch_aborted := x\<rparr>) = lanes_apart b"
  "held_bytes (b\<lparr>batch_aborted := x\<rparr>) = held_bytes b"
  by (auto simp: job_ok_def lane_ok_def result_ok_def lanes_apart_def held_bytes_def split: lane.split job_phase.split batch_result.split option.split)

lemma batch_step_ok: "batch_step b b' \<Longrightarrow> batch_ok b \<Longrightarrow> batch_ok b'"
proof (induction rule: batch_step.induct)
  case (aborts b)
  then show ?case
    by (simp add: batch_ok_def)
qed (simp_all add: lane_next_ok job_opened_ok job_chunk_ok job_fails_ok job_read_ends_ok job_completed_ok job_closed_ok)

lemma batch_reachable_ok: "batch_reachable b \<Longrightarrow> batch_ok b"
  by (induction rule: batch_reachable.induct) (auto intro: new_batch_ok batch_step_ok)

text \<open>Two requests over one lane: the first delivers three bytes, the second exceeds what is left.\<close>

definition sample_job :: "nat \<Rightarrow> job" where
  "sample_job i = (start_job i (JObj []))\<lparr>j_phase := Reading, j_diag := JUndef, j_metadata := JObj []\<rparr>"

definition sample_batch :: batch where
  "sample_batch = job_chunk 0 (sample_job 0) [1, 2, 3] (job_opened 0 (start_job 0 (JObj [])) (Inr (JObj [])) (lane_next 0 (new_batch [JObj [], JObj []] 1 4)))"

definition sample_first :: job where
  "sample_first = (sample_job 0)\<lparr>j_bytes := 3, j_reserved := 3, j_chunks := [[1, 2, 3]], j_phase := Completing\<rparr>"

definition sample_ok :: batch_result where
  "sample_ok = BatchOk JUndef [] [1, 2, 3] JNull"

definition sample_half :: batch where
  "sample_half = job_closed 0 (sample_first\<lparr>j_phase := Closing sample_ok\<rparr>) sample_ok
     (job_completed 0 sample_first True (Inr JNull) (job_read_ends 0 (sample_first\<lparr>j_phase := Reading\<rparr>) sample_batch))"

definition sample_over :: batch where
  "sample_over = lane_next 0 (let b = lane_next 0 sample_half in job_opened 0 (start_job 1 (JObj [])) (Inl (Other JUndef)) b)"

lemmas sample_batch_defs = sample_batch_def sample_job_def new_batch_def lane_next_def set_lane_def job_opened_def job_chunk_def
  start_job_def sample_first_def sample_ok_def sample_half_def job_read_ends_def job_completed_def job_closed_def metadata_headers_def get_literal Let_def

lemma sample_batch_lanes: "lanes (lane_next 0 (new_batch [JObj [], JObj []] 1 4)) = [LaneBusy (start_job 0 (JObj []))]"
    "lanes (job_opened 0 (start_job 0 (JObj [])) (Inr (JObj [])) (lane_next 0 (new_batch [JObj [], JObj []] 1 4))) = [LaneBusy (sample_job 0)]"
    "lanes sample_batch = [LaneBusy (sample_first\<lparr>j_phase := Reading\<rparr>)]"
    "lanes (job_read_ends 0 (sample_first\<lparr>j_phase := Reading\<rparr>) sample_batch) = [LaneBusy sample_first]"
    "lanes (job_completed 0 sample_first True (Inr JNull) (job_read_ends 0 (sample_first\<lparr>j_phase := Reading\<rparr>) sample_batch)) =
      [LaneBusy (sample_first\<lparr>j_phase := Closing sample_ok\<rparr>)]"
    "lanes sample_half = [LaneFree]" "lanes (lane_next 0 sample_half) = [LaneBusy (start_job 1 (JObj []))]"
  by (simp_all add: sample_batch_defs)

lemma sample_half_reachable: "batch_reachable sample_half"
  unfolding sample_half_def
proof (rule batch_moves [OF batch_moves [OF batch_moves [OF _ read_ends] completes] closed])
  show "batch_reachable sample_batch"
    unfolding sample_batch_def
  proof (rule batch_moves [OF batch_moves [OF batch_moves [OF batch_starts takes] opens] reads])
  qed (simp_all only: lane_at_def sample_batch_lanes, simp_all add: new_batch_def start_job_def sample_job_def)
qed (simp_all only: lane_at_def sample_batch_lanes, simp_all add: sample_first_def sample_job_def)

lemma sample_over_reachable: "batch_reachable sample_over"
  unfolding sample_over_def Let_def
proof (rule batch_moves [OF batch_moves [OF batch_moves [OF sample_half_reachable takes] opens] takes])
qed (simp_all only: lane_at_def sample_batch_lanes, simp_all add: sample_batch_defs job_fails_def)

lemma sample_over_done: "list_all (\<lambda>x. x = LaneDone) (lanes sample_over)" "results sample_over ! 0 = Some sample_ok"
  "length (requests sample_over) = 2" "received sample_over 0 = [1, 2, 3]"
  by (simp_all add: sample_over_def sample_batch_defs job_fails_def)

subsection \<open>Properties\<close>

text \<open>
  C28: However the lanes interleave and whichever requests fail, the counters are exact: both equal
  the bytes of the requests in progress plus those of the results kept, the total never exceeds
  the limit of the batch, and the copy that assembles a body always fits the working limit.
\<close>

theorem batch_within_budget:
  assumes "batch_reachable b"
  shows "payloadBytes b = held_bytes b \<and> workingBytes b = held_bytes b \<and> sum_list (map result_bytes (results b)) \<le> maxTotal b \<and>
    (\<forall>l j. lane_at b l (LaneBusy j) \<longrightarrow> workingBytes b + j_bytes j \<le> maxWorking b)"
  using batch_reachable_ok [OF assms] completes_room [OF batch_reachable_ok [OF assms]]
  by (auto simp: batch_ok_def held_bytes_def not_less)

theorem batch_within_budget_witness: "payloadBytes sample_over = held_bytes sample_over \<and> sum_list (map result_bytes (results sample_over)) \<le> maxTotal sample_over"
  using batch_within_budget [OF sample_over_reachable] by blast

text \<open>
  When every lane has ended, every request of the batch has exactly one result, at its own
  position, and a successful result carries exactly the bytes that its own stream delivered.
\<close>

theorem batch_complete:
  assumes "batch_reachable b" and "list_all (\<lambda>x. x = LaneDone) (lanes b)"
  shows "length (results b) = length (requests b) \<and> (\<forall>i < length (requests b). \<exists>r. results b ! i = Some r \<and>
    (case r of BatchOk st hs body d \<Rightarrow> body = received b i | BatchFailed e \<Rightarrow> True))"
proof -
  have b: "batch_ok b" using assms(1) by (rule batch_reachable_ok)
  have none: "Some i \<notin> set (map lane_index (lanes b))" for i using assms(2) by (auto simp: list_all_iff)
  have "\<exists>r. results b ! i = Some r \<and> (case r of BatchOk st hs body d \<Rightarrow> body = received b i | BatchFailed e \<Rightarrow> True)"
    if i: "i < length (requests b)" for i
  proof -
    have "lanes b \<noteq> []" using b i by (auto simp: batch_ok_def)
    then have "lane_at b 0 LaneDone" using assms(2) by (cases "lanes b") (simp_all add: lane_at_def)
    then have "length (requests b) \<le> next_index b" using b by (auto simp: batch_ok_def lane_at_def lane_ok_def)
    moreover have "result_ok b i" using b i by (simp add: batch_ok_def)
    ultimately show ?thesis using i none by (auto simp: result_ok_def split: option.splits batch_result.splits)
  qed
  then show ?thesis using b by (simp add: batch_ok_def)
qed

theorem batch_complete_witness: "length (results sample_over) = 2 \<and> (\<exists>r. results sample_over ! 1 = Some r)"
  using batch_complete [OF sample_over_reachable sample_over_done(1)] sample_over_done(3) by (metis one_less_numeral_iff semiring_norm(76))

end
