(* ===== verification/Bridge.thy ===== *)
theory Bridge
  imports Batch
begin

text \<open>
  The bridge between the blocking client and its worker: \<open>#receive\<close>, \<open>#call\<close>, \<open>#release\<close> and \<open>close\<close> of
  \<open>src/packages/typescript/src/sync/index.ts\<close>, and the message loop of
  \<open>src/packages/typescript/src/sync/worker.ts\<close>. The two run on threads of their own and share two
  32-bit cells: a generation that wraps around, and the status. What each thread does to them and to
  the ports are single steps, so that every interleaving is a run. The client waits with
  \<open>Atomics.wait\<close>, which falls asleep only if the generation is still the one it loaded.
\<close>

subsection \<open>State\<close>

datatype operation_name =
    Op_request | Op_tryRequest | Op_requestMany | Op_capabilities | Op_requestStatus | Op_cancelRequest | Op_createSession
  | Op_sessionRequest | Op_sessionTryRequest | Op_sessionClose | Op_getCookies | Op_setCookies | Op_exportCookies | Op_importCookies
  | Op_rebindIdentity | Op_close

record command =
  cmd_id :: nat
  cmd_operation :: operation_name
  cmd_value :: jsval

text \<open>\<open>{ id, ok, value }\<close> or \<open>{ id, ok, error }\<close>.\<close>

record packet =
  pk_id :: nat
  pk_ok :: bool
  pk_value :: jsval

text \<open>What the worker has still to do in its current turn; a turn is never interrupted by another of its own.\<close>

datatype micro = Post packet | Add | Notify | Status nat | ClosePort | ClearBusy

datatype waiting = Idle | Loading | Receiving "32 word" | Checking "32 word" | Waiting "32 word" | Sleeping "32 word"

record bridge =
  generation :: "32 word"
  status_cell :: nat
  inbox :: "packet list"
  w_inbox :: "command list"
  w_todo :: "micro list"
  w_stopped :: bool
  w_busy :: bool
  w_active :: nat
  w_computing :: "command option"
  w_closedPort :: bool
  p_state :: waiting
  p_id :: nat
  p_dispatched :: bool
  p_operation :: operation_name
  sequence :: nat
  p_closing :: bool
  p_closed :: bool
  cleanupComplete :: bool
  failure :: "transport_error option"
  returned :: "(nat \<times> (transport_error + jsval)) list"
  served :: "(nat \<times> (thrown + jsval)) list"

subsection \<open>The worker\<close>

definition reply :: "nat \<Rightarrow> thrown + jsval \<Rightarrow> micro list" where
  "reply i r = [Post \<lparr>pk_id = i, pk_ok = (case r of Inl _ \<Rightarrow> False | Inr _ \<Rightarrow> True), pk_value = (case r of Inl e \<Rightarrow> encodeError e | Inr v \<Rightarrow> v)\<rparr>,
     Add, Notify]"

definition stop :: "micro list" where
  "stop = [Status 2, Add, Notify, ClosePort]"

text \<open>\<open>fatal\<close>, when it is not already stopped.\<close>

definition fatal :: "bridge \<Rightarrow> bridge" where
  "fatal s = (if w_stopped s then s
     else s\<lparr>w_todo := reply (w_active s) (Inl (Transport (uncertainError UNKNOWN))) @ stop, w_stopped := True\<rparr>)"

definition worker_starts :: "transport_error option \<Rightarrow> micro list" where
  "worker_starts e = (case e of None \<Rightarrow> Status 1 # reply 0 (Inr JNull) | Some e \<Rightarrow> reply 0 (Inl (Transport e)) @ stop)"

text \<open>The \<open>message\<close> handler, on a command that passes \<open>command\<close> (\<open>passes\<close>) or not.\<close>

definition worker_message :: "bool \<Rightarrow> bridge \<Rightarrow> bridge" where
  "worker_message passes s = (case w_inbox s of [] \<Rightarrow> s
     | c # cs \<Rightarrow> let s1 = s\<lparr>w_inbox := cs\<rparr> in
         if w_stopped s then s1
         else if w_busy s \<or> \<not> passes then fatal s1
         else s1\<lparr>w_busy := True, w_active := cmd_id c, w_computing := Some c\<rparr>)"

text \<open>
  \<open>dispatch\<close> settles: the reply, \<open>stop\<close> after a successful \<open>close\<close>, and \<open>busy = false\<close> at the end of the
  turn. What \<open>dispatch\<close> gives is plain data, which \<open>postMessage\<close> can clone; a reply that it could not
  clone, and the \<open>fatal\<close> that would follow, are not modelled.
\<close>

definition worker_settles :: "thrown + jsval \<Rightarrow> bridge \<Rightarrow> bridge" where
  "worker_settles r s = (case w_computing s of None \<Rightarrow> s
     | Some c \<Rightarrow> let ends = (cmd_operation c = Op_close \<and> (case r of Inl _ \<Rightarrow> False | Inr _ \<Rightarrow> True) \<and> \<not> w_stopped s) in
         s\<lparr>w_computing := None, served := served s @ [(cmd_id c, r)],
           w_todo := reply (cmd_id c) r @ (if ends then stop else []) @ [ClearBusy], w_stopped := w_stopped s \<or> ends\<rparr>)"

definition micro_step :: "bridge \<Rightarrow> bridge" where
  "micro_step s = (case w_todo s of [] \<Rightarrow> s
     | x # xs \<Rightarrow> let s1 = s\<lparr>w_todo := xs\<rparr> in (case x of
         Post p \<Rightarrow> if w_closedPort s then s1 else s1\<lparr>inbox := inbox s @ [p]\<rparr>
       | Add \<Rightarrow> s1\<lparr>generation := generation s + 1\<rparr>
       | Notify \<Rightarrow> (case p_state s of Sleeping g \<Rightarrow> s1\<lparr>p_state := Loading\<rparr> | _ \<Rightarrow> s1)
       | Status n \<Rightarrow> s1\<lparr>status_cell := n\<rparr>
       | ClosePort \<Rightarrow> s1\<lparr>w_closedPort := True\<rparr>
       | ClearBusy \<Rightarrow> s1\<lparr>w_busy := False\<rparr>))"

subsection \<open>The client\<close>

definition client_release :: "bridge \<Rightarrow> bridge" where
  "client_release s = s\<lparr>p_closed := True\<rparr>"

text \<open>A call ends: it returns or throws. \<open>close\<close> releases after success; the constructor releases after any error.\<close>

definition call_ends :: "transport_error + jsval \<Rightarrow> bridge \<Rightarrow> bridge" where
  "call_ends r s =
     (let s1 = s\<lparr>p_state := Idle, returned := returned s @ [(p_id s, r)]\<rparr> in
      case r of
        Inl e \<Rightarrow> if p_dispatched s then s1 else client_release s1
      | Inr v \<Rightarrow> if p_dispatched s \<and> p_operation s = Op_close then client_release (s1\<lparr>cleanupComplete := True\<rparr>) else s1)"

definition call_fails :: "transport_error \<Rightarrow> bridge \<Rightarrow> bridge" where
  "call_fails e s = call_ends (Inl e) (client_release (s\<lparr>failure := Some e\<rparr>))"

definition sync_call :: "operation_name \<Rightarrow> jsval \<Rightarrow> bool \<Rightarrow> bridge \<Rightarrow> transport_error option \<times> bridge" where
  "sync_call op v clones s =
     (if p_closed s then (Some (case failure s of Some e \<Rightarrow> e | None \<Rightarrow> client_closed), s)
      else if p_closing s \<and> op \<noteq> Op_close \<and> op \<noteq> Op_sessionClose then (Some client_closed, s)
      else let i = Suc (sequence s); s1 = s\<lparr>sequence := i\<rparr> in
        if \<not> clones then let e = localError UNKNOWN (Some Worker_unavailable) in (Some e, client_release (s1\<lparr>failure := Some e\<rparr>))
        else (None, s1\<lparr>w_inbox := w_inbox s @ [\<lparr>cmd_id = i, cmd_operation = op, cmd_value = v\<rparr>], p_state := Loading, p_id := i,
          p_dispatched := True, p_operation := op\<rparr>))"

definition sync_close :: "jsval \<Rightarrow> bridge \<Rightarrow> bridge" where
  "sync_close opts s = (if p_closed s then s else snd (sync_call Op_close opts True (s\<lparr>p_closing := True\<rparr>)))"

text \<open>The loop of \<open>#receive\<close>, one access to shared state at a time.\<close>

definition receive_load :: "bridge \<Rightarrow> bridge" where
  "receive_load s = s\<lparr>p_state := Receiving (generation s)\<rparr>"

definition receive_packet :: "packet \<Rightarrow> bridge \<Rightarrow> bridge" where
  "receive_packet p s =
     (if pk_id p \<noteq> p_id s then call_fails (localError PROTOCOL_ERROR None) s
      else if pk_ok p then call_ends (Inr (pk_value p)) s
      else case decodeError (pk_value p) of
        Inl e \<Rightarrow> call_ends (Inl e) s
      | Inr e \<Rightarrow> if te_kind e = Worker_unavailable \<or> status_cell s = 2 then call_fails e s else call_ends (Inl e) s)"

definition receive_message :: "32 word \<Rightarrow> bridge \<Rightarrow> bridge" where
  "receive_message g s = (case inbox s of [] \<Rightarrow> s\<lparr>p_state := Checking g\<rparr> | p # ps \<Rightarrow> receive_packet p (s\<lparr>inbox := ps\<rparr>))"

definition unavailable :: "error_code \<Rightarrow> bridge \<Rightarrow> transport_error" where
  "unavailable code s = (if p_dispatched s then uncertainError code else localError code (Some Worker_unavailable))"

definition receive_check :: "bool \<Rightarrow> 32 word \<Rightarrow> bridge \<Rightarrow> bridge" where
  "receive_check expired g s =
     (if failure s \<noteq> None \<or> status_cell s = 2 then call_fails (case failure s of Some e \<Rightarrow> e | None \<Rightarrow> unavailable UNKNOWN s) s
      else if expired then call_fails (unavailable TIMEOUT s) s
      else s\<lparr>p_state := Waiting g\<rparr>)"

text \<open>\<open>Atomics.wait\<close>: compare and fall asleep in one step; it returns on a notification or after the time left.\<close>

definition receive_wait :: "32 word \<Rightarrow> bridge \<Rightarrow> bridge" where
  "receive_wait g s = s\<lparr>p_state := (if generation s = g then Sleeping g else Loading)\<rparr>"

text \<open>The \<open>error\<close> and \<open>exit\<close> listeners; they run on the client's own thread, so never inside a call.\<close>

definition worker_gone :: "bool \<Rightarrow> bridge \<Rightarrow> bridge" where
  "worker_gone exited s = s\<lparr>failure := (if failure s = None \<and> \<not> (exited \<and> p_closed s) then Some (uncertainError UNKNOWN) else failure s),
     status_cell := 2, generation := generation s + 1\<rparr>"

subsection \<open>Runs\<close>

definition new_bridge :: "transport_error option \<Rightarrow> bridge" where
  "new_bridge boot = \<lparr>generation = 0, status_cell = 0, inbox = [], w_inbox = [], w_todo = worker_starts boot, w_stopped = (boot \<noteq> None),
     w_busy = False, w_active = 0, w_computing = None, w_closedPort = False, p_state = Loading, p_id = 0, p_dispatched = False,
     p_operation = Op_close, sequence = 0, p_closing = False, p_closed = False, cleanupComplete = False, failure = None, returned = [],
     served = []\<rparr>"

inductive bridge_step :: "bridge \<Rightarrow> bridge \<Rightarrow> bool" where
  works: "w_todo s \<noteq> [] \<Longrightarrow> bridge_step s (micro_step s)"
| worker_receives: "w_todo s = [] \<Longrightarrow> bridge_step s (worker_message passes s)"
| worker_ends: "w_todo s = [] \<Longrightarrow> bridge_step s (worker_settles r s)"
| worker_crashes: "w_todo s = [] \<Longrightarrow> bridge_step s (fatal s)"
| calls: "p_state s = Idle \<Longrightarrow> op \<noteq> Op_close \<Longrightarrow> bridge_step s (snd (sync_call op v clones s))"
| closes: "p_state s = Idle \<Longrightarrow> bridge_step s (sync_close opts s)"
| loads: "p_state s = Loading \<Longrightarrow> bridge_step s (receive_load s)"
| receives: "p_state s = Receiving g \<Longrightarrow> bridge_step s (receive_message g s)"
| checks: "p_state s = Checking g \<Longrightarrow> bridge_step s (receive_check expired g s)"
| waits: "p_state s = Waiting g \<Longrightarrow> bridge_step s (receive_wait g s)"
| times_out: "p_state s = Sleeping g \<Longrightarrow> bridge_step s (s\<lparr>p_state := Loading\<rparr>)"
| listens: "p_state s = Idle \<Longrightarrow> bridge_step s (worker_gone exited s)"

inductive bridge_reachable :: "bridge \<Rightarrow> bool" where
  bridge_starts: "bridge_reachable (new_bridge boot)"
| bridge_moves: "bridge_reachable s \<Longrightarrow> bridge_step s s' \<Longrightarrow> bridge_reachable s'"

end
