(* ===== verification/Bridge_Correct.thy ===== *)
theory Bridge_Correct
  imports Bridge
begin

text \<open>
  What the bridge guarantees in every interleaving: the client never sleeps through a message, a
  value it returns is the one the worker computed for that very command, and the worker is never
  found busy by a command.
\<close>

subsection \<open>Turns of the worker\<close>

text \<open>Whatever the worker makes visible is announced next: by a new generation and a notification.\<close>

fun announced :: "micro list \<Rightarrow> bool" where
  "announced [] = True"
| "announced (x # xs) = ((case x of Post _ \<Rightarrow> (\<exists>r. xs = Add # Notify # r) | Status n \<Rightarrow> n = 2 \<longrightarrow> (\<exists>r. xs = Add # Notify # r)
     | Add \<Rightarrow> (\<exists>r. xs = Notify # r) | _ \<Rightarrow> True) \<and> announced xs)"

definition adds :: "micro list \<Rightarrow> nat" where
  "adds xs = length (filter (\<lambda>x. x = Add) xs)"

fun posted :: "micro list \<Rightarrow> packet list" where
  "posted [] = []"
| "posted (Post p # xs) = p # posted xs"
| "posted (_ # xs) = posted xs"

definition packets :: "bridge \<Rightarrow> packet list" where
  "packets s = inbox s @ posted (w_todo s)"

definition out :: "bridge \<Rightarrow> nat" where
  "out s = length (w_inbox s) + (if w_computing s = None then 0 else 1)"

text \<open>How often the generation can still be advanced before the client sends again.\<close>

definition potential :: "bridge \<Rightarrow> nat" where
  "potential s = adds (w_todo s) + out s + (if w_stopped s then 0 else 2)"

definition fatal_packet :: "packet \<Rightarrow> bool" where
  "fatal_packet p \<longleftrightarrow> \<not> pk_ok p \<and> pk_value p = encodeError (Transport (uncertainError UNKNOWN))"

lemma turn_facts [simp]:
  "announced (reply i r @ xs) = announced xs" "announced (reply i r)" "announced stop" "announced (stop @ xs) = announced xs"
  "adds (reply i r) = 1" "adds stop = 1" "adds (xs @ ys) = adds xs + adds ys" "adds [] = 0" "adds [ClearBusy] = 0"
  "posted stop = []" "posted (stop @ xs) = posted xs"
  by (auto simp: reply_def stop_def adds_def)

lemma posted_reply [simp]: "posted (reply i r @ xs) =
    \<lparr>pk_id = i, pk_ok = (case r of Inl _ \<Rightarrow> False | Inr _ \<Rightarrow> True), pk_value = (case r of Inl e \<Rightarrow> encodeError e | Inr v \<Rightarrow> v)\<rparr> # posted xs"
    "posted (reply i r) = [\<lparr>pk_id = i, pk_ok = (case r of Inl _ \<Rightarrow> False | Inr _ \<Rightarrow> True), pk_value = (case r of Inl e \<Rightarrow> encodeError e | Inr v \<Rightarrow> v)\<rparr>]"
  by (simp_all add: reply_def)

subsection \<open>Who has said what\<close>

definition match_ok :: "bridge \<Rightarrow> bool" where
  "match_ok s \<longleftrightarrow> (\<forall>p \<in> set (packets s). pk_ok p \<longrightarrow> pk_id p = 0 \<or> (pk_id p, Inr (pk_value p)) \<in> set (served s)) \<and>
     (\<forall>i v. (i, Inr v) \<in> set (returned s) \<longrightarrow> i = 0 \<or> (i, Inr v) \<in> set (served s)) \<and>
     distinct (map fst (served s) @ (case w_computing s of None \<Rightarrow> [] | Some c \<Rightarrow> [cmd_id c]) @ map cmd_id (w_inbox s)) \<and>
     (\<forall>i \<in> set (map fst (served s) @ (case w_computing s of None \<Rightarrow> [] | Some c \<Rightarrow> [cmd_id c]) @ map cmd_id (w_inbox s)). 0 < i \<and> i \<le> sequence s)"

text \<open>The turns that the client and the worker take, as far as the exchange of messages goes.\<close>

definition turn_ok :: "bridge \<Rightarrow> bool" where
  "turn_ok s \<longleftrightarrow> out s \<le> 1 \<and> (\<not> p_closed s \<and> p_state s = Idle \<longrightarrow> out s = 0) \<and> p_id s \<le> sequence s \<and> w_active s \<le> sequence s \<and>
     (\<forall>p \<in> set (packets s). pk_id p \<le> sequence s \<and> (pk_id p = p_id s \<and> \<not> fatal_packet p \<longrightarrow> p_state s = Idle \<or> out s = 0)) \<and>
     announced (w_todo s) \<and> adds (w_todo s) \<le> 2 \<and> (w_busy s \<longrightarrow> w_stopped s \<or> w_computing s \<noteq> None \<or> ClearBusy \<in> set (w_todo s)) \<and>
     (w_todo s \<noteq> [] \<longrightarrow> w_computing s = None \<or> w_stopped s)"

text \<open>The generation the client holds, and what has been announced since it loaded it.\<close>

definition news :: "bridge \<Rightarrow> bool" where
  "news s \<longleftrightarrow> inbox s \<noteq> [] \<or> status_cell s = 2"

definition since :: "32 word \<Rightarrow> nat \<Rightarrow> bridge \<Rightarrow> bool" where
  "since g n s \<longleftrightarrow> generation s = g + of_nat n \<and> n + potential s \<le> 5"

definition coming :: "nat \<Rightarrow> bridge \<Rightarrow> bool" where
  "coming n s \<longleftrightarrow> 0 < n \<or> (\<exists>r. w_todo s = Add # Notify # r)"

definition wake_ok :: "bridge \<Rightarrow> bool" where
  "wake_ok s = (case p_state s of
     Receiving g \<Rightarrow> \<exists>n. since g n s
   | Checking g \<Rightarrow> \<exists>n. since g n s \<and> (inbox s \<noteq> [] \<longrightarrow> coming n s)
   | Waiting g \<Rightarrow> \<exists>n. since g n s \<and> (news s \<longrightarrow> coming n s)
   | Sleeping g \<Rightarrow> \<exists>n. since g n s \<and> (0 < n \<longrightarrow> (\<exists>r. w_todo s = Notify # r)) \<and> (news s \<longrightarrow> coming n s)
   | _ \<Rightarrow> True)"

lemma new_bridge_ok: "match_ok (new_bridge boot)" "turn_ok (new_bridge boot)" "wake_ok (new_bridge boot)"
  by (cases boot; simp add: new_bridge_def match_ok_def turn_ok_def wake_ok_def packets_def out_def worker_starts_def; simp add: adds_def reply_def stop_def)+

lemma potential_bound: "turn_ok s \<Longrightarrow> potential s \<le> 5"
  by (auto simp: turn_ok_def potential_def)

subsection \<open>Matching\<close>

lemma match_frame:
  assumes "match_ok s" and "set (packets s') \<subseteq> set (packets s)" and "served s' = served s" and "w_computing s' = w_computing s"
    and "w_inbox s' = w_inbox s" and "sequence s \<le> sequence s'"
    and "\<And>i v. (i, Inr v) \<in> set (returned s') \<Longrightarrow> (i, Inr v) \<in> set (returned s) \<or> i = 0 \<or> (i, Inr v) \<in> set (served s)"
  shows "match_ok s'"
proof -
  have "pk_id p = 0 \<or> (pk_id p, Inr (pk_value p)) \<in> set (served s')" if "p \<in> set (packets s')" "pk_ok p" for p
    using assms(1-3) that unfolding match_ok_def by (metis subsetD)
  moreover have "i = 0 \<or> (i, Inr v) \<in> set (served s')" if "(i, Inr v) \<in> set (returned s')" for i v
    using assms(1,3) assms(7) [OF that] unfolding match_ok_def by metis
  moreover have "0 < i \<and> i \<le> sequence s'"
    if "i \<in> set (map fst (served s) @ (case w_computing s of None \<Rightarrow> [] | Some c \<Rightarrow> [cmd_id c]) @ map cmd_id (w_inbox s))" for i
    using assms(1,6) that unfolding match_ok_def by (meson order_trans)
  ultimately show ?thesis using assms(1) unfolding match_ok_def assms(3-5) by blast
qed

lemma micro_packets: "w_todo s = x # xs \<Longrightarrow> set (packets (micro_step s)) \<subseteq> set (packets s)"
  by (cases x) (auto simp: micro_step_def packets_def Let_def split: waiting.splits if_splits)

lemma micro_frame: "served (micro_step s) = served s" "w_computing (micro_step s) = w_computing s" "w_inbox (micro_step s) = w_inbox s"
    "sequence (micro_step s) = sequence s" "returned (micro_step s) = returned s" "p_id (micro_step s) = p_id s" "p_closed (micro_step s) = p_closed s"
    "w_active (micro_step s) = w_active s" "w_stopped (micro_step s) = w_stopped s" "w_todo (micro_step s) = tl (w_todo s)" "failure (micro_step s) = failure s"
  by (auto simp: micro_step_def Let_def split: list.split micro.split waiting.split)

lemma ends_frame [simp]:
  "served (call_ends r s) = served s" "w_computing (call_ends r s) = w_computing s" "w_inbox (call_ends r s) = w_inbox s"
  "sequence (call_ends r s) = sequence s" "returned (call_ends r s) = returned s @ [(p_id s, r)]" "inbox (call_ends r s) = inbox s"
  "w_todo (call_ends r s) = w_todo s" "p_state (call_ends r s) = Idle" "p_id (call_ends r s) = p_id s" "w_active (call_ends r s) = w_active s"
  "w_busy (call_ends r s) = w_busy s" "w_stopped (call_ends r s) = w_stopped s" "generation (call_ends r s) = generation s"
  by (simp_all add: call_ends_def client_release_def Let_def split: sum.split)

lemma fails_frame [simp]:
  "served (call_fails e s) = served s" "w_computing (call_fails e s) = w_computing s" "w_inbox (call_fails e s) = w_inbox s"
  "sequence (call_fails e s) = sequence s" "returned (call_fails e s) = returned s @ [(p_id s, Inl e)]" "inbox (call_fails e s) = inbox s"
  "w_todo (call_fails e s) = w_todo s" "p_state (call_fails e s) = Idle" "p_id (call_fails e s) = p_id s" "w_active (call_fails e s) = w_active s"
  "w_busy (call_fails e s) = w_busy s" "w_stopped (call_fails e s) = w_stopped s" "p_closed (call_fails e s)"
  by (simp_all add: call_fails_def client_release_def) (simp add: call_ends_def client_release_def Let_def)

lemma fatal_match: assumes "match_ok s" "w_todo s = []" shows "match_ok (fatal s)"
  using assms by (auto simp: fatal_def match_ok_def packets_def)

lemma message_match: assumes "match_ok s" and "w_todo s = []" shows "match_ok (worker_message b s)"
proof (cases "w_inbox s")
  case Nil
  with assms show ?thesis by (simp add: worker_message_def)
next
  case (Cons c cs)
  have dropped: "match_ok (s\<lparr>w_inbox := cs\<rparr>)" using assms(1) Cons by (auto simp: match_ok_def packets_def)
  then have "match_ok (fatal (s\<lparr>w_inbox := cs\<rparr>))" using assms(2) by (intro fatal_match) simp_all
  moreover have "match_ok (s\<lparr>w_inbox := cs, w_busy := True, w_active := cmd_id c, w_computing := Some c\<rparr>)"
    using assms(1) Cons by (auto simp: match_ok_def packets_def split: option.splits)
  ultimately show ?thesis using Cons dropped by (simp add: worker_message_def Let_def)
qed

lemma settles_match: assumes "match_ok s" and "w_todo s = []" shows "match_ok (worker_settles r s)"
proof (cases "w_computing s")
  case (Some c)
  then show ?thesis using assms by (auto simp: worker_settles_def match_ok_def packets_def Let_def split: sum.splits)
qed (use assms in \<open>simp add: worker_settles_def\<close>)

lemma call_match: assumes "match_ok s" shows "match_ok (snd (sync_call op v clones s))"
proof -
  have "match_ok (s\<lparr>sequence := Suc (sequence s), w_inbox := w_inbox s @ [\<lparr>cmd_id = Suc (sequence s), cmd_operation = op, cmd_value = v\<rparr>],
      p_state := Loading, p_id := Suc (sequence s), p_dispatched := True, p_operation := op\<rparr>)"
    using assms unfolding match_ok_def packets_def by (simp add: ball_Un) (auto simp: less_Suc_eq_le Suc_le_eq split: option.splits)
  moreover have "match_ok (client_release (s\<lparr>sequence := Suc (sequence s), failure := f\<rparr>))" for f
    by (rule match_frame [OF assms]) (simp_all add: client_release_def packets_def)
  ultimately show ?thesis using assms by (auto simp: sync_call_def Let_def)
qed

lemma packet_match:
  assumes "match_ok s" and "inbox s = p # ps"
  shows "match_ok (receive_packet p (s\<lparr>inbox := ps\<rparr>))"
proof (rule match_frame [OF assms(1)])
  show "(i, Inr v) \<in> set (returned s) \<or> i = 0 \<or> (i, Inr v) \<in> set (served s)"
    if "(i, Inr v) \<in> set (returned (receive_packet p (s\<lparr>inbox := ps\<rparr>)))" for i v
    using that assms by (auto simp: receive_packet_def match_ok_def packets_def split: if_splits sum.splits)
qed (use assms(2) in \<open>auto simp: receive_packet_def packets_def split: sum.split\<close>)

lemma step_match: "bridge_step s s' \<Longrightarrow> match_ok s \<Longrightarrow> match_ok s'"
proof (induction rule: bridge_step.induct)
  case (works s)
  then obtain x xs where "w_todo s = x # xs" by (cases "w_todo s") auto
  with works(2) show ?case by (intro match_frame [OF works(2)]) (simp_all add: micro_frame micro_packets)
next
  case (closes s opts)
  have "match_ok (s\<lparr>p_closing := True\<rparr>)" by (rule match_frame [OF closes(2)]) (simp_all add: packets_def)
  with closes(2) show ?case by (simp add: sync_close_def call_match)
next
  case (receives s g)
  have "match_ok (s\<lparr>p_state := Checking g\<rparr>)" by (rule match_frame [OF receives(2)]) (simp_all add: packets_def)
  with receives(2) show ?case by (cases "inbox s") (simp_all add: receive_message_def packet_match)
next
  case (checks s g expired)
  then show ?case by (intro match_frame [OF checks(2)]) (auto simp: receive_check_def packets_def split: if_splits)
next
  case (loads s)
  then show ?case by (intro match_frame [OF loads(2)]) (simp_all add: receive_load_def packets_def)
next
  case (waits s g)
  then show ?case by (intro match_frame [OF waits(2)]) (simp_all add: receive_wait_def packets_def)
next
  case (times_out s g)
  then show ?case by (intro match_frame [OF times_out(2)]) (simp_all add: packets_def)
next
  case (listens s exited)
  then show ?case by (intro match_frame [OF listens(2)]) (simp_all add: worker_gone_def packets_def)
qed (simp_all add: message_match settles_match fatal_match call_match)

subsection \<open>Turns\<close>

lemma uncertain_diagnostics: "diagnostics (JObj (set_prop (spread_object localDiagnostics) (js ''delivery'') (jstr ''possibly_sent''))) None None"
proof -
  have "re_opaque (js ''local'')" "re_profile (js ''unknown'')" by (simp_all add: pattern_defs js_def)
  moreover from this have "validateWire Diagnostics (schemaDiagnostics (JObj (set_prop (spread_object localDiagnostics) (js ''delivery'') (jstr ''possibly_sent''))))"
    by (simp add: initialDiagnostics_def schemaDiagnostics_def has_own_JObj validateWire_schema diagnostics_schemas narrow_simps valid_simps
        legacySpanId_def legacyTraceId_def MAX_SAFE_INTEGER_def get_literal)
  ultimately show ?thesis
    by (simp add: diagnostics_def str_test_def initialDiagnostics_def get_literal)
qed

lemma fatal_decodes: "decodeError (encodeError (Transport (uncertainError code))) = Inr (uncertainError code)"
    "te_kind (uncertainError code) = Worker_unavailable"
proof -
  have "diagnostics (te_diagnostics (uncertainError code)) None None"
    by (simp add: uncertainError_def new_TransportError_def diagnostics_copied uncertain_diagnostics)
  moreover have "frozen_error (uncertainError code)" "te_references (uncertainError code) = None"
    by (simp_all add: uncertainError_def) (simp add: new_TransportError_def)
  ultimately show "decodeError (encodeError (Transport (uncertainError code))) = Inr (uncertainError code)"
    using decode_encode [of "uncertainError code"] by simp
  show "te_kind (uncertainError code) = Worker_unavailable" by (simp add: uncertainError_def new_TransportError_def)
qed

lemma turn_frame:
  assumes "turn_ok s" and "set (packets s') \<subseteq> set (packets s)" and "out s' \<le> out s" and "sequence s' = sequence s" and "p_id s' = p_id s"
    and "w_active s' = w_active s" and "w_todo s' = w_todo s" and "w_busy s' = w_busy s" and "w_stopped s' = w_stopped s" and "w_computing s' = w_computing s"
    and "\<not> p_closed s' \<and> p_state s' = Idle \<Longrightarrow> out s' = 0" and "p_state s = Idle \<Longrightarrow> p_state s' = Idle"
  shows "turn_ok s'"
proof -
  have "pk_id p \<le> sequence s' \<and> (pk_id p = p_id s' \<and> \<not> fatal_packet p \<longrightarrow> p_state s' = Idle \<or> out s' = 0)" if "p \<in> set (packets s')" for p
  proof -
    have "pk_id p \<le> sequence s \<and> (pk_id p = p_id s \<and> \<not> fatal_packet p \<longrightarrow> p_state s = Idle \<or> out s = 0)"
      using assms(1) subsetD [OF assms(2) that] by (simp add: turn_ok_def)
    then show ?thesis unfolding assms(4,5) using assms(3,12) by (metis le_zero_eq)
  qed
  then have "\<forall>p \<in> set (packets s'). pk_id p \<le> sequence s' \<and> (pk_id p = p_id s' \<and> \<not> fatal_packet p \<longrightarrow> p_state s' = Idle \<or> out s' = 0)" by (rule ballI)
  moreover have "out s' \<le> 1" "\<not> p_closed s' \<and> p_state s' = Idle \<longrightarrow> out s' = 0" using assms(1,3,11) by (simp_all add: turn_ok_def)
  ultimately show ?thesis using assms(1) by (simp add: turn_ok_def assms(4-10))
qed

lemma micro_busy: "w_todo s = x # xs \<Longrightarrow> w_busy (micro_step s) = (w_busy s \<and> x \<noteq> ClearBusy)"
  by (cases x) (auto simp: micro_step_def Let_def split: waiting.split)

lemma micro_state: "p_state (micro_step s) = p_state s \<or> p_state (micro_step s) = Loading \<and> p_state s \<noteq> Idle"
  by (auto simp: micro_step_def Let_def split: list.split micro.split waiting.split)

lemma micro_turn: assumes "turn_ok s" and "w_todo s = x # xs" shows "turn_ok (micro_step s)"
proof -
  have out: "out (micro_step s) = out s" by (simp add: out_def micro_frame)
  have "pk_id p \<le> sequence s \<and> (pk_id p = p_id s \<and> \<not> fatal_packet p \<longrightarrow> p_state (micro_step s) = Idle \<or> out s = 0)"
    if "p \<in> set (packets (micro_step s))" for p
    using micro_packets [OF assms(2)] that assms(1) micro_state [of s] unfolding turn_ok_def by (metis subsetD)
  moreover have "announced xs" "adds xs \<le> adds (w_todo s)" using assms by (auto simp: turn_ok_def adds_def)
  moreover have "ClearBusy \<in> set xs" if "w_busy s" "x \<noteq> ClearBusy" "w_computing s = None" "\<not> w_stopped s"
    using assms that by (auto simp: turn_ok_def)
  moreover have "\<not> p_closed s \<and> p_state (micro_step s) = Idle \<Longrightarrow> out s = 0"
    using assms(1) micro_state [of s] by (auto simp: turn_ok_def)
  ultimately show ?thesis
    using assms unfolding turn_ok_def micro_frame out micro_busy [OF assms(2)] by (auto split: if_splits)
qed

lemma fatal_turn: assumes "turn_ok s" and "w_todo s = []" shows "turn_ok (fatal s)"
  using assms by (auto simp: fatal_def turn_ok_def packets_def out_def fatal_packet_def)

lemma message_turn: assumes "turn_ok s" and "match_ok s" and "w_todo s = []" shows "turn_ok (worker_message b s)"
proof (cases "w_inbox s")
  case Nil
  with assms show ?thesis by (simp add: worker_message_def)
next
  case (Cons c cs)
  have idle: "w_computing s = None" "cs = []" using assms(1) Cons by (auto simp: turn_ok_def out_def split: if_splits)
  have dropped: "turn_ok (s\<lparr>w_inbox := cs\<rparr>)"
    by (rule turn_frame [OF assms(1)]) (use idle Cons in \<open>auto simp: packets_def out_def\<close>)
  then have "turn_ok (fatal (s\<lparr>w_inbox := cs\<rparr>))" using assms(3) by (intro fatal_turn) simp_all
  moreover have "cmd_id c \<le> sequence s" using assms(2) Cons by (auto simp: match_ok_def)
  then have "turn_ok (s\<lparr>w_inbox := cs, w_busy := True, w_active := cmd_id c, w_computing := Some c\<rparr>)"
    using assms(1,3) Cons idle by (auto simp: turn_ok_def packets_def out_def)
  ultimately show ?thesis using Cons dropped by (simp add: worker_message_def Let_def)
qed

lemma settles_turn: assumes "turn_ok s" and "match_ok s" and "w_todo s = []" shows "turn_ok (worker_settles r s)"
proof (cases "w_computing s")
  case None
  with assms show ?thesis by (simp add: worker_settles_def)
next
  case (Some c)
  then have "cmd_id c \<le> sequence s" "w_inbox s = []" using assms(1,2) by (auto simp: match_ok_def turn_ok_def out_def split: if_splits)
  with Some assms(1,3) show ?thesis
    by (auto simp: worker_settles_def turn_ok_def packets_def out_def Let_def)
qed

lemma call_turn: assumes "turn_ok s" and "p_state s = Idle" shows "turn_ok (snd (sync_call op v clones s))"
proof (cases "p_closed s \<or> p_closing s \<and> op \<noteq> Op_close \<and> op \<noteq> Op_sessionClose")
  case True
  with assms(1) show ?thesis by (auto simp: sync_call_def)
next
  case False
  have empty: "w_inbox s = []" "w_computing s = None" using False assms by (auto simp: turn_ok_def out_def split: if_splits)
  have new: "pk_id p \<noteq> Suc (sequence s)" "pk_id p \<le> Suc (sequence s)" if "p \<in> set (packets s)" for p
    using assms(1) that by (auto simp: turn_ok_def)
  have "turn_ok (s\<lparr>sequence := Suc (sequence s), w_inbox := w_inbox s @ [\<lparr>cmd_id = Suc (sequence s), cmd_operation = op, cmd_value = v\<rparr>],
      p_state := Loading, p_id := Suc (sequence s), p_dispatched := True, p_operation := op\<rparr>)"
    using assms(1) new empty unfolding turn_ok_def by (auto simp: packets_def out_def)
  moreover have "turn_ok (client_release (s\<lparr>sequence := Suc (sequence s), failure := f\<rparr>))" for f
    using assms new unfolding turn_ok_def by (auto simp: packets_def out_def client_release_def)
  ultimately show ?thesis using False by (auto simp: sync_call_def Let_def)
qed

lemma packet_turn:
  assumes s: "turn_ok s" and p: "inbox s = p # ps" and busy: "p_state s \<noteq> Idle"
  shows "turn_ok (receive_packet p (s\<lparr>inbox := ps\<rparr>))"
proof -
  let ?s = "receive_packet p (s\<lparr>inbox := ps\<rparr>)"
  have "out s = 0" if "pk_id p = p_id s" "\<not> fatal_packet p" using assms that by (auto simp: turn_ok_def packets_def)
  moreover have "p_closed ?s" if "pk_id p \<noteq> p_id s \<or> fatal_packet p"
    using that fatal_decodes by (auto simp: receive_packet_def fatal_packet_def)
  moreover have "out ?s = out s" by (auto simp: receive_packet_def out_def split: sum.split)
  ultimately have "\<not> p_closed ?s \<and> p_state ?s = Idle \<Longrightarrow> out ?s = 0" by auto
  then show ?thesis
    by (intro turn_frame [OF s]) (use p busy in \<open>auto simp: receive_packet_def packets_def out_def split: sum.splits if_splits\<close>)
qed

lemma step_turn: "bridge_step s s' \<Longrightarrow> turn_ok s \<Longrightarrow> match_ok s \<Longrightarrow> turn_ok s'"
proof (induction rule: bridge_step.induct)
  case (works s)
  then obtain x xs where "w_todo s = x # xs" by (cases "w_todo s") auto
  with works(2) show ?case by (rule micro_turn)
next
  case (closes s opts)
  have "turn_ok (s\<lparr>p_closing := True\<rparr>)" by (rule turn_frame [OF closes(2)]) (use closes in \<open>auto simp: packets_def out_def turn_ok_def\<close>)
  with closes show ?case by (simp add: sync_close_def call_turn)
next
  case (receives s g)
  have "turn_ok (s\<lparr>p_state := Checking g\<rparr>)" by (rule turn_frame [OF receives(2)]) (use receives(1) in \<open>auto simp: packets_def out_def\<close>)
  with receives show ?case by (cases "inbox s") (simp_all add: receive_message_def packet_turn)
next
  case (checks s g expired)
  then show ?case by (intro turn_frame [OF checks(2)]) (auto simp: receive_check_def packets_def out_def split: if_splits)
next
  case (loads s)
  then show ?case by (intro turn_frame [OF loads(2)]) (auto simp: receive_load_def packets_def out_def)
next
  case (waits s g)
  then show ?case by (intro turn_frame [OF waits(2)]) (auto simp: receive_wait_def packets_def out_def split: if_splits)
next
  case (times_out s g)
  then show ?case by (intro turn_frame [OF times_out(2)]) (auto simp: packets_def out_def)
next
  case (listens s exited)
  then show ?case by (intro turn_frame [OF listens(2)]) (auto simp: worker_gone_def packets_def out_def turn_ok_def)
qed (simp_all add: message_turn settles_turn fatal_turn call_turn)

subsection \<open>Waking up\<close>

lemma since_zero: "since g n s \<Longrightarrow> generation s = g \<Longrightarrow> n = 0"
proof -
  assume "since g n s" "generation s = g"
  then have "of_nat n = (0 :: 32 word)" "n < 2 ^ 32" by (simp_all add: since_def)
  then show ?thesis using nat_dvd_not_less [of n "2 ^ 32"] by (auto simp: word_of_nat_eq_0_iff)
qed

lemma micro_potential: "w_todo s = x # xs \<Longrightarrow> potential (micro_step s) + (if x = Add then 1 else 0) = potential s"
  by (simp add: potential_def out_def micro_frame adds_def)

lemma micro_generation: "w_todo s = x # xs \<Longrightarrow> generation (micro_step s) = generation s + (if x = Add then 1 else 0)"
  by (cases x) (auto simp: micro_step_def Let_def split: waiting.split)

lemma micro_since: "w_todo s = x # xs \<Longrightarrow> since g n s \<Longrightarrow> since g (n + (if x = Add then 1 else 0)) (micro_step s)"
  using micro_potential [of s x xs] by (auto simp: since_def micro_generation)

lemma worker_wake:
  assumes "wake_ok s" and "w_todo s = []" and "generation s' = generation s" and "inbox s' = inbox s" and "status_cell s' = status_cell s"
    and "p_state s' = p_state s" and "potential s' \<le> potential s"
  shows "wake_ok s'"
proof -
  have since: "since g n s'" if "since g n s" for g n using that assms(3,7) by (simp add: since_def)
  have "coming n s'" if "coming n s" for n using that assms(2) by (simp add: coming_def)
  moreover have "news s' = news s" by (simp add: news_def assms(4,5))
  ultimately show ?thesis
    using assms(1,2) since unfolding wake_ok_def assms(4,6) by (cases "p_state s") auto
qed

text \<open>A step of the worker's turn, by the state the client is in.\<close>

lemma announced_next:
  assumes "announced (x # xs)"
  shows "x = Add \<Longrightarrow> \<exists>r. xs = Notify # r" "x = Post p \<Longrightarrow> \<exists>r. xs = Add # Notify # r" "x = Status 2 \<Longrightarrow> \<exists>r. xs = Add # Notify # r"
  using assms by auto

lemma micro_coming:
  assumes "w_todo s = x # xs" and "announced (x # xs)" and "news s \<longrightarrow> coming n s" and "news (micro_step s)"
  shows "coming (n + (if x = Add then 1 else 0)) (micro_step s)"
proof (cases "x = Add")
  case False
  have "w_todo (micro_step s) = xs" using assms(1) by (simp add: micro_frame)
  moreover have "news s \<or> (\<exists>p. x = Post p) \<or> x = Status 2"
    using assms(1,4) False by (cases x) (auto simp: news_def micro_step_def Let_def split: waiting.splits if_splits)
  ultimately show ?thesis
    using assms False announced_next [OF assms(2)] by (auto simp: coming_def)
qed (simp add: coming_def)

lemma micro_inbox:
  assumes "w_todo s = x # xs" and "announced (x # xs)" and "inbox s \<noteq> [] \<longrightarrow> coming n s" and "inbox (micro_step s) \<noteq> []"
  shows "coming (n + (if x = Add then 1 else 0)) (micro_step s)"
proof (cases "x = Add")
  case False
  have "w_todo (micro_step s) = xs" using assms(1) by (simp add: micro_frame)
  moreover have "inbox s \<noteq> [] \<or> (\<exists>p. x = Post p)"
    using assms(1,4) False by (cases x) (auto simp: micro_step_def Let_def split: waiting.splits if_splits)
  ultimately show ?thesis
    using assms False announced_next [OF assms(2)] by (auto simp: coming_def)
qed (simp add: coming_def)

lemma micro_awake: "(\<And>g. p_state s \<noteq> Sleeping g) \<Longrightarrow> p_state (micro_step s) = p_state s"
    "w_todo s = x # xs \<Longrightarrow> x \<noteq> Notify \<Longrightarrow> p_state (micro_step s) = p_state s"
    "w_todo s = Notify # xs \<Longrightarrow> p_state s = Sleeping g \<Longrightarrow> p_state (micro_step s) = Loading"
  by (auto simp: micro_step_def Let_def split: list.split micro.split waiting.split)

lemma micro_wake: assumes "wake_ok s" and "turn_ok s" and "w_todo s = x # xs" shows "wake_ok (micro_step s)"
proof -
  have a: "announced (x # xs)" using assms(2,3) by (simp add: turn_ok_def)
  let ?m = "\<lambda>n. n + (if x = Add then 1 else 0)"
  note since = micro_since [OF assms(3)] and coming = micro_coming [OF assms(3) a] micro_inbox [OF assms(3) a]
  show ?thesis
  proof (cases "p_state s")
    case (Receiving g)
    with assms(1) since micro_awake(1) [of s] show ?thesis by (auto simp: wake_ok_def)
  next
    case (Checking g)
    with assms(1) since coming(2) micro_awake(1) [of s] show ?thesis by (simp add: wake_ok_def) blast
  next
    case (Waiting g)
    with assms(1) since coming(1) micro_awake(1) [of s] show ?thesis by (simp add: wake_ok_def) blast
  next
    case (Sleeping g)
    with assms(1) obtain n where n: "since g n s" "0 < n \<longrightarrow> (\<exists>r. w_todo s = Notify # r)" "news s \<longrightarrow> coming n s" by (auto simp: wake_ok_def)
    show ?thesis
    proof (cases "x = Notify")
      case True
      with Sleeping assms(3) micro_awake(3) [of s xs g] show ?thesis by (simp add: wake_ok_def)
    next
      case False
      then have "n = 0" using n(2) assms(3) by auto
      moreover have "0 < ?m n \<longrightarrow> (\<exists>r. w_todo (micro_step s) = Notify # r)"
        using \<open>n = 0\<close> announced_next(1) [OF a] assms(3) by (auto simp: micro_frame)
      ultimately show ?thesis
        using Sleeping micro_awake(2) [OF assms(3) False] since [OF n(1)] coming(1) [OF n(3)] unfolding wake_ok_def by auto
    qed
  qed (use micro_awake(1) [of s] in \<open>simp_all add: wake_ok_def\<close>)
qed

lemma message_potential: "turn_ok s \<Longrightarrow> w_todo s = [] \<Longrightarrow> potential (worker_message b s) \<le> potential s"
  by (auto simp: worker_message_def fatal_def potential_def out_def Let_def split: list.split)

lemma settles_potential: "w_todo s = [] \<Longrightarrow> potential (worker_settles r s) \<le> potential s"
  by (auto simp: worker_settles_def potential_def out_def Let_def split: option.split)

lemma fatal_potential: "w_todo s = [] \<Longrightarrow> potential (fatal s) \<le> potential s"
  by (simp add: fatal_def potential_def out_def)

lemma worker_frame:
  "generation (worker_message b s) = generation s" "inbox (worker_message b s) = inbox s" "status_cell (worker_message b s) = status_cell s"
  "p_state (worker_message b s) = p_state s" "generation (fatal s) = generation s" "inbox (fatal s) = inbox s" "status_cell (fatal s) = status_cell s"
  "p_state (fatal s) = p_state s" "generation (worker_settles r s) = generation s" "inbox (worker_settles r s) = inbox s"
  "status_cell (worker_settles r s) = status_cell s" "p_state (worker_settles r s) = p_state s"
  by (auto simp: worker_message_def fatal_def worker_settles_def Let_def split: list.split option.split)

lemma call_state: "p_state s = Idle \<Longrightarrow> p_state (snd (sync_call op v clones s)) \<in> {Idle, Loading}"
  by (auto simp: sync_call_def client_release_def Let_def)

lemma step_wake: "bridge_step s s' \<Longrightarrow> wake_ok s \<Longrightarrow> turn_ok s \<Longrightarrow> wake_ok s'"
proof (induction rule: bridge_step.induct)
  case (works s)
  then obtain x xs where "w_todo s = x # xs" by (cases "w_todo s") auto
  with works show ?case by (intro micro_wake)
next
  case (worker_receives s b)
  show ?case by (rule worker_wake [OF worker_receives(2,1)]) (use worker_receives in \<open>simp_all add: worker_frame message_potential\<close>)
next
  case (worker_ends s r)
  show ?case by (rule worker_wake [OF worker_ends(2,1)]) (use worker_ends in \<open>simp_all add: worker_frame settles_potential\<close>)
next
  case (worker_crashes s)
  show ?case by (rule worker_wake [OF worker_crashes(2,1)]) (use worker_crashes in \<open>simp_all add: worker_frame fatal_potential\<close>)
next
  case (calls s op v clones)
  then show ?case using call_state [of s op v clones] by (auto simp: wake_ok_def)
next
  case (closes s opts)
  then show ?case using call_state [of "s\<lparr>p_closing := True\<rparr>" Op_close opts True] by (auto simp: wake_ok_def sync_close_def)
next
  case (loads s)
  have "potential (receive_load s) \<le> 5" using potential_bound [OF loads(3)] by (simp add: potential_def out_def receive_load_def)
  then have "since (generation s) 0 (receive_load s)" by (simp add: since_def receive_load_def)
  then show ?case by (auto simp: wake_ok_def receive_load_def)
next
  case (receives s g)
  then obtain n where "since g n s" by (auto simp: wake_ok_def)
  then have "since g n (s\<lparr>p_state := Checking g\<rparr>)" by (simp add: since_def potential_def out_def)
  then show ?case
    by (cases "inbox s") (auto simp: wake_ok_def receive_message_def receive_packet_def split: sum.split)
next
  case (checks s g expired)
  then obtain n where n: "since g n s" "inbox s \<noteq> [] \<longrightarrow> coming n s" by (auto simp: wake_ok_def)
  show ?case
  proof (cases "failure s \<noteq> None \<or> status_cell s = 2 \<or> expired")
    case True
    then have "p_state (receive_check expired g s) = Idle" by (auto simp: receive_check_def)
    then show ?thesis by (simp add: wake_ok_def)
  next
    case False
    then have s: "receive_check expired g s = s\<lparr>p_state := Waiting g\<rparr>" by (simp add: receive_check_def)
    have "since g n (s\<lparr>p_state := Waiting g\<rparr>)" using n(1) by (simp add: since_def potential_def out_def)
    with n(2) False show ?thesis unfolding s by (auto simp: wake_ok_def news_def coming_def)
  qed
next
  case (waits s g)
  then obtain n where n: "since g n s" "news s \<longrightarrow> coming n s" by (auto simp: wake_ok_def)
  show ?case
  proof (cases "generation s = g")
    case True
    with n since_zero have "n = 0" by blast
    with n(1) have "since g 0 (s\<lparr>p_state := Sleeping g\<rparr>)" by (simp add: since_def potential_def out_def)
    with n(2) \<open>n = 0\<close> True show ?thesis by (simp add: wake_ok_def receive_wait_def) (auto simp: news_def coming_def intro!: exI [of _ 0])
  qed (simp add: wake_ok_def receive_wait_def)
qed (simp_all add: wake_ok_def worker_gone_def)

lemma bridge_reachable_ok: "bridge_reachable s \<Longrightarrow> match_ok s \<and> turn_ok s \<and> wake_ok s"
  by (induction rule: bridge_reachable.induct) (auto intro: new_bridge_ok step_match step_turn step_wake)

subsection \<open>A run to look at\<close>

text \<open>The client falls asleep before the worker is up; the worker posts its first message.\<close>

definition sample_sleeping :: bridge where
  "sample_sleeping = (new_bridge None)\<lparr>p_state := Sleeping 0\<rparr>"

definition sample_announced :: bridge where
  "sample_announced = micro_step (micro_step sample_sleeping)"

definition sample_woken :: bridge where
  "sample_woken = receive_message 1 (receive_load (micro_step (micro_step sample_announced)))"

definition sample_asked :: bridge where
  "sample_asked = snd (sync_call Op_capabilities JNull True sample_woken)"

definition sample_turn :: bridge where
  "sample_turn = worker_settles (Inr (jint 7)) (worker_message True sample_asked)"

definition sample_answered :: bridge where
  "sample_answered = receive_message 2 (receive_load (micro_step (micro_step (micro_step (micro_step sample_turn)))))"

lemma sample_sleeping_reachable: "bridge_reachable sample_sleeping"
proof -
  let ?b = "new_bridge None"
  have r: "bridge_reachable (receive_message 0 (receive_load ?b))"
    by (rule bridge_moves [OF bridge_moves [OF bridge_starts loads] receives]) (simp_all add: new_bridge_def receive_load_def)
  have c: "receive_message 0 (receive_load ?b) = ?b\<lparr>p_state := Checking 0\<rparr>" by (simp add: new_bridge_def receive_load_def receive_message_def)
  have "bridge_reachable (receive_wait 0 (receive_check False 0 (?b\<lparr>p_state := Checking 0\<rparr>)))"
    by (rule bridge_moves [OF bridge_moves [OF r [unfolded c] checks] waits]) (simp_all add: new_bridge_def receive_check_def)
  then show ?thesis by (simp add: sample_sleeping_def new_bridge_def receive_check_def receive_wait_def)
qed

lemmas sample_run_defs = sample_sleeping_def sample_announced_def sample_woken_def sample_asked_def sample_turn_def new_bridge_def micro_step_def
  worker_starts_def reply_def stop_def receive_load_def receive_message_def receive_packet_def call_ends_def sync_call_def worker_message_def
  worker_settles_def Let_def

lemma sample_announced_reachable: "bridge_reachable sample_announced"
  unfolding sample_announced_def
  by (rule bridge_moves [OF bridge_moves [OF sample_sleeping_reachable works] works]) (simp_all add: sample_run_defs)

lemma sample_woken_reachable: "bridge_reachable sample_woken"
  unfolding sample_woken_def
  by (rule bridge_moves [OF bridge_moves [OF bridge_moves [OF bridge_moves [OF sample_announced_reachable works] works] loads] receives])
    (simp_all add: sample_run_defs)

lemma sample_asked_reachable: "bridge_reachable sample_asked"
  unfolding sample_asked_def
  by (rule bridge_moves [OF sample_woken_reachable calls]) (simp_all add: sample_run_defs)

lemma sample_turn_reachable: "bridge_reachable sample_turn"
  unfolding sample_turn_def
  by (rule bridge_moves [OF bridge_moves [OF sample_asked_reachable worker_receives] worker_ends]) (simp_all add: sample_run_defs)

lemma sample_answered_reachable: "bridge_reachable sample_answered"
  unfolding sample_answered_def
  by (rule bridge_moves [OF bridge_moves [OF bridge_moves [OF bridge_moves [OF bridge_moves [OF bridge_moves
        [OF sample_turn_reachable works] works] works] works] loads] receives])
    (simp_all add: sample_run_defs)

subsection \<open>Properties\<close>

text \<open>
  C26: No wake-up is lost. Whenever the client sleeps in \<open>Atomics.wait\<close> while a message is there for
  it or the worker has declared itself gone, the worker's current turn still contains the
  notification that wakes it; the generation cannot have come round to the old value unnoticed.
\<close>

theorem no_lost_wakeup:
  assumes "bridge_reachable s" and "p_state s = Sleeping g" and "inbox s \<noteq> [] \<or> status_cell s = 2"
  shows "Notify \<in> set (w_todo s)"
proof -
  from assms bridge_reachable_ok [OF assms(1)] obtain n where "0 < n \<longrightarrow> (\<exists>r. w_todo s = Notify # r)" "coming n s"
    by (auto simp: wake_ok_def news_def)
  then show ?thesis by (auto simp: coming_def)
qed

theorem no_lost_wakeup_witness: "p_state sample_announced = Sleeping 0 \<and> inbox sample_announced \<noteq> [] \<and> Notify \<in> set (w_todo sample_announced)"
proof -
  have "p_state sample_announced = Sleeping 0" "inbox sample_announced \<noteq> []" by (simp_all add: sample_run_defs)
  with no_lost_wakeup [OF sample_announced_reachable] show ?thesis by blast
qed

text \<open>
  C27: A value that a call of the blocking client returns is the value the worker computed for that
  very command, and the worker computes each command at most once, in whatever order the threads
  run, whatever the worker crashes at and whatever times out.
\<close>

theorem calls_match:
  assumes "bridge_reachable s" and "(i, Inr v) \<in> set (returned s)" and "i \<noteq> 0"
  shows "(i, Inr v) \<in> set (served s) \<and> distinct (map fst (served s)) \<and> i \<le> sequence s"
proof -
  have m: "match_ok s" using bridge_reachable_ok [OF assms(1)] by simp
  with assms(2,3) have "(i, Inr v) \<in> set (served s)" by (auto simp: match_ok_def)
  moreover from this have "i \<in> set (map fst (served s))" by force
  ultimately show ?thesis using m by (auto simp: match_ok_def)
qed

theorem calls_match_witness: "(1, Inr (jint 7)) \<in> set (served sample_answered)"
proof -
  have "(1, Inr (jint 7)) \<in> set (returned sample_answered)" by (simp add: sample_answered_def sample_run_defs)
  from calls_match [OF sample_answered_reachable this] show ?thesis by simp
qed

text \<open>
  The worker is never asked while it is busy: when it takes up a command and has not stopped,
  the previous command has been answered and its turn is over.
\<close>

theorem never_busy:
  assumes "bridge_reachable s" and "w_todo s = []" and "w_inbox s \<noteq> []" and "\<not> w_stopped s"
  shows "\<not> w_busy s \<and> w_computing s = None \<and> length (w_inbox s) = 1"
proof -
  have "turn_ok s" using bridge_reachable_ok [OF assms(1)] by simp
  with assms(2-4) show ?thesis by (cases "w_inbox s") (auto simp: turn_ok_def out_def split: if_splits)
qed

theorem never_busy_witness: "\<not> w_busy sample_asked \<and> length (w_inbox sample_asked) = 1"
proof -
  have "w_todo sample_asked = []" "w_inbox sample_asked \<noteq> []" "\<not> w_stopped sample_asked" by (simp_all add: sample_run_defs)
  from never_busy [OF sample_asked_reachable this] show ?thesis by simp
qed

end
