(* ===== verification/Worker.thy ===== *)
theory Worker
  imports Bridge
begin

text \<open>
  What the worker of the synchronous client does with a command: \<open>command\<close>, \<open>owned\<close>, \<open>managed\<close>,
  \<open>closeSettings\<close> and \<open>dispatch\<close> of \<open>src/packages/typescript/src/sync/worker.ts\<close>. A dispatch runs up to
  its one \<open>await\<close> of the asynchronous client (\<open>dispatch_start\<close>: it fails, has its answer, or awaits a
  call of the client) and goes on when that call has settled (\<open>dispatch_end\<close>). The sessions the worker
  owns are kept under identifiers that it hands out.
\<close>

subsection \<open>Commands\<close>

record worker_settings = batch_settings +
  operationTimeoutMs :: int

primrec op_name :: "operation_name \<Rightarrow> string" where
  "op_name Op_request = ''request''"
| "op_name Op_tryRequest = ''tryRequest''"
| "op_name Op_requestMany = ''requestMany''"
| "op_name Op_capabilities = ''capabilities''"
| "op_name Op_requestStatus = ''requestStatus''"
| "op_name Op_cancelRequest = ''cancelRequest''"
| "op_name Op_createSession = ''createSession''"
| "op_name Op_sessionRequest = ''sessionRequest''"
| "op_name Op_sessionTryRequest = ''sessionTryRequest''"
| "op_name Op_sessionClose = ''sessionClose''"
| "op_name Op_getCookies = ''getCookies''"
| "op_name Op_setCookies = ''setCookies''"
| "op_name Op_exportCookies = ''exportCookies''"
| "op_name Op_importCookies = ''importCookies''"
| "op_name Op_rebindIdentity = ''rebindIdentity''"
| "op_name Op_close = ''close''"

definition operations :: "operation_name list" where
  "operations = [Op_request, Op_tryRequest, Op_requestMany, Op_capabilities, Op_requestStatus, Op_cancelRequest, Op_createSession,
     Op_sessionRequest, Op_sessionTryRequest, Op_sessionClose, Op_getCookies, Op_setCookies, Op_exportCookies, Op_importCookies,
     Op_rebindIdentity, Op_close]"

definition worker_command :: "worker_settings \<Rightarrow> jsval \<Rightarrow> transport_error + command \<times> int" where
  "worker_command st v = bind_ok (ipc_object v) (\<lambda>ps.
     case List.find (\<lambda>op. get v ''operation'' = jstr (op_name op)) operations of None \<Rightarrow> Inl invalid_input
     | Some op \<Rightarrow> bind_ok (ipc_integer 0 MAX_SAFE_INTEGER (get v ''id'')) (\<lambda>i.
         bind_ok (ipc_integer 0 (operationTimeoutMs st) (get v ''timeoutMs'')) (\<lambda>t.
           Inr (\<lparr>cmd_id = nat (int_of i), cmd_operation = op, cmd_value = get v ''value''\<rparr>, int_of t))))"

definition closeSettings :: "worker_settings \<Rightarrow> jsval \<Rightarrow> transport_error + jsval" where
  "closeSettings st v = bind_ok (ipc_object v) (\<lambda>ps. guard (get v ''drain'' = JUndef \<or> js_typeof (get v ''drain'') = ''boolean'')
     (bind_ok (ipc_integer (operationTimeoutMs st) MAX_SAFE_INTEGER (get v ''timeoutMs'')) (\<lambda>t.
       Inr (JObj (pick_opt v [''drain''] @ [(js ''timeoutMs'', jint (min (int_of t) (operationTimeoutMs st)))])))))"

subsection \<open>Owned sessions\<close>

text \<open>A session of the client is a number; \<open>os_cookies\<close> says that it has the cookie operations.\<close>

record owned_session =
  os_session :: nat
  os_managed :: bool
  os_cookies :: bool

record worker_state =
  ws_sessions :: "jsstr \<rightharpoonup> owned_session"
  sessionSequence :: nat

definition owned :: "worker_state \<Rightarrow> jsval \<Rightarrow> transport_error + owned_session \<times> jsstr \<times> jsval" where
  "owned w v = bind_ok (ipc_object v) (\<lambda>ps. bind_ok (ipc_text 128 (get v ''id'')) (\<lambda>i.
     case ws_sessions w (str_of i) of None \<Rightarrow> Inl (localError CONTEXT_NOT_FOUND None)
     | Some entry \<Rightarrow> Inr (entry, str_of i, get v ''value'')))"

definition managed :: "owned_session \<Rightarrow> transport_error + nat" where
  "managed entry = guard (os_managed entry \<and> os_cookies entry) (Inr (os_session entry))"

subsection \<open>Calls of the asynchronous client and their values\<close>

datatype session_call =
    Session_request jsval | Session_tryRequest jsval | Session_close jsval | Session_getCookies jsval | Session_setCookies jsval "jsval list"
  | Session_exportCookies | Session_importCookies jsval | Session_rebindIdentity jsval

datatype core_call =
    Core_request jsval | Core_tryRequest jsval | Core_batch "jsval list" nat nat | Core_capabilities | Core_requestStatus jsval jsval
  | Core_cancelRequest jsval jsval | Core_createSession jsval | Core_close jsval | Core_session jsstr nat session_call

datatype core_value =
    Response jsval
  | Outcome "transport_error + jsval"
  | Plain jsval
  | Nothing
  | Status_of jsval jsval "transport_error option"
  | Opened_session nat bool jsval
  | Rebound jsval jsval jsval "transport_error option"

text \<open>The serializable value of what the client returned; \<open>Rebound\<close> carries the information of the session after the cutover.\<close>

definition ok_value :: "jsval \<Rightarrow> jsval" where
  "ok_value v = JObj [(js ''ok'', JBool True), (js ''value'', v)]"

definition not_ok :: "thrown \<Rightarrow> jsval" where
  "not_ok e = JObj [(js ''ok'', JBool False), (js ''error'', encodeError e)]"

fun reply_value :: "core_value \<Rightarrow> jsval" where
  "reply_value (Response r) = plainResponse r"
| "reply_value (Outcome (Inr r)) = ok_value (plainResponse r)"
| "reply_value (Outcome (Inl e)) = not_ok (Transport e)"
| "reply_value (Plain v) = v"
| "reply_value Nothing = JNull"
| "reply_value (Status_of state d None) = JObj [(js ''state'', state), (js ''diagnostics'', d)]"
| "reply_value (Status_of state d (Some e)) = JObj [(js ''state'', state), (js ''diagnostics'', d), (js ''error'', encodeError (Transport e))]"
| "reply_value (Opened_session h cookies info) = info"
| "reply_value (Rebound info c p None) = JObj [(js ''info'', info), (js ''outcome'', JObj [(js ''state'', jstr ''committed''),
     (js ''contextId'', c), (js ''previousContextId'', p)])]"
| "reply_value (Rebound info c p (Some e)) = JObj [(js ''info'', info), (js ''outcome'', JObj [(js ''state'', jstr ''committed_cleanup_pending''),
     (js ''contextId'', c), (js ''previousContextId'', p), (js ''cleanupError'', encodeError (Transport e))])]"

subsection \<open>Dispatch\<close>

datatype dispatched = Rejects transport_error | Resolves jsval | Awaits core_call

fun awaits :: "(core_call \<Rightarrow> core_call) \<Rightarrow> transport_error + core_call \<Rightarrow> dispatched" where
  "awaits f (Inl e) = Rejects e"
| "awaits f (Inr c) = Awaits (f c)"

text \<open>The inner \<open>execute\<close> of a session operation, up to its call.\<close>

definition session_start :: "platform \<Rightarrow> worker_settings \<Rightarrow> owned_session \<Rightarrow> operation_name \<Rightarrow> jsval \<Rightarrow> transport_error + session_call" where
  "session_start pf st entry op v = (case op of
     Op_sessionRequest \<Rightarrow> bind_ok (ipc_sessionRequest pf (maxRequestBytes st) v) (\<lambda>r. Inr (Session_request r))
   | Op_sessionTryRequest \<Rightarrow> bind_ok (ipc_sessionRequest pf (maxRequestBytes st) v) (\<lambda>r. Inr (Session_tryRequest r))
   | Op_sessionClose \<Rightarrow> bind_ok (closeSettings st v) (\<lambda>o'. Inr (Session_close o'))
   | Op_getCookies \<Rightarrow> bind_ok (managed entry) (\<lambda>_. bind_ok (ipc_url pf v) (\<lambda>u. Inr (Session_getCookies u)))
   | Op_setCookies \<Rightarrow> bind_ok (ipc_object v) (\<lambda>_. case get v ''values'' of
        JArr xs \<Rightarrow> guard (list_all (\<lambda>x. js_typeof x = ''string'') xs)
          (bind_ok (managed entry) (\<lambda>_. bind_ok (ipc_url pf (get v ''url'')) (\<lambda>u. Inr (Session_setCookies u xs))))
      | _ \<Rightarrow> Inl invalid_input)
   | Op_exportCookies \<Rightarrow> bind_ok (managed entry) (\<lambda>_. Inr Session_exportCookies)
   | Op_importCookies \<Rightarrow> bind_ok (managed entry) (\<lambda>_. bind_ok (wire_value CookieSnapshot v) (\<lambda>s. Inr (Session_importCookies s)))
   | _ \<Rightarrow> bind_ok (managed entry) (\<lambda>_. bind_ok (ipc_identity v) (\<lambda>i. Inr (Session_rebindIdentity i))))"

text \<open>\<open>{ info, result }\<close> around whatever \<open>execute\<close> gave; \<open>sessionTryRequest\<close> has already caught its error.\<close>

definition session_result :: "jsval \<Rightarrow> bool \<Rightarrow> thrown + jsval \<Rightarrow> jsval" where
  "session_result info tries r = JObj [(js ''info'', info), (js ''result'', (case r of
     Inr v \<Rightarrow> ok_value (if tries then ok_value v else v)
   | Inl e \<Rightarrow> if tries then ok_value (not_ok e) else not_ok e))]"

definition two_texts :: "(jsval \<Rightarrow> jsval \<Rightarrow> core_call) \<Rightarrow> jsval \<Rightarrow> transport_error + core_call" where
  "two_texts c v = bind_ok (ipc_object v) (\<lambda>_. bind_ok (ipc_text 128 (get v ''requestId'')) (\<lambda>r.
     bind_ok (ipc_text 1024 (get v ''partition'')) (\<lambda>p. Inr (c r p))))"

definition dispatch_start :: "platform \<Rightarrow> worker_settings \<Rightarrow> (nat \<Rightarrow> jsval) \<Rightarrow> worker_state \<Rightarrow> operation_name \<Rightarrow> jsval \<Rightarrow> dispatched" where
  "dispatch_start pf st info w op v = (case op of
     Op_request \<Rightarrow> awaits id (bind_ok (ipc_request pf (maxRequestBytes st) v) (\<lambda>r. Inr (Core_request r)))
   | Op_tryRequest \<Rightarrow> awaits id (bind_ok (ipc_request pf (maxRequestBytes st) v) (\<lambda>r. Inr (Core_tryRequest r)))
   | Op_requestMany \<Rightarrow> awaits id (bind_ok (batch_input pf (batch_settings.truncate st) v) (\<lambda>(rs, c, mx). Inr (Core_batch rs c mx)))
   | Op_capabilities \<Rightarrow> Awaits Core_capabilities
   | Op_requestStatus \<Rightarrow> awaits id (two_texts Core_requestStatus v)
   | Op_cancelRequest \<Rightarrow> awaits id (two_texts Core_cancelRequest v)
   | Op_createSession \<Rightarrow> awaits id (bind_ok (ipc_sessionOptions pf v) (\<lambda>s. Inr (Core_createSession s)))
   | Op_close \<Rightarrow> awaits id (bind_ok (closeSettings st v) (\<lambda>s. Inr (Core_close s)))
   | _ \<Rightarrow> (case owned w v of Inl e \<Rightarrow> Rejects e
       | Inr (entry, i, x) \<Rightarrow> (case session_start pf st entry op x of
           Inl e \<Rightarrow> Resolves (session_result (info (os_session entry)) (op = Op_sessionTryRequest) (Inl (Transport e)))
         | Inr c \<Rightarrow> Awaits (Core_session i (os_session entry) c))))"

fun tries :: "session_call \<Rightarrow> bool" where
  "tries (Session_tryRequest _) = True"
| "tries _ = False"

fun deletes :: "session_call \<Rightarrow> bool" where
  "deletes (Session_close _) = True"
| "deletes _ = False"

definition is_managed :: "jsval \<Rightarrow> bool" where
  "is_managed options \<longleftrightarrow> get options ''cookieMode'' = jstr ''managed''"

definition dispatch_end :: "(nat \<Rightarrow> jsval) \<Rightarrow> core_call \<Rightarrow> thrown + core_value \<Rightarrow> worker_state \<Rightarrow> (thrown + jsval) \<times> worker_state" where
  "dispatch_end info call r w = (case call of
     Core_session i h c \<Rightarrow> (Inr (session_result (info h) (tries c) (map_sum id reply_value r)),
       if deletes c \<and> (case r of Inl _ \<Rightarrow> False | Inr _ \<Rightarrow> True) then w\<lparr>ws_sessions := (ws_sessions w)(i := None)\<rparr> else w)
   | _ \<Rightarrow> (case r of Inl e \<Rightarrow> (Inl e, w)
       | Inr v \<Rightarrow> (case (call, v) of
           (Core_createSession options, Opened_session h cookies opened) \<Rightarrow>
             let n = Suc (sessionSequence w); i = js (dec_digits n) in
             (Inr (JObj [(js ''id'', JStr i), (js ''info'', opened)]),
              w\<lparr>sessionSequence := n,
                ws_sessions := (ws_sessions w)(i \<mapsto> \<lparr>os_session = h, os_managed = is_managed options, os_cookies = cookies\<rparr>)\<rparr>)
         | (Core_close _, _) \<Rightarrow> (Inr (reply_value v), w\<lparr>ws_sessions := Map.empty\<rparr>)
         | _ \<Rightarrow> (Inr (reply_value v), w))))"

text \<open>The worker answers one command after another.\<close>

definition new_worker :: worker_state where
  "new_worker = \<lparr>ws_sessions = Map.empty, sessionSequence = 0\<rparr>"

inductive worker_step :: "worker_state \<Rightarrow> worker_state \<Rightarrow> bool" where
  worker_answers: "dispatch_start pf st before w op v = Awaits call \<Longrightarrow> worker_step w (snd (dispatch_end info call r w))"

inductive worker_reachable :: "worker_state \<Rightarrow> bool" where
  worker_new: "worker_reachable new_worker"
| worker_moves: "worker_reachable w \<Longrightarrow> worker_step w w' \<Longrightarrow> worker_reachable w'"

end
