(* ===== verification/Facade.thy ===== *)
theory Facade
  imports Worker
begin

text \<open>
  The blocking client and its sessions as the caller sees them:
  \<open>src/packages/typescript/src/sync/index.ts\<close>. Every method checks and converts its arguments, posts a
  command (\<open>prepared\<close>: operation, value and time limit), and turns the value of the reply into what it
  returns. The exchange of the two messages is the bridge; what a method does before and after it is here.
\<close>

subsection \<open>Posting\<close>

type_synonym prepared = "operation_name \<times> jsval \<times> int"

text \<open>The message of \<open>#call\<close>.\<close>

definition posted_value :: "worker_settings \<Rightarrow> nat \<Rightarrow> prepared \<Rightarrow> jsval" where
  "posted_value st i p = (case p of (op, v, t) \<Rightarrow> JObj [(js ''id'', jint (int i)), (js ''operation'', jstr (op_name op)), (js ''value'', v),
     (js ''timeoutMs'', jint (min t (operationTimeoutMs st)))])"

definition closeOptions :: "int \<Rightarrow> jsval \<Rightarrow> transport_error + jsval" where
  "closeOptions mx v = (let input = (if v \<in> {JUndef, JNull} then JObj [] else v) in bind_ok (ipc_object input) (\<lambda>ps.
     guard (ipc_keys ps [''drain'', ''timeoutMs''] \<and> (get input ''drain'' = JUndef \<or> js_typeof (get input ''drain'') = ''boolean''))
     (bind_ok (ipc_integer mx MAX_TIMEOUT_MS (get input ''timeoutMs'')) (\<lambda>t.
       Inr (JObj (pick_opt input [''drain''] @ [(js ''timeoutMs'', jint (min (int_of t) mx))]))))))"

subsection \<open>Methods of the client\<close>

definition sync_request :: "operation_name \<Rightarrow> platform \<Rightarrow> worker_settings \<Rightarrow> jsval \<Rightarrow> transport_error + prepared" where
  "sync_request op pf st v = bind_ok (ipc_request pf (maxRequestBytes st) v) (\<lambda>r. Inr (op, r, operationTimeoutMs st))"

text \<open>\<open>tryRequest\<close> turns every error, of its conversion, of the call or of decoding, into a failed result.\<close>

fun as_result :: "thrown + transport_error + jsval \<Rightarrow> transport_error + jsval" where
  "as_result (Inr r) = r"
| "as_result (Inl (Transport e)) = Inl e"
| "as_result (Inl (Other _)) = Inl invalid_input"

fun add_bodies :: "nat \<Rightarrow> nat \<Rightarrow> (jsval \<Rightarrow> transport_error + jsval) \<Rightarrow> jsval list \<Rightarrow> transport_error + jsval list" where
  "add_bodies cap n f [] = Inr []"
| "add_bodies cap n f (x # xs) = bind_ok (f x) (\<lambda>y.
     let n' = n + (case body_size (get y ''body'') of Some k \<Rightarrow> k | None \<Rightarrow> 0) in
     if cap < n' then Inl (localError BODY_TOO_LARGE (Some Buffer_limit)) else bind_ok (add_bodies cap n' f xs) (\<lambda>ys. Inr (y # ys)))"

definition sync_requestMany :: "platform \<Rightarrow> worker_settings \<Rightarrow> jsval \<Rightarrow> jsval \<Rightarrow> transport_error + prepared" where
  "sync_requestMany pf st options input = (case options of
     JArr xs \<Rightarrow> guard (int (length xs) \<le> maxBatchRequests st) (bind_ok (ipc_object input) (\<lambda>ps.
       guard (ipc_keys ps [''concurrency'', ''maxTotalBytes'', ''timeoutMs''])
       (bind_ok (ipc_integer (maxBatchConcurrency st) (maxBatchConcurrency st) (get input ''concurrency'')) (\<lambda>c.
        bind_ok (ipc_integer (maxBatchBytes st) (maxBatchBytes st) (get input ''maxTotalBytes'')) (\<lambda>mx.
        bind_ok (ipc_integer (operationTimeoutMs st) (operationTimeoutMs st) (get input ''timeoutMs'')) (\<lambda>t.
        bind_ok (add_bodies (maxRequestBytes st) 0 (ipc_request pf (maxRequestBytes st)) xs) (\<lambda>rs.
          Inr (Op_requestMany, JObj [(js ''requests'', JArr rs), (js ''concurrency'', c), (js ''maxTotalBytes'', mx)], int_of t))))))))
   | _ \<Rightarrow> Inl invalid_input)"

definition many_results :: "nat \<Rightarrow> jsval \<Rightarrow> transport_error + (transport_error + jsval) list" where
  "many_results n v = (case v of
     JArr ys \<Rightarrow> if length ys \<noteq> n then Inl (localError PROTOCOL_ERROR None) else map_ok ipc_result ys
   | _ \<Rightarrow> Inl (localError PROTOCOL_ERROR None))"

definition sync_capabilities :: "worker_settings \<Rightarrow> prepared" where
  "sync_capabilities st = (Op_capabilities, JNull, operationTimeoutMs st)"

definition sync_id_partition :: "operation_name \<Rightarrow> worker_settings \<Rightarrow> jsval \<Rightarrow> jsval \<Rightarrow> transport_error + prepared" where
  "sync_id_partition op st r p = bind_ok (ipc_text 128 r) (\<lambda>i. bind_ok (ipc_text 1024 p) (\<lambda>q.
     Inr (op, JObj [(js ''requestId'', i), (js ''partition'', q)], operationTimeoutMs st)))"

definition status_result :: "jsval \<Rightarrow> transport_error + jsval \<times> jsval \<times> transport_error option" where
  "status_result v = bind_ok (ipc_object v) (\<lambda>ps.
     if get v ''state'' \<notin> {jstr ''queued'', jstr ''active'', jstr ''complete'', jstr ''failed''} then Inl (localError PROTOCOL_ERROR None)
     else bind_ok (ipcDiagnostics (get v ''diagnostics'')) (\<lambda>d.
       if get v ''error'' = JUndef then Inr (get v ''state'', d, None)
       else bind_ok (decodeError (get v ''error'')) (\<lambda>e. Inr (get v ''state'', d, Some e))))"

definition sync_createSession :: "platform \<Rightarrow> worker_settings \<Rightarrow> jsval \<Rightarrow> transport_error + prepared" where
  "sync_createSession pf st v = bind_ok (ipc_sessionOptions pf v) (\<lambda>s. Inr (Op_createSession, s, operationTimeoutMs st))"

definition sync_close_options :: "worker_settings \<Rightarrow> jsval \<Rightarrow> transport_error + prepared" where
  "sync_close_options st v = bind_ok (closeOptions (operationTimeoutMs st) v) (\<lambda>o'. Inr (Op_close, o', int_of (get o' ''timeoutMs'')))"

subsection \<open>Remote sessions\<close>

record remote_session =
  rs_id :: jsval
  rs_info :: jsval
  rs_closing :: bool
  rs_closed :: bool
  rs_managed :: bool

definition created_session :: "jsval \<Rightarrow> jsval \<Rightarrow> transport_error + remote_session" where
  "created_session converted v = bind_ok (ipc_object v) (\<lambda>ps. bind_ok (ipc_text 128 (get v ''id'')) (\<lambda>i.
     bind_ok (wire_value ContextInfo (get v ''info'')) (\<lambda>fresh.
       Inr \<lparr>rs_id = i, rs_info = fresh, rs_closing = False, rs_closed = False, rs_managed = is_managed converted\<rparr>)))"

text \<open>\<open>{ id, value }\<close> of the callback that a session gets.\<close>

definition session_message :: "remote_session \<Rightarrow> jsval \<Rightarrow> jsval" where
  "session_message rs v = JObj [(js ''id'', rs_id rs), (js ''value'', v)]"

definition invoke_refused :: "operation_name \<Rightarrow> remote_session \<Rightarrow> bool" where
  "invoke_refused op rs \<longleftrightarrow> rs_closed rs \<or> rs_closing rs \<and> op \<noteq> Op_sessionClose"

definition remote_invoke :: "worker_settings \<Rightarrow> operation_name \<Rightarrow> transport_error + jsval \<Rightarrow> int \<Rightarrow> remote_session \<Rightarrow> transport_error + prepared" where
  "remote_invoke st op arg t rs = bind_ok arg (\<lambda>v. if invoke_refused op rs then Inl client_closed else Inr (op, session_message rs v, t))"

text \<open>After the call: \<open>invoke\<close> from its second line on. The session keeps the information of every reply, also of a failed call.\<close>

definition invoke_result :: "operation_name \<Rightarrow> jsval \<Rightarrow> remote_session \<Rightarrow> (transport_error + jsval) \<times> remote_session" where
  "invoke_result op v rs = (case ipc_object v of Inl e \<Rightarrow> (Inl e, rs)
     | Inr ps \<Rightarrow>
         if op = Op_sessionClose \<and> get v ''cleanupComplete'' = JBool True then (Inr JUndef, rs)
         else case ipc_object (get v ''result'') of Inl e \<Rightarrow> (Inl e, rs)
         | Inr qs \<Rightarrow> (case wire_value ContextInfo (get v ''info'') of Inl e \<Rightarrow> (Inl e, rs)
            | Inr fresh \<Rightarrow> (let outcome = get v ''result'' in
                if get outcome ''ok'' = JBool True then Inr (get outcome ''value'')
                else if get outcome ''ok'' = JBool False then bind_ok (decodeError (get outcome ''error'')) Inl
                else Inl (localError PROTOCOL_ERROR None), rs\<lparr>rs_info := fresh\<rparr>)))"

text \<open>The callback answers \<open>sessionClose\<close> itself once the client has been closed with success.\<close>

definition invoke_answered :: "bridge \<Rightarrow> operation_name \<Rightarrow> jsval option" where
  "invoke_answered s op = (if op = Op_sessionClose \<and> cleanupComplete s then Some (JObj [(js ''cleanupComplete'', JBool True)]) else None)"

definition remote_request :: "operation_name \<Rightarrow> platform \<Rightarrow> worker_settings \<Rightarrow> jsval \<Rightarrow> remote_session \<Rightarrow> transport_error + prepared" where
  "remote_request op pf st v = remote_invoke st op (ipc_sessionRequest pf (maxRequestBytes st) v) (operationTimeoutMs st)"

text \<open>\<open>close\<close>: nothing when already closed; otherwise the session is closing from then on.\<close>

definition remote_close :: "worker_settings \<Rightarrow> jsval \<Rightarrow> remote_session \<Rightarrow> (transport_error + prepared option) \<times> remote_session" where
  "remote_close st v rs = (if rs_closed rs then (Inr None, rs)
     else case closeOptions (operationTimeoutMs st) v of Inl e \<Rightarrow> (Inl e, rs)
     | Inr o' \<Rightarrow> let rs1 = rs\<lparr>rs_closing := True\<rparr> in
         (map_sum id Some (remote_invoke st Op_sessionClose (Inr o') (int_of (get o' ''timeoutMs'')) rs1), rs1))"

definition remote_close_result :: "jsval \<Rightarrow> remote_session \<Rightarrow> (transport_error + unit) \<times> remote_session" where
  "remote_close_result v rs = (case invoke_result Op_sessionClose v rs of
     (Inl e, rs') \<Rightarrow> (Inl e, rs') | (Inr _, rs') \<Rightarrow> (Inr (), rs'\<lparr>rs_closed := True\<rparr>))"

subsection \<open>Cookies and rebinding\<close>

definition remote_getCookies :: "platform \<Rightarrow> worker_settings \<Rightarrow> jsval \<Rightarrow> remote_session \<Rightarrow> transport_error + prepared" where
  "remote_getCookies pf st v = remote_invoke st Op_getCookies (ipc_url pf v) (operationTimeoutMs st)"

definition cookies_result :: "jsval \<Rightarrow> transport_error + jsval list" where
  "cookies_result v = (case v of JArr xs \<Rightarrow> map_ok (wire_value CookieRecord) xs | _ \<Rightarrow> Inl (localError PROTOCOL_ERROR None))"

definition string_bytes :: "jsval \<Rightarrow> nat" where
  "string_bytes v = (case v of JStr s \<Rightarrow> length (utf8 s) | _ \<Rightarrow> 0)"

definition remote_setCookies :: "platform \<Rightarrow> worker_settings \<Rightarrow> jsval \<Rightarrow> jsval \<Rightarrow> remote_session \<Rightarrow> transport_error + prepared" where
  "remote_setCookies pf st u vs rs = (case vs of
     JArr xs \<Rightarrow> guard (length xs \<le> 4096 \<and> list_all (\<lambda>x. js_typeof x = ''string'') xs \<and> sum_list (map string_bytes xs) \<le> MAX_METADATA_BYTES)
       (remote_invoke st Op_setCookies (bind_ok (ipc_url pf u) (\<lambda>w. Inr (JObj [(js ''url'', w), (js ''values'', JArr xs)]))) (operationTimeoutMs st) rs)
   | _ \<Rightarrow> Inl invalid_input)"

abbreviation cookie_keys :: "string list" where
  "cookie_keys \<equiv> [''name'', ''value'', ''domain'', ''path'', ''secure'', ''httpOnly'', ''hostOnly'', ''partitioned'', ''sameSite'', ''expiresAtMs'']"

definition scalar_field :: "jsstr \<times> jsval \<Rightarrow> bool" where
  "scalar_field f \<longleftrightarrow> js_typeof (snd f) \<in> {''undefined'', ''string'', ''boolean'', ''number''}"

text \<open>The cookies of a snapshot, with the bytes of all their strings so far.\<close>

fun import_cookies :: "nat \<Rightarrow> jsval list \<Rightarrow> transport_error + jsval list" where
  "import_cookies n [] = Inr []"
| "import_cookies n (x # xs) = bind_ok (ipc_object x) (\<lambda>ps. guard (ipc_keys ps cookie_keys \<and> list_all scalar_field ps)
     (let n' = n + sum_list (map (\<lambda>(_, f). string_bytes f) ps) in
      if MAX_METADATA_BYTES < n' then Inl (localError BODY_TOO_LARGE (Some Buffer_limit))
      else bind_ok (wire_value CookieRecord x) (\<lambda>y. bind_ok (import_cookies n' xs) (\<lambda>ys. Inr (y # ys)))))"

definition remote_importCookies :: "worker_settings \<Rightarrow> jsval \<Rightarrow> remote_session \<Rightarrow> transport_error + prepared" where
  "remote_importCookies st v rs = bind_ok (ipc_object v) (\<lambda>ps. guard (ipc_keys ps [''partitionKey'', ''cookies''])
     (case get v ''cookies'' of
        JArr xs \<Rightarrow> guard (length xs \<le> 4096) (bind_ok (import_cookies 0 xs) (\<lambda>ys.
          remote_invoke st Op_importCookies (bind_ok (ipc_text 1024 (get v ''partitionKey'')) (\<lambda>k.
            wire_value CookieSnapshot (JObj [(js ''partitionKey'', k), (js ''cookies'', JArr ys)]))) (operationTimeoutMs st) rs))
      | _ \<Rightarrow> Inl invalid_input))"

definition remote_exportCookies :: "worker_settings \<Rightarrow> remote_session \<Rightarrow> transport_error + prepared" where
  "remote_exportCookies st = remote_invoke st Op_exportCookies (Inr JNull) (operationTimeoutMs st)"

definition remote_rebindIdentity :: "worker_settings \<Rightarrow> jsval \<Rightarrow> remote_session \<Rightarrow> transport_error + prepared" where
  "remote_rebindIdentity st v = remote_invoke st Op_rebindIdentity (ipc_identity v) (operationTimeoutMs st)"

text \<open>What \<open>rebindIdentity\<close> returns: the previous and the new context, and the error of a pending cleanup.\<close>

definition rebind_result :: "jsval \<Rightarrow> remote_session \<Rightarrow> (transport_error + jsval \<times> jsval \<times> transport_error option) \<times> remote_session" where
  "rebind_result v rs = (case bind_ok (ipc_object v) (\<lambda>_. bind_ok (ipc_object (get v ''outcome'')) (\<lambda>_.
       bind_ok (ipc_text 256 (get (get v ''outcome'') ''previousContextId'')) (\<lambda>p.
       bind_ok (ipc_text 256 (get (get v ''outcome'') ''contextId'')) (\<lambda>c.
       bind_ok (wire_value ContextInfo (get v ''info'')) (\<lambda>fresh. Inr (p, c, fresh)))))) of
     Inl e \<Rightarrow> (Inl e, rs)
   | Inr (p, c, fresh) \<Rightarrow> (let outcome = get v ''outcome'' in
       if get outcome ''state'' = jstr ''committed'' then Inr (p, c, None)
       else if get outcome ''state'' = jstr ''committed_cleanup_pending''
       then bind_ok (decodeError (get outcome ''cleanupError'')) (\<lambda>e. Inr (p, c, Some e))
       else Inl (localError PROTOCOL_ERROR None), rs\<lparr>rs_info := fresh\<rparr>))"

end
