(* ===== verification/Facade_Correct.thy ===== *)
theory Facade_Correct
  imports Facade
begin

text \<open>
  What the blocking facade and the worker owe each other: every command the facade posts is one the
  worker accepts and carries out with the very same arguments, and what the worker answers about a
  session arrives as the value or the error of the call.
\<close>

subsection \<open>Identifiers of sessions\<close>

lemma dec_digits_snoc: "dec_digits n \<noteq> [] \<and> last (dec_digits n) = char_of (48 + n mod 10) \<and>
    butlast (dec_digits n) = (if n < 10 then [] else dec_digits (n div 10))"
  by (subst (1 2 3) dec_digits.simps) (simp add: butlast_append)

lemma dec_digits_inj: "dec_digits m = dec_digits n \<Longrightarrow> m = n"
proof (induction m arbitrary: n rule: less_induct)
  case (less m)
  note m = dec_digits_snoc [of m] and n = dec_digits_snoc [of n]
  have "(char_of (48 + m mod 10) :: char) = char_of (48 + n mod 10)" using m n less.prems by simp
  then have "of_char (char_of (48 + m mod 10) :: char) = (of_char (char_of (48 + n mod 10) :: char) :: nat)" by simp
  moreover have "m mod 10 < 10" "n mod 10 < 10" by simp_all
  ultimately have last: "m mod 10 = n mod 10" by (simp add: of_char_of)
  have first: "(if m < 10 then [] else dec_digits (m div 10)) = (if n < 10 then [] else dec_digits (n div 10))"
    using m n less.prems by simp
  show ?case
  proof (cases "m < 10 \<or> n < 10")
    case True
    then have "m < 10 \<and> n < 10" using first dec_digits_snoc [of "m div 10"] dec_digits_snoc [of "n div 10"] by (auto split: if_splits)
    with last show ?thesis by simp
  next
    case False
    then have "m div 10 = n div 10" using less.IH [of "m div 10"] first by simp
    with last show ?thesis using div_mult_mod_eq [of m 10] div_mult_mod_eq [of n 10] by metis
  qed
qed

lemma dec_digits_eq [simp]: "dec_digits m = dec_digits n \<longleftrightarrow> m = n"
  using dec_digits_inj by auto

definition worker_ok :: "worker_state \<Rightarrow> bool" where
  "worker_ok w \<longleftrightarrow> (\<forall>i \<in> dom (ws_sessions w). \<exists>n. 0 < n \<and> n \<le> sessionSequence w \<and> i = js (dec_digits n))"

lemma dispatch_end_sequence: "sessionSequence w \<le> sessionSequence (snd (dispatch_end info call r w))"
  by (auto simp: dispatch_end_def Let_def split: core_call.splits core_value.splits sum.splits)

lemma dispatch_end_dom: "i \<in> dom (ws_sessions (snd (dispatch_end info call r w))) \<Longrightarrow>
    i \<in> dom (ws_sessions w) \<or> i = js (dec_digits (Suc (sessionSequence w))) \<and> sessionSequence (snd (dispatch_end info call r w)) = Suc (sessionSequence w)"
  by (auto simp: dispatch_end_def Let_def split: core_call.splits core_value.splits sum.splits if_splits)

lemma worker_ok_reachable: "worker_reachable w \<Longrightarrow> worker_ok w"
proof (induction rule: worker_reachable.induct)
  case worker_new
  show ?case by (simp add: worker_ok_def new_worker_def)
next
  case (worker_moves w w')
  from worker_moves.hyps(2) obtain info call r where w': "w' = snd (dispatch_end info call r w)" by cases
  show ?case
    unfolding worker_ok_def
  proof
    fix i assume "i \<in> dom (ws_sessions w')"
    then consider "i \<in> dom (ws_sessions w)" | "i = js (dec_digits (Suc (sessionSequence w)))" "sessionSequence w' = Suc (sessionSequence w)"
      using dispatch_end_dom unfolding w' by blast
    then show "\<exists>n. 0 < n \<and> n \<le> sessionSequence w' \<and> i = js (dec_digits n)"
    proof cases
      case 1
      with worker_moves.IH obtain n where "0 < n" "n \<le> sessionSequence w" "i = js (dec_digits n)" by (auto simp: worker_ok_def)
      with dispatch_end_sequence [of w info call r] show ?thesis unfolding w' by auto
    next
      case 2
      then show ?thesis by auto
    qed
  qed
qed


definition session_id :: "nat \<Rightarrow> jsstr" where
  "session_id n = js (dec_digits n)"

lemma worker_steps_keep:
  assumes "worker_step\<^sup>*\<^sup>* w w'" and "n \<le> sessionSequence w"
  shows "n \<le> sessionSequence w' \<and> (ws_sessions w' (session_id n) = None \<or> ws_sessions w' (session_id n) = ws_sessions w (session_id n))"
  using assms(1)
proof (induction rule: rtranclp_induct)
  case base
  with assms(2) show ?case by simp
next
  case (step x y)
  from step.hyps(2) obtain info call r where y: "y = snd (dispatch_end info call r x)" by cases
  have "ws_sessions y (session_id n) = None \<or> ws_sessions y (session_id n) = ws_sessions x (session_id n)"
    using step.IH unfolding y session_id_def
    by (auto simp: dispatch_end_def Let_def split: core_call.splits core_value.splits sum.splits)
  with step.IH dispatch_end_sequence [of x info call r] show ?case unfolding y by auto
qed

subsection \<open>Answers about a session\<close>

text \<open>An error as it arrives: without the references of the caller's observers; an error that is not the SDK's as an unknown one.\<close>

fun crossed :: "thrown \<Rightarrow> transport_error" where
  "crossed (Transport e) = e\<lparr>te_references := None\<rparr>"
| "crossed (Other _) = localError UNKNOWN (Some Worker_unavailable)"

fun sound_thrown :: "thrown \<Rightarrow> bool" where
  "sound_thrown (Transport e) \<longleftrightarrow> frozen_error e \<and> diagnostics (te_diagnostics e) None None"
| "sound_thrown (Other _) \<longleftrightarrow> True"

lemma localError_sound: "frozen_error (localError c k) \<and> diagnostics (te_diagnostics (localError c k)) None None \<and> te_references (localError c k) = None"
  using diagnostics_copied [OF initialDiagnostics_accepted, of "js ''local''" "Num 0" "js ''unknown''"]
  by (simp add: localError_def new_TransportError_frozen) (simp add: new_TransportError_def)

lemma decode_crossed: "sound_thrown t \<Longrightarrow> decodeError (encodeError t) = Inr (crossed t)"
proof (cases t)
  case (Other v)
  have "encodeError t = encodeError (Transport (localError UNKNOWN (Some Worker_unavailable)))" by (simp add: Other encodeError_def)
  with localError_sound decode_encode show ?thesis by (simp add: Other)
qed (simp add: decode_encode)

lemma invoke_session_result:
  assumes "validateWire ContextInfo info" and "\<And>e. r = Inl e \<Longrightarrow> sound_thrown e"
  shows "invoke_result op (session_result info False r) rs = (map_sum crossed id r, rs\<lparr>rs_info := info\<rparr>)"
    and "invoke_result op (session_result info True r) rs =
      (Inr (case r of Inr v \<Rightarrow> ok_value v | Inl e \<Rightarrow> not_ok e), rs\<lparr>rs_info := info\<rparr>)"
proof -
  have decode: "r = Inl e \<Longrightarrow> decodeError (encodeError e) = Inr (crossed e)" for e using assms(2) decode_crossed by blast
  show "invoke_result op (session_result info False r) rs = (map_sum crossed id r, rs\<lparr>rs_info := info\<rparr>)"
    by (cases r) (simp_all add: invoke_result_def session_result_def ipc_object_def wire_value_def assms(1) get_literal ok_value_def not_ok_def decode)
  show "invoke_result op (session_result info True r) rs =
      (Inr (case r of Inr v \<Rightarrow> ok_value v | Inl e \<Rightarrow> not_ok e), rs\<lparr>rs_info := info\<rparr>)"
    by (cases r) (simp_all add: invoke_result_def session_result_def ipc_object_def wire_value_def assms(1) get_literal ok_value_def)
qed

text \<open>Converters fail only with local errors.\<close>

definition locally :: "transport_error + 'a \<Rightarrow> bool" where
  "locally m \<longleftrightarrow> (\<forall>e. m = Inl e \<longrightarrow> (\<exists>c k. e = localError c k))"

named_theorems local_intros

lemma locally_intros [local_intros]:
  "locally (Inr x)" "locally (Inl (localError c k))" "locally (Inl invalid_input)"
  "locally m \<Longrightarrow> (\<And>x. m = Inr x \<Longrightarrow> locally (f x)) \<Longrightarrow> locally (bind_ok m f)"
  "locally n \<Longrightarrow> locally (guard b n)"
  "(b \<Longrightarrow> locally n) \<Longrightarrow> (\<not> b \<Longrightarrow> locally n') \<Longrightarrow> locally (if b then n else n')"
  by (auto simp: locally_def bind_ok_def guard_def invalid_input_def split: sum.splits)

lemma locally_map [local_intros]: "(\<And>x. locally (f x)) \<Longrightarrow> locally (map_ok f xs)"
  by (induction xs) (auto intro!: local_intros)

lemma locally_object [local_intros]: "locally (ipc_object v)"
  by (cases v) (auto simp: ipc_object_def intro!: local_intros)

lemma locally_scalars [local_intros]: "locally (ipc_text n v)" "locally (ipc_integer a b v)" "locally (wire_value c v)"
    "locally (managed entry)" "(\<And>w. locally (f w)) \<Longrightarrow> locally (opt_field key v f)"
  by (auto simp: ipc_text_def ipc_integer_def wire_value_def managed_def opt_field_def Let_def intro!: local_intros)

lemma locally_url [local_intros]: "locally (ipc_url pf v)"
  by (auto simp: ipc_url_def intro!: local_intros split: option.split)

lemma locally_identity [local_intros]: "locally (ipc_identity v)"
  by (auto simp: ipc_identity_def intro!: local_intros)

lemma locally_pairs [local_intros]: "locally (string_pair v)" "locally (string_entry q)"
  by (cases v rule: string_pair.cases; simp; intro local_intros) (cases q rule: string_entry.cases; simp; intro local_intros)

lemma locally_headers [local_intros]: "locally (ipc_headers pf v)"
  by (auto simp: ipc_headers_def intro!: local_intros split: option.split jsval.split)

lemma locally_sessionRequest [local_intros]: "locally (ipc_sessionRequest pf cap v)"
  unfolding ipc_sessionRequest_def by (cases "body_size (get v ''body'')") (auto intro!: local_intros)

lemma locally_closeSettings [local_intros]: "locally (closeSettings st v)"
  by (auto simp: closeSettings_def intro!: local_intros)

lemma locally_session_start: "locally (session_start pf st entry op v)"
  unfolding session_start_def by (cases op; cases "get v ''values''") (auto intro!: local_intros)

lemma session_start_sound: "session_start pf st entry op v = Inl e \<Longrightarrow> sound_thrown (Transport e)"
  using locally_session_start [of pf st entry op v] localError_sound by (auto simp: locally_def)

definition session_operation :: "operation_name \<Rightarrow> bool" where
  "session_operation op \<longleftrightarrow> op \<in> {Op_sessionRequest, Op_sessionTryRequest, Op_sessionClose, Op_getCookies, Op_setCookies, Op_exportCookies,
     Op_importCookies, Op_rebindIdentity}"

lemma session_dispatch:
  assumes "session_operation op" and "owned w v = Inr (entry, i, x)"
  shows "dispatch_start pf st info w op v = (case session_start pf st entry op x of
     Inl e \<Rightarrow> Resolves (session_result (info (os_session entry)) (op = Op_sessionTryRequest) (Inl (Transport e)))
   | Inr c \<Rightarrow> Awaits (Core_session i (os_session entry) c))"
  using assms by (auto simp: session_operation_def dispatch_start_def)

lemma session_start_tries: "session_start pf st entry op x = Inr c \<Longrightarrow> session_operation op \<Longrightarrow>
    tries c = (op = Op_sessionTryRequest) \<and> deletes c = (op = Op_sessionClose)"
  by (cases op) (auto simp: session_start_def session_operation_def split: jsval.splits)

text \<open>What a session call is to give: \<open>tryRequest\<close> hands on the caught error as a value.\<close>

definition delivered :: "operation_name \<Rightarrow> thrown + jsval \<Rightarrow> transport_error + jsval" where
  "delivered op r = (if op = Op_sessionTryRequest then Inr (case r of Inr v \<Rightarrow> ok_value v | Inl e \<Rightarrow> not_ok e) else map_sum crossed id r)"

lemma invoke_delivered:
  assumes "validateWire ContextInfo info" and "\<And>e. r = Inl e \<Longrightarrow> sound_thrown e"
  shows "invoke_result op (session_result info (op = Op_sessionTryRequest) r) rs = (delivered op r, rs\<lparr>rs_info := info\<rparr>)"
  using invoke_session_result [OF assms] by (cases "op = Op_sessionTryRequest") (simp_all add: delivered_def)

text \<open>
  C12: A call of a blocking session gives what the call of the asynchronous session gave. Whenever the
  worker owns the session, the command is answered (never rejected as a whole), and the facade turns the
  answer into the value that the client returned, or throws the error that the client threw, without
  its references, or the worker's own error when the arguments do not pass; in each of these cases the
  facade's session also takes over the information that the worker's session had at that time.
\<close>

theorem session_answers_cross:
  assumes op: "session_operation op" and known: "owned w (session_message rs x) = Inr (entry, i, x)"
    and info: "\<And>h. validateWire ContextInfo (info h)" and sound: "\<And>e. r = Inl e \<Longrightarrow> sound_thrown e"
  shows "case dispatch_start pf st info w op (session_message rs x) of
      Rejects e \<Rightarrow> False
    | Resolves v \<Rightarrow> (\<exists>e. session_start pf st entry op x = Inl e \<and>
        invoke_result op v rs = (delivered op (Inl (Transport e)), rs\<lparr>rs_info := info (os_session entry)\<rparr>))
    | Awaits c \<Rightarrow> (\<exists>v. fst (dispatch_end info c r w) = Inr v \<and>
        invoke_result op v rs = (delivered op (map_sum id reply_value r), rs\<lparr>rs_info := info (os_session entry)\<rparr>))"
proof (cases "session_start pf st entry op x")
  case (Inl e)
  have "invoke_result op (session_result (info (os_session entry)) (op = Op_sessionTryRequest) (Inl (Transport e))) rs =
      (delivered op (Inl (Transport e)), rs\<lparr>rs_info := info (os_session entry)\<rparr>)"
    by (rule invoke_delivered [OF info]) (use session_start_sound [OF Inl] in simp)
  with Inl show ?thesis by (simp add: session_dispatch [OF op known])
next
  case (Inr c)
  have "invoke_result op (session_result (info (os_session entry)) (tries c) (map_sum id reply_value r)) rs =
      (delivered op (map_sum id reply_value r), rs\<lparr>rs_info := info (os_session entry)\<rparr>)"
    unfolding conjunct1 [OF session_start_tries [OF Inr op]]
    by (rule invoke_delivered [OF info]) (use sound in \<open>cases r; simp\<close>)
  with Inr show ?thesis by (simp add: session_dispatch [OF op known] dispatch_end_def)
qed

text \<open>
  An identifier names one session for ever. Once handed out it refers to the same session in every
  later state, or to none after that session was closed: it is never given to another. A new session
  gets an identifier that no session has.
\<close>

theorem session_ids_stable:
  assumes "worker_reachable w" and "worker_step\<^sup>*\<^sup>* w w'" and "n \<le> sessionSequence w"
  shows "owned w' (JObj [(js ''id'', JStr (session_id n)), (js ''value'', x)]) \<in>
      {owned w (JObj [(js ''id'', JStr (session_id n)), (js ''value'', x)]), Inl (localError CONTEXT_NOT_FOUND None)} \<and>
    ws_sessions w' (session_id (Suc (sessionSequence w'))) = None"
proof
  show "owned w' (JObj [(js ''id'', JStr (session_id n)), (js ''value'', x)]) \<in>
      {owned w (JObj [(js ''id'', JStr (session_id n)), (js ''value'', x)]), Inl (localError CONTEXT_NOT_FOUND None)}"
    using worker_steps_keep [OF assms(2,3)] by (auto simp: owned_def ipc_object_def get_literal ipc_text_def guard_def bind_ok_def str_of_def)
  have "worker_reachable w'" using assms(2,1) by (induction rule: rtranclp_induct) (auto intro: worker_moves)
  then have "\<exists>n. 0 < n \<and> n \<le> sessionSequence w' \<and> i = js (dec_digits n)" if "i \<in> dom (ws_sessions w')" for i
    using worker_ok_reachable that unfolding worker_ok_def by blast
  from this [of "session_id (Suc (sessionSequence w'))"] have "session_id (Suc (sessionSequence w')) \<notin> dom (ws_sessions w')"
    by (auto simp: session_id_def)
  then show "ws_sessions w' (session_id (Suc (sessionSequence w'))) = None" by blast
qed

subsection \<open>Commands\<close>

definition settings_ok :: "worker_settings \<Rightarrow> bool" where
  "settings_ok st \<longleftrightarrow> 0 < operationTimeoutMs st \<and> operationTimeoutMs st \<le> MAX_TIMEOUT_MS"

text \<open>The settings of a configuration.\<close>

definition settings_of :: "jsval \<Rightarrow> worker_settings" where
  "settings_of c = \<lparr>maxBatchRequests = int_of (get c ''maxBatchRequests''), maxRequestBytes = nat (int_of (get c ''maxRequestBytes'')),
     maxBatchConcurrency = int_of (get c ''maxBatchConcurrency''), maxBatchBytes = int_of (get c ''maxBatchBytes''),
     operationTimeoutMs = int_of (get c ''operationTimeoutMs'')\<rparr>"

lemma integer_Inr: "ipc_integer a b v = Inr w \<longleftrightarrow> positive w \<and> int_of w \<le> b \<and> w = (if v = JUndef then jint a else v)"
  by (auto simp: ipc_integer_def Let_def)

lemma positive_int: "positive v \<longleftrightarrow> (\<exists>n. v = jint n \<and> 0 < n \<and> n \<le> MAX_SAFE_INTEGER)"
proof
  assume "positive v"
  then obtain n where n: "v = JNum n" "isSafeInteger n" "num_less (Num 0) n" by (cases v) auto
  then obtain q where v: "v = JNum (Num q)" "isSafeInteger (Num q)" "0 < q" by (cases n) (auto simp: isSafeInteger_def)
  then have "q = of_int \<lfloor>q\<rfloor>" by (simp add: isSafeInteger_def)
  with v show "\<exists>n. v = jint n \<and> 0 < n \<and> n \<le> MAX_SAFE_INTEGER" by (metis isSafeInteger_jint of_int_0_less_iff)
qed auto

lemma int_of_jint [simp]: "int_of (jint n) = n"
  by (simp add: int_of_def)

lemma settings_of_ok: "ipc_config pf v = Inr c \<Longrightarrow> settings_ok (settings_of c)"
  by (auto simp: ipc_config_def settings_ok_def settings_of_def integer_Inr positive_int get_literal)

text \<open>Everything the facade posts, method by method.\<close>

inductive prepares :: "platform \<Rightarrow> worker_settings \<Rightarrow> prepared \<Rightarrow> bool" for pf st where
  "op \<in> {Op_request, Op_tryRequest} \<Longrightarrow> sync_request op pf st v = Inr p \<Longrightarrow> prepares pf st p"
| "sync_requestMany pf st options input = Inr p \<Longrightarrow> prepares pf st p"
| "prepares pf st (sync_capabilities st)"
| "op \<in> {Op_requestStatus, Op_cancelRequest} \<Longrightarrow> sync_id_partition op st r q = Inr p \<Longrightarrow> prepares pf st p"
| "sync_createSession pf st v = Inr p \<Longrightarrow> prepares pf st p"
| "sync_close_options st v = Inr p \<Longrightarrow> prepares pf st p"
| "op \<in> {Op_sessionRequest, Op_sessionTryRequest} \<Longrightarrow> remote_request op pf st v rs = Inr p \<Longrightarrow> prepares pf st p"
| "remote_close st v rs = (Inr (Some p), rs') \<Longrightarrow> prepares pf st p"
| "remote_getCookies pf st v rs = Inr p \<Longrightarrow> prepares pf st p"
| "remote_setCookies pf st u vs rs = Inr p \<Longrightarrow> prepares pf st p"
| "remote_exportCookies st rs = Inr p \<Longrightarrow> prepares pf st p"
| "remote_importCookies st v rs = Inr p \<Longrightarrow> prepares pf st p"
| "remote_rebindIdentity st v rs = Inr p \<Longrightarrow> prepares pf st p"

lemma find_operation: "List.find (\<lambda>o'. op_name op = op_name o') operations = Some op"
  by (cases op) (simp_all add: operations_def)

lemma closeOptions_Inr:
  assumes "closeOptions mx v = Inr w" and "0 < mx" and "mx \<le> MAX_TIMEOUT_MS"
  obtains d t where "w = JObj (opt ''drain'' d @ [(js ''timeoutMs'', jint t)])" "d = JUndef \<or> js_typeof d = ''boolean''" "0 < t" "t \<le> mx"
  using assms by (auto simp: closeOptions_def Let_def integer_Inr positive_int pick_opt_single split: if_splits)

lemma remote_invoke_Inr: "remote_invoke st op arg t rs = Inr p \<longleftrightarrow> (\<exists>x. arg = Inr x \<and> \<not> invoke_refused op rs \<and> p = (op, session_message rs x, t))"
  by (auto simp: remote_invoke_def)

lemma remote_close_Inr: "remote_close st v rs = (Inr (Some p), rs') \<Longrightarrow> \<exists>w. closeOptions (operationTimeoutMs st) v = Inr w \<and>
    p = (Op_sessionClose, session_message rs w, int_of (get w ''timeoutMs''))"
  by (auto simp: remote_close_def Let_def remote_invoke_def session_message_def split: if_splits sum.splits)

lemma prepared_time:
  assumes "settings_ok st" and "prepares pf st (op, v, t)"
  shows "0 < t \<and> t \<le> operationTimeoutMs st"
  using assms(2,1)
proof cases
  case (8 w rs rs')
  with assms(1) show ?thesis
    by (auto simp: settings_ok_def get_literal dest!: remote_close_Inr elim!: closeOptions_Inr)
qed (auto simp: settings_ok_def sync_request_def sync_requestMany_def sync_capabilities_def sync_id_partition_def sync_createSession_def
    sync_close_options_def remote_request_def remote_getCookies_def remote_setCookies_def remote_exportCookies_def remote_importCookies_def
    remote_rebindIdentity_def remote_invoke_Inr integer_Inr positive_int get_literal split: jsval.splits elim!: closeOptions_Inr)

text \<open>
  C13: The worker accepts every command the facade posts. Whatever method is called with whatever
  arguments, the message that \<open>#call\<close> posts passes \<open>command\<close> in the worker as the same operation with the
  same identifier and value and with a time limit between one and the configured one, so that the
  worker never stops because of a malformed command.
\<close>

theorem commands_accepted:
  assumes "ipc_config pf options = Inr c" and "prepares pf (settings_of c) (op, v, t)" and "0 < i" and "int i \<le> MAX_SAFE_INTEGER"
  shows "worker_command (settings_of c) (posted_value (settings_of c) i (op, v, t)) =
      Inr (\<lparr>cmd_id = i, cmd_operation = op, cmd_value = v\<rparr>, t) \<and> 0 < t \<and> t \<le> operationTimeoutMs (settings_of c)"
proof -
  note st = settings_of_ok [OF assms(1)]
  note t = prepared_time [OF st assms(2)]
  have "t \<le> MAX_SAFE_INTEGER" using t st by (simp add: settings_ok_def MAX_TIMEOUT_MS_def MAX_SAFE_INTEGER_def)
  with t assms(3,4) show ?thesis
    by (auto simp: worker_command_def posted_value_def ipc_object_def get_literal find_operation integer_Inr positive_int
        simp del: of_int_of_nat_eq)
qed

subsection \<open>Arguments\<close>

text \<open>The call of the asynchronous client that a converted value stands for.\<close>

fun core_of :: "operation_name \<Rightarrow> jsval \<Rightarrow> core_call" where
  "core_of Op_tryRequest v = Core_tryRequest v"
| "core_of Op_requestMany v = Core_batch (array_items (get v ''requests'')) (nat (int_of (get v ''concurrency''))) (nat (int_of (get v ''maxTotalBytes'')))"
| "core_of Op_capabilities v = Core_capabilities"
| "core_of Op_requestStatus v = Core_requestStatus (get v ''requestId'') (get v ''partition'')"
| "core_of Op_cancelRequest v = Core_cancelRequest (get v ''requestId'') (get v ''partition'')"
| "core_of Op_createSession v = Core_createSession v"
| "core_of Op_close v = Core_close v"
| "core_of _ v = Core_request v"

fun session_core :: "operation_name \<Rightarrow> jsval \<Rightarrow> session_call" where
  "session_core Op_sessionTryRequest x = Session_tryRequest x"
| "session_core Op_sessionClose x = Session_close x"
| "session_core Op_getCookies x = Session_getCookies x"
| "session_core Op_setCookies x = Session_setCookies (get x ''url'') (array_items (get x ''values''))"
| "session_core Op_exportCookies x = Session_exportCookies"
| "session_core Op_importCookies x = Session_importCookies x"
| "session_core Op_rebindIdentity x = Session_rebindIdentity x"
| "session_core _ x = Session_request x"

text \<open>The serialized URLs in a value; parsing may lengthen a URL, and the worker limits what it parses again.\<close>

fun urls_of :: "operation_name \<Rightarrow> jsval \<Rightarrow> jsval list" where
  "urls_of Op_request v = [get v ''url'']"
| "urls_of Op_tryRequest v = [get v ''url'']"
| "urls_of Op_requestMany v = map (\<lambda>r. get r ''url'') (array_items (get v ''requests''))"
| "urls_of Op_createSession v = array_items (get v ''allowedOrigins'')"
| "urls_of Op_sessionRequest v = [get (get v ''value'') ''url'']"
| "urls_of Op_sessionTryRequest v = [get (get v ''value'') ''url'']"
| "urls_of Op_getCookies v = [get v ''value'']"
| "urls_of Op_setCookies v = [get (get v ''value'') ''url'']"
| "urls_of _ v = []"

definition short_urls :: "operation_name \<Rightarrow> jsval \<Rightarrow> bool" where
  "short_urls op v \<longleftrightarrow> list_all (\<lambda>u. length (str_of u) \<le> MAX_METADATA_BYTES) (urls_of op v)"

lemma map_ok_image: "map_ok f xs = Inr ys \<Longrightarrow> y \<in> set ys \<Longrightarrow> \<exists>x \<in> set xs. f x = Inr y"
  by (induction xs arbitrary: ys) auto

lemma map_ok_fixed: "(\<And>y. y \<in> set ys \<Longrightarrow> f y = Inr y) \<Longrightarrow> map_ok f ys = Inr ys"
  by (induction ys) auto

lemma add_bodies_map: "add_bodies cap n f xs = Inr ys \<Longrightarrow> map_ok f xs = Inr ys"
  by (induction xs arbitrary: n ys) (auto simp: Let_def split: if_splits)

lemma map_ok_length: "map_ok f xs = Inr ys \<Longrightarrow> length ys = length xs"
  by (induction xs arbitrary: ys) auto

lemma origins_again:
  assumes "platform_laws pf" and "opt_field ''allowedOrigins'' v (ipc_origins pf) = Inr p"
    and "list_all (\<lambda>u. length (str_of u) \<le> MAX_METADATA_BYTES) (array_items (get (JObj p) ''allowedOrigins''))"
  obtains x where "p = opt ''allowedOrigins'' x" "opt_field ''allowedOrigins'' x (ipc_origins pf) = Inr (opt ''allowedOrigins'' x)"
proof (cases "v = JUndef")
  case True
  with assms(2) that [of JUndef] show thesis by (simp add: opt_field_def opt_def)
next
  case False
  with assms(2) obtain us ws where v: "v = JArr us" "length us \<le> 4096" "map_ok (ipc_url pf) us = Inr ws" and p: "p = [(js ''allowedOrigins'', JArr ws)]"
    by (auto simp: opt_field_def ipc_origins_def split: jsval.splits)
  have "map_ok (ipc_url pf) ws = Inr ws"
  proof (rule map_ok_fixed)
    fix u assume "u \<in> set ws"
    with map_ok_image [OF v(3)] assms(3) stable_url [OF assms(1)] show "ipc_url pf u = Inr u" by (auto simp: p get_literal list_all_iff)
  qed
  with v p that [of "JArr ws"] map_ok_length [OF v(3)] show thesis by (simp add: opt_field_def opt_def ipc_origins_def)
qed

lemma sessionOptions_again:
  assumes laws: "platform_laws pf" and v: "ipc_sessionOptions pf v = Inr w"
    and short: "list_all (\<lambda>u. length (str_of u) \<le> MAX_METADATA_BYTES) (array_items (get w ''allowedOrigins''))"
  shows "ipc_sessionOptions pf w = Inr w"
proof -
  from v obtain os p c ttl t mx where
    parts: "opt_field ''allowedOrigins'' (get v ''allowedOrigins'') (ipc_origins pf) = Inr os" "ipc_text 1024 (get v ''partition'') = Inr p"
      "ipc_connection (get v ''connection'') = Inr c" "opt_field ''ttlMs'' (get v ''ttlMs'') (ipc_integer 1 MAX_TIMEOUT_MS) = Inr ttl"
      "opt_field ''timeoutMs'' (get v ''timeoutMs'') (ipc_integer 1 MAX_TIMEOUT_MS) = Inr t"
      "opt_field ''maxResponseBytes'' (get v ''maxResponseBytes'') (ipc_integer 1 MAX_SAFE_INTEGER) = Inr mx"
    and w: "\<exists>m \<in> {''managed'', ''external''}. w = JObj ([(js ''partition'', p), (js ''connection'', c)] @ ttl @ t @ mx @ (js ''cookieMode'', jstr m) # os) \<and>
      (m = ''managed'' \<longrightarrow> array_items (get (JObj os) ''allowedOrigins'') \<noteq> [])"
    by (auto simp: ipc_sessionOptions_def Let_def split: if_splits)
  from opt_again [OF stable_integer parts(4)] obtain l where l: "ttl = opt ''ttlMs'' l" "opt_field ''ttlMs'' l (ipc_integer 1 MAX_TIMEOUT_MS) = Inr (opt ''ttlMs'' l)" .
  from opt_again [OF stable_integer parts(5)] obtain t' where t: "t = opt ''timeoutMs'' t'" "opt_field ''timeoutMs'' t' (ipc_integer 1 MAX_TIMEOUT_MS) = Inr (opt ''timeoutMs'' t')" .
  from opt_again [OF stable_integer parts(6)] obtain x where x: "mx = opt ''maxResponseBytes'' x"
      "opt_field ''maxResponseBytes'' x (ipc_integer 1 MAX_SAFE_INTEGER) = Inr (opt ''maxResponseBytes'' x)" .
  from w obtain m where m: "m \<in> {''managed'', ''external''}" "m = ''managed'' \<Longrightarrow> array_items (get (JObj os) ''allowedOrigins'') \<noteq> []"
    and w': "w = JObj ([(js ''partition'', p), (js ''connection'', c)] @ ttl @ t @ mx @ (js ''cookieMode'', jstr m) # os)" by blast
  have "get w ''allowedOrigins'' = get (JObj os) ''allowedOrigins''" unfolding w' l(1) t(1) x(1) by (simp add: get_literal)
  with short origins_again [OF laws parts(1)] obtain o' where o': "os = opt ''allowedOrigins'' o'"
      "opt_field ''allowedOrigins'' o' (ipc_origins pf) = Inr (opt ''allowedOrigins'' o')" by metis
  define ps where "ps = [(js ''partition'', p), (js ''connection'', c)] @ opt ''ttlMs'' l @ opt ''timeoutMs'' t' @ opt ''maxResponseBytes'' x @
      (js ''cookieMode'', jstr m) # opt ''allowedOrigins'' o'"
  have w'': "w = JObj ps" unfolding w' ps_def l(1) t(1) x(1) o'(1) ..
  have reads: "get w ''partition'' = p" "get w ''connection'' = c" "get w ''ttlMs'' = l" "get w ''timeoutMs'' = t'" "get w ''maxResponseBytes'' = x"
      "get w ''cookieMode'' = jstr m" "get w ''allowedOrigins'' = o'"
    unfolding w'' ps_def by (simp_all add: get_literal)
  have "array_items o' \<noteq> []" if "m = ''managed''" using m(2) [OF that] unfolding o'(1) by (simp add: get_literal)
  moreover have "ipc_object w = Inr ps"
    "ipc_keys ps [''partition'', ''connection'', ''cookieMode'', ''allowedOrigins'', ''ttlMs'', ''timeoutMs'', ''maxResponseBytes'']"
    using w'' unfolding ps_def by (simp_all add: keys_opt)
  ultimately show ?thesis
    using m(1) stableD [OF stable_text parts(2)] stableD [OF stable_connection parts(3)] l(2) t(2) x(2) o'(2)
    unfolding ipc_sessionOptions_def reads Let_def by (elim insertE) (simp_all add: get_literal w'' ps_def)
qed

lemma closeSettings_again:
  assumes "settings_ok st" and "closeOptions (operationTimeoutMs st) v = Inr w"
  shows "closeSettings st w = Inr w"
proof -
  have "0 < operationTimeoutMs st" "operationTimeoutMs st \<le> MAX_TIMEOUT_MS" using assms(1) by (simp_all add: settings_ok_def)
  from closeOptions_Inr [OF assms(2) this] obtain d t where w: "w = JObj (opt ''drain'' d @ [(js ''timeoutMs'', jint t)])"
    and d: "d = JUndef \<or> js_typeof d = ''boolean''" and t: "0 < t" "t \<le> operationTimeoutMs st" .
  moreover have "get w ''drain'' = d" "get w ''timeoutMs'' = jint t" unfolding w by (simp_all add: get_literal)
  moreover have "t \<le> MAX_SAFE_INTEGER" using t assms(1) by (simp add: settings_ok_def MAX_TIMEOUT_MS_def MAX_SAFE_INTEGER_def)
  ultimately show ?thesis
    by (auto simp: closeSettings_def ipc_object_def pick_opt_single ipc_integer_def)
qed

lemma many_again:
  assumes "settings_ok st" and laws: "platform_laws pf" and p: "sync_requestMany pf st options input = Inr (op, v, t)" and short: "short_urls op v"
  shows "dispatch_start pf st info w op v = Awaits (core_of op v)"
proof -
  from p obtain xs c mx rs where xs: "int (length xs) \<le> maxBatchRequests st"
    and c: "ipc_integer (maxBatchConcurrency st) (maxBatchConcurrency st) (get input ''concurrency'') = Inr c"
    and mx: "ipc_integer (maxBatchBytes st) (maxBatchBytes st) (get input ''maxTotalBytes'') = Inr mx"
    and rs: "add_bodies (maxRequestBytes st) 0 (ipc_request pf (maxRequestBytes st)) xs = Inr rs"
    and v: "op = Op_requestMany" "v = JObj [(js ''requests'', JArr rs), (js ''concurrency'', c), (js ''maxTotalBytes'', mx)]"
    by (auto simp: sync_requestMany_def split: jsval.splits)
  note rs = add_bodies_map [OF rs]
  have again: "map_ok (ipc_request pf (maxRequestBytes st)) rs = Inr rs"
  proof (rule map_ok_fixed)
    fix r assume "r \<in> set rs"
    with map_ok_image [OF rs] obtain x where "ipc_request pf (maxRequestBytes st) x = Inr r" by blast
    moreover have "length (str_of (get r ''url'')) \<le> MAX_METADATA_BYTES"
      using short \<open>r \<in> set rs\<close> by (auto simp: short_urls_def v get_literal list_all_iff)
    ultimately show "ipc_request pf (maxRequestBytes st) r = Inr r" using request_again [OF laws] by blast
  qed
  have numbers: "ipc_integer 1 (maxBatchConcurrency st) c = Inr c" "ipc_integer 1 (maxBatchBytes st) mx = Inr mx"
    using c mx by (auto simp: integer_Inr)
  show ?thesis
    using xs map_ok_length [OF rs] again numbers
    by (simp add: v dispatch_start_def batch_input_def ipc_object_def get_literal batch_settings.truncate_def)
qed

lemma client_commands_start:
  assumes config: "ipc_config pf options = Inr c" and laws: "platform_laws pf" and p: "prepares pf (settings_of c) (op, v, t)"
    and short: "short_urls op v" and client: "\<not> session_operation op"
  shows "dispatch_start pf (settings_of c) info w op v = Awaits (core_of op v)"
  using p
proof cases
  case (1 op' x)
  then have "ipc_request pf (maxRequestBytes (settings_of c)) x = Inr v" "op \<in> {Op_request, Op_tryRequest}" by (auto simp: sync_request_def)
  with request_again [OF laws] short show ?thesis by (auto simp: short_urls_def dispatch_start_def)
next
  case (2 options input)
  from many_again [OF settings_of_ok [OF config] laws 2 short] show ?thesis .
next
  case 3
  then show ?thesis by (simp add: sync_capabilities_def dispatch_start_def)
next
  case (4 op' r q)
  then obtain i k where "ipc_text 128 r = Inr i" "ipc_text 1024 q = Inr k" "op \<in> {Op_requestStatus, Op_cancelRequest}"
      "v = JObj [(js ''requestId'', i), (js ''partition'', k)]" by (auto simp: sync_id_partition_def)
  then show ?thesis using stableD [OF stable_text, of 128 r] stableD [OF stable_text, of 1024 q]
    by (auto simp: dispatch_start_def two_texts_def ipc_object_def get_literal)
next
  case (5 x)
  then show ?thesis using sessionOptions_again [OF laws] short by (auto simp: sync_createSession_def dispatch_start_def short_urls_def)
next
  case (6 x)
  then show ?thesis using closeSettings_again [OF settings_of_ok [OF config]] by (auto simp: sync_close_options_def dispatch_start_def)
next
  case (8 x rs rs')
  then show ?thesis using client by (auto dest!: remote_close_Inr simp: session_operation_def)
qed (use client in \<open>auto simp: session_operation_def remote_request_def remote_getCookies_def remote_setCookies_def remote_exportCookies_def
    remote_importCookies_def remote_rebindIdentity_def remote_invoke_Inr split: jsval.splits\<close>)

lemma owned_message: "owned w (session_message rs x) = Inr (entry, i, y) \<Longrightarrow> y = x"
  by (auto simp: owned_def session_message_def ipc_object_def get_literal split: option.splits)

lemma stable_wire: "wire_value n v = Inr w \<Longrightarrow> wire_value n w = Inr w"
  by (simp add: wire_value_def split: if_splits)

definition plain_session :: "operation_name \<Rightarrow> bool" where
  "plain_session op \<longleftrightarrow> op \<in> {Op_sessionRequest, Op_sessionTryRequest, Op_sessionClose}"

lemma session_commands_start:
  assumes config: "ipc_config pf options = Inr c" and laws: "platform_laws pf" and p: "prepares pf (settings_of c) (op, v, t)"
    and short: "short_urls op v" and session: "session_operation op" and rights: "plain_session op \<or> managed entry = Inr h"
  shows "\<exists>rs x. v = session_message rs x \<and> session_start pf (settings_of c) entry op x = Inr (session_core op x)"
  using p
proof cases
  case (7 op' x rs)
  then obtain w where "ipc_sessionRequest pf (maxRequestBytes (settings_of c)) x = Inr w" "op \<in> {Op_sessionRequest, Op_sessionTryRequest}"
      "v = session_message rs w" by (auto simp: remote_request_def remote_invoke_Inr)
  with sessionRequest_again [OF laws] short show ?thesis
    by (intro exI [of _ rs] exI [of _ w]) (auto simp: short_urls_def session_start_def session_message_def get_literal)
next
  case (8 x rs rs')
  then obtain w where "closeOptions (operationTimeoutMs (settings_of c)) x = Inr w" "op = Op_sessionClose" "v = session_message rs w"
    by (auto dest!: remote_close_Inr)
  with closeSettings_again [OF settings_of_ok [OF config]] show ?thesis
    by (intro exI [of _ rs] exI [of _ w]) (auto simp: session_start_def)
next
  case (9 x rs)
  then obtain w where "ipc_url pf x = Inr w" "op = Op_getCookies" "v = session_message rs w" by (auto simp: remote_getCookies_def remote_invoke_Inr)
  with stable_url [OF laws] short rights show ?thesis
    by (intro exI [of _ rs] exI [of _ w]) (auto simp: session_start_def short_urls_def session_message_def get_literal plain_session_def)
next
  case (10 u vs rs)
  then obtain w xs where "ipc_url pf u = Inr w" "op = Op_setCookies" "v = session_message rs (JObj [(js ''url'', w), (js ''values'', JArr xs)])"
      "list_all (\<lambda>x. js_typeof x = ''string'') xs" by (auto simp: remote_setCookies_def remote_invoke_Inr split: jsval.splits)
  with stable_url [OF laws] short rights show ?thesis
    by (intro exI [of _ rs] exI [of _ "JObj [(js ''url'', w), (js ''values'', JArr xs)]"])
      (auto simp: session_start_def short_urls_def session_message_def get_literal plain_session_def ipc_object_def)
next
  case (11 rs)
  with rights show ?thesis by (auto simp: remote_exportCookies_def remote_invoke_Inr session_start_def plain_session_def)
next
  case (12 x rs)
  then obtain w ys k where "wire_value CookieSnapshot (JObj [(js ''partitionKey'', k), (js ''cookies'', JArr ys)]) = Inr w" "op = Op_importCookies"
      "v = session_message rs w" by (auto simp: remote_importCookies_def remote_invoke_Inr split: jsval.splits)
  with stable_wire rights show ?thesis
    by (intro exI [of _ rs] exI [of _ w]) (auto simp: session_start_def plain_session_def)
next
  case (13 x rs)
  then obtain w where "ipc_identity x = Inr w" "op = Op_rebindIdentity" "v = session_message rs w"
    by (auto simp: remote_rebindIdentity_def remote_invoke_Inr)
  with stableD [OF stable_identity] rights show ?thesis
    by (intro exI [of _ rs] exI [of _ w]) (auto simp: session_start_def plain_session_def)
qed (use session in \<open>auto simp: session_operation_def sync_request_def sync_requestMany_def sync_capabilities_def sync_id_partition_def
    sync_createSession_def sync_close_options_def split: jsval.splits\<close>)

text \<open>What the worker is to do with a command: nothing when it does not own the session or the session keeps no cookies.\<close>

definition expected_call :: "worker_state \<Rightarrow> operation_name \<Rightarrow> jsval \<Rightarrow> core_call option" where
  "expected_call w op v = (if \<not> session_operation op then Some (core_of op v)
     else case owned w v of Inl _ \<Rightarrow> None
     | Inr (entry, i, x) \<Rightarrow> if plain_session op \<or> managed entry = Inr (os_session entry)
         then Some (Core_session i (os_session entry) (session_core op x)) else None)"

text \<open>
  C14: The worker carries out exactly what the facade was asked for, as long as the URLs in the command
  serialize within the metadata limit of 1 MiB. Every such command that a method of the client or of a
  session posts passes the worker's own conversions and becomes the call of the asynchronous client, or
  of the session it names, with the very values that the facade posted. The proviso is needed: a URL
  that is within the limit as given and beyond it as serialized passes the facade's conversion and is
  refused by the worker's.
\<close>

theorem commands_dispatched:
  assumes config: "ipc_config pf options = Inr c" and laws: "platform_laws pf" and p: "prepares pf (settings_of c) (op, v, t)"
    and short: "short_urls op v" and call: "expected_call w op v = Some call"
  shows "dispatch_start pf (settings_of c) info w op v = Awaits call"
proof (cases "session_operation op")
  case False
  with client_commands_start [OF config laws p short] call show ?thesis by (simp add: expected_call_def)
next
  case True
  with call obtain entry i x where known: "owned w v = Inr (entry, i, x)" and rights: "plain_session op \<or> managed entry = Inr (os_session entry)"
    and call: "call = Core_session i (os_session entry) (session_core op x)"
    by (auto simp: expected_call_def split: sum.splits prod.splits if_splits)
  from session_commands_start [OF config laws p short True rights] obtain rs y where v: "v = session_message rs y"
    and start: "session_start pf (settings_of c) entry op y = Inr (session_core op y)" by blast
  have "x = y" using owned_message known v by blast
  with start call show ?thesis by (simp add: session_dispatch [OF True known])
qed

subsection \<open>A run\<close>

definition sample_settings :: worker_settings where
  "sample_settings = \<lparr>maxBatchRequests = 128, maxRequestBytes = 16777216, maxBatchConcurrency = 8, maxBatchBytes = 16777216, operationTimeoutMs = 60000\<rparr>"

definition sample_config :: jsval where
  "sample_config = JObj [(js ''client'', JObj [(js ''baseUrl'', jstr ''http://h/''), (js ''token'', jstr ''t'')]), (js ''startupTimeoutMs'', jint 10000),
     (js ''operationTimeoutMs'', jint 60000), (js ''maxRequestBytes'', jint 16777216), (js ''maxBatchRequests'', jint 128),
     (js ''maxBatchBytes'', jint 16777216), (js ''maxBatchConcurrency'', jint 8)]"

lemma sample_config_ok: "ipc_config sample_platform (JObj [(js ''baseUrl'', jstr ''http://h''), (js ''token'', jstr ''t'')]) = Inr sample_config"
  by (simp add: ipc_config_def sample_config_def keys_opt get_literal opt_field_def ipc_object_def ipc_url_def ipc_text_def str_test_def str_of_def
      sample_platform_def sample_url_def http_url_def MAX_METADATA_BYTES_def ipc_integer_def MAX_SAFE_INTEGER_def MAX_TIMEOUT_MS_def BATCH_LIMIT_def
      int_of_def js_def)

lemma sample_settings_of: "settings_of sample_config = sample_settings"
  by (simp add: settings_of_def sample_config_def sample_settings_def get_literal int_of_def)

lemma sample_laws: "platform_laws sample_platform"
  by (auto simp: platform_laws_def sample_platform_def sample_url_def)

definition sample_worker :: worker_state where
  "sample_worker = \<lparr>ws_sessions = [js ''1'' \<mapsto> \<lparr>os_session = 7, os_managed = True, os_cookies = True\<rparr>], sessionSequence = 1\<rparr>"

definition sample_remote :: remote_session where
  "sample_remote = \<lparr>rs_id = jstr ''1'', rs_info = JNull, rs_closing = False, rs_closed = False, rs_managed = True\<rparr>"

lemma sample_session_id: "session_id 1 = js ''1''"
  by (simp add: session_id_def dec_digits.simps char_of_def bit_Suc_0_iff)

definition sample_opening :: jsval where
  "sample_opening = JObj [(js ''partition'', jstr ''p''), (js ''connection'', JObj [(js ''egress'', JObj [(js ''mode'', jstr ''direct'')]),
     (js ''identity'', JObj [(js ''tlsProfile'', jstr ''chrome''), (js ''emulateHeaders'', JBool True)])]),
     (js ''cookieMode'', jstr ''managed''), (js ''allowedOrigins'', JArr [jstr ''http://h/''])]"

lemma sample_opening_ok: "ipc_sessionOptions sample_platform sample_opening = Inr sample_opening"
  by (simp add: ipc_sessionOptions_def sample_opening_def keys_opt get_literal opt_field_def ipc_object_def ipc_origins_def ipc_connection_def
      ipc_identity_def ipc_url_def ipc_text_def str_test_def str_of_def sample_platform_def sample_url_def http_url_def MAX_METADATA_BYTES_def js_def)

lemma sample_worker_step: "worker_step new_worker sample_worker"
proof -
  have "dispatch_start sample_platform sample_settings (\<lambda>_. JNull) new_worker Op_createSession sample_opening = Awaits (Core_createSession sample_opening)"
    by (simp add: dispatch_start_def sample_opening_ok)
  from worker_answers [OF this, of "\<lambda>_. JNull" "Inr (Opened_session 7 True sample_context)"]
  have "worker_step new_worker (snd (dispatch_end (\<lambda>_. JNull) (Core_createSession sample_opening) (Inr (Opened_session 7 True sample_context)) new_worker))" .
  also have "\<dots> = sample_worker"
    using sample_session_id by (simp add: dispatch_end_def new_worker_def sample_worker_def session_id_def Let_def is_managed_def sample_opening_def get_literal)
  finally show ?thesis .
qed

lemma sample_prepares: "prepares sample_platform sample_settings (Op_getCookies, session_message sample_remote (jstr ''http://h/''), 60000)"
  by (rule prepares.intros(9) [of _ _ "jstr ''http://h''" sample_remote])
    (simp add: remote_getCookies_def remote_invoke_def ipc_url_def ipc_text_def str_test_def str_of_def sample_platform_def sample_url_def http_url_def
      MAX_METADATA_BYTES_def invoke_refused_def sample_remote_def sample_settings_def js_def)

lemma sample_owned: "owned sample_worker (session_message sample_remote x) = Inr (\<lparr>os_session = 7, os_managed = True, os_cookies = True\<rparr>, js ''1'', x)"
  by (simp add: owned_def session_message_def sample_remote_def sample_worker_def ipc_object_def get_literal ipc_text_def str_test_def str_of_def js_def)

theorem commands_accepted_witness:
  "worker_command sample_settings (posted_value sample_settings 1 (Op_getCookies, session_message sample_remote (jstr ''http://h/''), 60000)) =
     Inr (\<lparr>cmd_id = 1, cmd_operation = Op_getCookies, cmd_value = session_message sample_remote (jstr ''http://h/'')\<rparr>, 60000)"
  using commands_accepted [OF sample_config_ok, unfolded sample_settings_of, OF sample_prepares, of 1] by (simp add: MAX_SAFE_INTEGER_def)

theorem commands_dispatched_witness:
  "dispatch_start sample_platform sample_settings (\<lambda>_. JNull) sample_worker Op_getCookies (session_message sample_remote (jstr ''http://h/'')) =
     Awaits (Core_session (js ''1'') 7 (Session_getCookies (jstr ''http://h/'')))"
proof (rule commands_dispatched [OF sample_config_ok sample_laws, unfolded sample_settings_of, OF sample_prepares])
  show "short_urls Op_getCookies (session_message sample_remote (jstr ''http://h/''))"
    by (simp add: short_urls_def session_message_def get_literal str_of_def MAX_METADATA_BYTES_def js_def)
  show "expected_call sample_worker Op_getCookies (session_message sample_remote (jstr ''http://h/'')) =
      Some (Core_session (js ''1'') 7 (Session_getCookies (jstr ''http://h/'')))"
    by (simp add: expected_call_def session_operation_def plain_session_def sample_owned managed_def)
qed


lemma sample_reachable: "worker_reachable sample_worker"
  by (rule worker_moves [OF worker_new sample_worker_step])

theorem session_ids_stable_witness:
  "owned (snd (dispatch_end (\<lambda>_. JNull) (Core_session (js ''1'') 7 (Session_close JNull)) (Inr Nothing) sample_worker))
     (session_message sample_remote JNull) = Inl (localError CONTEXT_NOT_FOUND None) \<and>
   ws_sessions sample_worker (session_id (Suc (sessionSequence sample_worker))) = None"
proof
  have "worker_step\<^sup>*\<^sup>* sample_worker sample_worker" by simp
  from session_ids_stable [OF sample_reachable this, of 1]
  show "ws_sessions sample_worker (session_id (Suc (sessionSequence sample_worker))) = None" by (simp add: sample_worker_def)
  show "owned (snd (dispatch_end (\<lambda>_. JNull) (Core_session (js ''1'') 7 (Session_close JNull)) (Inr Nothing) sample_worker))
     (session_message sample_remote JNull) = Inl (localError CONTEXT_NOT_FOUND None)"
    by (simp add: dispatch_end_def sample_worker_def owned_def session_message_def sample_remote_def ipc_object_def get_literal ipc_text_def
        str_test_def str_of_def js_def)
qed

theorem session_answers_cross_witness:
  "invoke_result Op_getCookies (session_result sample_context False (Inr (JArr []))) sample_remote = (Inr (JArr []), sample_remote\<lparr>rs_info := sample_context\<rparr>)"
proof -
  have info: "validateWire ContextInfo sample_context" using sample_context_ok by (simp add: contextInfo_def)
  have op: "session_operation Op_getCookies" by (simp add: session_operation_def)
  have url: "session_start sample_platform sample_settings \<lparr>os_session = 7, os_managed = True, os_cookies = True\<rparr> Op_getCookies (jstr ''http://h/'') =
      Inr (Session_getCookies (jstr ''http://h/''))"
    by (simp add: session_start_def managed_def ipc_url_def ipc_text_def str_test_def str_of_def sample_platform_def sample_url_def http_url_def
        MAX_METADATA_BYTES_def js_def)
  from session_answers_cross [OF op sample_owned info, where r = "Inr (Plain (JArr []))" and pf = sample_platform and st = sample_settings
      and x = "jstr ''http://h/''"]
  show ?thesis by (simp add: session_dispatch [OF op sample_owned] url dispatch_end_def delivered_def)
qed

end
