(* ===== verification/Sessions.thy ===== *)
theory Sessions
  imports Request
begin

text \<open>
  \<open>src/packages/typescript/src/sessions.ts\<close>: a session owns one remote context at a time, and every
  context it ever opened until the service has confirmed that it is gone. The state is what the
  closures of \<open>createSession\<close> share, the calls in progress (each at the \<open>await\<close> it has reached, with
  the operation it registered and whether it holds the serial permit), and the progress of
  \<open>close\<close>. What a control request, a stream or the queue answers is an argument of the
  continuation; \<open>history\<close> is the transcript of the service's replies to the requests that create
  and delete contexts, which the steps record before the code sees them and which no operation reads
  or writes.
\<close>

subsection \<open>Opening\<close>

text \<open>What the platform does with URLs and strings.\<close>

record url_env =
  to_str :: "jsval \<Rightarrow> jsstr"
  to_url :: "jsval \<Rightarrow> url option"
  url_origin :: "url \<Rightarrow> jsstr"

definition normalized_origin :: "url_env \<Rightarrow> jsval \<Rightarrow> jsstr option" where
  "normalized_origin env v = (case to_url env v of None \<Rightarrow> None
     | Some u \<Rightarrow> if \<not> http_url u \<or> username u \<noteq> [] \<or> password u \<noteq> [] \<or> search u \<noteq> [] \<or> hash u \<noteq> [] \<or> pathname u \<noteq> js ''/''
         then None else Some (url_origin env u))"

text \<open>\<open>Array.from(new Set(...))\<close>: the first occurrences, in order.\<close>

fun distinct_first :: "'a list \<Rightarrow> 'a list" where
  "distinct_first [] = []"
| "distinct_first (x # xs) = x # distinct_first (filter (\<lambda>y. y \<noteq> x) xs)"

definition normalizedOrigins :: "url_env \<Rightarrow> jsval \<Rightarrow> bool \<Rightarrow> transport_error + jsval" where
  "normalizedOrigins env origins managed =
     (if \<not> is_array origins \<or> (managed \<and> array_items origins = []) then Inl invalid_input
      else let os = map (normalized_origin env) (array_items origins) in
        if None \<in> set os then Inl invalid_input else Inr (JArr (map JStr (distinct_first (map the os)))))"

text \<open>\<open>openContext\<close> before its control request, and what it makes of the reply.\<close>

definition open_request :: "url_env \<Rightarrow> jsval \<Rightarrow> jsval \<Rightarrow> transport_error + jsval" where
  "open_request env caps opts =
     (case validateConnection (to_str env) (to_url env) caps (get opts ''connection'') of Some e \<Rightarrow> Inl e | None \<Rightarrow>
      if get opts ''cookieMode'' \<notin> set (array_items (get (get caps ''modes'') ''cookies'')) then Inl (localError UNSUPPORTED_CAPABILITY None)
      else if get opts ''ttlMs'' \<noteq> JUndef \<and> (\<not> positive (get opts ''ttlMs'') \<or> limit_of caps ''contextMaxIdleTtlMs'' < int_of (get opts ''ttlMs''))
      then Inl invalid_input
      else let request = JObj (pick opts [''partition'', ''connection'', ''cookieMode''] @
          [(js ''allowedOrigins'', nullish_or (get opts ''allowedOrigins'') (JArr []))] @ pick_opt opts [''ttlMs'']) in
        if validateWire CreateContext request then Inr request else Inl invalid_input)"

definition opened_context :: "jsval \<Rightarrow> jsval \<Rightarrow> jsval \<Rightarrow> transport_error + jsval" where
  "opened_context caps opts v =
     (let identity = get (get opts ''connection'') ''identity'' in
      if \<not> contextInfo v \<or> get v ''partition'' \<noteq> get opts ''partition'' \<or> get v ''cookieMode'' \<noteq> get opts ''cookieMode'' \<or>
        get (get v ''identity'') ''tlsProfile'' \<noteq> resolveProfile caps (str_of (get identity ''tlsProfile'')) \<or>
        get (get v ''identity'') ''emulateHeaders'' \<noteq> get identity ''emulateHeaders'' \<or>
        get (get v ''identity'') ''userAgent'' \<noteq> get identity ''userAgent''
      then Inl (localError PROTOCOL_ERROR None) else Inr (copyContextInfo v))"

text \<open>The checks of \<open>createSession\<close> before it opens the context: the settings, the timeout and the maximum.\<close>

definition session_settings :: "url_env \<Rightarrow> jsval \<Rightarrow> transport_error + jsval" where
  "session_settings env opts =
     (if get opts ''cookieMode'' \<noteq> jstr ''managed'' \<and> get opts ''cookieMode'' \<noteq> jstr ''external'' then Inl invalid_input
      else case normalizedOrigins env (nullish_or (get opts ''allowedOrigins'') (JArr [])) (get opts ''cookieMode'' = jstr ''managed'') of
        Inl e \<Rightarrow> Inl e
      | Inr origins \<Rightarrow> Inr (JObj (set_prop (spread_object opts) (js ''allowedOrigins'') origins)))"

definition session_limits :: "jsval \<Rightarrow> jsval \<Rightarrow> jsnum \<Rightarrow> jsval \<Rightarrow> transport_error + jsnum \<times> jsval" where
  "session_limits caps opts defaultTimeout defaultMaximum =
     (case timeout_js (nullish_or (get opts ''timeoutMs'') (JNum defaultTimeout)) of Inl e \<Rightarrow> Inl e
      | Inr t \<Rightarrow> let mx = nullish_or (get opts ''maxResponseBytes'') defaultMaximum in
          if \<not> positive mx \<or> limit_of caps ''maxResponseBytes'' < int_of mx \<or> limit_of caps ''maxTimeoutMs'' < int_of (JNum t)
          then Inl invalid_input else Inr (t, mx))"

subsection \<open>State\<close>

datatype mutation =
    GetCookies jsval
  | SetCookies jsval jsval
  | ExportCookies
  | ImportCookies jsval
  | RebindIdentity jsval

datatype call_result =
    Cookies jsval
  | Snapshot jsval
  | Unit
  | Committed jsval jsval
  | CleanupPending jsval jsval transport_error
  | Stream jsval

datatype call_stage =
    MutateQueued mutation
  | CookiesSent mutation int
  | RebindExporting jsval
  | RebindDescribing jsval jsval
  | RebindOpening jsval jsval jsval
  | RebindImporting jsval jsval
  | RebindUndoing jsval transport_error
  | RebindRemoving jsval
  | StreamQueued headers_input jsval
  | StreamSent jsval
  | StreamRefused transport_error
  | StreamOpen jsval
  | Returned call_result
  | Threw transport_error

record call =
  c_stage :: call_stage
  c_operation :: nat
  c_permit :: bool
  c_info :: jsval

datatype closing_session =
    CloseWaiting deadline
  | CloseRemoving "(jsval \<times> transport_error option option) list"
  | CloseDone

text \<open>
  The replies in the transcript: to a creation, with the service description and the options that
  \<open>openContext\<close> holds against it, and to the deletion of a context.
\<close>

datatype context_event =
    CreateReply jsval jsval "transport_error + jsval"
  | DeleteReply jsval "transport_error + jsval"

record session =
  managed :: bool
  settings :: jsval
  session_caps :: jsval
  session_timeout :: jsnum
  session_maximum :: jsval
  info :: jsval
  session_connection :: jsval
  cleanup :: "jsval list"
  lost :: bool
  life :: lifetime
  calls :: "call list"
  session_closing :: "closing_session option"
  history :: "context_event list"

abbreviation context_id :: "session \<Rightarrow> jsval" where
  "context_id s \<equiv> get (info s) ''contextId''"

abbreviation revision_of :: "session \<Rightarrow> int" where
  "revision_of s \<equiv> int_of (get (info s) ''revision'')"

definition set_add :: "'a \<Rightarrow> 'a list \<Rightarrow> 'a list" where
  "set_add x xs = (if x \<in> set xs then xs else xs @ [x])"

definition new_session :: "jsval \<Rightarrow> jsval \<Rightarrow> jsnum \<times> jsval \<Rightarrow> jsval \<Rightarrow> session" where
  "new_session opts caps ls context =
     \<lparr>managed = (get opts ''cookieMode'' = jstr ''managed''), settings = opts, session_caps = caps, session_timeout = fst ls,
      session_maximum = snd ls, info = context, session_connection = get opts ''connection'', cleanup = [get context ''contextId''],
      lost = False, life = new_Lifetime, calls = [], session_closing = None, history = []\<rparr>"

definition heard :: "context_event \<Rightarrow> session \<Rightarrow> session" where
  "heard e s = s\<lparr>history := history s @ [e]\<rparr>"

subsection \<open>The shared closures\<close>

definition assertUsable :: "session \<Rightarrow> transport_error option" where
  "assertUsable s = (case assertOpen (life s) of Some e \<Rightarrow> Some e
     | None \<Rightarrow> if lost s then Some (localError CONTEXT_NOT_FOUND None) else None)"

definition markLost :: "transport_error \<Rightarrow> jsval \<Rightarrow> session \<Rightarrow> session" where
  "markLost e context s = (if context_id s = context \<and> te_code e = CONTEXT_NOT_FOUND then s\<lparr>lost := True\<rparr> else s)"

definition applyRevision :: "jsval \<Rightarrow> jsval \<Rightarrow> session \<Rightarrow> transport_error + session" where
  "applyRevision v context s =
     (if context_id s \<noteq> context then Inr s
      else if \<not> nonnegativeInteger v \<or> int_of v < revision_of s then Inl (localError CONTEXT_CONFLICT None)
      else Inr (s\<lparr>info := JObj (set_prop (spread_object (info s)) (js ''revision'') v)\<rparr>))"

text \<open>\<open>removeContext\<close> after its control request; \<open>undefined\<close> is the reply without a body.\<close>

definition context_gone :: "jsval \<Rightarrow> session \<Rightarrow> session" where
  "context_gone context s = s\<lparr>cleanup := filter (\<lambda>x. x \<noteq> context) (cleanup s)\<rparr>"

definition removeContext :: "jsval \<Rightarrow> transport_error + jsval \<Rightarrow> session \<Rightarrow> transport_error option \<times> session" where
  "removeContext context reply s =
     (let keep = s\<lparr>cleanup := set_add context (cleanup s)\<rparr> in
      case reply of
        Inr v \<Rightarrow> if v \<noteq> JUndef then (Some (localError PROTOCOL_ERROR None), keep) else (None, context_gone context s)
      | Inl e \<Rightarrow> if te_code e = CONTEXT_NOT_FOUND then (None, context_gone context s) else (Some e, keep))"

text \<open>\<open>cookies\<close>: the request it sends and what it makes of the reply.\<close>

definition cookie_request :: "session \<Rightarrow> (jsstr \<times> jsval) list \<Rightarrow> transport_error + jsval" where
  "cookie_request s command =
     (let request = JObj ((js ''partition'', get (settings s) ''partition'') # command) in
      if validateWire CookieOperation request then Inr request else Inl invalid_input)"

definition cookie_reply :: "transport_error + jsval \<Rightarrow> transport_error + jsval" where
  "cookie_reply reply = (case reply of Inl e \<Rightarrow> Inl e | Inr v \<Rightarrow>
     if \<not> validateWire CookieReply v \<or> \<not> record_js v \<or> \<not> nonnegativeInteger (get v ''revision'') \<or>
       (get v ''cookies'' \<noteq> JUndef \<and> \<not> cookieRecords (get v ''cookies'')) \<or>
       (get v ''snapshot'' \<noteq> JUndef \<and> \<not> cookieSnapshot (get v ''snapshot''))
     then Inl (localError PROTOCOL_ERROR None) else Inr v)"

text \<open>A reply that carries the revision after one change and nothing else.\<close>

definition advanced_by_one :: "int \<Rightarrow> jsval \<Rightarrow> bool" where
  "advanced_by_one expected v \<longleftrightarrow> get v ''revision'' = jint (expected + 1) \<and> get v ''cookies'' = JUndef \<and> get v ''snapshot'' = JUndef"

subsection \<open>Calls\<close>

definition in_call :: "nat \<Rightarrow> (call \<Rightarrow> call) \<Rightarrow> session \<Rightarrow> session" where
  "in_call k f s = s\<lparr>calls := (calls s)[k := f (calls s ! k)]\<rparr>"

definition to_stage :: "nat \<Rightarrow> call_stage \<Rightarrow> session \<Rightarrow> session" where
  "to_stage k st = in_call k (c_stage_update (\<lambda>_. st))"

text \<open>The \<open>finally\<close> block: the permit, if any, is released and the operation settles.\<close>

definition end_call :: "nat \<Rightarrow> call_stage \<Rightarrow> session \<Rightarrow> session" where
  "end_call k st s = (let s1 = in_call k (\<lambda>c. c\<lparr>c_stage := st, c_permit := False\<rparr>) s in
     s1\<lparr>life := op_done (c_operation (calls s ! k)) (life s)\<rparr>)"

definition throw_call :: "nat \<Rightarrow> transport_error \<Rightarrow> session \<Rightarrow> session" where
  "throw_call k e s = end_call k (Threw e) (markLost e (get (c_info (calls s ! k)) ''contextId'') s)"

definition call_deadline :: "nat \<Rightarrow> session \<Rightarrow> deadline" where
  "call_deadline k s = store (life s) ! op_deadline (registered (life s) ! c_operation (calls s ! k))"

text \<open>\<open>mutate\<close> up to the queue.\<close>

definition mutate :: "jsnum \<Rightarrow> rat \<Rightarrow> abort_reason option \<Rightarrow> mutation \<Rightarrow> session \<Rightarrow> transport_error option \<times> session" where
  "mutate controlTimeout now parent m s = (case assertUsable s of Some e \<Rightarrow> (Some e, s)
     | None \<Rightarrow> (case lifetime_begin controlTimeout now parent (life s) of
         (Inl e, l) \<Rightarrow> (Some e, s\<lparr>life := l\<rparr>)
       | (Inr i, l) \<Rightarrow> (None, s\<lparr>life := l,
           calls := calls s @ [\<lparr>c_stage = MutateQueued m, c_operation = i, c_permit = False, c_info = info s\<rparr>]\<rparr>)))"

text \<open>The operations up to their first control request; \<open>Inl\<close> is what they throw.\<close>

definition next_connection :: "jsval \<Rightarrow> session \<Rightarrow> jsval" where
  "next_connection identity s = JObj [(js ''egress'', JObj (spread_object (get (session_connection s) ''egress''))),
     (js ''identity'', JObj (spread_object identity))]"

definition string_list :: "jsval \<Rightarrow> bool" where
  "string_list v \<longleftrightarrow> is_array v \<and> list_all (\<lambda>x. js_typeof x = ''string'') (array_items v)"

definition sent_as :: "call_stage \<Rightarrow> transport_error + jsval \<Rightarrow> transport_error + call_stage" where
  "sent_as st r = (case r of Inl e \<Rightarrow> Inl e | Inr _ \<Rightarrow> Inr st)"

definition start_mutation :: "url_env \<Rightarrow> mutation \<Rightarrow> session \<Rightarrow> transport_error + call_stage" where
  "start_mutation env m s = (let rev = revision_of s; sent = sent_as (CookiesSent m rev) in case m of
     GetCookies u \<Rightarrow> sent (cookie_request s [(js ''operation'', jstr ''select''), (js ''url'', u)])
   | SetCookies u vs \<Rightarrow> if \<not> string_list vs then Inl invalid_input
       else sent (cookie_request s [(js ''operation'', jstr ''set''), (js ''url'', u), (js ''cookies'', vs), (js ''expectedRevision'', get (info s) ''revision'')])
   | ExportCookies \<Rightarrow> sent (cookie_request s [(js ''operation'', jstr ''export'')])
   | ImportCookies snap \<Rightarrow> if \<not> cookieSnapshot snap then Inl invalid_input
       else sent (cookie_request s [(js ''operation'', jstr ''import''), (js ''snapshot'', snap), (js ''expectedRevision'', get (info s) ''revision'')])
   | RebindIdentity identity \<Rightarrow> let spec = next_connection identity s in
       case validateConnection (to_str env) (to_url env) (session_caps s) spec of Some e \<Rightarrow> Inl e
       | None \<Rightarrow> sent_as (RebindExporting spec) (cookie_request s [(js ''operation'', jstr ''export'')]))"

text \<open>After \<open>serial.acquire\<close>: it rejected, or the call now holds the permit.\<close>

definition permit_ready :: "nat \<Rightarrow> rat \<Rightarrow> session \<Rightarrow> transport_error option" where
  "permit_ready k now s = (if lost s then Some (localError CONTEXT_NOT_FOUND None)
     else if aborted (call_deadline k s) then Some (deadline_error (call_deadline k s) now localDiagnostics False) else None)"

definition got_serial :: "url_env \<Rightarrow> rat \<Rightarrow> nat \<Rightarrow> mutation \<Rightarrow> transport_error option \<Rightarrow> session \<Rightarrow> session" where
  "got_serial env now k m rejected s = (case rejected of Some e \<Rightarrow> throw_call k e s
     | None \<Rightarrow> let s1 = in_call k (c_permit_update (\<lambda>_. True)) s in
         case permit_ready k now s1 of Some e \<Rightarrow> throw_call k e s1
         | None \<Rightarrow> let s2 = in_call k (c_info_update (\<lambda>_. info s)) s1 in
             case start_mutation env m s2 of Inl e \<Rightarrow> throw_call k e s2 | Inr st \<Rightarrow> to_stage k st s2)"

text \<open>The cookie operations after their reply.\<close>

definition cookie_result :: "mutation \<Rightarrow> int \<Rightarrow> jsval \<Rightarrow> call_result option" where
  "cookie_result m expected v = (case m of
     GetCookies _ \<Rightarrow> if get v ''cookies'' = JUndef \<or> get v ''snapshot'' \<noteq> JUndef then None else Some (Cookies (get v ''cookies''))
   | ExportCookies \<Rightarrow> if get v ''snapshot'' = JUndef \<or> get v ''cookies'' \<noteq> JUndef then None else Some (Snapshot (get v ''snapshot''))
   | RebindIdentity _ \<Rightarrow> None
   | _ \<Rightarrow> if advanced_by_one expected v then Some Unit else None)"

definition checked_reply :: "mutation \<Rightarrow> int \<Rightarrow> transport_error + jsval \<Rightarrow> session \<Rightarrow> transport_error + call_result \<times> session" where
  "checked_reply m expected reply s = (case cookie_reply reply of Inl e \<Rightarrow> Inl e
     | Inr v \<Rightarrow> (case cookie_result m expected v of None \<Rightarrow> Inl (localError PROTOCOL_ERROR None)
        | Some r \<Rightarrow> (case applyRevision (get v ''revision'') (context_id s) s of Inl e \<Rightarrow> Inl e | Inr s1 \<Rightarrow> Inr (r, s1))))"

definition got_cookies :: "nat \<Rightarrow> mutation \<Rightarrow> int \<Rightarrow> transport_error + jsval \<Rightarrow> session \<Rightarrow> session" where
  "got_cookies k m expected reply s = (case checked_reply m expected reply s of
     Inl e \<Rightarrow> throw_call k e s | Inr (r, s1) \<Rightarrow> end_call k (Returned r) s1)"

subsection \<open>Rebinding the identity\<close>

definition staged :: "jsval \<Rightarrow> session \<Rightarrow> jsval" where
  "staged spec s = JObj (set_prop (set_prop (spread_object (settings s)) (js ''cookieMode'') (jstr ''managed'')) (js ''connection'') spec)"

definition rebind_exported :: "nat \<Rightarrow> jsval \<Rightarrow> transport_error + jsval \<Rightarrow> session \<Rightarrow> session" where
  "rebind_exported k spec reply s = (case checked_reply ExportCookies 0 reply s of
     Inr (Snapshot snap, s1) \<Rightarrow> (case validatePartition (get (settings s) ''partition'') of Some e \<Rightarrow> throw_call k e s1
        | None \<Rightarrow> to_stage k (RebindDescribing spec snap) s1)
   | Inl e \<Rightarrow> throw_call k e s | _ \<Rightarrow> s)"

definition rebind_described :: "url_env \<Rightarrow> nat \<Rightarrow> jsval \<Rightarrow> jsval \<Rightarrow> transport_error + jsval \<Rightarrow> session \<Rightarrow> session" where
  "rebind_described env k spec snap reply s = (case reply of Inl e \<Rightarrow> throw_call k e s
     | Inr caps \<Rightarrow> (case open_request env caps (staged spec s) of Inl e \<Rightarrow> throw_call k e s
        | Inr _ \<Rightarrow> to_stage k (RebindOpening spec snap caps) s))"

definition rebind_failed :: "nat \<Rightarrow> jsval \<Rightarrow> transport_error \<Rightarrow> session \<Rightarrow> session" where
  "rebind_failed k next_info e s =
     to_stage k (RebindUndoing next_info e) (s\<lparr>cleanup := set_add (get next_info ''contextId'') (cleanup s)\<rparr>)"

definition rebind_opened :: "nat \<Rightarrow> jsval \<Rightarrow> jsval \<Rightarrow> jsval \<Rightarrow> transport_error + jsval \<Rightarrow> session \<Rightarrow> session" where
  "rebind_opened k spec snap caps reply s = (case reply of Inl e \<Rightarrow> throw_call k e s
     | Inr v \<Rightarrow> (case opened_context caps (staged spec s) v of Inl e \<Rightarrow> throw_call k e s
        | Inr n \<Rightarrow> let s1 = s\<lparr>cleanup := set_add (get n ''contextId'') (cleanup s)\<rparr> in
            case cookie_request s1 [(js ''operation'', jstr ''import''), (js ''snapshot'', snap), (js ''expectedRevision'', get n ''revision'')] of
              Inl e \<Rightarrow> rebind_failed k n e s1 | Inr _ \<Rightarrow> to_stage k (RebindImporting spec n) s1))"

definition import_error :: "nat \<Rightarrow> jsval \<Rightarrow> transport_error + jsval \<Rightarrow> session \<Rightarrow> transport_error option" where
  "import_error k n reply s = (case cookie_reply reply of Inl e \<Rightarrow> Some e
     | Inr v \<Rightarrow> if \<not> advanced_by_one (int_of (get n ''revision'')) v then Some (localError PROTOCOL_ERROR None)
         else if aborted (call_deadline k s) then Some (localError CANCELLED None) else None)"

text \<open>The cutover.\<close>

definition rebind_commit :: "jsval \<Rightarrow> jsval \<Rightarrow> session \<Rightarrow> session" where
  "rebind_commit spec n s = s\<lparr>
     info := JObj (set_prop (spread_object n) (js ''revision'') (jint (int_of (get n ''revision'') + 1))),
     session_connection := spec, cleanup := set_add (context_id s) (cleanup s)\<rparr>"

definition rebind_imported :: "nat \<Rightarrow> jsval \<Rightarrow> jsval \<Rightarrow> transport_error + jsval \<Rightarrow> session \<Rightarrow> session" where
  "rebind_imported k spec n reply s = (case import_error k n reply s of Some e \<Rightarrow> rebind_failed k n e s
     | None \<Rightarrow> to_stage k (RebindRemoving (context_id s)) (rebind_commit spec n s))"

definition rebind_undone :: "nat \<Rightarrow> jsval \<Rightarrow> transport_error \<Rightarrow> transport_error + jsval \<Rightarrow> session \<Rightarrow> session" where
  "rebind_undone k n e reply s = throw_call k e (snd (removeContext (get n ''contextId'') reply s))"

definition rebind_removed :: "nat \<Rightarrow> jsval \<Rightarrow> transport_error + jsval \<Rightarrow> session \<Rightarrow> session" where
  "rebind_removed k previous reply s = (case removeContext previous reply s of
     (None, s1) \<Rightarrow> end_call k (Returned (Committed previous (context_id s1))) s1
   | (Some e, s1) \<Rightarrow> end_call k (Returned (CleanupPending previous (context_id s1) e)) s1)"

subsection \<open>Streaming\<close>

definition begin_js :: "jsval \<Rightarrow> rat \<Rightarrow> abort_reason option \<Rightarrow> lifetime \<Rightarrow> (transport_error + nat) \<times> lifetime" where
  "begin_js v now parent l = (case v of JNum n \<Rightarrow> lifetime_begin n now parent l
     | _ \<Rightarrow> (Inl (case assertOpen l of Some e \<Rightarrow> e | None \<Rightarrow> invalid_input), l))"

text \<open>The headers of a session's request: no cookies by hand, one agreed user agent.\<close>

definition named :: "string \<Rightarrow> jsval \<Rightarrow> bool" where
  "named n p \<longleftrightarrow> ascii_lower (header_name p) = js n"

definition session_headers :: "headers_input \<Rightarrow> session \<Rightarrow> transport_error + jsval list" where
  "session_headers input s = (case headersFrom input of None \<Rightarrow> Inl (localError UNKNOWN None)
     | Some hs \<Rightarrow> if managed s \<and> list_ex (named ''cookie'') hs then Inl invalid_input
         else let agent = get (get (session_connection s) ''identity'') ''userAgent''; agents = filter (named ''user-agent'') hs in
           if agent = JUndef then Inr hs
           else if list_ex (\<lambda>p. item p 1 \<noteq> agent) agents then Inl (localError CONTEXT_CONFLICT None)
           else Inr (if agents = [] then hs @ [JArr [jstr ''user-agent'', agent]] else hs))"

definition set_props :: "(jsstr \<times> jsval) list \<Rightarrow> (string \<times> jsval) list \<Rightarrow> (jsstr \<times> jsval) list" where
  "set_props ps qs = fold (\<lambda>(k, v) acc. set_prop acc (js k) v) qs ps"

text \<open>What the host's \<open>stream\<close> is called with, apart from the signal and the observer.\<close>

definition host_request :: "jsval list \<Rightarrow> jsval \<Rightarrow> session \<Rightarrow> jsval" where
  "host_request hs r s = JObj (set_props (spread_object r)
     [(''headers'', JArr hs), (''partition'', get (settings s) ''partition''), (''contextId'', context_id s),
      (''timeoutMs'', nullish_or (get r ''timeoutMs'') (JNum (session_timeout s))),
      (''maxResponseBytes'', nullish_or (get r ''maxResponseBytes'') (session_maximum s))])"

definition stream_go :: "rat \<Rightarrow> nat \<Rightarrow> headers_input \<Rightarrow> jsval \<Rightarrow> session \<Rightarrow> session" where
  "stream_go now k input r s = (case permit_ready k now s of Some e \<Rightarrow> throw_call k e s
     | None \<Rightarrow> let s1 = in_call k (c_info_update (\<lambda>_. info s)) s in
         case session_headers input s of Inl e \<Rightarrow> throw_call k e s1
         | Inr hs \<Rightarrow> to_stage k (StreamSent (host_request hs r s)) s1)"

definition session_stream :: "rat \<Rightarrow> nat option \<Rightarrow> abort_reason option \<Rightarrow> headers_input \<Rightarrow> jsval \<Rightarrow> session \<Rightarrow> transport_error option \<times> session" where
  "session_stream now inherited parent input r s = (case assertUsable s of Some e \<Rightarrow> (Some e, s)
     | None \<Rightarrow>
         (case (case inherited of Some d \<Rightarrow> track d False (life s)
            | None \<Rightarrow> begin_js (nullish_or (get r ''timeoutMs'') (JNum (session_timeout s))) now parent (life s)) of
           (Inl e, l) \<Rightarrow> (Some e, s\<lparr>life := l\<rparr>)
         | (Inr i, l) \<Rightarrow> let s1 = s\<lparr>life := l,
               calls := calls s @ [\<lparr>c_stage = StreamQueued input r, c_operation = i, c_permit = False, c_info = info s\<rparr>]\<rparr> in
             (None, if managed s then s1 else stream_go now (length (calls s)) input r s1)))"

definition stream_serial :: "rat \<Rightarrow> nat \<Rightarrow> headers_input \<Rightarrow> jsval \<Rightarrow> transport_error option \<Rightarrow> session \<Rightarrow> session" where
  "stream_serial now k input r rejected s = (case rejected of Some e \<Rightarrow> throw_call k e s
     | None \<Rightarrow> stream_go now k input r (in_call k (c_permit_update (\<lambda>_. True)) s))"

text \<open>The response metadata against the context the request was sent in.\<close>

definition checked_metadata :: "jsval \<Rightarrow> jsval \<Rightarrow> session \<Rightarrow> transport_error + session" where
  "checked_metadata current md s =
     (let rev = get md ''cookieRevision'' in
      if get (get md ''diagnostics'') ''contextId'' \<noteq> get current ''contextId'' \<or>
        (managed s \<and> (\<not> nonnegativeInteger rev \<or> int_of rev < int_of (get current ''revision'')))
      then Inl (localError PROTOCOL_ERROR None)
      else if rev \<noteq> JUndef then applyRevision rev (get current ''contextId'') s else Inr s)"

definition got_stream :: "nat \<Rightarrow> refs option \<Rightarrow> transport_error + jsval \<Rightarrow> session \<Rightarrow> session" where
  "got_stream k references reply s = (case reply of Inl e \<Rightarrow> throw_call k e s
     | Inr md \<Rightarrow> (case checked_metadata (c_info (calls s ! k)) md s of
         Inl e \<Rightarrow> to_stage k (StreamRefused (withReferences e references)) s
       | Inr s1 \<Rightarrow> in_call k (\<lambda>c. c\<lparr>c_stage := StreamOpen md, c_permit := False\<rparr>) s1))"

text \<open>\<open>exchange.completion\<close> settles.\<close>

definition stream_completed :: "nat \<Rightarrow> jsval \<Rightarrow> transport_error option \<Rightarrow> session \<Rightarrow> session" where
  "stream_completed k md failed s =
     end_call k (Returned (Stream md)) (case failed of None \<Rightarrow> s | Some e \<Rightarrow> markLost e (get (c_info (calls s ! k)) ''contextId'') s)"

subsection \<open>Closing\<close>

text \<open>\<open>Inl\<close> is a call that throws or rejects at once, without an attempt to close.\<close>

definition session_close :: "jsnum \<Rightarrow> rat \<Rightarrow> deadline option \<Rightarrow> jsval \<Rightarrow> session \<Rightarrow> transport_error option \<times> session" where
  "session_close controlTimeout now shared opts s =
     (let drain = get opts ''drain'' in
      if \<not> record_js opts then (Some invalid_input, s)
      else if session_closing s \<noteq> None then (None, s)
      else if drain \<noteq> JUndef \<and> js_typeof drain \<noteq> ''boolean'' then (Some invalid_input, s)
      else case (case shared of Some d \<Rightarrow> Inr d
          | None \<Rightarrow> (case nullish_or (get opts ''timeoutMs'') (JNum controlTimeout) of
              JNum n \<Rightarrow> new_Deadline n now None | _ \<Rightarrow> Inl invalid_input)) of
        Inl e \<Rightarrow> (Some e, s)
      | Inr d \<Rightarrow> (case lifetime_close (get opts ''timeoutMs'') drain (life s) of
          (Some e, l) \<Rightarrow> (Some e, s\<lparr>life := l\<rparr>)
        | (None, l) \<Rightarrow> (None, s\<lparr>life := l, session_closing := Some (CloseWaiting d)\<rparr>)))"

text \<open>
  The continuations. \<open>close_ends\<close> is what follows \<open>Promise.allSettled\<close>: the first rejection, or none.
\<close>

definition close_ends :: "session \<Rightarrow> session" where
  "close_ends s = (case session_closing s of
     Some (CloseRemoving rs) \<Rightarrow>
       if list_ex (\<lambda>(x, r). r = None) rs then s
       else if list_all (\<lambda>(x, r). r = Some None) rs then s\<lparr>session_closing := Some CloseDone\<rparr>
       else s\<lparr>session_closing := None\<rparr>
   | _ \<Rightarrow> s)"

definition close_deadline :: "(deadline \<Rightarrow> deadline) \<Rightarrow> session \<Rightarrow> session" where
  "close_deadline f s = (case session_closing s of
     Some (CloseWaiting d) \<Rightarrow> s\<lparr>session_closing := Some (CloseWaiting (f d))\<rparr> | _ \<Rightarrow> s)"

definition close_stopped :: "session \<Rightarrow> session" where
  "close_stopped s = (case (session_closing s, closing (life s)) of
     (Some (CloseWaiting d), Some (Stopped _)) \<Rightarrow>
       if aborted d then s\<lparr>session_closing := None\<rparr>
       else close_ends (s\<lparr>session_closing := Some (CloseRemoving (map (\<lambda>x. (x, None)) (cleanup s)))\<rparr>)
   | _ \<Rightarrow> s)"

definition close_removed :: "jsval \<Rightarrow> transport_error + jsval \<Rightarrow> session \<Rightarrow> session" where
  "close_removed context reply s = (case session_closing s of
     Some (CloseRemoving rs) \<Rightarrow>
       if (context, None) \<in> set rs then let (e, s1) = removeContext context reply s in
         close_ends (s1\<lparr>session_closing := Some (CloseRemoving (map (\<lambda>(x, r). if x = context then (x, Some e) else (x, r)) rs))\<rparr>)
       else s
   | _ \<Rightarrow> s)"

subsection \<open>The session at work\<close>

definition no_permit :: "session \<Rightarrow> bool" where
  "no_permit s \<longleftrightarrow> list_all (\<lambda>c. \<not> c_permit c) (calls s)"

definition at_stage :: "session \<Rightarrow> nat \<Rightarrow> call_stage \<Rightarrow> bool" where
  "at_stage s k st \<longleftrightarrow> k < length (calls s) \<and> c_stage (calls s ! k) = st"

text \<open>The deletion of a context by \<open>close\<close> that has not been answered.\<close>

definition removing :: "session \<Rightarrow> jsval \<Rightarrow> bool" where
  "removing s x \<longleftrightarrow> (case session_closing s of Some (CloseRemoving rs) \<Rightarrow> (x, None) \<in> set rs | _ \<Rightarrow> False)"

text \<open>
  The serial queue is an \<open>Admission\<close> with one slot: it grants only while nobody holds the permit
  (\<open>rejected = None\<close>), and rejects whenever it wants. A step on a reply that creates or deletes a
  context hears the reply first, whatever it says.
\<close>

inductive session_step :: "url_env \<Rightarrow> session \<Rightarrow> session \<Rightarrow> bool" for env where
  mutates: "managed s \<Longrightarrow> session_step env s (snd (mutate t now parent m s))"
| serial: "at_stage s k (MutateQueued m) \<Longrightarrow> rejected = None \<longrightarrow> no_permit s \<Longrightarrow> session_step env s (got_serial env now k m rejected s)"
| cookies: "at_stage s k (CookiesSent m expected) \<Longrightarrow> session_step env s (got_cookies k m expected reply s)"
| exported: "at_stage s k (RebindExporting spec) \<Longrightarrow> session_step env s (rebind_exported k spec reply s)"
| described: "at_stage s k (RebindDescribing spec snap) \<Longrightarrow> session_step env s (rebind_described env k spec snap reply s)"
| opened: "at_stage s k (RebindOpening spec snap caps) \<Longrightarrow> 
    session_step env s (rebind_opened k spec snap caps reply (heard (CreateReply caps (staged spec s) reply) s))"
| imported: "at_stage s k (RebindImporting spec n) \<Longrightarrow> session_step env s (rebind_imported k spec n reply s)"
| undone: "at_stage s k (RebindUndoing n e) \<Longrightarrow> 
    session_step env s (rebind_undone k n e reply (heard (DeleteReply (get n ''contextId'') reply) s))"
| removed: "at_stage s k (RebindRemoving previous) \<Longrightarrow> 
    session_step env s (rebind_removed k previous reply (heard (DeleteReply previous reply) s))"
| streams: "(case inherited of None \<Rightarrow> True | Some d \<Rightarrow> d < length (store (life s))) \<Longrightarrow>
    session_step env s (snd (session_stream now inherited parent input r s))"
| stream_turn: "at_stage s k (StreamQueued input r) \<Longrightarrow> rejected = None \<longrightarrow> no_permit s \<Longrightarrow>
    session_step env s (stream_serial now k input r rejected s)"
| stream_answer: "at_stage s k (StreamSent q) \<Longrightarrow> session_step env s (got_stream k references reply s)"
| stream_refused: "at_stage s k (StreamRefused e) \<Longrightarrow> session_step env s (throw_call k e s)"
| stream_ends: "at_stage s k (StreamOpen md) \<Longrightarrow> session_step env s (stream_completed k md failed s)"
| closes: "session_step env s (snd (session_close t now shared opts s))"
| close_aborts: "session_step env s (close_deadline (onAbort r) s)"
| close_expires: "session_step env s (close_deadline onTimer s)"
| stopped: "session_step env s (close_stopped s)"
| context_removed: "removing s context \<Longrightarrow> session_step env s (close_removed context reply (heard (DeleteReply context reply) s))"
| stops_accepting: "session_step env s (s\<lparr>life := stopAccepting (life s)\<rparr>)"
| drained: "session_step env s (s\<lparr>life := drain_ends elapsed (life s)\<rparr>)"
| settled: "session_step env s (s\<lparr>life := stop_ends (life s)\<rparr>)"
| timer: "session_step env s (s\<lparr>life := deadline_fires d onTimer (life s)\<rparr>)"
| aborts: "session_step env s (s\<lparr>life := deadline_fires d (onAbort r) (life s)\<rparr>)"
| foreign: "session_step env s (s\<lparr>life := foreign_deadline d (life s)\<rparr>)"

inductive session_reachable :: "url_env \<Rightarrow> session \<Rightarrow> bool" for env where
  created: "session_settings env opts = Inr o' \<Longrightarrow> session_limits caps o' t m = Inr ls \<Longrightarrow> opened_context caps' o' v = Inr context \<Longrightarrow>
    session_reachable env (heard (CreateReply caps' o' (Inr v)) (new_session o' caps ls context))"
| moved: "session_reachable env s \<Longrightarrow> session_step env s s' \<Longrightarrow> session_reachable env s'"

end
