(* ===== verification/Fetch.thy ===== *)
theory Fetch
  imports Sessions
begin

text \<open>
  \<open>src/packages/typescript/src/fetch.ts\<close>: the adapter between the fetch interface of the platform and
  the client. \<open>fetch_response\<close> turns one exchange into a response; a scoped fetch (\<open>fetcher\<close>) has its own
  lifetime and queue, opens at most one session when it is asked to, and closes it. What the host
  (the client) answers is an argument of the continuation; the queue is the \<open>Admission\<close> that the
  fetch creates, with the deadlines of its lifetime at the same positions.
\<close>

subsection \<open>One response\<close>

text \<open>What reading the body gives, up to its end; \<open>exchange_view\<close> is what a streaming response offers.\<close>

datatype read_event = ReadChunk "byte list" | ReadFails thrown

record exchange_view =
  v_status :: int
  v_headers :: jsval
  v_references :: "refs option"

record fetch_result =
  fr_status :: int
  fr_headers :: jsval
  fr_streams :: bool
  fr_url :: jsstr
  fr_exchange :: exchange_view

datatype fetch_effect = Close_exchange | Cancel_body

record platform_request =
  pr_url :: jsstr
  pr_method :: jsstr
  pr_body :: bool
  pr_locked :: bool

definition no_body :: "jsstr \<Rightarrow> int \<Rightarrow> bool" where
  "no_body verb code \<longleftrightarrow> verb = js ''HEAD'' \<or> code \<in> {204, 205, 304}"

fun drain_empty :: "read_event list \<Rightarrow> thrown option" where
  "drain_empty [] = None"
| "drain_empty (ReadFails e # es) = Some e"
| "drain_empty (ReadChunk bs # es) = (if bs \<noteq> [] then Some (Transport (localError PROTOCOL_ERROR None)) else drain_empty es)"

text \<open>
  \<open>new Response\<close> refuses a status outside 200 to 599 with a \<open>RangeError\<close>, and with a \<open>TypeError\<close> a
  header whose name is not a token or whose value, trimmed, has a unit that is no byte, a line end or
  a NUL.
\<close>

definition header_trim :: "jsstr \<Rightarrow> jsstr" where
  "header_trim c = (let space = (\<lambda>u. u \<in> {9, 10, 13, 32}) in rev (dropWhile space (rev (dropWhile space c))))"

fun header_accepted :: "jsval \<Rightarrow> bool" where
  "header_accepted (JArr [JStr name, JStr content]) \<longleftrightarrow> name \<noteq> [] \<and> list_all token_unit name \<and>
     list_all (\<lambda>u. u \<le> 255) content \<and> list_all (\<lambda>u. u \<notin> {0, 10, 13}) (header_trim content)"
| "header_accepted _ \<longleftrightarrow> False"

definition constructible :: "exchange_view \<Rightarrow> bool" where
  "constructible x \<longleftrightarrow> 200 \<le> v_status x \<and> v_status x \<le> 599 \<and> list_all header_accepted (array_items (v_headers x))"

definition attachExchange :: "exchange_view \<Rightarrow> jsstr \<Rightarrow> fetch_result \<Rightarrow> fetch_result" where
  "attachExchange x u r = r\<lparr>fr_exchange := x, fr_url := u\<rparr>"

text \<open>The \<open>clone\<close> that \<open>attachExchange\<close> installs.\<close>

definition clone_response :: "fetch_result \<Rightarrow> fetch_result" where
  "clone_response r = attachExchange (fr_exchange r) (fr_url r) r"

text \<open>\<open>try\<close> block after \<open>execute\<close>: what it throws, or the response.\<close>

definition build_response :: "platform_request \<Rightarrow> exchange_view \<Rightarrow> read_event list \<Rightarrow> transport_error option \<Rightarrow> jsval \<Rightarrow> thrown + fetch_result" where
  "build_response q x events completion refusal =
     (let empty = no_body (pr_method q) (v_status x) in
      case (if empty then drain_empty events else None) of Some e \<Rightarrow> Inl e
      | None \<Rightarrow> (case (if empty then completion else None) of Some e \<Rightarrow> Inl (Transport e)
         | None \<Rightarrow> if \<not> constructible x then Inl (Other refusal)
             else Inr (attachExchange x (pr_url q)
               \<lparr>fr_status = v_status x, fr_headers = v_headers x, fr_streams = \<not> empty, fr_url = [], fr_exchange = x\<rparr>)))"

definition fetch_response :: "platform_request option \<Rightarrow> thrown + exchange_view \<Rightarrow> read_event list \<Rightarrow> transport_error option \<Rightarrow> jsval \<Rightarrow>
    (transport_error + fetch_result) \<times> fetch_effect list" where
  "fetch_response made executed events completion refusal = (case made of
     None \<Rightarrow> (Inl invalid_input, [])
   | Some q \<Rightarrow> (case executed of
       Inl e \<Rightarrow> (Inl (safeError e localDiagnostics False), if pr_body q \<and> \<not> pr_locked q then [Cancel_body] else [])
     | Inr x \<Rightarrow> (case build_response q x events completion refusal of
         Inl e \<Rightarrow> (Inl (withReferences (safeError e localDiagnostics False) (v_references x)), [Close_exchange])
       | Inr r \<Rightarrow> (Inr r, []))))"

text \<open>A fetch observer is asked once per exchange; it answers with a resolver, with an observation or not at all.\<close>

datatype ('s, 'o) observer_result = Resolver "'s \<Rightarrow> 'o option" | Observed "'o option"

definition resolveFetchObserver :: "('s \<Rightarrow> ('s, 'o) observer_result) option \<Rightarrow> ('s \<Rightarrow> 'o option) option" where
  "resolveFetchObserver observer = (case observer of None \<Rightarrow> None
     | Some f \<Rightarrow> Some (\<lambda>start. case f start of Resolver g \<Rightarrow> g start | Observed r \<Rightarrow> r))"

subsection \<open>A scoped fetch\<close>

datatype fetch_stage = Fc_acquiring | Fc_session | Fc_streaming | Fc_open | Fc_done "transport_error option"

record fetch_call =
  fc_operation :: nat
  fc_promise :: nat
  fc_permit :: "nat option"
  fc_stage :: fetch_stage

text \<open>\<open>fc_promise\<close> is what \<open>acquire\<close> returned, \<open>fc_permit\<close> the closure it was settled with, until that is called.\<close>

datatype session_promise = Session_opening nat | Session_ready nat | Session_failed transport_error

datatype fetch_closing = F_stopping deadline | F_session deadline | F_removing deadline nat | F_done

record fetcher =
  f_settings :: jsval
  f_life :: lifetime
  f_queue :: admission
  f_calls :: "fetch_call list"
  f_session :: "session_promise option"
  f_closing :: "fetch_closing option"
  f_created :: nat
  f_removed :: "nat list"

definition fetch_limits :: admission_limits where
  "fetch_limits = \<lparr>maxConcurrent = 16, maxConcurrentPerPartition = 16, maxQueued = 128, maxQueuedPerPartition = 128\<rparr>"

definition createScopedFetch :: "jsval \<Rightarrow> jsval \<Rightarrow> jsval \<Rightarrow> transport_error + fetcher" where
  "createScopedFetch defaultTimeout defaultMaximum opts = (case validatePartition (get opts ''partition'') of Some e \<Rightarrow> Inl e
     | None \<Rightarrow>
         if get opts ''context'' \<notin> {JUndef, jstr ''stateless'', jstr ''session''} \<or> get opts ''headerOrder'' \<notin> {JUndef, jstr ''caller'', jstr ''browser''}
         then Inl invalid_input
         else (case new_Admission fetch_limits of Inl e \<Rightarrow> Inl e
           | Inr q \<Rightarrow> Inr \<lparr>f_settings = JObj (set_props (spread_object opts) [(''timeoutMs'', nullish_or (get opts ''timeoutMs'') defaultTimeout),
               (''maxResponseBytes'', nullish_or (get opts ''maxResponseBytes'') defaultMaximum), (''connection'', get opts ''connection'')]),
             f_life = new_Lifetime, f_queue = q, f_calls = [], f_session = None, f_closing = None, f_created = 0, f_removed = []\<rparr>))"

definition in_fetch :: "nat \<Rightarrow> (fetch_call \<Rightarrow> fetch_call) \<Rightarrow> fetcher \<Rightarrow> fetcher" where
  "in_fetch k g f = f\<lparr>f_calls := (f_calls f)[k := g (f_calls f ! k)]\<rparr>"

definition to_fetch_stage :: "nat \<Rightarrow> fetch_stage \<Rightarrow> fetcher \<Rightarrow> fetcher" where
  "to_fetch_stage k st = in_fetch k (fc_stage_update (\<lambda>_. st))"

text \<open>The \<open>finally\<close> block, or the completion of the exchange: the permit is released and the operation settles.\<close>

definition fetch_ends :: "nat \<Rightarrow> transport_error option \<Rightarrow> fetcher \<Rightarrow> fetcher" where
  "fetch_ends k e f = (in_fetch k (\<lambda>c. c\<lparr>fc_stage := Fc_done e, fc_permit := None\<rparr>) f)
     \<lparr>f_queue := (case fc_permit (f_calls f ! k) of None \<Rightarrow> f_queue f | Some p \<Rightarrow> release_permit p (f_queue f)),
      f_life := op_done (fc_operation (f_calls f ! k)) (f_life f)\<rparr>"

definition fetch_deadline :: "nat \<Rightarrow> fetcher \<Rightarrow> deadline" where
  "fetch_deadline k f = store (f_life f) ! op_deadline (registered (f_life f) ! fc_operation (f_calls f ! k))"

text \<open>A deadline that the lifetime has just created, the last of its store, becomes known to the queue.\<close>

definition new_in_queue :: "lifetime \<Rightarrow> admission \<Rightarrow> admission" where
  "new_in_queue l q = snd (add_deadline (last (store l)) q)"

text \<open>\<open>execute\<close>, up to the queue; \<open>host\<close> is what \<open>host.assertOpen\<close> throws. The fetch itself first asserts that it is open.\<close>

definition fetch_execute :: "transport_error option \<Rightarrow> rat \<Rightarrow> abort_reason option \<Rightarrow> jsval \<Rightarrow> fetcher \<Rightarrow> transport_error option \<times> fetcher" where
  "fetch_execute host now parent r f = (case assertOpen (f_life f) of Some e \<Rightarrow> (Some e, f)
     | None \<Rightarrow> (case host of Some e \<Rightarrow> (Some e, f)
        | None \<Rightarrow> (case begin_js (nullish_or (get r ''timeoutMs'') (get (f_settings f) ''timeoutMs'')) now parent (f_life f) of
            (Inl e, l) \<Rightarrow> (Some e, f\<lparr>f_life := l\<rparr>)
          | (Inr i, l) \<Rightarrow> (None, f\<lparr>f_life := l,
              f_queue := acquire (str_of (get (f_settings f) ''partition'')) (op_deadline (registered l ! i)) localDiagnostics False
                (new_in_queue l (f_queue f)),
              f_calls := f_calls f @ [\<lparr>fc_operation = i, fc_promise = promises (f_queue f), fc_permit = None, fc_stage = Fc_acquiring\<rparr>]\<rparr>))))"

definition uses_session :: "fetcher \<Rightarrow> bool" where
  "uses_session f \<longleftrightarrow> get (f_settings f) ''context'' = jstr ''session''"

text \<open>After \<open>admission.acquire\<close>: the first call of a session fetch opens the session.\<close>

definition fetch_permit :: "rat \<Rightarrow> nat \<Rightarrow> settlement \<Rightarrow> fetcher \<Rightarrow> fetcher" where
  "fetch_permit now k r f = (case r of Rejected e \<Rightarrow> fetch_ends k (Some e) f
     | Granted p \<Rightarrow> let f1 = in_fetch k (fc_permit_update (\<lambda>_. Some p)) f in
         if \<not> uses_session f then to_fetch_stage k Fc_streaming f1
         else if f_session f \<noteq> None then to_fetch_stage k Fc_session f1
         else case begin_js (get (f_settings f) ''timeoutMs'') now None (f_life f) of
           (Inl e, l) \<Rightarrow> fetch_ends k (Some e) (f1\<lparr>f_life := l\<rparr>)
         | (Inr j, l) \<Rightarrow> to_fetch_stage k Fc_session
             (f1\<lparr>f_life := l, f_queue := new_in_queue l (f_queue f), f_session := Some (Session_opening j), f_created := Suc (f_created f)\<rparr>))"

definition fetch_session_settles :: "transport_error + nat \<Rightarrow> fetcher \<Rightarrow> fetcher" where
  "fetch_session_settles r f = (case f_session f of
     Some (Session_opening j) \<Rightarrow> f\<lparr>f_session := Some (case r of Inl e \<Rightarrow> Session_failed e | Inr h \<Rightarrow> Session_ready h), f_life := op_done j (f_life f)\<rparr>
   | _ \<Rightarrow> f)"

text \<open>\<open>deadline.race(session)\<close>: \<open>expired\<close> says that the signal came first.\<close>

definition fetch_raced :: "bool \<Rightarrow> rat \<Rightarrow> nat \<Rightarrow> fetcher \<Rightarrow> fetcher" where
  "fetch_raced expired now k f =
     (if expired then if aborted (fetch_deadline k f) then fetch_ends k (Some (deadline_error (fetch_deadline k f) now localDiagnostics False)) f else f
      else case f_session f of
        Some (Session_ready h) \<Rightarrow> to_fetch_stage k Fc_streaming f
      | Some (Session_failed e) \<Rightarrow> fetch_ends k (Some e) f
      | _ \<Rightarrow> f)"

definition fetch_streamed :: "nat \<Rightarrow> transport_error option \<Rightarrow> fetcher \<Rightarrow> fetcher" where
  "fetch_streamed k failed f = (case failed of Some e \<Rightarrow> fetch_ends k (Some e) f | None \<Rightarrow> to_fetch_stage k Fc_open f)"

subsection \<open>Closing\<close>

text \<open>The listeners of the queue when \<open>lifetime.close()\<close> aborts what is registered.\<close>

definition queue_close :: "lifetime \<Rightarrow> admission \<Rightarrow> admission" where
  "queue_close l q = (if closing l \<noteq> None then q
     else fold (\<lambda>i. deadline_event (op_deadline (registered l ! i)) (change_deadline (CloserAborts client_closed))) (operations l) q)"

definition fetch_close :: "rat \<Rightarrow> fetcher \<Rightarrow> fetcher" where
  "fetch_close now f = (if f_closing f \<noteq> None then f
     else let f1 = f\<lparr>f_life := snd (lifetime_close JUndef JUndef (f_life f)), f_queue := queue_close (f_life f) (f_queue f)\<rparr> in
       case new_Deadline (Num 10000) now None of Inl e \<Rightarrow> f1
       | Inr d \<Rightarrow> f1\<lparr>f_closing := Some (F_stopping d)\<rparr>)"

definition life_stopped :: "lifetime \<Rightarrow> bool" where
  "life_stopped l = (case closing l of Some (Stopped _) \<Rightarrow> True | _ \<Rightarrow> False)"

definition fetch_close_stopped :: "bool \<Rightarrow> fetcher \<Rightarrow> fetcher" where
  "fetch_close_stopped expired f = (case f_closing f of
     Some (F_stopping d) \<Rightarrow>
       if expired then if aborted d then f\<lparr>f_closing := None\<rparr> else f
       else if life_stopped (f_life f) then f\<lparr>f_closing := Some (if f_session f = None then F_done else F_session d)\<rparr> else f
   | _ \<Rightarrow> f)"

definition fetch_close_session :: "bool \<Rightarrow> fetcher \<Rightarrow> fetcher" where
  "fetch_close_session expired f = (case f_closing f of
     Some (F_session d) \<Rightarrow>
       if expired then if aborted d then f\<lparr>f_closing := None\<rparr> else f
       else (case f_session f of
          Some (Session_ready h) \<Rightarrow> f\<lparr>f_closing := Some (F_removing d h)\<rparr>
        | Some (Session_failed e) \<Rightarrow> f\<lparr>f_closing := (if aborted d then None else Some F_done)\<rparr>
        | _ \<Rightarrow> f)
   | _ \<Rightarrow> f)"

text \<open>\<open>current.close\<close> resolves or rejects; \<open>f_removed\<close> records the session that it closed.\<close>

definition fetch_close_removed :: "bool \<Rightarrow> transport_error option \<Rightarrow> fetcher \<Rightarrow> fetcher" where
  "fetch_close_removed expired failed f = (case f_closing f of
     Some (F_removing d h) \<Rightarrow>
       if expired then if aborted d then f\<lparr>f_closing := None\<rparr> else f
       else (case failed of Some e \<Rightarrow> f\<lparr>f_closing := None\<rparr> | None \<Rightarrow> f\<lparr>f_closing := Some F_done, f_removed := f_removed f @ [h]\<rparr>)
   | _ \<Rightarrow> f)"

definition fetch_close_fires :: "fetcher \<Rightarrow> fetcher" where
  "fetch_close_fires f = f\<lparr>f_closing := (case f_closing f of
     Some (F_stopping d) \<Rightarrow> Some (F_stopping (onTimer d)) | Some (F_session d) \<Rightarrow> Some (F_session (onTimer d))
   | Some (F_removing d h) \<Rightarrow> Some (F_removing (onTimer d) h) | x \<Rightarrow> x)\<rparr>"

subsection \<open>The fetch at work\<close>

text \<open>A timer or a parent aborts a deadline that is not disposed: the lifetime and the queue see it.\<close>

definition fetch_fires :: "nat \<Rightarrow> deadline_change \<Rightarrow> fetcher \<Rightarrow> fetcher" where
  "fetch_fires d c f = (if d \<in> set (disposed (f_life f)) \<or> length (store (f_life f)) \<le> d then f
     else f\<lparr>f_life := deadline_fires d (change_deadline c) (f_life f), f_queue := deadline_event d (change_deadline c) (f_queue f)\<rparr>)"

definition fetch_at :: "fetcher \<Rightarrow> nat \<Rightarrow> fetch_stage \<Rightarrow> bool" where
  "fetch_at f k st \<longleftrightarrow> k < length (f_calls f) \<and> fc_stage (f_calls f ! k) = st"

inductive fetch_step :: "fetcher \<Rightarrow> fetcher \<Rightarrow> bool" where
  executes: "fetch_step f (snd (fetch_execute host now parent r f))"
| permitted: "fetch_at f k Fc_acquiring \<Longrightarrow> (fc_promise (f_calls f ! k), part, r) \<in> set (settled (f_queue f)) \<Longrightarrow>
    fetch_step f (fetch_permit now k r f)"
| session_settles: "fetch_step f (fetch_session_settles r f)"
| raced: "fetch_at f k Fc_session \<Longrightarrow> fetch_step f (fetch_raced expired now k f)"
| streamed: "fetch_at f k Fc_streaming \<Longrightarrow> fetch_step f (fetch_streamed k failed f)"
| completed: "fetch_at f k Fc_open \<Longrightarrow> fetch_step f (fetch_ends k None f)"
| closes: "fetch_step f (fetch_close now f)"
| close_stopped: "fetch_step f (fetch_close_stopped expired f)"
| close_session: "fetch_step f (fetch_close_session expired f)"
| close_removed: "fetch_step f (fetch_close_removed expired failed f)"
| close_fires: "fetch_step f (fetch_close_fires f)"
| life_stops: "fetch_step f (f\<lparr>f_life := stop_ends (f_life f)\<rparr>)"
| timer: "fetch_step f (fetch_fires d TimerFires f)"
| aborts: "fetch_step f (fetch_fires d (ParentAborts r) f)"
| ticks: "fetch_step f (f\<lparr>f_queue := (f_queue f)\<lparr>clock := t\<rparr>\<rparr>)"

inductive fetch_reachable :: "fetcher \<Rightarrow> bool" where
  fetch_new: "createScopedFetch t m opts = Inr f \<Longrightarrow> fetch_reachable f"
| fetch_moves: "fetch_reachable f \<Longrightarrow> fetch_step f f' \<Longrightarrow> fetch_reachable f'"

end
