(* ===== verification/Client.thy ===== *)
theory Client
  imports Fetch
begin

text \<open>
  What the client owns: the constructor, \<open>createFetch\<close>, \<open>openSession\<close> and \<open>close\<close> of
  \<open>src/packages/typescript/src/client.ts\<close>. The handles of the sessions are the sessions themselves, so that
  the client closes them the way they close. A handle is known by its position in the list of all
  sessions ever registered; \<open>k_owned\<close> is the map \<open>sessions\<close>. Calls of \<open>openSession\<close> and the progress of
  \<open>close\<close> are at the \<open>await\<close> they have reached.
\<close>

subsection \<open>The constructor\<close>

record client_options =
  co_timeout :: jsnum
  co_maximum :: jsval
  co_admission :: admission
  co_buffers :: buffer_budget

definition limit_or :: "jsval \<Rightarrow> string \<Rightarrow> int \<Rightarrow> jsval" where
  "limit_or ls n d = nullish_or (get ls n) (jint d)"

definition new_client :: "jsval \<Rightarrow> transport_error + client_options" where
  "new_client opts = (case timeout_js (nullish_or (get opts ''defaultTimeoutMs'') (jint 30000)) of Inl e \<Rightarrow> Inl e
     | Inr t \<Rightarrow> let mx = nullish_or (get opts ''maxResponseBytes'') (jint 16777216); ls = get opts ''limits'';
           a = limit_or ls ''maxConcurrent'' 16; b = limit_or ls ''maxConcurrentPerPartition'' 8; c = limit_or ls ''maxQueued'' 128;
           d = limit_or ls ''maxQueuedPerPartition'' 32; e = limit_or ls ''maxBufferedBytes'' 67108864 in
         if \<not> positive mx \<or> \<not> positive a \<or> \<not> positive b \<or> \<not> nonnegativeInteger c \<or> \<not> nonnegativeInteger d then Inl invalid_input
         else case new_Admission \<lparr>maxConcurrent = int_of a, maxConcurrentPerPartition = int_of b, maxQueued = int_of c, maxQueuedPerPartition = int_of d\<rparr> of
           Inl e \<Rightarrow> Inl e
         | Inr adm \<Rightarrow> if \<not> positive e then Inl invalid_input
             else (case new_BufferBudget (int_of e) of Inl e \<Rightarrow> Inl e
               | Inr buf \<Rightarrow> Inr \<lparr>co_timeout = t, co_maximum = mx, co_admission = adm, co_buffers = buf\<rparr>))"

subsection \<open>State\<close>

datatype opening_stage = O_creating | O_undoing nat | O_done "transport_error + nat"

record session_opening =
  o_operation :: nat
  o_retain :: bool
  o_stage :: opening_stage

text \<open>One promise of the close of a session: it joined a close already begun, or began one; its outcome once it has settled.\<close>

record close_entry =
  e_handle :: nat
  e_joined :: bool
  e_outcome :: "transport_error option option"

datatype client_closing =
    K_stopping deadline jsval
  | K_awaiting deadline jsval
  | K_sessions deadline "close_entry list"
  | K_fetchers "(nat \<times> transport_error option option) list"
  | K_service
  | K_done

record client =
  k_life :: lifetime
  k_handles :: "session list"
  k_owned :: "nat list"
  k_openings :: "session_opening list"
  k_fetchers :: "nat list"
  k_made :: nat
  k_draining :: bool
  k_closing :: "client_closing option"

definition empty_client :: client where
  "empty_client = \<lparr>k_life = new_Lifetime, k_handles = [], k_owned = [], k_openings = [], k_fetchers = [], k_made = 0, k_draining = False, k_closing = None\<rparr>"

subsection \<open>Creating\<close>

definition createFetch :: "jsval \<Rightarrow> jsval \<Rightarrow> jsval \<Rightarrow> client \<Rightarrow> (transport_error + fetcher) \<times> client" where
  "createFetch t mx opts k =
     (if \<not> record_js opts then (Inl invalid_input, k)
      else case assertOpen (k_life k) of Some e \<Rightarrow> (Inl e, k)
      | None \<Rightarrow> (case createScopedFetch t mx opts of Inl e \<Rightarrow> (Inl e, k)
         | Inr f \<Rightarrow> (Inr f, k\<lparr>k_fetchers := k_fetchers k @ [k_made k], k_made := Suc (k_made k)\<rparr>)))"

text \<open>A fetch leaves the set when it has closed, or when the collector has taken it.\<close>

definition fetch_leaves :: "nat \<Rightarrow> client \<Rightarrow> client" where
  "fetch_leaves i k = k\<lparr>k_fetchers := filter (\<lambda>j. j \<noteq> i) (k_fetchers k)\<rparr>"

definition open_session :: "jsnum \<Rightarrow> rat \<Rightarrow> abort_reason option \<Rightarrow> bool \<Rightarrow> jsval \<Rightarrow> client \<Rightarrow> transport_error option \<times> client" where
  "open_session controlTimeout now parent retain opts k =
     (if \<not> record_js opts then (Some invalid_input, k)
      else case begin_js (nullish_or (get opts ''timeoutMs'') (JNum controlTimeout)) now parent (k_life k) of
        (Inl e, l) \<Rightarrow> (Some e, k\<lparr>k_life := l\<rparr>)
      | (Inr i, l) \<Rightarrow> (None, k\<lparr>k_life := l, k_openings := k_openings k @ [\<lparr>o_operation = i, o_retain = retain, o_stage = O_creating\<rparr>]\<rparr>))"

definition open_stage :: "nat \<Rightarrow> opening_stage \<Rightarrow> client \<Rightarrow> client" where
  "open_stage m st k = k\<lparr>k_openings := (k_openings k)[m := (k_openings k ! m)\<lparr>o_stage := st\<rparr>]\<rparr>"

definition open_ends :: "nat \<Rightarrow> transport_error + nat \<Rightarrow> client \<Rightarrow> client" where
  "open_ends m r k = (open_stage m (O_done r) k)\<lparr>k_life := op_done (o_operation (k_openings k ! m)) (k_life k)\<rparr>"

text \<open>The session is registered before anything can fail.\<close>

definition register_session :: "session \<Rightarrow> client \<Rightarrow> client" where
  "register_session s k = k\<lparr>k_handles := k_handles k @ [s], k_owned := k_owned k @ [length (k_handles k)]\<rparr>"

definition open_created :: "jsnum \<Rightarrow> rat \<Rightarrow> nat \<Rightarrow> transport_error + session \<Rightarrow> client \<Rightarrow> client" where
  "open_created controlTimeout now m r k = (case r of Inl e \<Rightarrow> open_ends m (Inl e) k
     | Inr s \<Rightarrow>
         let p = k_openings k ! m; n = length (k_handles k); d = store (k_life k) ! op_deadline (registered (k_life k) ! o_operation p);
           s1 = (if closed (k_life k) then s\<lparr>life := stopAccepting (life s)\<rparr> else s) in
         if \<not> closed (k_life k) \<and> \<not> aborted d \<or> o_retain p then open_ends m (Inr n) (register_session s1 k)
         else if closed (k_life k) then open_ends m (Inl (deadline_error d now localDiagnostics False)) (register_session s1 k)
         else (case session_close controlTimeout now None (JObj []) s1 of
             (Some e, s2) \<Rightarrow> open_ends m (Inl e) (register_session s2 k)
           | (None, s2) \<Rightarrow> open_stage m (O_undoing n) (register_session s2 k)))"

subsection \<open>Closing\<close>

definition stop_owned :: "client \<Rightarrow> client" where
  "stop_owned k = k\<lparr>k_handles := fold (\<lambda>n hs. hs[n := (hs ! n)\<lparr>life := stopAccepting (life (hs ! n))\<rparr>]) (k_owned k) (k_handles k)\<rparr>"

definition client_close :: "rat \<Rightarrow> jsval \<Rightarrow> client \<Rightarrow> transport_error option \<times> client" where
  "client_close now opts k =
     (let drain = get opts ''drain'' in
      if \<not> record_js opts then (Some invalid_input, k)
      else if k_closing k \<noteq> None then (None, k)
      else case timeout_js (nullish_or (get opts ''timeoutMs'') (jint 10000)) of Inl e \<Rightarrow> (Some e, k)
      | Inr t \<Rightarrow>
          if drain \<noteq> JUndef \<and> js_typeof drain \<noteq> ''boolean'' then (Some invalid_input, k)
          else let k1 = stop_owned (k\<lparr>k_draining := (drain = JBool True)\<rparr>) in
            (case new_Deadline t now None of Inl e \<Rightarrow> (Some e, k)
             | Inr d \<Rightarrow> (case lifetime_close (get opts ''timeoutMs'') drain (k_life k) of
                 (Some e, l) \<Rightarrow> (Some e, k1\<lparr>k_life := l\<rparr>)
               | (None, l) \<Rightarrow> (None, k1\<lparr>k_life := l, k_closing := Some (K_stopping d opts)\<rparr>))))"

text \<open>\<open>owned.close(closeOptions, deadline)\<close> for every session: an expired deadline refuses to wait for a close already begun.\<close>

definition close_owned :: "jsnum \<Rightarrow> rat \<Rightarrow> deadline \<Rightarrow> jsval \<Rightarrow> nat \<Rightarrow> client \<Rightarrow> close_entry \<times> client" where
  "close_owned controlTimeout now d opts n k =
     (let s = k_handles k ! n; joined = (session_closing s \<noteq> None) in
      case session_close controlTimeout now (Some d) opts s of (failed, s') \<Rightarrow>
        (\<lparr>e_handle = n, e_joined = joined, e_outcome = (if failed \<noteq> None then Some failed
            else if joined \<and> aborted d then Some (Some (deadline_error d now localDiagnostics False)) else None)\<rparr>,
         k\<lparr>k_handles := (k_handles k)[n := s']\<rparr>))"

fun close_all :: "jsnum \<Rightarrow> rat \<Rightarrow> deadline \<Rightarrow> jsval \<Rightarrow> nat list \<Rightarrow> client \<Rightarrow> close_entry list \<times> client" where
  "close_all t now d opts [] k = ([], k)"
| "close_all t now d opts (n # ns) k = (let (e, k1) = close_owned t now d opts n k; (es, k2) = close_all t now d opts ns k1 in (e # es, k2))"

definition close_sessions :: "jsnum \<Rightarrow> rat \<Rightarrow> deadline \<Rightarrow> jsval \<Rightarrow> client \<Rightarrow> client" where
  "close_sessions t now d opts k =
     (let opts' = JObj (set_prop (spread_object opts) (js ''timeoutMs'') (jint (remaining d now))); (es, k1) = close_all t now d opts' (k_owned k) k in
      k1\<lparr>k_closing := Some (K_sessions d es)\<rparr>)"

text \<open>After \<open>deadline.race(stopped)\<close>: \<open>expired\<close> says that the deadline came first.\<close>

definition client_stopped :: "jsnum \<Rightarrow> rat \<Rightarrow> bool \<Rightarrow> client \<Rightarrow> client" where
  "client_stopped t now expired k = (case k_closing k of
     Some (K_stopping d opts) \<Rightarrow>
       if expired then if \<not> aborted d then k
         else if k_owned k = [] then k\<lparr>k_closing := Some (K_awaiting d opts)\<rparr> else close_sessions t now d opts k
       else if life_stopped (k_life k) then close_sessions t now d opts k else k
   | Some (K_awaiting d opts) \<Rightarrow> if life_stopped (k_life k) then close_sessions t now d opts k else k
   | _ \<Rightarrow> k)"

definition sessions_closed :: "client \<Rightarrow> client" where
  "sessions_closed k = (case k_closing k of
     Some (K_sessions d es) \<Rightarrow>
       if list_ex (\<lambda>e. e_outcome e = None) es then k
       else if list_all (\<lambda>e. e_outcome e = Some None) es then k\<lparr>k_closing := Some (K_fetchers (map (\<lambda>i. (i, None)) (k_fetchers k)))\<rparr>
       else k\<lparr>k_closing := None\<rparr>
   | _ \<Rightarrow> k)"

definition fetcher_closed :: "nat \<Rightarrow> transport_error option \<Rightarrow> client \<Rightarrow> client" where
  "fetcher_closed i failed k = (case k_closing k of
     Some (K_fetchers fs) \<Rightarrow> k\<lparr>k_closing := Some (K_fetchers (map (\<lambda>(j, r). if j = i \<and> r = None then (j, Some failed) else (j, r)) fs))\<rparr>
   | _ \<Rightarrow> k)"

definition fetchers_closed :: "client \<Rightarrow> client" where
  "fetchers_closed k = (case k_closing k of
     Some (K_fetchers fs) \<Rightarrow>
       if list_ex (\<lambda>(j, r). r = None) fs then k
       else if list_all (\<lambda>(j, r). r = Some None) fs then k\<lparr>k_closing := Some K_service\<rparr>
       else k\<lparr>k_closing := None\<rparr>
   | _ \<Rightarrow> k)"

definition client_service_closed :: "transport_error option \<Rightarrow> client \<Rightarrow> client" where
  "client_service_closed failed k = (case k_closing k of
     Some K_service \<Rightarrow> (case failed of Some e \<Rightarrow> k\<lparr>k_closing := None\<rparr> | None \<Rightarrow> k\<lparr>k_fetchers := [], k_closing := Some K_done\<rparr>)
   | _ \<Rightarrow> k)"

text \<open>The timer of the close: promises that joined are rejected by it, the closes that share the deadline see it.\<close>

definition close_fires :: "rat \<Rightarrow> client \<Rightarrow> client" where
  "close_fires now k = (case k_closing k of
     Some (K_stopping d opts) \<Rightarrow> k\<lparr>k_closing := Some (K_stopping (onTimer d) opts)\<rparr>
   | Some (K_awaiting d opts) \<Rightarrow> k\<lparr>k_closing := Some (K_awaiting (onTimer d) opts)\<rparr>
   | Some (K_sessions d es) \<Rightarrow> let d' = onTimer d in
       k\<lparr>k_closing := Some (K_sessions d' (map (\<lambda>e. if e_joined e \<and> e_outcome e = None
             then e\<lparr>e_outcome := Some (Some (deadline_error d' now localDiagnostics False))\<rparr> else e) es)),
         k_handles := fold (\<lambda>e hs. if \<not> e_joined e \<and> e_outcome e = None then hs[e_handle e := close_deadline onTimer (hs ! e_handle e)] else hs)
           es (k_handles k)\<rparr>
   | _ \<Rightarrow> k)"

subsection \<open>The sessions at work\<close>

text \<open>A session moves: \<open>onClose\<close> takes it out of the map, and the promise of its close settles with it (\<open>e\<close> is what it rejects with).\<close>

definition entry_moves :: "nat \<Rightarrow> transport_error \<Rightarrow> session \<Rightarrow> close_entry \<Rightarrow> close_entry" where
  "entry_moves n e s' x = (if e_handle x \<noteq> n \<or> e_outcome x \<noteq> None then x
     else case session_closing s' of
       Some CloseDone \<Rightarrow> x\<lparr>e_outcome := Some None\<rparr>
     | None \<Rightarrow> x\<lparr>e_outcome := Some (Some e)\<rparr>
     | _ \<Rightarrow> x)"

definition session_moves :: "nat \<Rightarrow> transport_error \<Rightarrow> session \<Rightarrow> client \<Rightarrow> client" where
  "session_moves n e s' k = k\<lparr>k_handles := (k_handles k)[n := s'],
     k_owned := (if session_closing s' = Some CloseDone then filter (\<lambda>m. m \<noteq> n) (k_owned k) else k_owned k),
     k_closing := (case k_closing k of Some (K_sessions d es) \<Rightarrow> Some (K_sessions d (map (entry_moves n e s') es)) | c \<Rightarrow> c)\<rparr>"

text \<open>Other operations of the client (requests, status queries) come and go; only an opening settles its own.\<close>

definition opening_operations :: "client \<Rightarrow> nat set" where
  "opening_operations k = {o_operation p | p. p \<in> set (k_openings k) \<and> (\<forall>r. o_stage p \<noteq> O_done r)}"

definition opening_at :: "client \<Rightarrow> nat \<Rightarrow> opening_stage \<Rightarrow> bool" where
  "opening_at k m st \<longleftrightarrow> m < length (k_openings k) \<and> o_stage (k_openings k ! m) = st"

inductive client_step :: "url_env \<Rightarrow> client \<Rightarrow> client \<Rightarrow> bool" for env where
  makes_fetch: "client_step env k (snd (createFetch t mx opts k))"
| loses_fetch: "client_step env k (fetch_leaves i k)"
| opens: "client_step env k (snd (open_session t now parent retain opts k))"
| open_fails: "opening_at k m O_creating \<Longrightarrow> client_step env k (open_created t now m (Inl e) k)"
| open_created: "opening_at k m O_creating \<Longrightarrow> session_settings env opts = Inr o' \<Longrightarrow> session_limits caps o' tm mx = Inr ls \<Longrightarrow>
    opened_context caps' o' v = Inr context \<Longrightarrow> 
    client_step env k (open_created t now m (Inr (heard (CreateReply caps' o' (Inr v)) (new_session o' caps ls context))) k)"
| open_undone: "opening_at k m (O_undoing n) \<Longrightarrow> session_closing (k_handles k ! n) \<in> {None, Some CloseDone} \<Longrightarrow>
    client_step env k (open_ends m (Inl e) k)"
| session_works: "n < length (k_handles k) \<Longrightarrow> session_step env (k_handles k ! n) s' \<Longrightarrow> client_step env k (session_moves n e s' k)"
| closes: "client_step env k (snd (client_close now opts k))"
| stopped: "client_step env k (client_stopped t now expired k)"
| sessions: "client_step env k (sessions_closed k)"
| fetcher: "client_step env k (fetcher_closed i failed k)"
| fetchers: "client_step env k (fetchers_closed k)"
| service: "client_step env k (client_service_closed failed k)"
| close_timer: "client_step env k (close_fires now k)"
| begins: "client_step env k (k\<lparr>k_life := snd (lifetime_begin t now parent (k_life k))\<rparr>)"
| tracks: "d < length (store (k_life k)) \<Longrightarrow> client_step env k (k\<lparr>k_life := snd (track d accepted (k_life k))\<rparr>)"
| settles: "i \<notin> opening_operations k \<Longrightarrow> client_step env k (k\<lparr>k_life := op_done i (k_life k)\<rparr>)"
| drained: "client_step env k (k\<lparr>k_life := drain_ends elapsed (k_life k)\<rparr>)"
| stops: "client_step env k (k\<lparr>k_life := stop_ends (k_life k)\<rparr>)"
| timer: "client_step env k (k\<lparr>k_life := deadline_fires d onTimer (k_life k)\<rparr>)"
| aborts: "client_step env k (k\<lparr>k_life := deadline_fires d (onAbort r) (k_life k)\<rparr>)"
| foreign: "client_step env k (k\<lparr>k_life := foreign_deadline dl (k_life k)\<rparr>)"

inductive client_reachable :: "url_env \<Rightarrow> client \<Rightarrow> bool" for env where
  client_new: "client_reachable env empty_client"
| client_moves: "client_reachable env k \<Longrightarrow> client_step env k k' \<Longrightarrow> client_reachable env k'"

end
