(* ===== verification/Sessions_Correct.thy ===== *)
theory Sessions_Correct
  imports Sessions
begin

text \<open>
  What holds of a session in every state it can reach: its calls and the operations of its lifetime
  correspond, every context it owes the service is marked for removal, and closing has removed them.
\<close>

subsection \<open>The lifetime of a session\<close>

text \<open>A session never adds to its lifetime once that is closing, so what is left is what is awaited.\<close>

definition life_fit :: "lifetime \<Rightarrow> bool" where
  "life_fit l \<longleftrightarrow> life_ok l \<and> (case closing l of None \<Rightarrow> True | Some st \<Rightarrow> set (operations l) \<subseteq> set (pending_of st))"

lemma fit_closed: "life_fit l \<Longrightarrow> closing l \<noteq> None \<Longrightarrow> closed l"
  by (auto simp: life_fit_def life_ok_def closing_ok_def split: option.splits)

lemma fit_stopped: "life_fit l \<Longrightarrow> closing l = Some (Stopped p) \<Longrightarrow> operations l = []"
proof -
  assume l: "life_fit l" "closing l = Some (Stopped p)"
  then have "set (operations l) \<subseteq> set p" "\<forall>i \<in> set p. settled_op l i"
    by (simp_all add: life_fit_def life_ok_def closing_ok_def pending_of_def)
  moreover have "\<not> settled_op l i" if "i \<in> set (operations l)" for i
    using that l(1) by (simp add: life_fit_def live_operations)
  ultimately show ?thesis by (cases "operations l") auto
qed

lemma fit_begin: "life_fit l \<Longrightarrow> life_fit (snd (lifetime_begin t now parent l))"
  using lifetime_begin_ok [of l t now parent] fit_closed [of l]
  by (auto simp: life_fit_def lifetime_begin_def assertOpen_def register_def Let_def split: sum.splits option.splits)

lemma fit_track: "life_fit l \<Longrightarrow> d < length (store l) \<Longrightarrow> life_fit (snd (track d False l))"
  using track_ok [of l d False] fit_closed [of l]
  by (auto simp: life_fit_def track_def assertOpen_def register_def Let_def split: option.splits)

lemma op_done_operations: "operations (op_done i l) = filter (\<lambda>j. j \<noteq> i) (operations l)"
    "closing (op_done i l) = closing l" "length (registered (op_done i l)) = length (registered l)" "closed (op_done i l) = closed l"
  by (auto simp: op_done_def Let_def intro!: filter_True [symmetric])

lemma fit_done: "life_fit l \<Longrightarrow> life_fit (op_done i l)"
  using op_done_ok [of l i] by (auto simp: life_fit_def op_done_operations split: option.splits)

lemma fit_close: "life_fit l \<Longrightarrow> life_fit (snd (lifetime_close t d l))"
  using lifetime_close_ok [of l t d]
  by (auto simp: life_fit_def lifetime_close_def pending_of_def Let_def split: sum.splits option.splits)

lemma fit_drain: "life_fit l \<Longrightarrow> life_fit (drain_ends b l)"
  using drain_ends_ok [of l b] by (auto simp: life_fit_def drain_ends_def pending_of_def split: option.splits closing_stage.splits if_splits)

lemma fit_stop: "life_fit l \<Longrightarrow> life_fit (stop_ends l)"
  using stop_ends_ok [of l] by (auto simp: life_fit_def stop_ends_def pending_of_def split: option.splits closing_stage.splits if_splits)

lemma fit_others: "life_fit l \<Longrightarrow> life_fit (stopAccepting l)" "life_fit l \<Longrightarrow> (\<And>x. aborted (f x)) \<Longrightarrow> life_fit (deadline_fires d f l)"
    "life_fit l \<Longrightarrow> life_fit (foreign_deadline e l)"
  using stopAccepting_ok [of l] deadline_fires_ok [of l f d] foreign_ok [of l e]
  by (auto simp: life_fit_def stopAccepting_def deadline_fires_def foreign_deadline_def simp del: not_None_eq split: option.splits)

lemma fit_new: "life_fit new_Lifetime"
  using new_Lifetime_ok by (simp add: life_fit_def new_Lifetime_def)

text \<open>What the remaining operations leave as it is.\<close>

lemma life_quiet [simp]:
  "operations (stopAccepting l) = operations l" "registered (stopAccepting l) = registered l" "closing (stopAccepting l) = closing l"
  "operations (deadline_fires d f l) = operations l" "registered (deadline_fires d f l) = registered l" "closing (deadline_fires d f l) = closing l"
  "operations (foreign_deadline e l) = operations l" "registered (foreign_deadline e l) = registered l" "closing (foreign_deadline e l) = closing l"
  "operations (drain_ends b l) = operations l" "registered (drain_ends b l) = registered l"
  "operations (stop_ends l) = operations l" "registered (stop_ends l) = registered l"
  "operations (snd (lifetime_close t v l)) = operations l" "registered (snd (lifetime_close t v l)) = registered l"
  by (simp_all add: stopAccepting_def deadline_fires_def foreign_deadline_def drain_ends_def stop_ends_def lifetime_close_def Let_def
      split: option.split closing_stage.split sum.split)

lemma stays_stopped:
  "closing l = Some (Stopped p) \<Longrightarrow> closing (drain_ends b l) = Some (Stopped p)"
  "closing l = Some (Stopped p) \<Longrightarrow> closing (stop_ends l) = Some (Stopped p)"
  "closing l = Some (Stopped p) \<Longrightarrow> snd (lifetime_close t v l) = l"
  by (simp_all add: drain_ends_def stop_ends_def lifetime_close_def)

subsection \<open>What the steps of a call change\<close>

lemma call_fields [simp]:
  "info (in_call k f s) = info s" "cleanup (in_call k f s) = cleanup s" "history (in_call k f s) = history s"
  "session_closing (in_call k f s) = session_closing s" "life (in_call k f s) = life s" "managed (in_call k f s) = managed s"
  "session_connection (in_call k f s) = session_connection s" "settings (in_call k f s) = settings s" "lost (in_call k f s) = lost s"
  "calls (in_call k f s) = (calls s)[k := f (calls s ! k)]" "session_caps (in_call k f s) = session_caps s"
  "info (to_stage k st s) = info s" "cleanup (to_stage k st s) = cleanup s" "history (to_stage k st s) = history s"
  "session_closing (to_stage k st s) = session_closing s" "life (to_stage k st s) = life s" "managed (to_stage k st s) = managed s"
  "session_connection (to_stage k st s) = session_connection s" "settings (to_stage k st s) = settings s"
  "calls (to_stage k st s) = (calls s)[k := (calls s ! k)\<lparr>c_stage := st\<rparr>]"
  "info (end_call k st s) = info s" "cleanup (end_call k st s) = cleanup s" "history (end_call k st s) = history s"
  "session_closing (end_call k st s) = session_closing s" "managed (end_call k st s) = managed s"
  "session_connection (end_call k st s) = session_connection s" "settings (end_call k st s) = settings s"
  "calls (end_call k st s) = (calls s)[k := (calls s ! k)\<lparr>c_stage := st, c_permit := False\<rparr>]"
  "life (end_call k st s) = op_done (c_operation (calls s ! k)) (life s)"
  by (simp_all add: in_call_def to_stage_def end_call_def Let_def)

lemma markLost_fields [simp]:
  "info (markLost e x s) = info s" "cleanup (markLost e x s) = cleanup s" "history (markLost e x s) = history s"
  "session_closing (markLost e x s) = session_closing s" "life (markLost e x s) = life s" "managed (markLost e x s) = managed s"
  "session_connection (markLost e x s) = session_connection s" "calls (markLost e x s) = calls s" "settings (markLost e x s) = settings s"
  by (simp_all add: markLost_def)

lemma throw_fields [simp]:
  "info (throw_call k e s) = info s" "cleanup (throw_call k e s) = cleanup s" "history (throw_call k e s) = history s"
  "session_closing (throw_call k e s) = session_closing s" "managed (throw_call k e s) = managed s"
  "session_connection (throw_call k e s) = session_connection s"
  "calls (throw_call k e s) = (calls s)[k := (calls s ! k)\<lparr>c_stage := Threw e, c_permit := False\<rparr>]"
  "life (throw_call k e s) = op_done (c_operation (calls s ! k)) (life s)"
  by (simp_all add: throw_call_def)

lemma heard_fields [simp]:
  "info (heard e s) = info s" "cleanup (heard e s) = cleanup s" "history (heard e s) = history s @ [e]" "lost (heard e s) = lost s"
  "session_closing (heard e s) = session_closing s" "life (heard e s) = life s" "managed (heard e s) = managed s"
  "session_connection (heard e s) = session_connection s" "calls (heard e s) = calls s" "settings (heard e s) = settings s"
  "at_stage (heard e s) k st = at_stage s k st" "staged spec (heard e s) = staged spec s"
  by (simp_all add: heard_def at_stage_def staged_def)

lemma applyRevision_fields:
  assumes "applyRevision v x s = Inr s1"
  shows "cleanup s1 = cleanup s" "history s1 = history s" "session_closing s1 = session_closing s" "life s1 = life s"
    "managed s1 = managed s" "session_connection s1 = session_connection s" "calls s1 = calls s" "settings s1 = settings s" "lost s1 = lost s"
  using assms by (auto simp: applyRevision_def split: if_splits)

lemma removeContext_fields [simp]:
  "info (snd (removeContext x r s)) = info s" "life (snd (removeContext x r s)) = life s" "managed (snd (removeContext x r s)) = managed s"
  "session_connection (snd (removeContext x r s)) = session_connection s" "calls (snd (removeContext x r s)) = calls s"
  "session_closing (snd (removeContext x r s)) = session_closing s" "settings (snd (removeContext x r s)) = settings s"
  by (simp_all add: removeContext_def context_gone_def Let_def split: sum.split)

subsection \<open>The invariant\<close>

fun unfinished :: "call_stage \<Rightarrow> bool" where
  "unfinished (Returned _) = False"
| "unfinished (Threw _) = False"
| "unfinished _ = True"

text \<open>A call is in progress exactly as long as its operation is registered.\<close>

definition calls_ok :: "session \<Rightarrow> bool" where
  "calls_ok s \<longleftrightarrow> distinct (map c_operation (calls s)) \<and>
     (\<forall>c \<in> set (calls s). c_operation c < length (registered (life s)) \<and> (unfinished (c_stage c) \<longleftrightarrow> c_operation c \<in> set (operations (life s))))"

text \<open>
  Read off the replies of the service alone: the contexts that a creation reported in a reply which
  meets the checks of \<open>openContext\<close>, and that no deletion has confirmed to be gone since. A deletion is
  confirmed by a reply without a body or by the answer that the context does not exist.
\<close>

definition confirms_gone :: "transport_error + jsval \<Rightarrow> bool" where
  "confirms_gone r \<longleftrightarrow> (case r of Inl e \<Rightarrow> te_code e = CONTEXT_NOT_FOUND | Inr v \<Rightarrow> v = JUndef)"

fun reported :: "context_event \<Rightarrow> jsval list \<Rightarrow> jsval list" where
  "reported (CreateReply caps opts (Inr v)) xs =
     (case opened_context caps opts v of Inr n \<Rightarrow> set_add (get n ''contextId'') xs | Inl _ \<Rightarrow> xs)"
| "reported (CreateReply caps opts (Inl e)) xs = xs"
| "reported (DeleteReply x r) xs = (if confirms_gone r then filter (\<lambda>y. y \<noteq> x) xs else xs)"

definition outstanding :: "context_event list \<Rightarrow> jsval list" where
  "outstanding h = fold reported h []"

definition core :: "session \<Rightarrow> bool" where
  "core s \<longleftrightarrow> life_fit (life s) \<and> calls_ok s \<and> set (outstanding (history s)) \<subseteq> set (cleanup s) \<and> distinct (cleanup s)"

definition is_stopped :: "lifetime \<Rightarrow> bool" where
  "is_stopped l = (case closing l of Some (Stopped _) \<Rightarrow> True | _ \<Rightarrow> False)"

definition close_ok :: "session \<Rightarrow> bool" where
  "close_ok s \<longleftrightarrow> (case session_closing s of
     Some (CloseRemoving rs) \<Rightarrow> is_stopped (life s) \<and> distinct (map fst rs) \<and> (\<forall>x \<in> set (cleanup s). \<exists>r. (x, r) \<in> set rs \<and> r \<noteq> Some None)
   | Some CloseDone \<Rightarrow> is_stopped (life s) \<and> cleanup s = []
   | _ \<Rightarrow> True)"

definition session_ok :: "session \<Rightarrow> bool" where
  "session_ok s \<longleftrightarrow> core s \<and> close_ok s"

lemma outstanding_snoc [simp]: "outstanding (h @ [e]) = reported e (outstanding h)" "outstanding [e] = reported e []" "outstanding [] = []"
  by (simp_all add: outstanding_def)

lemma set_add [simp]: "set (set_add x xs) = insert x (set xs)" "distinct (set_add x xs) \<longleftrightarrow> distinct xs"
  by (auto simp: set_add_def)

lemma in_call_core:
  assumes "core s" and "k < length (calls s)" and "unfinished (c_stage (f (calls s ! k))) = unfinished (c_stage (calls s ! k))"
    and "c_operation (f (calls s ! k)) = c_operation (calls s ! k)"
  shows "core (in_call k f s)"
proof -
  have "map c_operation ((calls s)[k := f (calls s ! k)]) = map c_operation (calls s)"
    using assms(4) by (simp add: map_update list_update_same_conv assms(2))
  moreover have "c_operation c < length (registered (life s)) \<and> (unfinished (c_stage c) \<longleftrightarrow> c_operation c \<in> set (operations (life s)))"
    if "c \<in> set ((calls s)[k := f (calls s ! k)])" for c
  proof -
    have "c \<in> set (calls s) \<or> c = f (calls s ! k)" using that set_update_subset_insert by fastforce
    with assms nth_mem [OF assms(2)] show ?thesis by (auto simp: core_def calls_ok_def)
  qed
  ultimately show ?thesis using assms(1) by (simp add: core_def calls_ok_def)
qed

lemma to_stage_core: "core s \<Longrightarrow> k < length (calls s) \<Longrightarrow> unfinished st = unfinished (c_stage (calls s ! k)) \<Longrightarrow> core (to_stage k st s)"
  unfolding to_stage_def by (rule in_call_core) simp_all

lemma end_call_core:
  assumes "core s" and k: "k < length (calls s)" and "\<not> unfinished st"
  shows "core (end_call k st s)"
proof -
  let ?i = "c_operation (calls s ! k)" and ?c = "(calls s ! k)\<lparr>c_stage := st, c_permit := False\<rparr>"
  have d: "distinct (map c_operation (calls s))" using assms(1) by (simp add: core_def calls_ok_def)
  have "map c_operation ((calls s)[k := ?c]) = map c_operation (calls s)"
    by (simp add: map_update list_update_same_conv k)
  moreover have "c_operation c < length (registered (life s)) \<and> (unfinished (c_stage c) \<longleftrightarrow> c_operation c \<in> set (operations (life s)) - {?i})"
    if c: "c \<in> set ((calls s)[k := ?c])" for c
  proof -
    from c obtain j where j: "j < length (calls s)" "c = (calls s)[k := ?c] ! j" by (auto simp: in_set_conv_nth)
    then have "c = ?c \<or> c \<in> set (calls s) \<and> c_operation c \<noteq> ?i" using d k by (cases "j = k") (auto simp: distinct_conv_nth)
    with assms nth_mem [OF k] show ?thesis by (auto simp: core_def calls_ok_def)
  qed
  ultimately show ?thesis
    using assms fit_done [of "life s" ?i] by (auto simp: core_def calls_ok_def op_done_operations)
qed

lemma same_core:
  "core s \<Longrightarrow> calls s' = calls s \<Longrightarrow> life s' = life s \<Longrightarrow> cleanup s' = cleanup s \<Longrightarrow> history s' = history s \<Longrightarrow> core s'"
  by (simp add: core_def calls_ok_def)

lemma throw_core: "core s \<Longrightarrow> k < length (calls s) \<Longrightarrow> core (throw_call k e s)"
  unfolding throw_call_def by (rule end_call_core [OF same_core [of s]]) simp_all

lemma applyRevision_core: "core s \<Longrightarrow> applyRevision v x s = Inr s1 \<Longrightarrow> core s1"
  using applyRevision_fields [of v x s s1] same_core [of s s1] by simp

lemma removeContext_core: "core s \<Longrightarrow> core (snd (removeContext x r (heard (DeleteReply x r) s)))"
  by (auto simp: core_def calls_ok_def removeContext_def context_gone_def confirms_gone_def Let_def split: sum.split)

lemma add_core: "core s \<Longrightarrow> core (s\<lparr>cleanup := set_add x (cleanup s)\<rparr>)"
  by (auto simp: core_def calls_ok_def)

lemma heard_core: "core s \<Longrightarrow> set (reported e (outstanding (history s))) \<subseteq> set (outstanding (history s)) \<Longrightarrow> core (heard e s)"
  by (auto simp: core_def calls_ok_def)

text \<open>A reply that reports a context and the context kept for removal.\<close>

lemma accepted_core:
  assumes "core s" and "set (reported e (outstanding (history s))) \<subseteq> insert x (set (outstanding (history s)))"
  shows "core ((heard e s)\<lparr>cleanup := set_add x (cleanup s)\<rparr>)"
  using assms by (auto simp: core_def calls_ok_def)

subsection \<open>Every step keeps it\<close>

lemma begun:
  "lifetime_begin t now parent l = (Inr i, l') \<Longrightarrow> \<not> closed l \<and> i = length (registered l) \<and> length (registered l') = Suc i \<and> operations l' = operations l @ [i]"
  "track d False l = (Inr i, l') \<Longrightarrow> \<not> closed l \<and> i = length (registered l) \<and> length (registered l') = Suc i \<and> operations l' = operations l @ [i]"
  by (auto simp: lifetime_begin_def track_def assertOpen_def register_def Let_def split: sum.splits option.splits if_splits)

lemma begun_js: "begin_js v now parent l = (Inr i, l') \<Longrightarrow> \<exists>n. v = JNum n \<and> lifetime_begin n now parent l = (Inr i, l')"
  by (cases v) (simp_all add: begin_js_def)

lemma not_begun:
  "lifetime_begin t now parent l = (Inl e, l') \<Longrightarrow> l' = l" "track d a l = (Inl e, l') \<Longrightarrow> l' = l" "begin_js v now parent l = (Inl e, l') \<Longrightarrow> l' = l"
  by (auto simp: lifetime_begin_def track_def begin_js_def register_def Let_def split: sum.splits option.splits if_splits jsval.splits)

lemma new_call_core:
  assumes "core s" and "life_fit l" and "i = length (registered (life s))" and "length (registered l) = Suc i"
    and "operations l = operations (life s) @ [i]" and "c_operation c = i" and "unfinished (c_stage c)"
  shows "core (s\<lparr>life := l, calls := calls s @ [c]\<rparr>)"
proof -
  have "i \<notin> c_operation ` set (calls s)" using assms(1,3) by (force simp: core_def calls_ok_def)
  with assms show ?thesis by (auto simp: core_def calls_ok_def less_Suc_eq)
qed

lemma mutate_core: "core s \<Longrightarrow> core (snd (mutate t now parent m s))"
proof -
  assume s: "core s"
  have "core (s\<lparr>life := l, calls := calls s @ [c]\<rparr>)"
    if "lifetime_begin t now parent (life s) = (Inr i, l)" "c_operation c = i" "unfinished (c_stage c)" for i l c
    using begun(1) [OF that(1)] that fit_begin [of "life s" t now parent] s by (intro new_call_core) (simp_all add: core_def)
  with s show ?thesis by (auto simp: mutate_def dest!: not_begun split: option.split sum.split prod.split)
qed

lemma stream_go_core: "core s \<Longrightarrow> k < length (calls s) \<Longrightarrow> unfinished (c_stage (calls s ! k)) \<Longrightarrow> core (stream_go now k input r s)"
  by (auto simp: stream_go_def Let_def split: option.split sum.split intro!: throw_core to_stage_core in_call_core)

lemma session_stream_core:
  assumes "core s" and "case inherited of None \<Rightarrow> True | Some d \<Rightarrow> d < length (store (life s))"
  shows "core (snd (session_stream now inherited parent input r s))"
proof (cases "case inherited of Some d \<Rightarrow> track d False (life s)
      | None \<Rightarrow> begin_js (nullish_or (get r ''timeoutMs'') (JNum (session_timeout s))) now parent (life s)")
  case (Pair i l)
  show ?thesis
  proof (cases i)
    case (Inl e)
    with Pair have "l = life s" by (auto split: option.splits dest: not_begun)
    with Pair Inl assms(1) show ?thesis by (auto simp: session_stream_def split: option.split)
  next
    case (Inr i)
    have fit: "life_fit (life s)" using assms(1) by (simp add: core_def)
    from Pair Inr assms(2) have "i = length (registered (life s)) \<and> length (registered l) = Suc i \<and> operations l = operations (life s) @ [i] \<and> life_fit l"
      by (auto split: option.splits dest!: begun_js dest: begun)
        (metis fit fit_begin snd_conv, metis fit fit_track snd_conv)
    then have "core (s\<lparr>life := l, calls := calls s @ [\<lparr>c_stage = StreamQueued input r, c_operation = i, c_permit = False, c_info = info s\<rparr>]\<rparr>)"
      by (intro new_call_core [OF assms(1)]) simp_all
    with Pair Inr show ?thesis
      by (auto simp: session_stream_def Let_def assms(1) split: option.split intro!: stream_go_core)
  qed
qed

text \<open>The continuations of a call, for a call that is at an unfinished stage.\<close>

lemmas core_intros = throw_core to_stage_core in_call_core end_call_core removeContext_core add_core

lemma start_unfinished: "start_mutation env m s = Inr st \<Longrightarrow> unfinished st"
  by (auto simp: start_mutation_def sent_as_def Let_def split: mutation.splits sum.splits if_splits option.splits)

lemma got_serial_core: "core s \<Longrightarrow> at_stage s k (MutateQueued m) \<Longrightarrow> core (got_serial env now k m rejected s)"
  by (auto simp: got_serial_def at_stage_def Let_def dest: start_unfinished split: option.split sum.split intro!: core_intros)

lemma checked_reply_fields:
  assumes "checked_reply m n reply s = Inr (r, s1)"
  obtains v where "cookie_reply reply = Inr v" "cookie_result m n v = Some r" "applyRevision (get v ''revision'') (context_id s) s = Inr s1"
  using assms by (auto simp: checked_reply_def split: sum.splits option.splits)

lemma checked_reply_core:
  assumes "core s" and "checked_reply m n reply s = Inr (r, s1)"
  shows "core s1" "calls s1 = calls s" "session_closing s1 = session_closing s" "settings s1 = settings s"
  using checked_reply_fields [OF assms(2)] applyRevision_core [OF assms(1)] applyRevision_fields by metis+

lemma got_cookies_core: "core s \<Longrightarrow> at_stage s k (CookiesSent m n) \<Longrightarrow> core (got_cookies k m n reply s)"
  by (auto simp: got_cookies_def at_stage_def checked_reply_core split: sum.split prod.split intro!: core_intros)

lemma rebind_exported_core: "core s \<Longrightarrow> at_stage s k (RebindExporting spec) \<Longrightarrow> core (rebind_exported k spec reply s)"
  by (auto simp: rebind_exported_def at_stage_def checked_reply_core split: sum.split prod.split call_result.split option.split intro!: core_intros)

lemma rebind_described_core: "core s \<Longrightarrow> at_stage s k (RebindDescribing spec snap) \<Longrightarrow> core (rebind_described env k spec snap reply s)"
  by (auto simp: rebind_described_def at_stage_def split: sum.split intro!: core_intros)

lemma rebind_failed_core: "core s \<Longrightarrow> k < length (calls s) \<Longrightarrow> unfinished (c_stage (calls s ! k)) \<Longrightarrow> core (rebind_failed k n e s)"
  by (auto simp: rebind_failed_def intro!: core_intros)

lemma rebind_opened_core:
  assumes "core s" and "at_stage s k (RebindOpening spec snap caps)"
  shows "core (rebind_opened k spec snap caps reply (heard (CreateReply caps (staged spec s) reply) s))"
proof (cases "\<exists>v n. reply = Inr v \<and> opened_context caps (staged spec s) v = Inr n")
  case True
  then obtain v n where v: "reply = Inr v" "opened_context caps (staged spec s) v = Inr n" by blast
  have "core ((heard (CreateReply caps (staged spec s) reply) s)\<lparr>cleanup := set_add (get n ''contextId'') (cleanup s)\<rparr>)"
    using assms(1) v by (intro accepted_core) simp_all
  with v assms(2) show ?thesis
    by (auto simp: rebind_opened_def at_stage_def Let_def split: sum.split intro!: to_stage_core rebind_failed_core)
next
  case False
  then have "core (heard (CreateReply caps (staged spec s) reply) s)"
    by (intro heard_core [OF assms(1)]) (cases reply; auto split: sum.split)
  with False assms(2) show ?thesis
    by (auto simp: rebind_opened_def at_stage_def split: sum.split intro!: throw_core)
qed

lemma rebind_commit_core: "core s \<Longrightarrow> core (rebind_commit spec n s)"
  by (rule same_core [OF add_core, of s _ "context_id s"]) (simp_all add: rebind_commit_def)

lemma rebind_imported_core: "core s \<Longrightarrow> at_stage s k (RebindImporting spec n) \<Longrightarrow> core (rebind_imported k spec n reply s)"
  by (auto simp: rebind_imported_def at_stage_def split: option.split intro!: core_intros rebind_failed_core rebind_commit_core)
    (simp_all add: rebind_commit_def)

lemma rebind_removed_core:
  "core s \<Longrightarrow> at_stage s k (RebindRemoving x) \<Longrightarrow> core (rebind_removed k x reply (heard (DeleteReply x reply) s))"
  using removeContext_core [of s x reply] removeContext_fields(5) [of x reply "heard (DeleteReply x reply) s"]
  by (cases "removeContext x reply (heard (DeleteReply x reply) s)")
    (auto simp: rebind_removed_def at_stage_def split: option.split intro!: core_intros)

lemma checked_metadata_core:
  assumes "checked_metadata current md s = Inr s1"
  shows "core s \<Longrightarrow> core s1" "calls s1 = calls s" "session_closing s1 = session_closing s"
  using assms applyRevision_core [of s] applyRevision_fields(3,7) by (auto simp: checked_metadata_def Let_def split: if_splits)

lemma got_stream_core: "core s \<Longrightarrow> at_stage s k (StreamSent q) \<Longrightarrow> core (got_stream k references reply s)"
  by (auto simp: got_stream_def at_stage_def checked_metadata_core split: sum.split intro!: core_intros)

lemma stream_completed_core: "core s \<Longrightarrow> at_stage s k (StreamOpen md) \<Longrightarrow> core (stream_completed k md failed s)"
  by (auto simp: stream_completed_def at_stage_def split: option.split intro!: end_call_core same_core [of s])

text \<open>While removal is under way no call is in progress.\<close>

lemma busy:
  assumes "session_ok s" and "at_stage s k st" and "unfinished st"
  shows "session_closing s = None \<or> (\<exists>d. session_closing s = Some (CloseWaiting d))"
proof -
  have "operations (life s) \<noteq> []"
    using assms nth_mem [of k "calls s"] by (fastforce simp: session_ok_def core_def calls_ok_def at_stage_def)
  then have "\<not> is_stopped (life s)"
    using assms(1) fit_stopped by (auto simp: session_ok_def core_def is_stopped_def split: option.splits closing_stage.splits)
  then show ?thesis
    using assms(1) by (auto simp: session_ok_def close_ok_def split: option.splits closing_session.splits)
qed

lemma call_step_ok:
  assumes "session_ok s" and "at_stage s k st" and "unfinished st" and "core s'" and "session_closing s' = session_closing s"
  shows "session_ok s'"
  using busy [OF assms(1-3)] assms(4,5) by (auto simp: session_ok_def close_ok_def)

lemma call_closing:
  "session_closing (got_serial env now k m rejected s) = session_closing s"
  "session_closing (got_cookies k m n reply s) = session_closing s"
  "session_closing (rebind_exported k spec reply s) = session_closing s"
  "session_closing (rebind_described env k spec snap reply s) = session_closing s"
  "session_closing (rebind_opened k spec snap caps reply s) = session_closing s"
  "session_closing (rebind_imported k spec x reply s) = session_closing s"
  "session_closing (rebind_undone k x e reply s) = session_closing s"
  "session_closing (rebind_removed k x reply s) = session_closing s"
  "session_closing (stream_go now k input r s) = session_closing s"
  "session_closing (got_stream k references reply s) = session_closing s"
  "session_closing (stream_completed k md failed s) = session_closing s"
  by (auto simp: got_serial_def got_cookies_def checked_reply_def rebind_exported_def rebind_described_def rebind_opened_def rebind_failed_def
      rebind_imported_def rebind_commit_def rebind_undone_def rebind_removed_def stream_go_def got_stream_def stream_completed_def
      checked_metadata_core(3) Let_def dest: applyRevision_fields(3) split: sum.split option.split prod.split call_result.split)
    (metis snd_conv removeContext_fields(6))+

lemma mutate_closing:
  assumes "session_ok s" shows "session_ok (snd (mutate t now parent m s))"
proof (cases "closing (life s)")
  case None
  then have "\<not> is_stopped (life s)" by (simp add: is_stopped_def)
  moreover have "session_closing (snd (mutate t now parent m s)) = session_closing s"
    by (auto simp: mutate_def split: option.split prod.split sum.split)
  ultimately show ?thesis
    using assms mutate_core [of s t now parent m] by (auto simp: session_ok_def close_ok_def split: option.splits closing_session.splits)
next
  case (Some st)
  then have "snd (mutate t now parent m s) = s"
    using assms fit_closed [of "life s"] by (auto simp: session_ok_def core_def mutate_def assertUsable_def assertOpen_def)
  with assms show ?thesis by simp
qed

lemma session_stream_ok:
  assumes "session_ok s" and "case inherited of None \<Rightarrow> True | Some d \<Rightarrow> d < length (store (life s))"
  shows "session_ok (snd (session_stream now inherited parent input r s))"
proof (cases "closing (life s)")
  case None
  then have "\<not> is_stopped (life s)" by (simp add: is_stopped_def)
  moreover have "session_closing (snd (session_stream now inherited parent input r s)) = session_closing s"
    by (auto simp: session_stream_def call_closing Let_def split: option.split prod.split sum.split)
  ultimately show ?thesis
    using assms session_stream_core [of s inherited now parent input r] by (auto simp: session_ok_def close_ok_def split: option.splits closing_session.splits)
next
  case (Some st)
  then have "snd (session_stream now inherited parent input r s) = s"
    using assms fit_closed [of "life s"] by (auto simp: session_ok_def core_def session_stream_def assertUsable_def assertOpen_def)
  with assms(1) show ?thesis by simp
qed

text \<open>Steps of the lifetime alone.\<close>

lemma life_step_session_ok:
  assumes "session_ok s" and "life_fit l" and "operations l = operations (life s)" and "length (registered l) = length (registered (life s))"
    and "is_stopped (life s) \<Longrightarrow> is_stopped l"
  shows "session_ok (s\<lparr>life := l\<rparr>)"
  using assms by (auto simp: session_ok_def core_def calls_ok_def close_ok_def split: option.splits closing_session.splits)

lemma is_stopped_kept:
  "is_stopped l \<Longrightarrow> is_stopped (drain_ends b l)" "is_stopped l \<Longrightarrow> is_stopped (stop_ends l)"
  "is_stopped l \<Longrightarrow> is_stopped (stopAccepting l)" "is_stopped l \<Longrightarrow> is_stopped (deadline_fires d f l)" "is_stopped l \<Longrightarrow> is_stopped (foreign_deadline e l)"
  "is_stopped l \<Longrightarrow> is_stopped (snd (lifetime_close t v l))"
  by (auto simp: is_stopped_def stays_stopped split: option.splits closing_stage.splits)

text \<open>Closing.\<close>

lemma closing_update_core: "core (s\<lparr>session_closing := c\<rparr>) \<longleftrightarrow> core s"
  by (simp add: core_def calls_ok_def)

lemma close_ends_ok: assumes "session_ok s" shows "session_ok (close_ends s)"
proof (cases "\<exists>rs. session_closing s = Some (CloseRemoving rs) \<and> list_all (\<lambda>(x, r). r = Some None) rs")
  case True
  then obtain rs where rs: "session_closing s = Some (CloseRemoving rs)" "list_all (\<lambda>(x, r). r = Some None) rs" by blast
  with assms have "is_stopped (life s)" "\<forall>x \<in> set (cleanup s). False"
    by (fastforce simp: session_ok_def close_ok_def list_all_iff)+
  then have "is_stopped (life s)" "cleanup s = []" by (simp_all only: ball_simps empty_set set_empty) auto
  with rs assms show ?thesis
    by (auto simp: close_ends_def session_ok_def close_ok_def closing_update_core)
next
  case False
  with assms show ?thesis
    by (auto simp: close_ends_def session_ok_def close_ok_def closing_update_core split: option.splits closing_session.splits)
qed

lemma session_close_ok: assumes "session_ok s" shows "session_ok (snd (session_close t now shared opts s))"
proof -
  have "session_ok (s\<lparr>life := snd (lifetime_close a b (life s))\<rparr>)" for a b
    using assms by (intro life_step_session_ok is_stopped_kept) (simp_all add: fit_close session_ok_def core_def)
  then have "session_ok (s\<lparr>life := snd (lifetime_close a b (life s))\<rparr>)"
      "session_ok (s\<lparr>life := snd (lifetime_close a b (life s)), session_closing := Some (CloseWaiting d)\<rparr>)" for a b d
    by (simp_all add: session_ok_def close_ok_def core_def calls_ok_def)
  then show ?thesis
    using assms by (auto simp: session_close_def Let_def split: sum.split prod.split option.split) (metis snd_conv)+
qed

lemma close_deadline_ok: "session_ok s \<Longrightarrow> session_ok (close_deadline f s)"
  by (auto simp: close_deadline_def session_ok_def close_ok_def closing_update_core split: option.splits closing_session.splits)

lemma close_stopped_ok: assumes "session_ok s" shows "session_ok (close_stopped s)"
proof (cases "is_stopped (life s)")
  case True
  then have "session_ok (s\<lparr>session_closing := Some (CloseRemoving (map (\<lambda>x. (x, None)) (cleanup s)))\<rparr>)"
    using assms by (auto simp: session_ok_def close_ok_def comp_def core_def calls_ok_def)
  from close_ends_ok [OF this] assms show ?thesis
    by (auto simp: close_stopped_def session_ok_def close_ok_def closing_update_core split: option.splits closing_session.splits closing_stage.splits)
next
  case False
  then have "close_stopped s = s"
    by (auto simp: close_stopped_def is_stopped_def split: option.splits closing_session.splits closing_stage.splits)
  with assms show ?thesis by simp
qed

lemma close_removed_ok:
  assumes "session_ok s" and "removing s x"
  shows "session_ok (close_removed x reply (heard (DeleteReply x reply) s))"
proof -
  let ?h = "heard (DeleteReply x reply) s"
  obtain rs where rs: "session_closing s = Some (CloseRemoving rs)" "(x, None) \<in> set rs"
    using assms(2) by (auto simp: removing_def split: option.splits closing_session.splits)
  obtain e s1 where r: "removeContext x reply ?h = (e, s1)" by (cases "removeContext x reply ?h") simp
  let ?rs = "map (\<lambda>(y, r). if y = x then (y, Some e) else (y, r)) rs"
  have s1: "core s1" "life s1 = life s" using assms(1) removeContext_core [of s x reply] removeContext_fields(2) [of x reply ?h] r
    by (simp_all add: session_ok_def)
  have kept: "is_stopped (life s)" "distinct (map fst rs)" "\<forall>y \<in> set (cleanup s). \<exists>r. (y, r) \<in> set rs \<and> r \<noteq> Some None"
    using assms(1) rs(1) by (simp_all add: session_ok_def close_ok_def)
  have "set (cleanup s1) \<subseteq> insert x (set (cleanup s)) \<and> (e = None \<longrightarrow> x \<notin> set (cleanup s1))"
    using r by (auto simp: removeContext_def context_gone_def Let_def split: sum.splits if_splits)
  then have "\<exists>r. (y, r) \<in> set ?rs \<and> r \<noteq> Some None" if "y \<in> set (cleanup s1)" for y
  proof (cases "y = x")
    case True
    with that \<open>_ \<and> _\<close> have "e \<noteq> None" by blast
    moreover have "(x, Some e) \<in> set ?rs" using rs(2) by force
    ultimately show ?thesis using True by blast
  next
    case False
    with that \<open>_ \<and> _\<close> have "y \<in> set (cleanup s)" by blast
    with kept(3) obtain r where "(y, r) \<in> set rs" "r \<noteq> Some None" by blast
    with False show ?thesis by force
  qed
  moreover have "map fst ?rs = map fst rs" by auto
  then have "distinct (map fst ?rs)" using kept(2) by (rule ssubst)
  ultimately have "session_ok (s1\<lparr>session_closing := Some (CloseRemoving ?rs)\<rparr>)"
    using s1 kept(1) unfolding session_ok_def closing_update_core close_ok_def by (simp del: map_map set_map)
  from close_ends_ok [OF this] rs r show ?thesis by (simp add: close_removed_def)
qed

lemma life_only_ok:
  assumes "session_ok s"
  shows "session_ok (s\<lparr>life := stopAccepting (life s)\<rparr>)" "session_ok (s\<lparr>life := drain_ends b (life s)\<rparr>)" "session_ok (s\<lparr>life := stop_ends (life s)\<rparr>)"
    "(\<And>x. aborted (f x)) \<Longrightarrow> session_ok (s\<lparr>life := deadline_fires d f (life s)\<rparr>)" "session_ok (s\<lparr>life := foreign_deadline e (life s)\<rparr>)"
proof -
  have fit: "life_fit (life s)" using assms by (simp add: session_ok_def core_def)
  note keep = life_step_session_ok [OF assms]
  show "session_ok (s\<lparr>life := stopAccepting (life s)\<rparr>)" by (rule keep [OF fit_others(1) [OF fit]]) (simp_all add: is_stopped_kept)
  show "session_ok (s\<lparr>life := drain_ends b (life s)\<rparr>)" by (rule keep [OF fit_drain [OF fit]]) (simp_all add: is_stopped_kept)
  show "session_ok (s\<lparr>life := stop_ends (life s)\<rparr>)" by (rule keep [OF fit_stop [OF fit]]) (simp_all add: is_stopped_kept)
  show "session_ok (s\<lparr>life := deadline_fires d f (life s)\<rparr>)" if "\<And>x. aborted (f x)"
    by (rule keep [OF fit_others(2) [OF fit that]]) (simp_all add: is_stopped_kept)
  show "session_ok (s\<lparr>life := foreign_deadline e (life s)\<rparr>)" by (rule keep [OF fit_others(3) [OF fit]]) (simp_all add: is_stopped_kept)
qed

lemma rebind_undone_core:
  "core s \<Longrightarrow> at_stage s k (RebindUndoing n e) \<Longrightarrow> core (rebind_undone k n e reply (heard (DeleteReply (get n ''contextId'') reply) s))"
  unfolding rebind_undone_def by (intro throw_core removeContext_core) (auto simp: at_stage_def)

lemma stream_serial_core: "core s \<Longrightarrow> at_stage s k (StreamQueued input r) \<Longrightarrow> core (stream_serial now k input r rejected s)"
  by (auto simp: stream_serial_def at_stage_def split: option.split intro!: core_intros stream_go_core)

lemma stream_serial_closing: "session_closing (stream_serial now k input r rejected s) = session_closing s"
  by (simp add: stream_serial_def call_closing split: option.split)

lemma session_step_ok: "session_step env s s' \<Longrightarrow> session_ok s \<Longrightarrow> session_ok s'"
proof (induction rule: session_step.induct)
  case (serial s k m rejected now)
  show ?case by (rule call_step_ok [OF serial(3,1)]) (use serial in \<open>simp_all add: session_ok_def call_closing got_serial_core\<close>)
next
  case (cookies s k m expected reply)
  show ?case by (rule call_step_ok [OF cookies(2,1)]) (use cookies in \<open>simp_all add: session_ok_def call_closing got_cookies_core\<close>)
next
  case (exported s k spec reply)
  show ?case by (rule call_step_ok [OF exported(2,1)]) (use exported in \<open>simp_all add: session_ok_def call_closing rebind_exported_core\<close>)
next
  case (described s k spec snap reply)
  show ?case by (rule call_step_ok [OF described(2,1)]) (use described in \<open>simp_all add: session_ok_def call_closing rebind_described_core\<close>)
next
  case (opened s k spec snap caps reply)
  show ?case by (rule call_step_ok [OF opened(2,1)]) (use opened in \<open>simp_all add: session_ok_def call_closing rebind_opened_core\<close>)
next
  case (imported s k spec n reply)
  show ?case by (rule call_step_ok [OF imported(2,1)]) (use imported in \<open>simp_all add: session_ok_def call_closing rebind_imported_core\<close>)
next
  case (undone s k n e reply)
  show ?case by (rule call_step_ok [OF undone(2,1)]) (use undone in \<open>simp_all add: session_ok_def call_closing rebind_undone_core\<close>)
next
  case (removed s k previous reply)
  show ?case by (rule call_step_ok [OF removed(2,1)]) (use removed in \<open>simp_all add: session_ok_def call_closing rebind_removed_core\<close>)
next
  case (stream_turn s k input r rejected now)
  show ?case by (rule call_step_ok [OF stream_turn(3,1)]) (use stream_turn in \<open>simp_all add: session_ok_def call_closing stream_serial_closing stream_serial_core\<close>)
next
  case (stream_answer s k q references reply)
  show ?case by (rule call_step_ok [OF stream_answer(2,1)]) (use stream_answer in \<open>simp_all add: session_ok_def call_closing got_stream_core\<close>)
next
  case (stream_refused s k e)
  show ?case by (rule call_step_ok [OF stream_refused(2,1)]) (use stream_refused in \<open>simp_all add: session_ok_def call_closing throw_core at_stage_def\<close>)
next
  case (stream_ends s k md failed)
  show ?case by (rule call_step_ok [OF stream_ends(2,1)]) (use stream_ends in \<open>simp_all add: session_ok_def call_closing stream_completed_core\<close>)
next
  case (streams inherited s now parent input r)
  then show ?case by (intro session_stream_ok)
qed (simp_all add: mutate_closing session_close_ok close_deadline_ok close_stopped_ok close_removed_ok life_only_ok)

lemma new_session_ok:
  "opened_context caps' opts v = Inr x \<Longrightarrow> session_ok (heard (CreateReply caps' opts (Inr v)) (new_session opts caps ls x))"
  by (simp add: set_add_def session_ok_def core_def calls_ok_def close_ok_def new_session_def fit_new)

lemma session_reachable_ok: "session_reachable env s \<Longrightarrow> session_ok s"
  by (induction rule: session_reachable.induct) (auto intro: new_session_ok session_step_ok)

subsection \<open>One at a time\<close>

text \<open>
  Who holds the serial permit, and what that buys: a call that sent a cookie operation finds the
  revision it sent it with.
\<close>

fun holds_permit :: "bool \<Rightarrow> call_stage \<Rightarrow> bool" where
  "holds_permit b (MutateQueued _) = False"
| "holds_permit b (StreamQueued _ _) = False"
| "holds_permit b (StreamSent _) = b"
| "holds_permit b (StreamRefused _) = b"
| "holds_permit b (StreamOpen _) = False"
| "holds_permit b (Returned _) = False"
| "holds_permit b (Threw _) = False"
| "holds_permit b _ = True"

definition call_fits :: "session \<Rightarrow> call \<Rightarrow> bool" where
  "call_fits s c \<longleftrightarrow> c_permit c = holds_permit (managed s) (c_stage c) \<and> (c_permit c \<longrightarrow> managed s) \<and>
     (\<forall>m. c_stage c = MutateQueued m \<longrightarrow> managed s) \<and> (\<forall>i r. c_stage c = StreamQueued i r \<longrightarrow> managed s) \<and>
     (\<forall>m r. c_stage c = CookiesSent m r \<longrightarrow> r = revision_of s)"

definition serial_ok :: "session \<Rightarrow> bool" where
  "serial_ok s \<longleftrightarrow> (\<exists>ps. info s = JObj ps) \<and> (\<forall>c \<in> set (calls s). call_fits s c) \<and> length (filter c_permit (calls s)) \<le> 1"

lemma others_without:
  assumes "length (filter c_permit cs) \<le> 1" and "k < length cs" and "c_permit (cs ! k)" and "j < length cs" and "j \<noteq> k"
  shows "\<not> c_permit (cs ! j)"
proof
  assume j: "c_permit (cs ! j)"
  have "card {i. i < length cs \<and> c_permit (cs ! i)} \<le> 1" using assms(1) by (simp add: length_filter_conv_card)
  moreover have "{k, j} \<subseteq> {i. i < length cs \<and> c_permit (cs ! i)}" using assms j by auto
  then have "card {k, j} \<le> card {i. i < length cs \<and> c_permit (cs ! i)}" by (intro card_mono) simp_all
  ultimately show False using assms(5) by simp
qed

lemma filter_update:
  assumes "k < length cs"
  shows "length (filter P (cs[k := c])) + (if P (cs ! k) then 1 else 0) = length (filter P cs) + (if P c then 1 else 0)"
proof -
  have cs: "cs = take k cs @ cs ! k # drop (Suc k) cs" using assms by (rule id_take_nth_drop)
  have "length (filter P cs) = length (filter P (take k cs)) + (if P (cs ! k) then 1 else 0) + length (filter P (drop (Suc k) cs))"
    by (subst cs) simp
  then show ?thesis using assms by (simp add: upd_conv_take_nth_drop)
qed

text \<open>What one call may do: the rules of the serial queue for a change at position \<open>k\<close>.\<close>

lemma serial_update:
  assumes s: "serial_ok s" and k: "k < length (calls s)" and calls: "calls s' = (calls s)[k := c]" and "managed s' = managed s"
    and c: "call_fits s' c" and turn: "c_permit c \<Longrightarrow> c_permit (calls s ! k) \<or> no_permit s"
    and info: "\<exists>ps. info s' = JObj ps" "info s' = info s \<or> c_permit (calls s ! k) \<or> \<not> managed s"
  shows "serial_ok s'"
proof -
  have "call_fits s' (calls s ! j)" if j: "j < length (calls s)" "j \<noteq> k" for j
  proof -
    have old: "call_fits s (calls s ! j)" using s j by (simp add: serial_ok_def)
    have "c_stage (calls s ! j) \<noteq> CookiesSent m r" if "info s' \<noteq> info s" for m r
      using that info(2) others_without [of "calls s" k j] s k j old by (auto simp: serial_ok_def call_fits_def)
    with old show ?thesis using \<open>managed s' = managed s\<close> by (cases "info s' = info s") (auto simp: call_fits_def)
  qed
  then have "\<forall>x \<in> set (calls s'). call_fits s' x" using c k unfolding calls by (auto simp: in_set_conv_nth nth_list_update)
  moreover have "length (filter c_permit (calls s')) \<le> 1"
  proof (cases "c_permit c \<and> \<not> c_permit (calls s ! k)")
    case True
    then have "filter c_permit (calls s) = []" using turn by (auto simp: no_permit_def list_all_iff filter_empty_conv)
    with True filter_update [OF k, of c_permit c] show ?thesis unfolding calls by simp
  next
    case False
    with filter_update [OF k, of c_permit c] s show ?thesis unfolding calls serial_ok_def by (auto split: if_splits)
  qed
  ultimately show ?thesis using info(1) by (simp add: serial_ok_def)
qed

lemma same_serial: "serial_ok s \<Longrightarrow> calls s' = calls s \<Longrightarrow> managed s' = managed s \<Longrightarrow> info s' = info s \<Longrightarrow> serial_ok s'"
  by (auto simp: serial_ok_def call_fits_def)

lemma heard_serial [simp]: "serial_ok (heard e s) = serial_ok s" "call_fits (heard e s) c = call_fits s c"
  by (simp_all add: serial_ok_def call_fits_def)

lemma serial_append:
  "serial_ok s \<Longrightarrow> calls s' = calls s @ [c] \<Longrightarrow> managed s' = managed s \<Longrightarrow> info s' = info s \<Longrightarrow> \<not> c_permit c \<Longrightarrow> call_fits s' c \<Longrightarrow> serial_ok s'"
  by (auto simp: serial_ok_def call_fits_def)

text \<open>The one way the information of a context is brought up to date.\<close>

definition revised :: "session \<Rightarrow> session \<Rightarrow> bool" where
  "revised s s1 \<longleftrightarrow> managed s1 = managed s \<and> session_connection s1 = session_connection s \<and> (\<exists>ps. info s1 = JObj ps) \<and>
     (info s1 = info s \<or> (\<exists>v. nonnegativeInteger v \<and> revision_of s \<le> int_of v \<and>
        info s1 = JObj (set_prop (spread_object (info s)) (js ''revision'') v)))"

lemma revised_refl: "\<exists>ps. info s = JObj ps \<Longrightarrow> revised s s"
  by (simp add: revised_def)

lemma applyRevision_revised: "applyRevision v x s = Inr s1 \<Longrightarrow> \<exists>ps. info s = JObj ps \<Longrightarrow> revised s s1"
  by (auto simp: applyRevision_def revised_def split: if_splits)

lemma fits_at: "serial_ok s \<Longrightarrow> at_stage s k st \<Longrightarrow> k < length (calls s) \<and> call_fits s (calls s ! k) \<and> c_stage (calls s ! k) = st"
  by (simp add: serial_ok_def at_stage_def)

lemma serial_throw: assumes "serial_ok s" and "k < length (calls s)" shows "serial_ok (throw_call k e s)"
  by (rule serial_update [OF assms, of _ "(calls s ! k)\<lparr>c_stage := Threw e, c_permit := False\<rparr>"])
    (use assms in \<open>auto simp: call_fits_def serial_ok_def\<close>)

lemma serial_end:
  assumes "serial_ok s" and "k < length (calls s)" and "calls s1 = calls s" "managed s1 = managed s"
    and "\<exists>ps. info s1 = JObj ps" and "info s1 = info s \<or> c_permit (calls s ! k) \<or> \<not> managed s"
  shows "serial_ok (end_call k (Returned r) s1)"
  by (rule serial_update [OF assms(1,2), of _ "(calls s ! k)\<lparr>c_stage := Returned r, c_permit := False\<rparr>"])
    (use assms in \<open>auto simp: call_fits_def\<close>)

lemma serial_stage:
  assumes "serial_ok s" and "k < length (calls s)" and "calls s1 = calls s" "managed s1 = managed s" and "c_permit (calls s ! k)"
    and "\<exists>ps. info s1 = JObj ps" and "holds_permit True st" and "\<And>m r. st \<noteq> CookiesSent m r"
  shows "serial_ok (to_stage k st s1)"
proof (rule serial_update [OF assms(1,2), of _ "(calls s ! k)\<lparr>c_stage := st\<rparr>"])
  have "call_fits s (calls s ! k)" using assms(1,2) by (simp add: serial_ok_def)
  with assms(5) have "managed s" by (simp add: call_fits_def)
  then show "call_fits (to_stage k st s1) ((calls s ! k)\<lparr>c_stage := st\<rparr>)" using assms by (auto simp: call_fits_def)
qed (use assms in auto)

lemma start_fits:
  assumes "start_mutation env m s = Inr st" shows "holds_permit b st" "st = CookiesSent m' r \<Longrightarrow> r = revision_of s"
    "st \<noteq> MutateQueued m'" "st \<noteq> StreamQueued i q"
  using assms by (auto simp: start_mutation_def sent_as_def Let_def split: mutation.splits sum.splits if_splits option.splits)

lemma got_serial_serial:
  assumes "serial_ok s" and "at_stage s k (MutateQueued m)" and "rejected = None \<longrightarrow> no_permit s"
  shows "serial_ok (got_serial env now k m rejected s)"
proof -
  have k: "k < length (calls s)" and b: "managed s" using fits_at [OF assms(1,2)] by (auto simp: call_fits_def)
  define s1 where "s1 = in_call k (c_permit_update (\<lambda>_. True)) s"
  define s2 where "s2 = in_call k (c_info_update (\<lambda>_. info s)) s1"
  have thrown: "serial_ok (throw_call k e s')"
    if "calls s' = (calls s)[k := c]" "managed s' = managed s" "info s' = info s" for s' c e
    by (rule serial_update [OF assms(1) k, of _ "c\<lparr>c_stage := Threw e, c_permit := False\<rparr>"])
      (use that assms(1) k in \<open>auto simp: call_fits_def serial_ok_def\<close>)
  have "serial_ok (to_stage k st s2)" if "start_mutation env m s2 = Inr st" "rejected = None" for st
    by (rule serial_update [OF assms(1) k, of _ "(calls s ! k)\<lparr>c_permit := True, c_info := info s, c_stage := st\<rparr>"])
      (use assms that b k start_fits [OF that(1)] in \<open>auto simp: s1_def s2_def call_fits_def serial_ok_def\<close>)
  moreover have "serial_ok (throw_call k e s1)" "serial_ok (throw_call k e s2)" for e
    by (rule thrown; simp add: s1_def s2_def)+
  ultimately show ?thesis
    using serial_throw [OF assms(1) k] unfolding got_serial_def Let_def s1_def [symmetric] s2_def [symmetric] by (auto split: option.split sum.split)
qed

lemma checked_reply_info:
  assumes "checked_reply m n reply s = Inr (r, s1)" and "\<exists>ps. info s = JObj ps"
  shows "calls s1 = calls s" "revised s s1"
proof -
  from checked_reply_fields [OF assms(1)] obtain v where v: "applyRevision (get v ''revision'') (context_id s) s = Inr s1" .
  from applyRevision_fields(7) [OF v] applyRevision_revised [OF v assms(2)] show "calls s1 = calls s" "revised s s1" by simp_all
qed

lemma got_cookies_serial: assumes "serial_ok s" and "at_stage s k (CookiesSent m n)" shows "serial_ok (got_cookies k m n reply s)"
proof -
  have k: "k < length (calls s)" "c_permit (calls s ! k)" "\<exists>ps. info s = JObj ps"
    using assms fits_at [OF assms] by (auto simp: call_fits_def serial_ok_def)
  have "serial_ok (end_call k (Returned r) s1)" if "checked_reply m n reply s = Inr (r, s1)" for r s1
    by (rule serial_end [OF assms(1) k(1)]) (use checked_reply_info [OF that k(3)] k in \<open>simp_all add: revised_def\<close>)
  with serial_throw [OF assms(1) k(1)] show ?thesis by (auto simp: got_cookies_def split: sum.split)
qed

lemma rebind_exported_serial: assumes "serial_ok s" and "at_stage s k (RebindExporting spec)" shows "serial_ok (rebind_exported k spec reply s)"
proof -
  have k: "k < length (calls s)" "c_permit (calls s ! k)" "\<exists>ps. info s = JObj ps"
    using assms fits_at [OF assms] by (auto simp: call_fits_def serial_ok_def)
  have next_stage: "serial_ok (to_stage k (RebindDescribing spec snap) s1)" if "checked_reply m n reply s = Inr (r, s1)" for m n r s1 snap
    by (rule serial_stage [OF assms(1) k(1)]) (use checked_reply_info [OF that k(3)] k in \<open>simp_all add: revised_def\<close>)
  have "serial_ok (throw_call k e s1)" if "checked_reply m n reply s = Inr (r, s1)" for m n r s1 e
    by (rule serial_update [OF assms(1) k(1), of _ "(calls s ! k)\<lparr>c_stage := Threw e, c_permit := False\<rparr>"])
      (use checked_reply_info [OF that k(3)] k in \<open>auto simp: call_fits_def revised_def\<close>)
  with next_stage serial_throw [OF assms(1) k(1)] assms(1) show ?thesis
    by (auto simp: rebind_exported_def split: sum.split call_result.split option.split)
qed

lemma rebind_serial:
  assumes s: "serial_ok s" and k: "k < length (calls s)" "c_permit (calls s ! k)"
  shows "serial_ok (rebind_described env k spec snap reply s)" "serial_ok (rebind_failed k n e s)"
    "serial_ok (rebind_opened k spec snap caps reply s)" "serial_ok (rebind_imported k spec n reply s)"
    "serial_ok (rebind_undone k n e reply s)" "serial_ok (rebind_removed k x reply s)"
proof -
  have obj: "\<exists>ps. info s = JObj ps" using s by (simp add: serial_ok_def)
  have failed: "serial_ok (rebind_failed k n e s')" if "calls s' = calls s" "managed s' = managed s" "info s' = info s" for s' n e
    unfolding rebind_failed_def by (rule serial_stage [OF s k(1) _ _ k(2)]) (use that obj in simp_all)
  show "serial_ok (rebind_failed k n e s)" by (rule failed) simp_all
  have stage: "serial_ok (to_stage k (RebindOpening spec snap caps) s)" for caps
    by (rule serial_stage [OF s k(1) _ _ k(2)]) (use obj in simp_all)
  with serial_throw [OF s k(1)] show "serial_ok (rebind_described env k spec snap reply s)"
    by (auto simp: rebind_described_def split: sum.split)
  have "serial_ok (to_stage k (RebindImporting spec n) s')" if "calls s' = calls s" "managed s' = managed s" "info s' = info s" for s' n
    by (rule serial_stage [OF s k(1) _ _ k(2)]) (use that obj in simp_all)
  with failed serial_throw [OF s k(1)] show "serial_ok (rebind_opened k spec snap caps reply s)"
    by (auto simp: rebind_opened_def Let_def split: sum.split)
  have "serial_ok (to_stage k (RebindRemoving y) (rebind_commit spec n s))" for y
    by (rule serial_stage [OF s k(1) _ _ k(2)]) (simp_all add: rebind_commit_def)
  with failed show "serial_ok (rebind_imported k spec n reply s)" by (auto simp: rebind_imported_def split: option.split)
  have gone: "serial_ok (snd (removeContext x reply s))" for x by (rule same_serial [OF s]) simp_all
  from serial_throw [OF this] k(1) show "serial_ok (rebind_undone k n e reply s)" by (simp add: rebind_undone_def)
  have "serial_ok (end_call k (Returned r) (snd (removeContext x reply s)))" for r
    by (rule serial_end [OF s k(1)]) (use obj in simp_all)
  then show "serial_ok (rebind_removed k x reply s)"
    by (cases "removeContext x reply s") (auto simp: rebind_removed_def split: option.split dest: spec)
qed

text \<open>Streams; an external session has no queue, and its streams never hold the permit.\<close>

lemma stream_go_calls:
  assumes "k < length (calls s)"
  obtains c where "calls (stream_go now k input r s) = (calls s)[k := c]" "c_operation c = c_operation (calls s ! k)"
    "(\<exists>e. c_stage c = Threw e) \<and> \<not> c_permit c \<or> (\<exists>q. c_stage c = StreamSent q) \<and> c_permit c = c_permit (calls s ! k)"
proof -
  have "\<exists>c. calls (stream_go now k input r s) = (calls s)[k := c] \<and> c_operation c = c_operation (calls s ! k) \<and>
    ((\<exists>e. c_stage c = Threw e) \<and> \<not> c_permit c \<or> (\<exists>q. c_stage c = StreamSent q) \<and> c_permit c = c_permit (calls s ! k))"
    using assms by (auto simp: stream_go_def Let_def split: option.split sum.split intro!: exI)
  with that show thesis by blast
qed

lemma stream_go_same: "info (stream_go now k input r s) = info s" "managed (stream_go now k input r s) = managed s"
  by (auto simp: stream_go_def Let_def split: option.split sum.split)

lemma stream_turn_serial:
  assumes "serial_ok s" and "at_stage s k (StreamQueued input r)" and "rejected = None \<longrightarrow> no_permit s"
  shows "serial_ok (stream_serial now k input r rejected s)"
proof (cases rejected)
  case None
  have k: "k < length (calls s)" "managed s" "\<exists>ps. info s = JObj ps"
    using assms(1) fits_at [OF assms(1,2)] by (auto simp: call_fits_def serial_ok_def)
  let ?s = "in_call k (c_permit_update (\<lambda>_. True)) s"
  obtain c where c: "calls (stream_go now k input r ?s) = (calls ?s)[k := c]"
    "(\<exists>e. c_stage c = Threw e) \<and> \<not> c_permit c \<or> (\<exists>q. c_stage c = StreamSent q) \<and> c_permit c = c_permit (calls ?s ! k)"
    by (rule stream_go_calls [of k ?s now input r]) (simp_all add: k(1))
  have "serial_ok (stream_go now k input r ?s)"
    by (rule serial_update [OF assms(1) k(1), of _ c]) (use c None assms(3) k in \<open>auto simp: stream_go_same call_fits_def\<close>)
  with None show ?thesis by (simp add: stream_serial_def)
next
  case (Some e)
  with serial_throw [OF assms(1)] assms(2) show ?thesis by (simp add: stream_serial_def at_stage_def)
qed

lemma session_stream_serial: assumes "serial_ok s" shows "serial_ok (snd (session_stream now inherited parent input r s))"
proof -
  let ?c = "\<lambda>i. \<lparr>c_stage = StreamQueued input r, c_operation = i, c_permit = False, c_info = info s\<rparr>"
  have "serial_ok (if managed s then s\<lparr>life := l, calls := calls s @ [?c i]\<rparr>
      else stream_go now (length (calls s)) input r (s\<lparr>life := l, calls := calls s @ [?c i]\<rparr>))" for l i
  proof (cases "managed s")
    case True
    then show ?thesis by (simp, intro serial_append [OF assms]) (auto simp: call_fits_def)
  next
    case False
    let ?s = "s\<lparr>life := l, calls := calls s @ [?c i]\<rparr>"
    obtain c where c: "calls (stream_go now (length (calls s)) input r ?s) = (calls ?s)[length (calls s) := c]"
      "(\<exists>e. c_stage c = Threw e) \<and> \<not> c_permit c \<or> (\<exists>q. c_stage c = StreamSent q) \<and> c_permit c = c_permit (calls ?s ! length (calls s))"
      by (rule stream_go_calls [of "length (calls s)" ?s now input r]) simp_all
    have "serial_ok (stream_go now (length (calls s)) input r ?s)"
      by (rule serial_append [OF assms, of _ c]) (use c False in \<open>auto simp: stream_go_same call_fits_def\<close>)
    with False show ?thesis by simp
  qed
  then show ?thesis
    using same_serial [OF assms] assms by (auto simp: session_stream_def Let_def split: option.split prod.split sum.split)
qed

lemma checked_metadata_revised:
  assumes "checked_metadata current md s = Inr s1" and "\<exists>ps. info s = JObj ps"
  shows "revised s s1"
  using assms applyRevision_revised [OF _ assms(2)] revised_refl [OF assms(2)]
  by (auto simp: checked_metadata_def Let_def split: if_splits)

lemma got_stream_serial: assumes "serial_ok s" and "at_stage s k (StreamSent q)" shows "serial_ok (got_stream k references reply s)"
proof -
  have k: "k < length (calls s)" "c_permit (calls s ! k) = managed s" "\<exists>ps. info s = JObj ps"
    using assms fits_at [OF assms] by (auto simp: call_fits_def serial_ok_def)
  have "serial_ok (to_stage k (StreamRefused e) s)" for e
    by (rule serial_update [OF assms(1) k(1), of _ "(calls s ! k)\<lparr>c_stage := StreamRefused e\<rparr>"]) (use k in \<open>auto simp: call_fits_def\<close>)
  moreover have "serial_ok (in_call k (\<lambda>c. c\<lparr>c_stage := StreamOpen md, c_permit := False\<rparr>) s1)" if "checked_metadata x y s = Inr s1" for x y s1 md
    by (rule serial_update [OF assms(1) k(1), of _ "(calls s ! k)\<lparr>c_stage := StreamOpen md, c_permit := False\<rparr>"])
      (use checked_metadata_revised [OF that k(3)] checked_metadata_core(2) [OF that] k in \<open>auto simp: call_fits_def revised_def\<close>)
  ultimately show ?thesis
    using serial_throw [OF assms(1) k(1)] by (auto simp: got_stream_def split: sum.split)
qed

lemma close_same [simp]:
  "calls (snd (session_close t now shared opts s)) = calls s" "managed (snd (session_close t now shared opts s)) = managed s"
  "info (snd (session_close t now shared opts s)) = info s" "session_connection (snd (session_close t now shared opts s)) = session_connection s"
  "calls (close_deadline f s) = calls s" "managed (close_deadline f s) = managed s" "info (close_deadline f s) = info s"
  "session_connection (close_deadline f s) = session_connection s"
  "calls (close_ends s) = calls s" "managed (close_ends s) = managed s" "info (close_ends s) = info s"
  "session_connection (close_ends s) = session_connection s"
  by (simp_all add: session_close_def close_deadline_def close_ends_def Let_def split: option.split closing_session.split sum.split prod.split)

lemma close_steps_same [simp]:
  "calls (close_stopped s) = calls s" "managed (close_stopped s) = managed s" "info (close_stopped s) = info s"
  "session_connection (close_stopped s) = session_connection s"
  "calls (close_removed x reply s) = calls s" "managed (close_removed x reply s) = managed s" "info (close_removed x reply s) = info s"
  "session_connection (close_removed x reply s) = session_connection s"
  by (simp_all add: close_stopped_def close_removed_def case_prod_unfold Let_def split: option.split closing_session.split closing_stage.split)

lemma mutate_serial: "serial_ok s \<Longrightarrow> managed s \<Longrightarrow> serial_ok (snd (mutate t now parent m s))"
  by (auto simp: mutate_def call_fits_def split: option.split prod.split sum.split intro: serial_append same_serial)

lemma session_step_serial: "session_step env s s' \<Longrightarrow> serial_ok s \<Longrightarrow> serial_ok s'"
proof (induction rule: session_step.induct)
  case (stream_refused s k e)
  then show ?case by (intro serial_throw) (simp_all add: at_stage_def)
next
  case (stream_ends s k md failed)
  then have "k < length (calls s)" "\<exists>ps. info s = JObj ps" by (simp_all add: at_stage_def serial_ok_def)
  with stream_ends(2) show ?case unfolding stream_completed_def by (intro serial_end [of s]) (simp_all split: option.split)
next
  case (described s k spec snap reply)
  with fits_at [OF described(2,1)] show ?case by (intro rebind_serial) (simp_all add: call_fits_def)
next
  case (opened s k spec snap caps reply)
  with fits_at [OF opened(2,1)] show ?case by (intro rebind_serial) (simp_all add: call_fits_def)
next
  case (imported s k spec n reply)
  with fits_at [OF imported(2,1)] show ?case by (intro rebind_serial) (simp_all add: call_fits_def)
next
  case (undone s k n e reply)
  with fits_at [OF undone(2,1)] show ?case by (intro rebind_serial) (simp_all add: call_fits_def)
next
  case (removed s k previous reply)
  with fits_at [OF removed(2,1)] show ?case by (intro rebind_serial) (simp_all add: call_fits_def)
qed (simp_all add: mutate_serial got_serial_serial got_cookies_serial rebind_exported_serial session_stream_serial stream_turn_serial
      got_stream_serial same_serial)

lemma session_reachable_serial: "session_reachable env s \<Longrightarrow> serial_ok s"
proof (induction rule: session_reachable.induct)
  case (created opts o' caps t m ls caps' v x)
  then have "\<exists>ps. x = JObj ps" by (auto simp: opened_context_def copyContextInfo_def Let_def split: if_splits)
  then show ?case by (simp add: serial_ok_def new_session_def)
qed (rule session_step_serial)

text \<open>How a step may change the information and the connection.\<close>

lemma mutate_same: "info (snd (mutate t now parent m s)) = info s" "session_connection (snd (mutate t now parent m s)) = session_connection s"
    "managed (snd (mutate t now parent m s)) = managed s"
  by (simp_all add: mutate_def split: option.split prod.split sum.split)

lemma stream_same: "revised s (stream_go now k input r s')" if "\<exists>ps. info s = JObj ps" "info s' = info s"
    "session_connection s' = session_connection s" "managed s' = managed s"
  using that by (auto simp: revised_def stream_go_def Let_def split: option.split sum.split)

lemma revised_by:
  "revised s s1 \<Longrightarrow> info s2 = info s1 \<Longrightarrow> session_connection s2 = session_connection s1 \<Longrightarrow> managed s2 = managed s1 \<Longrightarrow> revised s s2"
  by (simp add: revised_def)

text \<open>The cutover of a rebind: the only other change.\<close>

definition cut_over :: "session \<Rightarrow> session \<Rightarrow> bool" where
  "cut_over s s' \<longleftrightarrow> (\<exists>k spec n v reply. at_stage s k (RebindImporting spec n) \<and> cookie_reply reply = Inr v \<and>
     advanced_by_one (int_of (get n ''revision'')) v \<and> \<not> aborted (call_deadline k s) \<and>
     info s' = JObj (set_prop (spread_object n) (js ''revision'') (get v ''revision'')) \<and> session_connection s' = spec \<and>
     context_id s \<in> set (cleanup s') \<and> at_stage s' k (RebindRemoving (context_id s)))"

lemma imported_cut_over:
  assumes "at_stage s k (RebindImporting spec n)" and "\<exists>ps. info s = JObj ps"
  shows "revised s (rebind_imported k spec n reply s) \<or> cut_over s (rebind_imported k spec n reply s)"
proof (cases "import_error k n reply s")
  case None
  then obtain v where "cookie_reply reply = Inr v" "advanced_by_one (int_of (get n ''revision'')) v" "\<not> aborted (call_deadline k s)"
    by (auto simp: import_error_def simp del: not_None_eq split: sum.splits if_splits)
  with assms None show ?thesis
    unfolding cut_over_def rebind_imported_def
    by (intro disjI2 exI [of _ k] exI [of _ spec] exI [of _ n] exI [of _ v] exI [of _ reply])
      (auto simp: rebind_commit_def advanced_by_one_def at_stage_def)
next
  case (Some e)
  with assms(2) show ?thesis by (simp add: rebind_imported_def rebind_failed_def revised_def)
qed

lemma session_step_info: "session_step env s s' \<Longrightarrow> \<exists>ps. info s = JObj ps \<Longrightarrow> revised s s' \<or> cut_over s s'"
proof (induction rule: session_step.induct)
  case (imported s k spec n reply)
  then show ?case by (rule imported_cut_over)
next
  case (cookies s k m expected reply)
  have "revised s (end_call k (Returned r) s1)" if "checked_reply m expected reply s = Inr (r, s1)" for r s1
    by (rule revised_by [OF checked_reply_info(2) [OF that cookies(2)]]) simp_all
  moreover have "revised s (throw_call k e s)" for e using cookies(2) by (simp add: revised_def)
  ultimately show ?case by (auto simp: got_cookies_def split: sum.split)
next
  case (exported s k spec reply)
  have "revised s (to_stage k st s1)" "revised s (throw_call k e s1)" if "checked_reply m n reply s = Inr (r, s1)" for m n r s1 st e
    by (rule revised_by [OF checked_reply_info(2) [OF that exported(2)]]; simp)+
  moreover have "revised s (throw_call k e s)" for e using exported(2) by (simp add: revised_def)
  ultimately show ?case using revised_refl [OF exported(2)]
    by (auto simp: rebind_exported_def split: sum.split call_result.split option.split)
next
  case (stream_answer s k q references reply)
  have "revised s (in_call k f s1)" if "checked_metadata x y s = Inr s1" for x y s1 f
    by (rule revised_by [OF checked_metadata_revised [OF that stream_answer(2)]]) simp_all
  moreover have "revised s (throw_call k e s)" "revised s (to_stage k st s)" for e st using stream_answer(2) by (simp_all add: revised_def)
  ultimately show ?case by (auto simp: got_stream_def split: sum.split)
next
  case (streams inherited s now parent input r)
  then show ?case by (auto simp: session_stream_def Let_def revised_def stream_same [unfolded revised_def]
        stream_go_same split: option.split prod.split sum.split)
qed (auto simp: revised_def mutate_same got_serial_def rebind_described_def rebind_opened_def rebind_failed_def rebind_undone_def
      rebind_removed_def stream_serial_def stream_go_def stream_completed_def Let_def split: option.split sum.split prod.split
      dest!: arg_cong [where f = snd, of "removeContext _ _ _"])

subsection \<open>A session to look at\<close>

definition sample_env :: url_env where
  "sample_env = \<lparr>to_str = str_of, to_url = (\<lambda>_. Some sample_url), url_origin = (\<lambda>_. js ''http://h'')\<rparr>"

definition sample_options :: jsval where
  "sample_options = JObj [(js ''partition'', jstr ''p''), (js ''cookieMode'', jstr ''managed''), (js ''allowedOrigins'', JArr [jstr ''http://h'']),
     (js ''connection'', JObj [(js ''egress'', JObj [(js ''mode'', jstr ''direct'')]),
        (js ''identity'', JObj [(js ''tlsProfile'', jstr ''chrome_137''), (js ''emulateHeaders'', JBool True)])])]"

definition sample_session :: session where
  "sample_session = heard (CreateReply sample_capabilities sample_options (Inr sample_context))
     (new_session sample_options sample_capabilities (Num 1, jint 1) (copyContextInfo sample_context))"

lemma sample_settings: "session_settings sample_env sample_options = Inr sample_options"
    "session_limits sample_capabilities sample_options (Num 1) (jint 1) = Inr (Num 1, jint 1)"
    "opened_context sample_capabilities sample_options sample_context = Inr (copyContextInfo sample_context)"
proof -
  show "session_settings sample_env sample_options = Inr sample_options"
    by (simp add: session_settings_def sample_options_def normalizedOrigins_def normalized_origin_def sample_env_def sample_url_def http_url_def
        nullish_or_def Let_def js_def)
  show "session_limits sample_capabilities sample_options (Num 1) (jint 1) = Inr (Num 1, jint 1)"
    by (simp add: session_limits_def sample_options_def sample_capabilities_def nullish_or_def timeout_js_def timeoutValue_def limit_of_def
        MAX_TIMEOUT_MS_def MAX_SAFE_INTEGER_def limit_names_def int_of_def Let_def)
  show "opened_context sample_capabilities sample_options sample_context = Inr (copyContextInfo sample_context)"
    using sample_context_ok by (simp add: opened_context_def sample_options_def sample_context_def sample_capabilities_def resolveProfile_def str_of_def Let_def)
qed

lemma sample_session_reachable: "session_reachable sample_env sample_session"
  unfolding sample_session_def by (rule created [OF sample_settings])

text \<open>Closing it: the lifetime stops, the context is removed.\<close>

definition sample_deleting :: session where
  "sample_deleting = close_stopped
     (let s = snd (session_close (Num 1000) 0 None (JObj []) sample_session) in s\<lparr>life := stop_ends (life s)\<rparr>)"

definition sample_closed :: session where
  "sample_closed = close_removed (jstr ''c1'') (Inr JUndef) (heard (DeleteReply (jstr ''c1'') (Inr JUndef)) sample_deleting)"

lemma sample_deleting_closing: "session_closing sample_deleting = Some (CloseRemoving [(jstr ''c1'', None)])"
  by (simp add: sample_deleting_def sample_session_def new_session_def session_close_def lifetime_close_def timeout_js_def timeoutValue_def
      nullish_or_def new_Lifetime_def abort_operations_def new_Deadline_def stop_ends_def all_settled_def close_stopped_def close_ends_def
      copyContextInfo_def sample_context_def pick_def MAX_TIMEOUT_MS_def MAX_SAFE_INTEGER_def Let_def)

lemma sample_closed_reachable: "session_reachable sample_env sample_closed"
  unfolding sample_closed_def
proof (rule moved [OF _ context_removed])
  show "session_reachable sample_env sample_deleting"
    unfolding sample_deleting_def Let_def by (intro moved [OF moved [OF moved [OF sample_session_reachable closes] settled] stopped])
qed (simp add: removing_def sample_deleting_closing)

lemma sample_closed_done: "session_closing sample_closed = Some CloseDone"
  by (simp add: sample_closed_def close_removed_def sample_deleting_closing removeContext_def close_ends_def)

text \<open>A cookie update in flight: queued, granted, sent.\<close>

definition sample_update :: mutation where
  "sample_update = SetCookies (jstr ''http://h/'') (JArr [jstr ''a=1''])"

definition sample_queue :: session where
  "sample_queue = snd (mutate (Num 1000) 0 None sample_update sample_session)"

definition sample_sending :: session where
  "sample_sending = got_serial sample_env 1 0 sample_update None sample_queue"

definition sample_reply :: jsval where
  "sample_reply = JObj [(js ''revision'', jint 1)]"

lemma sample_queue_fields: "calls sample_queue = [\<lparr>c_stage = MutateQueued sample_update, c_operation = 0, c_permit = False, c_info = copyContextInfo sample_context\<rparr>]"
    "info sample_queue = copyContextInfo sample_context" "lost sample_queue = False" "settings sample_queue = sample_options"
    "life sample_queue = snd (lifetime_begin (Num 1000) 0 None new_Lifetime)" "managed sample_queue"
  by (simp_all add: sample_queue_def mutate_def assertUsable_def assertOpen_def sample_session_def new_session_def new_Lifetime_def
      lifetime_begin_def new_Deadline_def timeoutValue_def register_def MAX_TIMEOUT_MS_def MAX_SAFE_INTEGER_def sample_options_def Let_def)

lemma sample_update_valid: "cookie_request sample_queue [(js ''operation'', jstr ''set''), (js ''url'', jstr ''http://h/''),
    (js ''cookies'', JArr [jstr ''a=1'']), (js ''expectedRevision'', jint 0)] \<noteq> Inl invalid_input"
  by (simp add: cookie_request_def sample_queue_fields sample_options_def validateWire_schema sch_cookieOperation_def
      sch_cookieOperation_CookieSnapshot_def narrow_simps valid_simps count_true_def MAX_SAFE_INTEGER_def Let_def)

lemma sample_reply_ok: "cookie_reply (Inr sample_reply) = Inr sample_reply" "advanced_by_one 0 sample_reply"
  by (simp_all add: cookie_reply_def sample_reply_def advanced_by_one_def validateWire_schema sch_cookieReply_def
      narrow_simps valid_simps MAX_SAFE_INTEGER_def)

lemma sample_sending_stage: "at_stage sample_sending 0 (CookiesSent sample_update 0)"
proof -
  let ?s = "in_call 0 (c_info_update (\<lambda>_. info sample_queue)) (in_call 0 (c_permit_update (\<lambda>_. True)) sample_queue)"
  have "permit_ready 0 1 (in_call 0 (c_permit_update (\<lambda>_. True)) sample_queue) = None"
    by (simp add: permit_ready_def call_deadline_def sample_queue_fields lifetime_begin_def assertOpen_def new_Lifetime_def new_Deadline_def
        timeoutValue_def register_def MAX_TIMEOUT_MS_def MAX_SAFE_INTEGER_def Let_def)
  moreover have "start_mutation sample_env sample_update ?s = Inr (CookiesSent sample_update 0)"
    using sample_update_valid
    by (auto simp: start_mutation_def sample_update_def string_list_def sent_as_def cookie_request_def sample_queue_fields copyContextInfo_def
        sample_context_def pick_def int_of_def Let_def split: if_splits)
  ultimately show ?thesis
    by (simp add: sample_sending_def got_serial_def Let_def at_stage_def sample_queue_fields)
qed

lemma sample_sending_reachable: "session_reachable sample_env sample_sending"
  unfolding sample_sending_def
proof (rule moved [OF _ serial])
  show "session_reachable sample_env sample_queue"
    unfolding sample_queue_def by (rule moved [OF sample_session_reachable mutates])
      (simp add: sample_session_def new_session_def sample_options_def)
qed (simp_all add: at_stage_def no_permit_def sample_queue_fields)

subsection \<open>Properties\<close>

text \<open>
  C6: No context is forgotten: whatever calls run, fail or are aborted in whatever order, every
  context that a reply of the service opened for the session, and that no reply has since confirmed
  to be gone, is in the set that \<open>close\<close> removes. Which contexts these are is read off the service's
  replies alone. A reply opens a context when it meets the checks of \<open>openContext\<close>; a context in a
  reply that fails them is not covered, since the code refuses such a reply and keeps nothing of it.
\<close>

theorem session_no_orphan:
  "session_reachable env s \<Longrightarrow> set (outstanding (history s)) \<subseteq> set (cleanup s)"
  using session_reachable_ok by (simp add: session_ok_def core_def)

theorem session_no_orphan_witness: "jstr ''c1'' \<in> set (cleanup sample_session)"
  using session_no_orphan [OF sample_session_reachable]
  by (simp add: sample_session_def new_session_def copyContextInfo_def sample_context_def pick_def)

text \<open>
  C7: When \<open>close\<close> has resolved, the service has confirmed that every context it opened for the
  session in an accepted reply is gone, every call has returned or thrown, and every new call is refused.
\<close>

theorem session_close_complete:
  assumes "session_reachable env s" and "session_closing s = Some CloseDone"
  shows "outstanding (history s) = [] \<and> cleanup s = [] \<and> list_all (\<lambda>c. \<not> unfinished (c_stage c)) (calls s) \<and>
    mutate t now parent m s = (Some client_closed, s) \<and> session_stream now inherited parent input r s = (Some client_closed, s)"
proof -
  have ok: "core s" "is_stopped (life s)" "cleanup s = []"
    using session_reachable_ok [OF assms(1)] assms(2) by (simp_all add: session_ok_def close_ok_def)
  then have fit: "life_fit (life s)" "calls_ok s" and "outstanding (history s) = []" by (auto simp: core_def)
  moreover have "operations (life s) = []" "closed (life s)"
    using ok(2) fit_stopped [OF fit(1)] fit_closed [OF fit(1)] by (auto simp: is_stopped_def split: option.splits closing_stage.splits)
  ultimately show ?thesis
    using ok(3) by (auto simp: calls_ok_def list_all_iff mutate_def session_stream_def assertUsable_def assertOpen_def)
qed

theorem session_close_complete_witness: "outstanding (history sample_closed) = [] \<and> cleanup sample_closed = []"
  using session_close_complete [OF sample_closed_reachable sample_closed_done(1)] by blast

text \<open>
  C24: What a session tells about its context changes in two ways only. Either the revision moves
  forward and everything else stays, or an accepted import into the staged context cuts over to
  it: the new information and the new connection come together, and the context left behind is in
  the set to remove, where the same call goes on to remove it.
\<close>

theorem session_information_changes:
  assumes "session_reachable env s" and "session_step env s s'"
  shows "revised s s' \<or> cut_over s s'"
  using session_step_info [OF assms(2)] session_reachable_serial [OF assms(1)] by (simp add: serial_ok_def)

theorem session_information_changes_witness:
  "revised sample_sending (got_cookies 0 sample_update 0 (Inr sample_reply) sample_sending) \<or>
   cut_over sample_sending (got_cookies 0 sample_update 0 (Inr sample_reply) sample_sending)"
  by (rule session_information_changes [OF sample_sending_reachable cookies [OF sample_sending_stage]])

text \<open>
  C25: No update is lost. When the service answers a cookie update with the revision after the one
  it was sent with, the call returns and the session's revision is exactly one higher than it was:
  nothing else moved it in between, and the client never reports a conflict of its own making.
\<close>

theorem cookie_update_exact:
  assumes "session_reachable env s" and "at_stage s k (CookiesSent m expected)"
    and "m = SetCookies u vs \<or> m = ImportCookies snap" and "cookie_reply reply = Inr v" and "advanced_by_one expected v"
  shows "at_stage (got_cookies k m expected reply s) k (Returned Unit) \<and> revision_of (got_cookies k m expected reply s) = revision_of s + 1 \<and>
    context_id (got_cookies k m expected reply s) = context_id s"
proof -
  have ok: "serial_ok s" using assms(1) by (rule session_reachable_serial)
  then obtain ps where ps: "info s = JObj ps" by (auto simp: serial_ok_def)
  have k: "k < length (calls s)" "expected = revision_of s" using fits_at [OF ok assms(2)] by (auto simp: call_fits_def)
  have rev: "get v ''revision'' = jint (expected + 1)" "nonnegativeInteger (get v ''revision'')"
    using assms(4,5) by (auto simp: advanced_by_one_def cookie_reply_def split: sum.splits if_splits)
  define s1 where "s1 = s\<lparr>info := JObj (set_prop (spread_object (info s)) (js ''revision'') (get v ''revision''))\<rparr>"
  have "applyRevision (get v ''revision'') (context_id s) s = Inr s1"
    using rev k(2) by (simp add: applyRevision_def s1_def int_of_def)
  moreover have "cookie_result m expected v = Some Unit" using assms(3,5) by (auto simp: cookie_result_def)
  ultimately have "got_cookies k m expected reply s = end_call k (Returned Unit) s1"
    using assms(4) by (simp add: got_cookies_def checked_reply_def)
  moreover have "revision_of s1 = expected + 1" "context_id s1 = context_id s" "calls s1 = calls s"
    unfolding s1_def by (simp_all add: ps rev(1) js_prop_set_prop del: js_prop.simps) (simp add: int_of_def)
  ultimately show ?thesis using k by (simp add: at_stage_def)
qed

theorem cookie_update_exact_witness:
  "revision_of (got_cookies 0 sample_update 0 (Inr sample_reply) sample_sending) = revision_of sample_sending + 1"
  using cookie_update_exact [OF sample_sending_reachable sample_sending_stage _ sample_reply_ok] by (auto simp: sample_update_def)

text \<open>
  C29: A rebind whose staged context disappears takes the session down with it. When the import into
  the new context is answered with \<open>CONTEXT_NOT_FOUND\<close>, the call marks the session as lost,
  although its own context, the one before the rebind, is still its context and was not missed.
\<close>

theorem rebind_staging_loss:
  assumes "at_stage s k (RebindImporting spec n)" and "get (c_info (calls s ! k)) ''contextId'' = context_id s" and "te_code e = CONTEXT_NOT_FOUND"
  shows "lost (rebind_undone k n e reply (rebind_imported k spec n (Inl e) s)) \<and>
    info (rebind_undone k n e reply (rebind_imported k spec n (Inl e) s)) = info s"
proof -
  let ?s = "rebind_imported k spec n (Inl e) s"
  have s: "calls ?s = (calls s)[k := (calls s ! k)\<lparr>c_stage := RebindUndoing n e\<rparr>]" "info ?s = info s"
    by (simp_all add: rebind_imported_def import_error_def cookie_reply_def rebind_failed_def)
  have "lost (throw_call k e t)" if "calls t = calls ?s" "info t = info s" for t
    using that assms s by (simp add: throw_call_def end_call_def in_call_def markLost_def at_stage_def Let_def)
  then show ?thesis using s by (simp add: rebind_undone_def)
qed

theorem rebind_staging_loss_witness:
  "lost (rebind_undone 0 (JObj []) (localError CONTEXT_NOT_FOUND None) (Inr JUndef) (rebind_imported 0 JUndef (JObj [])
     (Inl (localError CONTEXT_NOT_FOUND None)) (sample_session\<lparr>calls :=
       [\<lparr>c_stage = RebindImporting JUndef (JObj []), c_operation = 0, c_permit = True, c_info = info sample_session\<rparr>]\<rparr>)))"
  using rebind_staging_loss [of "sample_session\<lparr>calls :=
       [\<lparr>c_stage = RebindImporting JUndef (JObj []), c_operation = 0, c_permit = True, c_info = info sample_session\<rparr>]\<rparr>" 0 JUndef "JObj []"
     "localError CONTEXT_NOT_FOUND None" "Inr JUndef"]
  by (simp add: at_stage_def localError_def new_TransportError_def)

end
