(* ===== verification/Permits.thy ===== *)
theory Permits
  imports Admission
begin

text \<open>
  What a queue of permits promises to the code that waits on it: whoever was granted a permit holds
  it until the closure that came with it is called, no permit goes to two promises, and no more are
  held than there is room for. The contract is a locale; its lemmas are about the claims of a client
  that asks, holds and gives back, and \<open>Admission\<close> is the model's provider.
\<close>

subsection \<open>The contract\<close>

datatype claim = Asking | Holding nat | Over

locale permit_pool =
  fixes ok :: "'q \<Rightarrow> bool"
    and room :: nat
    and grants :: "'q \<Rightarrow> (nat \<times> nat) set"
    and held :: "'q \<Rightarrow> nat set"
    and fresh :: "'q \<Rightarrow> nat"
    and moves :: "'q \<Rightarrow> 'q \<Rightarrow> bool"
    and give_back :: "nat \<Rightarrow> 'q \<Rightarrow> 'q"
  assumes room: "ok q \<Longrightarrow> finite (held q) \<and> card (held q) \<le> room"
    and once: "ok q \<Longrightarrow> (a, p) \<in> grants q \<Longrightarrow> (b, p) \<in> grants q \<Longrightarrow> a = b"
    and fresh: "ok q \<Longrightarrow> fresh q \<notin> fst ` grants q"
    and moves: "ok q \<Longrightarrow> moves q q' \<Longrightarrow> ok q' \<and> grants q \<subseteq> grants q' \<and> held q \<subseteq> held q' \<and>
      (\<forall>a p. (a, p) \<in> grants q' \<longrightarrow> (a, p) \<in> grants q \<or> p \<in> held q')"
    and give_back: "ok q \<Longrightarrow> ok (give_back p q) \<and> grants q \<subseteq> grants (give_back p q) \<and> held q - {p} \<subseteq> held (give_back p q) \<and>
      (\<forall>a r. (a, r) \<in> grants (give_back p q) \<longrightarrow> (a, r) \<in> grants q \<or> r \<in> held (give_back p q))"
begin

fun claim_ok :: "'q \<Rightarrow> nat \<Rightarrow> claim \<Rightarrow> bool" where
  "claim_ok q a Asking \<longleftrightarrow> (\<forall>p. (a, p) \<in> grants q \<longrightarrow> p \<in> held q)"
| "claim_ok q a (Holding p) \<longleftrightarrow> (a, p) \<in> grants q \<and> p \<in> held q"
| "claim_ok q a Over \<longleftrightarrow> True"

lemma claim_moves: "ok q \<Longrightarrow> moves q q' \<Longrightarrow> claim_ok q a c \<Longrightarrow> claim_ok q' a c"
  using moves [of q q'] by (cases c) (auto, blast)

lemma claim_new: "ok q \<Longrightarrow> moves q q' \<Longrightarrow> claim_ok q' (fresh q) Asking"
  using moves [of q q'] fresh [of q] by force

lemma claim_granted: "claim_ok q a Asking \<Longrightarrow> (a, p) \<in> grants q \<Longrightarrow> claim_ok q a (Holding p)"
  by simp

text \<open>Giving a permit back touches no other claim.\<close>

lemma claim_given_back:
  assumes "ok q" and "claim_ok q a (Holding p)" and "claim_ok q b c" and "a \<noteq> b"
  shows "claim_ok (give_back p q) b c"
proof -
  have other: "r \<noteq> p" if "(b, r) \<in> grants q" for r using once [OF assms(1), of a p b] assms(2,4) that by auto
  with assms(3) give_back [OF assms(1), of p] show ?thesis by (cases c) (auto, blast)
qed

lemma claims_within_room:
  assumes "ok q" and "distinct (map fst cs)" and "\<And>a c. (a, c) \<in> set cs \<Longrightarrow> claim_ok q a c"
  shows "length (filter (\<lambda>(a, c). \<exists>p. c = Holding p) cs) \<le> room"
proof -
  let ?hs = "filter (\<lambda>(a, c). \<exists>p. c = Holding p) cs" and ?f = "\<lambda>(a, c). case c of Holding p \<Rightarrow> p | _ \<Rightarrow> 0"
  have holds: "c = Holding (?f (a, c)) \<and> (a, ?f (a, c)) \<in> grants q \<and> ?f (a, c) \<in> held q" if "(a, c) \<in> set ?hs" for a c
    using that assms(3) [of a c] by auto
  have same: "(a, c) = (b, d)" if "(a, c) \<in> set ?hs" "(b, d) \<in> set ?hs" "?f (a, c) = ?f (b, d)" for a b c d
  proof -
    have "a = b" using holds [OF that(1)] holds [OF that(2)] that(3) once [OF assms(1)] by metis
    moreover have "c = d" using holds [OF that(1)] holds [OF that(2)] that(3) by metis
    ultimately show ?thesis by simp
  qed
  have "inj_on ?f (set ?hs)"
  proof (rule inj_onI)
    fix x y
    assume "x \<in> set ?hs" "y \<in> set ?hs" "?f x = ?f y"
    then show "x = y" using same [of "fst x" "snd x" "fst y" "snd y"] by (simp only: prod.collapse)
  qed
  moreover have "distinct ?hs" using assms(2) by (simp add: distinct_map)
  ultimately have "length ?hs = card (?f ` set ?hs)" by (simp only: card_image distinct_card)
  also have "\<dots> \<le> card (held q)" using room [OF assms(1)] holds by (intro card_mono) auto
  also have "\<dots> \<le> room" using room [OF assms(1)] by simp
  finally show ?thesis .
qed

end

subsection \<open>The provider\<close>

text \<open>The promises settled with a permit, and the permits whose closure has not been called.\<close>

definition granted_permits :: "admission \<Rightarrow> (nat \<times> nat) set" where
  "granted_permits s = {(a, p). \<exists>part. (a, part, Granted p) \<in> set (settled s)}"

definition held_permits :: "admission \<Rightarrow> nat set" where
  "held_permits s = {p. p < length (permits s) \<and> \<not> snd (permits s ! p)}"

definition granted_once :: "admission \<Rightarrow> bool" where
  "granted_once s \<longleftrightarrow> (\<forall>a p. (a, p) \<in> granted_permits s \<longrightarrow> p < length (permits s)) \<and>
     (\<forall>a b p. (a, p) \<in> granted_permits s \<longrightarrow> (b, p) \<in> granted_permits s \<longrightarrow> a = b)"

text \<open>A new grant takes a new permit.\<close>

definition grows :: "admission \<Rightarrow> admission \<Rightarrow> bool" where
  "grows s s' \<longleftrightarrow> granted_permits s \<subseteq> granted_permits s' \<and> length (permits s) \<le> length (permits s') \<and>
     (\<forall>p < length (permits s). permits s' ! p = permits s ! p) \<and>
     (\<forall>a p. (a, p) \<in> granted_permits s' \<longrightarrow> (a, p) \<in> granted_permits s \<or> length (permits s) \<le> p \<and> p \<in> held_permits s') \<and>
     (granted_once s \<longrightarrow> granted_once s')"

lemma grows_same: "permits s' = permits s \<Longrightarrow> settled s' = settled s \<Longrightarrow> grows s s'"
  by (simp add: grows_def granted_permits_def held_permits_def granted_once_def)

lemma grows_held: "grows s s' \<Longrightarrow> held_permits s \<subseteq> held_permits s'"
  by (auto simp: grows_def held_permits_def)

lemma grows_trans:
  assumes "grows s s1" and "grows s1 s2"
  shows "grows s s2"
proof -
  have "(a, p) \<in> granted_permits s \<or> length (permits s) \<le> p \<and> p \<in> held_permits s2" if "(a, p) \<in> granted_permits s2" for a p
    using that assms grows_held [OF assms(2)] unfolding grows_def by (meson order_trans subsetD)
  moreover have "\<forall>p < length (permits s). permits s2 ! p = permits s ! p" using assms by (simp add: grows_def)
  ultimately show ?thesis using assms unfolding grows_def by (meson order_trans)
qed

lemma grows_fold: "(\<And>w s. grows s (f w s)) \<Longrightarrow> grows s (fold f ws s)"
  by (induction ws arbitrary: s) (auto intro: grows_same grows_trans)

lemma rejects_grows: "permits s' = permits s \<Longrightarrow> settled s' = settled s @ [(a, part, Rejected e)] \<Longrightarrow> grows s s'"
  by (simp add: grows_def granted_permits_def held_permits_def granted_once_def)

lemma grants_grows:
  assumes "permits s' = permits s @ [(part, False)]" and "settled s' = settled s @ [(a, part', Granted (length (permits s)))]"
  shows "grows s s'"
proof -
  have g: "granted_permits s' = insert (a, length (permits s)) (granted_permits s)" by (auto simp: granted_permits_def assms(2))
  moreover have "granted_once s'" if "granted_once s"
  proof -
    have "(c, length (permits s)) \<notin> granted_permits s" for c using \<open>granted_once s\<close> by (auto simp: granted_once_def)
    with that show ?thesis unfolding granted_once_def g by (auto simp: assms(1) less_Suc_eq)
  qed
  ultimately show ?thesis by (auto simp: grows_def held_permits_def assms(1) nth_append)
qed

lemma dispatch_item_grows: "grows s (dispatch_item w s)"
proof -
  have "grows s (settle a part (Rejected e) (snd (remove_item w s)))" for a part e
    by (rule rejects_grows [of _ s a part e]) (simp_all add: settle_def remove_item_def)
  moreover have "grows s (settle a part (Granted (fst (occupy part (snd (remove_item w s))))) (snd (occupy part (snd (remove_item w s)))))" for a part
    by (rule grants_grows [of _ s part a part]) (simp_all add: settle_def remove_item_def occupy_def)
  ultimately show ?thesis by (auto simp: dispatch_item_def Let_def case_prod_unfold intro: grows_same)
qed

lemma dispatch_grows: "grows s (dispatch s)"
  unfolding dispatch_def by (rule grows_fold [OF dispatch_item_grows])

lemma abort_item_grows: "grows s (abort_item w s)"
proof -
  have "grows s (dispatch (settle a part (Rejected e) (snd (remove_item w s))))" for a part e
    by (rule grows_trans [OF rejects_grows [of _ s a part e] dispatch_grows]) (simp_all add: settle_def remove_item_def)
  then show ?thesis by (auto simp: abort_item_def remove_item_def intro: grows_same)
qed

lemma deadline_event_grows: "grows s (deadline_event d f s)"
proof -
  have "grows s (fold abort_item ws (s\<lparr>deadlines := ds\<rparr>))" for ws ds
    by (rule grows_trans [OF grows_same grows_fold [OF abort_item_grows]]) simp_all
  then show ?thesis by (auto simp: deadline_event_def Let_def intro: grows_same)
qed

lemma acquire_grows: "grows s (acquire part d diag u s)"
  by (auto simp: acquire_def Let_def settle_def occupy_def intro: grows_same rejects_grows grants_grows)

text \<open>Calling the closure of a permit: nothing but that permit is given up.\<close>

lemma release_permit_grows:
  obtains s1 where "grows s1 (release_permit i s)" "settled s1 = settled s" "length (permits s1) = length (permits s)"
    "\<And>p. p \<noteq> i \<Longrightarrow> permits s1 ! p = permits s ! p"
proof (cases "length (permits s) \<le> i \<or> snd (permits s ! i)")
  case True
  then have "release_permit i s = s" by (auto simp: release_permit_def Let_def case_prod_unfold)
  with that [of s] show thesis by (simp add: grows_same)
next
  case False
  let ?p = "fst (permits s ! i)"
  let ?s = "s\<lparr>permits := (permits s)[i := (?p, True)], active := active s - 1, byPartition := count_down ?p (byPartition s)\<rparr>"
  have "release_permit i s = dispatch ?s" using False by (simp add: release_permit_def Let_def case_prod_unfold)
  with that [of ?s] dispatch_grows [of ?s] show thesis by simp
qed

lemma granted_once_same: "settled s1 = settled s \<Longrightarrow> length (permits s1) = length (permits s) \<Longrightarrow> granted_once s1 = granted_once s"
  by (simp add: granted_once_def granted_permits_def)

lemma adm_step_granted_once: "adm_step s s' \<Longrightarrow> granted_once s \<Longrightarrow> granted_once s'"
proof (induction rule: adm_step.induct)
  case (acquire d s part diag u)
  then show ?case using acquire_grows [of s part d diag u] by (simp add: grows_def)
next
  case (release s i)
  obtain s1 where "grows s1 (release_permit i s)" "settled s1 = settled s" "length (permits s1) = length (permits s)"
    by (rule release_permit_grows)
  with release granted_once_same [of s1 s] show ?case by (simp add: grows_def)
next
  case (abort d s c)
  then show ?case using deadline_event_grows [of s d "change_deadline c"] by (simp add: grows_def)
qed (auto simp: reserve_def release_reservation_def constrain_def add_deadline_def case_prod_unfold Let_def elim: granted_once_same [THEN iffD2, rotated 2])

lemma adm_reachable_granted_once: "adm_reachable l s \<Longrightarrow> granted_once s"
proof (induction rule: adm_reachable.induct)
  case (start s)
  then show ?case by (auto simp: new_Admission_def granted_once_def granted_permits_def split: if_splits)
qed (rule adm_step_granted_once)

text \<open>The permits that are held are those the queue counts as active.\<close>

lemma card_held: "finite (held_permits s) \<and> card (held_permits s) = size (live (permits s))"
proof -
  have "held_permits s = {i. i < length (permits s) \<and> \<not> snd (permits s ! i)}" by (simp add: held_permits_def)
  then have "card (held_permits s) = length (filter (\<lambda>x. \<not> snd x) (permits s))" by (simp add: length_filter_conv_card)
  moreover have "size (live (permits s)) = length (filter (\<lambda>x. \<not> snd x) (permits s))"
    unfolding live_def size_mset length_map by (simp add: split_def)
  ultimately show ?thesis by (simp add: held_permits_def)
qed

text \<open>Promises are numbered as they are made; the deadlines change only by their own events.\<close>

lemma dispatch_same [simp]: "promises (dispatch s) = promises s" "deadlines (dispatch s) = deadlines s"
proof -
  have "promises (fold dispatch_item ws s) = promises s \<and> deadlines (fold dispatch_item ws s) = deadlines s" for ws
    by (induction ws arbitrary: s) (simp_all add: dispatch_item_def remove_item_def occupy_def settle_def Let_def)
  then show "promises (dispatch s) = promises s" "deadlines (dispatch s) = deadlines s" by (simp_all add: dispatch_def)
qed

lemma abort_items_same: "promises (fold abort_item ws s) = promises s \<and> deadlines (fold abort_item ws s) = deadlines s"
  by (induction ws arbitrary: s) (simp_all add: abort_item_def remove_item_def settle_def)

lemma queue_same [simp]:
  "promises (deadline_event d f s) = promises s" "length (deadlines (deadline_event d f s)) = length (deadlines s)"
  "promises (release_permit i s) = promises s" "deadlines (release_permit i s) = deadlines s"
  "promises (acquire part d diag u s) = Suc (promises s)" "deadlines (acquire part d diag u s) = deadlines s"
  by (simp_all add: deadline_event_def abort_items_same release_permit_def acquire_def settle_def occupy_def case_prod_unfold Let_def)

text \<open>What may happen to the queue between two calls of a closure.\<close>

inductive pool_step :: "admission \<Rightarrow> admission \<Rightarrow> bool" where
  asks: "d < length (deadlines s) \<Longrightarrow> pool_step s (acquire part d diag u s)"
| expires: "d < length (deadlines s) \<Longrightarrow> pool_step s (deadline_event d (change_deadline c) s)"
| starts: "pool_step s (snd (add_deadline d s))"
| passes: "pool_step s (s\<lparr>clock := t\<rparr>)"

lemma pool_step_grows: "pool_step s s' \<Longrightarrow> grows s s' \<and> adm_step s s'"
  by (induction rule: pool_step.induct)
    (auto simp: acquire_grows deadline_event_grows add_deadline_def intro: grows_same adm_step.intros adm_step.deadline [unfolded add_deadline_def snd_conv])

lemma pool_step_promises: "pool_step s s' \<Longrightarrow> promises s \<le> promises s'"
  by (induction rule: pool_step.induct) (simp_all add: add_deadline_def)

interpretation queue: permit_pool "adm_reachable l" "nat (maxConcurrent l)" granted_permits held_permits promises pool_step release_permit
  for l
proof unfold_locales
  fix q q' a b p
  assume q: "adm_reachable l q"
  have good: "adm_inv q" "bounded l q" using adm_reachable_good [OF q] by (simp_all add: good_def)
  show "finite (held_permits q) \<and> card (held_permits q) \<le> nat (maxConcurrent l)"
    using card_held [of q] good by (auto simp: adm_inv_def bounded_def)
  show "promises q \<notin> fst ` granted_permits q" using good(1) by (force simp: adm_inv_def queue_ok_def granted_permits_def)
  show "a = b" if "(a, p) \<in> granted_permits q" "(b, p) \<in> granted_permits q"
    using adm_reachable_granted_once [OF q] that unfolding granted_once_def by blast
  show "adm_reachable l q' \<and> granted_permits q \<subseteq> granted_permits q' \<and> held_permits q \<subseteq> held_permits q' \<and>
      (\<forall>a p. (a, p) \<in> granted_permits q' \<longrightarrow> (a, p) \<in> granted_permits q \<or> p \<in> held_permits q')" if "pool_step q q'"
    using pool_step_grows [OF that] grows_held adm_reachable.step [OF q] unfolding grows_def by blast
  show "adm_reachable l (release_permit p q) \<and> granted_permits q \<subseteq> granted_permits (release_permit p q) \<and>
      held_permits q - {p} \<subseteq> held_permits (release_permit p q) \<and>
      (\<forall>a r. (a, r) \<in> granted_permits (release_permit p q) \<longrightarrow> (a, r) \<in> granted_permits q \<or> r \<in> held_permits (release_permit p q))"
  proof -
    obtain s1 where s1: "grows s1 (release_permit p q)" "settled s1 = settled q" "length (permits s1) = length (permits q)"
      "\<And>r. r \<noteq> p \<Longrightarrow> permits s1 ! r = permits q ! r"
      using release_permit_grows [of p q] by blast
    have same: "granted_permits s1 = granted_permits q" using s1(2) by (simp add: granted_permits_def)
    have "held_permits q - {p} \<subseteq> held_permits s1" using s1(3,4) by (auto simp: held_permits_def)
    then show ?thesis using adm_reachable.step [OF q adm_step.release] s1(1) grows_held [OF s1(1)] unfolding grows_def same by blast
  qed
qed

end
