(* ===== verification/Fetch_Correct.thy ===== *)
theory Fetch_Correct
  imports Fetch Sessions_Correct Permits
begin

text \<open>
  What holds of a scoped fetch in every state it can reach, and what \<open>fetchResponse\<close> makes of an exchange.
\<close>

subsection \<open>The invariant\<close>

fun fetch_unfinished :: "fetch_stage \<Rightarrow> bool" where
  "fetch_unfinished (Fc_done _) = False"
| "fetch_unfinished _ = True"

definition fetch_call_ok :: "lifetime \<Rightarrow> fetch_call \<Rightarrow> bool" where
  "fetch_call_ok l c \<longleftrightarrow> fc_operation c < length (registered l) \<and> (fetch_unfinished (fc_stage c) \<longleftrightarrow> fc_operation c \<in> set (operations l)) \<and>
     (fc_permit c \<noteq> None \<longrightarrow> fetch_unfinished (fc_stage c))"

definition fetch_calls_ok :: "fetcher \<Rightarrow> bool" where
  "fetch_calls_ok f \<longleftrightarrow> distinct (map fc_operation (f_calls f)) \<and> list_all (fetch_call_ok (f_life f)) (f_calls f)"

definition fetch_session_ok :: "fetcher \<Rightarrow> bool" where
  "fetch_session_ok f \<longleftrightarrow> (case f_session f of
     Some (Session_opening j) \<Rightarrow> j \<in> set (operations (f_life f)) \<and> j < length (registered (f_life f)) \<and> j \<notin> fc_operation ` set (f_calls f) | _ \<Rightarrow> True) \<and>
     f_created f = (if f_session f = None then 0 else 1)"

definition fetch_closing_ok :: "fetcher \<Rightarrow> bool" where
  "fetch_closing_ok f \<longleftrightarrow> (case f_closing f of
     None \<Rightarrow> True
   | Some (F_stopping d) \<Rightarrow> True
   | Some (F_session d) \<Rightarrow> life_stopped (f_life f)
   | Some (F_removing d h) \<Rightarrow> life_stopped (f_life f) \<and> f_session f = Some (Session_ready h)
   | Some F_done \<Rightarrow> life_stopped (f_life f) \<and> (\<forall>h. f_session f = Some (Session_ready h) \<longrightarrow> h \<in> set (f_removed f)))"

definition fetch_ok :: "fetcher \<Rightarrow> bool" where
  "fetch_ok f \<longleftrightarrow> life_fit (f_life f) \<and> fetch_calls_ok f \<and> fetch_session_ok f \<and> fetch_closing_ok f"

lemma in_fetch_fields [simp]:
  "f_life (in_fetch k g f) = f_life f" "f_session (in_fetch k g f) = f_session f" "f_closing (in_fetch k g f) = f_closing f"
  "f_created (in_fetch k g f) = f_created f" "f_removed (in_fetch k g f) = f_removed f" "f_settings (in_fetch k g f) = f_settings f"
  "f_calls (in_fetch k g f) = (f_calls f)[k := g (f_calls f ! k)]" "f_queue (in_fetch k g f) = f_queue f"
  "f_life (to_fetch_stage k st f) = f_life f" "f_session (to_fetch_stage k st f) = f_session f" "f_closing (to_fetch_stage k st f) = f_closing f"
  "f_created (to_fetch_stage k st f) = f_created f" "f_removed (to_fetch_stage k st f) = f_removed f"
  "f_calls (to_fetch_stage k st f) = (f_calls f)[k := (f_calls f ! k)\<lparr>fc_stage := st\<rparr>]" "f_queue (to_fetch_stage k st f) = f_queue f"
  "f_session (fetch_ends k e f) = f_session f" "f_closing (fetch_ends k e f) = f_closing f" "f_created (fetch_ends k e f) = f_created f"
  "f_removed (fetch_ends k e f) = f_removed f" "f_life (fetch_ends k e f) = op_done (fc_operation (f_calls f ! k)) (f_life f)"
  "f_calls (fetch_ends k e f) = (f_calls f)[k := (f_calls f ! k)\<lparr>fc_stage := Fc_done e, fc_permit := None\<rparr>]"
  "f_queue (fetch_ends k e f) = (case fc_permit (f_calls f ! k) of None \<Rightarrow> f_queue f | Some p \<Rightarrow> release_permit p (f_queue f))"
  by (simp_all add: in_fetch_def to_fetch_stage_def fetch_ends_def)

lemma fetch_ok_queue [simp]: "fetch_ok (f\<lparr>f_queue := q\<rparr>) = fetch_ok f"
  by (simp add: fetch_ok_def fetch_calls_ok_def fetch_session_ok_def fetch_closing_ok_def
      split: option.split session_promise.split fetch_closing.split)

lemma stopped_done [simp]: "life_stopped (op_done i l) = life_stopped l"
  by (simp add: life_stopped_def op_done_operations)

lemma stopped_quiet: "life_stopped l \<Longrightarrow> life_stopped (stop_ends l)" "life_stopped (deadline_fires d g l) = life_stopped l"
  by (auto simp: life_stopped_def stays_stopped split: option.splits closing_stage.splits)

lemma fetch_no_operations: "fetch_ok f \<Longrightarrow> life_stopped (f_life f) \<Longrightarrow> operations (f_life f) = []"
  using fit_stopped by (auto simp: fetch_ok_def life_stopped_def split: option.splits closing_stage.splits)

text \<open>Replacing one call keeps the operations of the calls.\<close>

lemma calls_update:
  assumes "k < length cs" and "fc_operation c = fc_operation (cs ! k)"
  shows "map fc_operation (cs[k := c]) = map fc_operation cs" "fc_operation ` set (cs[k := c]) = fc_operation ` set cs"
proof -
  show eq: "map fc_operation (cs[k := c]) = map fc_operation cs" by (simp add: map_update assms(2) list_update_same_conv assms(1))
  have "fc_operation ` set (cs[k := c]) = set (map fc_operation (cs[k := c]))" by simp
  also have "\<dots> = fc_operation ` set cs" unfolding eq by simp
  finally show "fc_operation ` set (cs[k := c]) = fc_operation ` set cs" .
qed

lemma calls_restage:
  assumes ok: "fetch_calls_ok f" and k: "k < length (f_calls f)" and "fetch_unfinished (fc_stage (f_calls f ! k))" and "fetch_unfinished st"
    and calls: "f_calls f' = (f_calls f)[k := (f_calls f ! k)\<lparr>fc_stage := st, fc_permit := b\<rparr>]"
    and same: "\<And>i. i < length (registered (f_life f)) \<Longrightarrow> i \<in> set (operations (f_life f')) \<longleftrightarrow> i \<in> set (operations (f_life f))"
      "length (registered (f_life f)) \<le> length (registered (f_life f'))"
  shows "fetch_calls_ok f'"
proof -
  let ?c = "(f_calls f ! k)\<lparr>fc_stage := st, fc_permit := b\<rparr>"
  have keep: "fetch_call_ok (f_life f') c" if "fetch_call_ok (f_life f) c" for c using that same by (auto simp: fetch_call_ok_def)
  have old: "fetch_call_ok (f_life f) (f_calls f ! k)" using ok k by (simp add: fetch_calls_ok_def list_all_length)
  then have "fetch_call_ok (f_life f) ?c" using assms(3,4) by (simp add: fetch_call_ok_def)
  moreover have "fetch_call_ok (f_life f) c" if "c \<in> set (f_calls f)" for c using ok that by (simp add: fetch_calls_ok_def list_all_iff)
  ultimately have "fetch_call_ok (f_life f') c" if "c \<in> set (f_calls f')" for c
    using that set_update_subset_insert [of "f_calls f" k ?c] keep unfolding calls by blast
  moreover have "distinct (map fc_operation (f_calls f'))"
    using ok calls_update(1) [of k "f_calls f" ?c] k unfolding calls by (simp add: fetch_calls_ok_def)
  ultimately show ?thesis by (simp add: fetch_calls_ok_def list_all_iff)
qed

lemma calls_end:
  assumes ok: "fetch_calls_ok f" and k: "k < length (f_calls f)"
  shows "fetch_calls_ok (fetch_ends k e f)"
proof -
  let ?c = "(f_calls f ! k)\<lparr>fc_stage := Fc_done e, fc_permit := None\<rparr>" and ?i = "fc_operation (f_calls f ! k)"
  have d: "distinct (map fc_operation (f_calls f))" using ok by (simp add: fetch_calls_ok_def)
  have all: "fetch_call_ok (f_life f) (f_calls f ! j)" if "j < length (f_calls f)" for j
    using ok that by (simp add: fetch_calls_ok_def list_all_length)
  have "fetch_call_ok (op_done ?i (f_life f)) ((f_calls f)[k := ?c] ! j)" if j: "j < length (f_calls f)" for j
  proof (cases "j = k")
    case True
    with all [OF k] k show ?thesis by (simp add: fetch_call_ok_def op_done_operations)
  next
    case False
    with d j k have "fc_operation (f_calls f ! j) \<noteq> ?i" by (auto simp: distinct_conv_nth)
    with all [OF j] False show ?thesis by (auto simp: fetch_call_ok_def op_done_operations)
  qed
  with d calls_update(1) [of k "f_calls f" ?c] k show ?thesis by (simp add: fetch_calls_ok_def list_all_length)
qed

subsection \<open>The steps\<close>

lemma begin_Inr:
  assumes "begin_js v now parent l = (Inr i, l')" and "life_fit l"
  shows "i = length (registered l)" "operations l' = operations l @ [i]" "length (registered l') = Suc (length (registered l))"
    "closing l' = closing l" "closing l = None" "life_fit l'" "op_owns (registered l' ! i)" "\<not> closed l"
    "\<And>j. j < length (registered l) \<Longrightarrow> registered l' ! j = registered l ! j"
proof -
  obtain n where n: "lifetime_begin n now parent l = (Inr i, l')" using assms(1) by (auto simp: begin_js_def split: jsval.splits)
  then show "i = length (registered l)" "operations l' = operations l @ [i]" "length (registered l') = Suc (length (registered l))"
      "closing l' = closing l" "op_owns (registered l' ! i)" and open': "\<not> closed l"
      and "\<And>j. j < length (registered l) \<Longrightarrow> registered l' ! j = registered l ! j"
    by (auto simp: lifetime_begin_def assertOpen_def register_def Let_def nth_append split: sum.splits if_splits)
  show "closing l = None" using open' fit_closed [OF assms(2)] by blast
  show "life_fit l'" using fit_begin [OF assms(2), of n now parent] n by simp
qed

lemma ok_ends: "fetch_ok f \<Longrightarrow> k < length (f_calls f) \<Longrightarrow> fetch_ok (fetch_ends k e f)"
proof -
  assume f: "fetch_ok f" and k: "k < length (f_calls f)"
  have k': "fc_operation (f_calls f ! k) \<in> fc_operation ` set (f_calls f)" using k by simp
  have "fetch_session_ok (fetch_ends k e f)"
    using f k k' calls_update(2) [OF k, of "(f_calls f ! k)\<lparr>fc_stage := Fc_done e, fc_permit := None\<rparr>"]
    by (auto simp: fetch_ok_def fetch_session_ok_def op_done_operations split: option.splits session_promise.splits)
  moreover have "fetch_closing_ok (fetch_ends k e f)"
    using f by (simp add: fetch_ok_def fetch_closing_ok_def split: option.splits fetch_closing.splits)
  ultimately show ?thesis using f k calls_end fit_done by (simp add: fetch_ok_def)
qed

lemma ok_restage:
  assumes f: "fetch_ok f" and at: "fetch_at f k st" and "fetch_unfinished st" and "fetch_unfinished st'"
  shows "fetch_ok (in_fetch k (\<lambda>c. c\<lparr>fc_stage := st', fc_permit := b\<rparr>) f)" (is "fetch_ok ?f")
proof -
  have k: "k < length (f_calls f)" "fetch_unfinished (fc_stage (f_calls f ! k))" using at assms(3) by (simp_all add: fetch_at_def)
  have "fetch_calls_ok f" using f by (simp add: fetch_ok_def)
  then have "fetch_calls_ok ?f" by (rule calls_restage [OF _ k assms(4), where b = b]) simp_all
  moreover have "fc_operation ` set (f_calls ?f) = fc_operation ` set (f_calls f)"
    using calls_update(2) [OF k(1), of "(f_calls f ! k)\<lparr>fc_stage := st', fc_permit := b\<rparr>"] by simp
  then have "fetch_session_ok ?f = fetch_session_ok f" unfolding fetch_session_ok_def by (simp only: in_fetch_fields)
  moreover have "fetch_closing_ok ?f = fetch_closing_ok f" unfolding fetch_closing_ok_def by (simp only: in_fetch_fields)
  ultimately show ?thesis using f by (simp add: fetch_ok_def)
qed

lemma to_stage_restage: "to_fetch_stage k st f = in_fetch k (\<lambda>c. c\<lparr>fc_stage := st, fc_permit := fc_permit (f_calls f ! k)\<rparr>) f"
  by (simp add: to_fetch_stage_def in_fetch_def)

lemma ok_life: "fetch_ok f \<Longrightarrow> life_fit l \<Longrightarrow> operations l = operations (f_life f) \<Longrightarrow> registered l = registered (f_life f) \<Longrightarrow>
    (life_stopped (f_life f) \<Longrightarrow> life_stopped l) \<Longrightarrow> fetch_ok (f\<lparr>f_life := l\<rparr>)"
  by (auto simp: fetch_ok_def fetch_calls_ok_def fetch_call_ok_def fetch_session_ok_def fetch_closing_ok_def list_all_iff
      split: option.splits fetch_closing.splits session_promise.splits)

lemma ok_execute: "fetch_ok f \<Longrightarrow> fetch_ok (snd (fetch_execute host now parent r f))"
proof -
  assume f: "fetch_ok f"
  let ?v = "nullish_or (get r ''timeoutMs'') (get (f_settings f) ''timeoutMs'')"
  obtain o' l where b: "begin_js ?v now parent (f_life f) = (o', l)" by fastforce
  show ?thesis
  proof (cases o')
    case (Inl e)
    from not_begun(3) [OF b [unfolded Inl]] have "f\<lparr>f_life := l\<rparr> = f" by simp
    with b Inl f show ?thesis by (auto simp: fetch_execute_def split: option.splits)
  next
    case (Inr i)
    have fit: "life_fit (f_life f)" using f by (simp add: fetch_ok_def)
    note l = begin_Inr [OF b [unfolded Inr] fit]
    let ?f = "f\<lparr>f_life := l, f_queue := acquire (str_of (get (f_settings f) ''partition'')) (op_deadline (registered l ! i)) localDiagnostics False
        (new_in_queue l (f_queue f)),
      f_calls := f_calls f @ [\<lparr>fc_operation = i, fc_promise = promises (f_queue f), fc_permit = None, fc_stage = Fc_acquiring\<rparr>]\<rparr>"
    have "fetch_call_ok l c" if "fetch_call_ok (f_life f) c" for c using that l by (auto simp: fetch_call_ok_def)
    moreover have "fc_operation c < i" if "c \<in> set (f_calls f)" for c
      using f that l(1) by (auto simp: fetch_ok_def fetch_calls_ok_def list_all_iff fetch_call_ok_def)
    ultimately have "fetch_calls_ok ?f" using f l by (fastforce simp: fetch_ok_def fetch_calls_ok_def list_all_iff fetch_call_ok_def)
    moreover have "fetch_session_ok ?f" "fetch_closing_ok ?f"
      using f l by (auto simp: fetch_ok_def fetch_session_ok_def fetch_closing_ok_def life_stopped_def split: option.splits session_promise.splits fetch_closing.splits)
    ultimately have "fetch_ok ?f" using l(6) by (simp add: fetch_ok_def)
    with f b Inr show ?thesis by (auto simp: fetch_execute_def split: option.splits)
  qed
qed

lemma restage_commute: "c\<lparr>fc_permit := b, fc_stage := st\<rparr> = c\<lparr>fc_stage := st, fc_permit := b\<rparr>"
  by (cases c) simp

lemma ok_permit:
  assumes f: "fetch_ok f" and at: "fetch_at f k Fc_acquiring"
  shows "fetch_ok (fetch_permit now k r f)"
proof (cases r)
  case (Rejected e)
  with ok_ends [OF f] at show ?thesis by (simp add: fetch_permit_def fetch_at_def)
next
  case (Granted p)
  have k: "k < length (f_calls f)" using at by (simp add: fetch_at_def)
  have stages: "fetch_ok (in_fetch k (\<lambda>c. c\<lparr>fc_stage := st, fc_permit := Some p\<rparr>) f)" if "fetch_unfinished st" for st
    using ok_restage [OF f at _ that] by simp
  have eq: "to_fetch_stage k st (in_fetch k (fc_permit_update (\<lambda>_. Some p)) f) = in_fetch k (\<lambda>c. c\<lparr>fc_stage := st, fc_permit := Some p\<rparr>) f" for st
    using k by (simp add: to_fetch_stage_def in_fetch_def restage_commute)
  show ?thesis
  proof (cases "uses_session f \<and> f_session f = None")
    case False
    with Granted stages eq show ?thesis by (auto simp: fetch_permit_def Let_def)
  next
    case True
    obtain o' l where b: "begin_js (get (f_settings f) ''timeoutMs'') now None (f_life f) = (o', l)" by fastforce
    show ?thesis
    proof (cases o')
      case (Inl e)
      have "fetch_ok (in_fetch k (\<lambda>c. c\<lparr>fc_stage := Fc_acquiring, fc_permit := Some p\<rparr>) f)" using stages by simp
      moreover have "in_fetch k (\<lambda>c. c\<lparr>fc_stage := Fc_acquiring, fc_permit := Some p\<rparr>) f = in_fetch k (fc_permit_update (\<lambda>_. Some p)) f"
        using at k by (cases "f_calls f ! k") (simp add: in_fetch_def fetch_at_def)
      ultimately have "fetch_ok (fetch_ends k (Some e) (in_fetch k (fc_permit_update (\<lambda>_. Some p)) f))" using ok_ends k by simp
      moreover have "(in_fetch k (fc_permit_update (\<lambda>_. Some p)) f)\<lparr>f_life := l\<rparr> = in_fetch k (fc_permit_update (\<lambda>_. Some p)) f"
        using not_begun(3) [OF b [unfolded Inl]] by (simp add: in_fetch_def)
      ultimately show ?thesis using Granted True b Inl by (simp add: fetch_permit_def)
    next
      case (Inr j)
      have fit: "life_fit (f_life f)" using f by (simp add: fetch_ok_def)
      note l = begin_Inr [OF b [unfolded Inr] fit]
      let ?f = "to_fetch_stage k Fc_session ((in_fetch k (fc_permit_update (\<lambda>_. Some p)) f)
        \<lparr>f_life := l, f_queue := new_in_queue l (f_queue f), f_session := Some (Session_opening j), f_created := Suc (f_created f)\<rparr>)"
      have calls: "f_calls ?f = (f_calls f)[k := (f_calls f ! k)\<lparr>fc_stage := Fc_session, fc_permit := Some p\<rparr>]" and "f_life ?f = l"
        using k by (simp_all add: restage_commute)
      have "fetch_calls_ok f" "fetch_unfinished (fc_stage (f_calls f ! k))" using f at by (simp_all add: fetch_ok_def fetch_at_def)
      then have "fetch_calls_ok ?f" by (rule calls_restage [OF _ k _ _ calls]) (use l \<open>f_life ?f = l\<close> in auto)
      moreover have "fc_operation ` set (f_calls ?f) = fc_operation ` set (f_calls f)" unfolding calls by (rule calls_update(2) [OF k]) simp
      then have "fetch_session_ok ?f"
        using f True l by (auto simp: fetch_ok_def fetch_session_ok_def fetch_calls_ok_def list_all_iff fetch_call_ok_def)
      moreover have "fetch_closing_ok ?f"
        using f l True by (auto simp: fetch_ok_def fetch_closing_ok_def life_stopped_def split: option.splits fetch_closing.splits)
      ultimately have "fetch_ok ?f" using l(6) by (simp add: fetch_ok_def)
      with Granted True b Inr show ?thesis by (simp add: fetch_permit_def)
    qed
  qed
qed

lemma ok_session_settles: "fetch_ok f \<Longrightarrow> fetch_ok (fetch_session_settles r f)"
proof (cases "\<exists>j. f_session f = Some (Session_opening j)")
  case True
  assume f: "fetch_ok f"
  then obtain j where j: "f_session f = Some (Session_opening j)" "j \<in> set (operations (f_life f))" "j \<notin> fc_operation ` set (f_calls f)"
    using True by (auto simp: fetch_ok_def fetch_session_ok_def)
  have "\<not> life_stopped (f_life f)" using fetch_no_operations [OF f] j(2) by auto
  with f j fit_done [of "f_life f" j] show ?thesis
    by (auto simp: fetch_ok_def fetch_session_settles_def fetch_calls_ok_def fetch_call_ok_def fetch_session_ok_def fetch_closing_ok_def op_done_operations
        list_all_iff split: option.splits fetch_closing.splits sum.splits)
next
  case False
  assume "fetch_ok f"
  with False show ?thesis by (simp add: fetch_session_settles_def split: option.split session_promise.split)
qed

lemma ok_raced: "fetch_ok f \<Longrightarrow> fetch_at f k Fc_session \<Longrightarrow> fetch_ok (fetch_raced expired now k f)"
  using ok_ends [of f k] ok_restage [of f k Fc_session Fc_streaming "fc_permit (f_calls f ! k)"]
  by (auto simp: fetch_raced_def to_stage_restage fetch_at_def simp del: not_None_eq split: option.split session_promise.split)

lemma ok_streamed: "fetch_ok f \<Longrightarrow> fetch_at f k Fc_streaming \<Longrightarrow> fetch_ok (fetch_streamed k failed f)"
  using ok_ends [of f k] ok_restage [of f k Fc_streaming Fc_open "fc_permit (f_calls f ! k)"]
  by (auto simp: fetch_streamed_def to_stage_restage fetch_at_def split: option.split)

lemma ok_closing: "fetch_ok f \<Longrightarrow> fetch_closing_ok (f\<lparr>f_closing := c, f_removed := r\<rparr>) \<Longrightarrow> fetch_ok (f\<lparr>f_closing := c, f_removed := r\<rparr>)"
  by (auto simp: fetch_ok_def fetch_calls_ok_def fetch_session_ok_def split: option.splits session_promise.splits)

lemma ok_closing_only: "fetch_ok f \<Longrightarrow> fetch_closing_ok (f\<lparr>f_closing := c\<rparr>) \<Longrightarrow> fetch_ok (f\<lparr>f_closing := c\<rparr>)"
  by (auto simp: fetch_ok_def fetch_calls_ok_def fetch_session_ok_def split: option.splits session_promise.splits)

lemma ok_close: "fetch_ok f \<Longrightarrow> fetch_ok (fetch_close now f)"
proof (cases "f_closing f")
  case None
  assume f: "fetch_ok f"
  let ?l = "snd (lifetime_close JUndef JUndef (f_life f))"
  have "fetch_ok (f\<lparr>f_life := ?l\<rparr>)"
    using f None by (auto simp: fetch_ok_def fetch_calls_ok_def fetch_call_ok_def fetch_session_ok_def fetch_closing_ok_def list_all_iff
        intro: fit_close split: option.splits session_promise.splits)
  then have all: "fetch_ok (f\<lparr>f_life := ?l, f_queue := q\<rparr>)" for q
    using fetch_ok_queue [where f = "f\<lparr>f_life := ?l\<rparr>" and q = q] by simp
  then have "fetch_ok (f\<lparr>f_life := ?l, f_queue := q, f_closing := Some (F_stopping d)\<rparr>)" for d q
    using ok_closing_only [of "f\<lparr>f_life := ?l, f_queue := q\<rparr>" "Some (F_stopping d)"] by (simp add: fetch_closing_ok_def)
  with all None show ?thesis by (simp add: fetch_close_def Let_def split: sum.split)
qed (simp add: fetch_close_def)

lemma ok_close_stopped: "fetch_ok f \<Longrightarrow> fetch_ok (fetch_close_stopped expired f)"
  by (auto simp: fetch_close_stopped_def fetch_closing_ok_def simp del: not_None_eq intro!: ok_closing_only split: option.split fetch_closing.split)

lemma ok_close_session: "fetch_ok f \<Longrightarrow> fetch_ok (fetch_close_session expired f)"
  by (auto simp: fetch_close_session_def fetch_ok_def [of f] fetch_closing_ok_def simp del: not_None_eq intro!: ok_closing_only
      split: option.splits fetch_closing.splits session_promise.splits)

lemma ok_close_removed: "fetch_ok f \<Longrightarrow> fetch_ok (fetch_close_removed expired failed f)"
  by (auto simp: fetch_close_removed_def fetch_ok_def [of f] fetch_closing_ok_def simp del: not_None_eq intro!: ok_closing ok_closing_only
      split: option.splits fetch_closing.splits)

lemma ok_close_fires: "fetch_ok f \<Longrightarrow> fetch_ok (fetch_close_fires f)"
  unfolding fetch_close_fires_def by (rule ok_closing_only) (auto simp: fetch_ok_def fetch_closing_ok_def split: option.splits fetch_closing.splits)

lemma ok_fires: "fetch_ok f \<Longrightarrow> fetch_ok (fetch_fires d c f)"
proof -
  assume f: "fetch_ok f"
  have "fetch_ok (f\<lparr>f_life := deadline_fires d (change_deadline c) (f_life f)\<rparr>)"
    using f fit_others(2) [of "f_life f" "change_deadline c" d, OF _ change_deadline_aborted]
    by (intro ok_life) (auto simp: fetch_ok_def stopped_quiet)
  then have "fetch_ok (f\<lparr>f_life := deadline_fires d (change_deadline c) (f_life f), f_queue := q\<rparr>)" for q
    using fetch_ok_queue [where f = "f\<lparr>f_life := deadline_fires d (change_deadline c) (f_life f)\<rparr>" and q = q] by simp
  with f show ?thesis by (simp add: fetch_fires_def)
qed

lemma fetch_step_ok: "fetch_step f f' \<Longrightarrow> fetch_ok f \<Longrightarrow> fetch_ok f'"
proof (induction rule: fetch_step.induct)
  case (life_stops f)
  then show ?case by (intro ok_life) (auto simp: fetch_ok_def stopped_quiet intro: fit_stop)
qed (simp_all add: ok_fires ok_execute ok_permit ok_session_settles ok_raced ok_streamed ok_close ok_close_stopped ok_close_session ok_close_removed ok_close_fires
    ok_ends fetch_at_def)

lemma created_fields:
  assumes "createScopedFetch t m opts = Inr f"
  shows "f_life f = new_Lifetime" "f_calls f = []" "f_session f = None" "f_closing f = None" "f_created f = 0"
    "new_Admission fetch_limits = Inr (f_queue f)"
  using assms unfolding createScopedFetch_def by (auto split: option.splits if_split_asm sum.splits)

lemma fetch_reachable_ok: "fetch_reachable f \<Longrightarrow> fetch_ok f"
proof (induction rule: fetch_reachable.induct)
  case (fetch_new t m opts f)
  note created_fields [OF fetch_new]
  with fit_new show ?case by (simp add: fetch_ok_def fetch_calls_ok_def fetch_session_ok_def fetch_closing_ok_def)
qed (rule fetch_step_ok)

subsection \<open>Permits\<close>

text \<open>A request runs from the grant of its permit until its exchange has completed or it has failed.\<close>

fun fetch_running :: "fetch_stage \<Rightarrow> bool" where
  "fetch_running Fc_acquiring = False"
| "fetch_running (Fc_done _) = False"
| "fetch_running _ = True"

definition call_claim :: "fetch_call \<Rightarrow> claim" where
  "call_claim c = (case fc_stage c of Fc_acquiring \<Rightarrow> Asking | _ \<Rightarrow> (case fc_permit c of Some p \<Rightarrow> Holding p | None \<Rightarrow> Over))"

definition call_claims :: "admission \<Rightarrow> fetch_call \<Rightarrow> bool" where
  "call_claims q c \<longleftrightarrow> fc_promise c < promises q \<and> (fc_permit c \<noteq> None \<longleftrightarrow> fetch_running (fc_stage c)) \<and>
     queue.claim_ok q (fc_promise c) (call_claim c)"

definition claims_ok :: "admission \<Rightarrow> fetch_call list \<Rightarrow> bool" where
  "claims_ok q cs \<longleftrightarrow> adm_reachable fetch_limits q \<and> distinct (map fc_promise cs) \<and> list_all (call_claims q) cs"

lemma claims_move: "claims_ok q cs \<Longrightarrow> pool_step q q' \<Longrightarrow> claims_ok q' cs"
  using queue.moves [of fetch_limits q q'] queue.claim_moves [of fetch_limits q q'] pool_step_promises [of q q']
  by (fastforce simp: claims_ok_def call_claims_def list_all_iff)

lemma claims_ask:
  assumes "claims_ok q cs" and "d < length (deadlines q)" and "fc_promise c = promises q" "fc_permit c = None" "fc_stage c = Fc_acquiring"
  shows "claims_ok (acquire part d diag u q) (cs @ [c])"
proof -
  have q: "adm_reachable fetch_limits q" and step: "pool_step q (acquire part d diag u q)" using assms(1,2) by (simp_all add: claims_ok_def asks)
  have "call_claims (acquire part d diag u q) c"
    using queue.claim_new [OF q step] assms(3-5) by (simp add: call_claims_def call_claim_def)
  moreover have "promises q \<notin> set (map fc_promise cs)" using assms(1) by (force simp: claims_ok_def call_claims_def list_all_iff)
  ultimately show ?thesis using claims_move [OF assms(1) step] assms(3) by (simp add: claims_ok_def)
qed

lemma claims_update:
  assumes "claims_ok q cs" and "k < length cs" and "fc_promise c = fc_promise (cs ! k)" and "call_claims q c"
  shows "claims_ok q (cs[k := c])"
proof -
  have "map fc_promise (cs[k := c]) = map fc_promise cs" using assms(2,3) by (simp add: map_update list_update_same_conv)
  moreover have "list_all (call_claims q) (cs[k := c])"
    using assms set_update_subset_insert [of cs k c] by (auto simp: claims_ok_def list_all_iff)
  ultimately show ?thesis using assms(1) by (simp add: claims_ok_def)
qed

lemma claims_granted:
  assumes "claims_ok q cs" and "k < length cs" and "fc_stage (cs ! k) = Fc_acquiring" and "(fc_promise (cs ! k), part, Granted p) \<in> set (settled q)"
    and "fetch_running st"
  shows "claims_ok q (cs[k := (cs ! k)\<lparr>fc_stage := st, fc_permit := Some p\<rparr>])"
proof -
  have "call_claims q (cs ! k)" using assms(1,2) by (simp add: claims_ok_def list_all_length)
  moreover have "(fc_promise (cs ! k), p) \<in> granted_permits q" using assms(4) by (auto simp: granted_permits_def)
  ultimately have "call_claims q ((cs ! k)\<lparr>fc_stage := st, fc_permit := Some p\<rparr>)"
    using assms(3,5) by (cases st) (simp_all add: call_claims_def call_claim_def)
  with assms(1,2) show ?thesis by (intro claims_update) simp_all
qed

lemma claims_restage:
  assumes "claims_ok q cs" and "k < length cs" and "fetch_running (fc_stage (cs ! k))" and "fetch_running st"
  shows "claims_ok q (cs[k := (cs ! k)\<lparr>fc_stage := st\<rparr>])"
proof -
  have "call_claims q (cs ! k)" using assms(1,2) by (simp add: claims_ok_def list_all_length)
  then have "call_claims q ((cs ! k)\<lparr>fc_stage := st\<rparr>)"
    using assms(3,4) by (cases st; cases "fc_stage (cs ! k)") (simp_all add: call_claims_def call_claim_def)
  with assms(1,2) show ?thesis by (intro claims_update) simp_all
qed

text \<open>A call that ends gives its permit back, and the claims of the others stand.\<close>

lemma claims_end:
  assumes "claims_ok q cs" and k: "k < length cs"
  shows "claims_ok (case fc_permit (cs ! k) of None \<Rightarrow> q | Some p \<Rightarrow> release_permit p q) (cs[k := (cs ! k)\<lparr>fc_stage := Fc_done e, fc_permit := None\<rparr>])"
proof -
  let ?c = "(cs ! k)\<lparr>fc_stage := Fc_done e, fc_permit := None\<rparr>"
  let ?q = "case fc_permit (cs ! k) of None \<Rightarrow> q | Some p \<Rightarrow> release_permit p q"
  have q: "adm_reachable fetch_limits q" and d: "distinct (map fc_promise cs)" and all: "\<And>j. j < length cs \<Longrightarrow> call_claims q (cs ! j)"
    using assms(1) by (simp_all add: claims_ok_def list_all_length)
  have "call_claims ?q ((cs[k := ?c]) ! j)" if j: "j < length cs" for j
  proof (cases "j = k")
    case True
    with all [OF k] k show ?thesis by (simp add: call_claims_def call_claim_def split: option.split)
  next
    case False
    have other: "fc_promise (cs ! k) \<noteq> fc_promise (cs ! j)" using d j k False by (simp add: distinct_conv_nth)
    have "queue.claim_ok (release_permit p q) (fc_promise (cs ! j)) (call_claim (cs ! j))" if p: "fc_permit (cs ! k) = Some p" for p
    proof (rule queue.claim_given_back [OF q _ _ other])
      show "queue.claim_ok q (fc_promise (cs ! k)) (Holding p)"
        using all [OF k] p by (cases "fc_stage (cs ! k)") (auto simp: call_claims_def call_claim_def)
      show "queue.claim_ok q (fc_promise (cs ! j)) (call_claim (cs ! j))" using all [OF j] by (simp add: call_claims_def)
    qed
    with all [OF j] False show ?thesis by (simp add: call_claims_def split: option.split)
  qed
  moreover have "map fc_promise (cs[k := ?c]) = map fc_promise cs" using k by (simp add: map_update list_update_same_conv)
  moreover have "adm_reachable fetch_limits ?q" using q queue.give_back [OF q] by (simp split: option.split)
  ultimately show ?thesis using d by (simp add: claims_ok_def list_all_length)
qed

lemma claims_room:
  assumes "claims_ok q cs"
  shows "length (filter (\<lambda>c. fetch_running (fc_stage c)) cs) \<le> 16"
proof -
  let ?cs = "map (\<lambda>c. (fc_promise c, call_claim c)) cs"
  have all: "call_claims q c" if "c \<in> set cs" for c using that assms by (simp add: claims_ok_def list_all_iff)
  have "fetch_running (fc_stage c) \<longleftrightarrow> (\<exists>p. call_claim c = Holding p)" if "c \<in> set cs" for c
    using all [OF that] by (cases "fc_stage c") (auto simp: call_claims_def call_claim_def split: option.splits)
  then have "filter (\<lambda>c. fetch_running (fc_stage c)) cs = filter (\<lambda>c. \<exists>p. call_claim c = Holding p) cs" by (rule filter_cong [OF refl])
  then have "length (filter (\<lambda>c. fetch_running (fc_stage c)) cs) = length (filter (\<lambda>(a, c). \<exists>p. c = Holding p) ?cs)"
    by (simp add: filter_map comp_def)
  also have "\<dots> \<le> nat (maxConcurrent fetch_limits)"
  proof (rule queue.claims_within_room)
    show "adm_reachable fetch_limits q" "distinct (map fst ?cs)" using assms by (simp_all add: claims_ok_def comp_def)
    show "queue.claim_ok q a c" if "(a, c) \<in> set ?cs" for a c using that all by (auto simp: call_claims_def)
  qed
  finally show ?thesis by (simp add: fetch_limits_def)
qed

text \<open>The claims of the calls of a fetch, and the deadlines of its lifetime known to its queue.\<close>

definition fetch_queue_ok :: "fetcher \<Rightarrow> bool" where
  "fetch_queue_ok f \<longleftrightarrow> claims_ok (f_queue f) (f_calls f) \<and> length (deadlines (f_queue f)) = length (store (f_life f))"

lemma stores [simp]:
  "length (store (op_done i l)) = length (store l)" "length (store (deadline_fires d g l)) = length (store l)"
  "length (store (stop_ends l)) = length (store l)" "length (store (snd (lifetime_close t v l))) = length (store l)"
proof -
  have "length (store (fold (\<lambda>i. abort_deadline r (g i)) xs l)) = length (store l)" for r g xs and l :: lifetime
    by (induction xs arbitrary: l) (simp_all add: abort_deadline_def)
  then show "length (store (snd (lifetime_close t v l))) = length (store l)"
    by (simp add: lifetime_close_def abort_operations_def Let_def split: sum.split)
qed (simp_all add: op_done_def deadline_fires_def stop_ends_def Let_def split: option.split closing_stage.split)

lemma begin_store:
  "begin_js v now parent l = (Inr i, l') \<Longrightarrow> \<exists>d. store l' = store l @ [d] \<and> op_deadline (registered l' ! i) = length (store l)"
  by (auto simp: begin_js_def lifetime_begin_def register_def Let_def split: jsval.splits option.splits sum.splits)

lemma queue_ends: "fetch_queue_ok f \<Longrightarrow> k < length (f_calls f) \<Longrightarrow> fetch_queue_ok (fetch_ends k e f)"
  using claims_end [of "f_queue f" "f_calls f" k e] by (simp add: fetch_queue_ok_def split: option.split)

lemma queue_restage:
  "fetch_queue_ok f \<Longrightarrow> fetch_at f k st \<Longrightarrow> fetch_running st \<Longrightarrow> fetch_running st' \<Longrightarrow> fetch_queue_ok (to_fetch_stage k st' f)"
  using claims_restage [of "f_queue f" "f_calls f" k st'] by (simp add: fetch_queue_ok_def fetch_at_def)

lemma queue_execute: "fetch_queue_ok f \<Longrightarrow> fetch_queue_ok (snd (fetch_execute host now parent r f))"
proof -
  assume f: "fetch_queue_ok f"
  let ?v = "nullish_or (get r ''timeoutMs'') (get (f_settings f) ''timeoutMs'')"
  obtain o' l where b: "begin_js ?v now parent (f_life f) = (o', l)" by fastforce
  show ?thesis
  proof (cases o')
    case (Inl e)
    from not_begun(3) [OF b [unfolded Inl]] b Inl f show ?thesis by (auto simp: fetch_execute_def split: option.splits)
  next
    case (Inr i)
    obtain d where d: "store l = store (f_life f) @ [d]" "op_deadline (registered l ! i) = length (store (f_life f))"
      using begin_store [OF b [unfolded Inr]] by blast
    have "claims_ok (new_in_queue l (f_queue f)) (f_calls f)"
      using f claims_move [OF _ starts] by (simp add: fetch_queue_ok_def new_in_queue_def)
    from claims_ask [OF this, of "length (store (f_life f))"] f d b Inr show ?thesis
      by (auto simp: fetch_execute_def fetch_queue_ok_def new_in_queue_def add_deadline_def split: option.splits)
  qed
qed

lemma queue_permit:
  assumes f: "fetch_queue_ok f" and at: "fetch_at f k Fc_acquiring" and r: "(fc_promise (f_calls f ! k), part, r) \<in> set (settled (f_queue f))"
  shows "fetch_queue_ok (fetch_permit now k r f)"
proof (cases r)
  case (Rejected e)
  with queue_ends [OF f] at show ?thesis by (simp add: fetch_permit_def fetch_at_def)
next
  case (Granted p)
  have k: "k < length (f_calls f)" "fc_stage (f_calls f ! k) = Fc_acquiring" using at by (simp_all add: fetch_at_def)
  have len: "length (deadlines (f_queue f)) = length (store (f_life f))" using f by (simp add: fetch_queue_ok_def)
  have go: "claims_ok (f_queue f) ((f_calls f)[k := (f_calls f ! k)\<lparr>fc_stage := st, fc_permit := Some p\<rparr>])" if "fetch_running st" for st
    using claims_granted [OF _ k r [unfolded Granted] that] f by (simp add: fetch_queue_ok_def)
  obtain o' l where b: "begin_js (get (f_settings f) ''timeoutMs'') now None (f_life f) = (o', l)" by fastforce
  show ?thesis
  proof (cases "uses_session f \<and> f_session f = None")
    case False
    with Granted go k len show ?thesis by (auto simp: fetch_permit_def fetch_queue_ok_def Let_def restage_commute)
  next
    case True
    show ?thesis
    proof (cases o')
      case (Inl e)
      from claims_end [OF go, of Fc_session k "Some e"] k Granted True b Inl len not_begun(3) [OF b [unfolded Inl]] show ?thesis
        by (simp add: fetch_permit_def fetch_queue_ok_def restage_commute)
    next
      case (Inr j)
      obtain d where d: "store l = store (f_life f) @ [d]" using begin_store [OF b [unfolded Inr]] by blast
      have "claims_ok (new_in_queue l (f_queue f)) ((f_calls f)[k := (f_calls f ! k)\<lparr>fc_stage := Fc_session, fc_permit := Some p\<rparr>])"
        unfolding new_in_queue_def by (rule claims_move [OF go starts]) simp
      with k Granted True b Inr len d show ?thesis
        by (simp add: fetch_permit_def fetch_queue_ok_def new_in_queue_def add_deadline_def restage_commute)
    qed
  qed
qed

lemma queue_closed:
  assumes "claims_ok q cs" and "\<And>i. i \<in> set xs \<Longrightarrow> g i < length (deadlines q)"
  shows "claims_ok (fold (\<lambda>i. deadline_event (g i) (change_deadline c)) xs q) cs \<and>
    length (deadlines (fold (\<lambda>i. deadline_event (g i) (change_deadline c)) xs q)) = length (deadlines q)"
  using assms
proof (induction xs arbitrary: q)
  case (Cons x xs)
  have "claims_ok (deadline_event (g x) (change_deadline c) q) cs"
    using Cons.prems by (intro claims_move [OF _ expires]) simp_all
  with Cons.IH [of "deadline_event (g x) (change_deadline c) q"] Cons.prems(2) show ?case by simp
qed simp

lemma queue_close_ok: "fetch_queue_ok f \<Longrightarrow> life_ok (f_life f) \<Longrightarrow> fetch_queue_ok (fetch_close now f)"
proof -
  assume f: "fetch_queue_ok f" and l: "life_ok (f_life f)"
  have "claims_ok (queue_close (f_life f) (f_queue f)) (f_calls f) \<and>
      length (deadlines (queue_close (f_life f) (f_queue f))) = length (deadlines (f_queue f))"
    using f l queue_closed [of "f_queue f" "f_calls f" "operations (f_life f)" "\<lambda>i. op_deadline (registered (f_life f) ! i)"]
    by (simp add: queue_close_def fetch_queue_ok_def life_ok_def ops_ok_def)
  with f show ?thesis by (simp add: fetch_close_def fetch_queue_ok_def Let_def split: sum.split)
qed

lemma queue_fires: "fetch_queue_ok f \<Longrightarrow> fetch_queue_ok (fetch_fires d c f)"
  using claims_move [OF _ expires, of "f_queue f" "f_calls f" d c] by (simp add: fetch_fires_def fetch_queue_ok_def)

lemma queue_others:
  assumes "fetch_queue_ok f" and "f_queue f' = f_queue f" and "f_calls f' = f_calls f" and "length (store (f_life f')) = length (store (f_life f))"
  shows "fetch_queue_ok f'"
  using assms by (simp add: fetch_queue_ok_def)

lemma queue_step: "fetch_step f f' \<Longrightarrow> fetch_queue_ok f \<Longrightarrow> life_ok (f_life f) \<Longrightarrow> fetch_queue_ok f'"
proof (induction rule: fetch_step.induct)
  case (permitted f k part r now)
  then show ?case by (intro queue_permit)
next
  case (raced f k expired now)
  then show ?case using queue_ends [of f k] queue_restage [of f k Fc_session Fc_streaming]
    by (auto simp: fetch_raced_def fetch_at_def split: option.split session_promise.split)
next
  case (streamed f k failed)
  then show ?case using queue_ends [of f k] queue_restage [of f k Fc_streaming Fc_open]
    by (auto simp: fetch_streamed_def fetch_at_def split: option.split)
next
  case (completed f k)
  then show ?case by (intro queue_ends) (simp_all add: fetch_at_def)
next
  case (ticks f t)
  then show ?case using claims_move [OF _ passes, of "f_queue f" "f_calls f" t] by (simp add: fetch_queue_ok_def)
qed (simp_all add: queue_execute queue_close_ok queue_fires, auto simp: fetch_session_settles_def fetch_close_stopped_def fetch_close_session_def
    fetch_close_removed_def fetch_close_fires_def elim!: queue_others split: option.split session_promise.split fetch_closing.split sum.split)

lemma fetch_reachable_queue: "fetch_reachable f \<Longrightarrow> fetch_queue_ok f"
proof (induction rule: fetch_reachable.induct)
  case (fetch_new t m opts f)
  note new = created_fields [OF fetch_new]
  have "deadlines (f_queue f) = []" using new(6) by (auto simp: new_Admission_def dest: arg_cong [where f = deadlines] split: if_splits)
  with new adm_reachable.start [OF new(6)] show ?case by (simp add: fetch_queue_ok_def claims_ok_def new_Lifetime_def)
next
  case (fetch_moves f f')
  then show ?case using queue_step fetch_reachable_ok by (simp add: fetch_ok_def life_fit_def)
qed

subsection \<open>Properties\<close>

text \<open>
  C9: When the close of a scoped fetch has resolved, every call it accepted has ended and none holds a
  permit, the session it opened, if any, has been closed, no session is still being opened, and new
  calls are refused.
\<close>

theorem fetch_close_complete:
  assumes "fetch_reachable f" and "f_closing f = Some F_done"
  shows "list_all (\<lambda>c. \<not> fetch_unfinished (fc_stage c) \<and> fc_permit c = None) (f_calls f) \<and>
    (case f_session f of Some (Session_opening j) \<Rightarrow> False | Some (Session_ready h) \<Rightarrow> h \<in> set (f_removed f) | _ \<Rightarrow> True) \<and>
    fetch_execute host now parent r f = (Some client_closed, f)"
proof -
  have ok: "fetch_ok f" using fetch_reachable_ok [OF assms(1)] .
  then have stopped: "life_stopped (f_life f)" using assms(2) by (simp add: fetch_ok_def fetch_closing_ok_def)
  note none = fetch_no_operations [OF ok stopped]
  have "closed (f_life f)"
    using ok stopped fit_closed [of "f_life f"] by (auto simp: fetch_ok_def life_stopped_def split: option.splits)
  then have "fetch_execute host now parent r f = (Some client_closed, f)" by (simp add: fetch_execute_def assertOpen_def)
  moreover have "list_all (\<lambda>c. \<not> fetch_unfinished (fc_stage c) \<and> fc_permit c = None) (f_calls f)"
    using ok none by (auto simp: fetch_ok_def fetch_calls_ok_def fetch_call_ok_def list_all_iff simp del: not_None_eq)
  moreover have "case f_session f of Some (Session_opening j) \<Rightarrow> False | Some (Session_ready h) \<Rightarrow> h \<in> set (f_removed f) | _ \<Rightarrow> True"
    using ok none assms(2) by (auto simp: fetch_ok_def fetch_session_ok_def fetch_closing_ok_def split: option.splits session_promise.splits)
  ultimately show ?thesis by blast
qed

lemma settings_kept [simp]: "f_settings (to_fetch_stage k st f) = f_settings f" "f_settings (fetch_ends k e f) = f_settings f"
  by (simp_all add: to_fetch_stage_def fetch_ends_def)

lemma stateless_step: "fetch_step f f' \<Longrightarrow> (uses_session f \<or> f_session f = None) \<Longrightarrow> uses_session f' \<or> f_session f' = None"
  by (induction rule: fetch_step.induct)
    (auto simp: uses_session_def fetch_execute_def fetch_permit_def fetch_session_settles_def fetch_raced_def fetch_streamed_def fetch_close_def
      fetch_close_stopped_def fetch_close_session_def fetch_close_removed_def fetch_close_fires_def fetch_fires_def Let_def
      split: option.splits session_promise.splits fetch_closing.splits sum.splits prod.splits settlement.splits)

lemma stateless_reachable: "fetch_reachable f \<Longrightarrow> uses_session f \<or> f_session f = None"
proof (induction rule: fetch_reachable.induct)
  case (fetch_new t m opts f)
  then show ?case using created_fields [OF fetch_new] by simp
qed (rule stateless_step)

text \<open>
  C10: A scoped fetch never has more than sixteen requests running: a request runs from the grant of
  its permit, through the opening of the session and the response head, until its exchange has
  completed or it has failed. No more than 128 wait for their turn. The fetch opens at most one session
  in its life, however many calls arrive before the session is there, and none when it is stateless.
\<close>

theorem fetch_within_limits:
  assumes "fetch_reachable f"
  shows "length (filter (\<lambda>c. fetch_running (fc_stage c)) (f_calls f)) \<le> 16 \<and> length (waiting (f_queue f)) \<le> 128 \<and>
    f_created f = (if f_session f = None then 0 else 1) \<and> (uses_session f \<or> f_created f = 0)"
proof -
  have "claims_ok (f_queue f) (f_calls f)" using fetch_reachable_queue [OF assms] by (simp add: fetch_queue_ok_def)
  then have "length (filter (\<lambda>c. fetch_running (fc_stage c)) (f_calls f)) \<le> 16" "bounded fetch_limits (f_queue f)"
    using claims_room adm_reachable_good by (simp_all add: claims_ok_def good_def)
  then show ?thesis
    using fetch_reachable_ok [OF assms] stateless_reachable [OF assms]
    by (auto simp: fetch_ok_def fetch_session_ok_def bounded_def fetch_limits_def)
qed

lemma drain_empty_None: "drain_empty es = None \<longleftrightarrow> list_all (\<lambda>e. e = ReadChunk []) es"
  by (induction es rule: drain_empty.induct) auto

lemma withReferences_carries: "refs \<noteq> None \<Longrightarrow> te_references (withReferences e refs) = refs"
  by (auto simp: withReferences_def new_TransportError_def)

text \<open>
  C11: What \<open>fetchResponse\<close> ends with, on every path. Input that makes no request is refused, and
  nothing else happens. When no exchange was obtained, its error is thrown and the request's body, if
  there is one that nobody reads, is cancelled. A response is handed out only for an exchange that fits
  it: it has the status, the headers, the address and the exchange of the request; its body is the
  exchange's own stream, or, for a request or a status without a body, nothing, and then only after the
  stream has ended without a byte and the exchange has completed. In every other case the exchange is
  closed and the error carries its references.
\<close>

theorem fetch_response_outcome:
  "case (made, executed) of
     (None, _) \<Rightarrow> fetch_response made executed events completion refusal = (Inl invalid_input, [])
   | (Some q, Inl t) \<Rightarrow> fetch_response made executed events completion refusal =
       (Inl (safeError t localDiagnostics False), if pr_body q \<and> \<not> pr_locked q then [Cancel_body] else [])
   | (Some q, Inr x) \<Rightarrow> (case fetch_response made executed events completion refusal of
       (Inr r, fx) \<Rightarrow> fx = [] \<and> fr_status r = v_status x \<and> fr_headers r = v_headers x \<and> fr_url r = pr_url q \<and> fr_exchange r = x \<and> constructible x \<and>
         fr_streams r = (\<not> no_body (pr_method q) (v_status x)) \<and> (fr_streams r \<or> list_all (\<lambda>e. e = ReadChunk []) events \<and> completion = None)
     | (Inl e, fx) \<Rightarrow> fx = [Close_exchange] \<and> (v_references x = None \<or> te_references e = v_references x) \<and>
         (no_body (pr_method q) (v_status x) \<and> (\<not> list_all (\<lambda>e. e = ReadChunk []) events \<or> completion \<noteq> None) \<or> \<not> constructible x))"
proof -
  have "case fetch_response (Some q) (Inr x) events completion refusal of
      (Inr r, fx) \<Rightarrow> fx = [] \<and> fr_status r = v_status x \<and> fr_headers r = v_headers x \<and> fr_url r = pr_url q \<and> fr_exchange r = x \<and> constructible x \<and>
        fr_streams r = (\<not> no_body (pr_method q) (v_status x)) \<and> (fr_streams r \<or> list_all (\<lambda>e. e = ReadChunk []) events \<and> completion = None)
    | (Inl e, fx) \<Rightarrow> fx = [Close_exchange] \<and> (v_references x = None \<or> te_references e = v_references x) \<and>
        (no_body (pr_method q) (v_status x) \<and> (\<not> list_all (\<lambda>e. e = ReadChunk []) events \<or> completion \<noteq> None) \<or> \<not> constructible x)" for q x
  proof (cases "build_response q x events completion refusal")
    case (Inl e)
    then have "no_body (pr_method q) (v_status x) \<and> (\<not> list_all (\<lambda>e. e = ReadChunk []) events \<or> completion \<noteq> None) \<or> \<not> constructible x"
      unfolding drain_empty_None [symmetric] by (auto simp: build_response_def Let_def split: option.splits if_splits)
    moreover have "v_references x = None \<or> te_references (withReferences (safeError e localDiagnostics False) (v_references x)) = v_references x"
      using withReferences_carries by blast
    ultimately show ?thesis using Inl by (simp add: fetch_response_def)
  next
    case (Inr r)
    then have "fr_streams r = (\<not> no_body (pr_method q) (v_status x)) \<and> (fr_streams r \<or> list_all (\<lambda>e. e = ReadChunk []) events \<and> completion = None)"
      unfolding drain_empty_None [symmetric] by (auto simp: build_response_def attachExchange_def Let_def split: option.splits if_splits)
    with Inr show ?thesis by (auto simp: fetch_response_def build_response_def attachExchange_def Let_def split: option.splits if_splits)
  qed
  then show ?thesis by (cases made; cases executed) (auto simp: fetch_response_def)
qed

definition sample_head :: platform_request where
  "sample_head = \<lparr>pr_url = js ''http://h/'', pr_method = js ''HEAD'', pr_body = False, pr_locked = False\<rparr>"

definition sample_view :: exchange_view where
  "sample_view = \<lparr>v_status = 200, v_headers = JArr [], v_references = Some [(js ''k'', js ''v'')]\<rparr>"

theorem fetch_response_outcome_witness:
  "case fetch_response (Some sample_head) (Inr sample_view) [ReadChunk [], ReadChunk [1]] None JNull of (Inl e, fx) \<Rightarrow> fx = [Close_exchange] | _ \<Rightarrow> False"
  using fetch_response_outcome [where made = "Some sample_head" and executed = "Inr sample_view" and events = "[ReadChunk [], ReadChunk [1]]"
      and completion = None and refusal = JNull]
  by (simp add: fetch_response_def build_response_def sample_head_def sample_view_def no_body_def)

definition sample_fetch :: fetcher where
  "sample_fetch = \<lparr>f_settings = JObj [(js ''partition'', jstr ''p''), (js ''context'', jstr ''session''), (js ''timeoutMs'', jint 5), (js ''maxResponseBytes'', jint 9),
     (js ''connection'', JUndef)], f_life = new_Lifetime,
     f_queue = \<lparr>active = 0, byPartition = Map.empty, queuedByPartition = Map.empty, waiting = [], reserved = 0, reservedByPartition = Map.empty,
       limits = fetch_limits, permits = [], reservations = [], deadlines = [], clock = 0, settled = [], promises = 0\<rparr>, f_calls = [], f_session = None, f_closing = None, f_created = 0, f_removed = []\<rparr>"

lemma sample_fetch_reachable: "fetch_reachable sample_fetch"
  by (rule fetch_new [of "jint 5" "jint 9" "JObj [(js ''partition'', jstr ''p''), (js ''context'', jstr ''session'')]"])
    (simp add: createScopedFetch_def sample_fetch_def validatePartition_def re_opaque_def re_class_def units_def lower_def js_def nullish_or_def set_props_def
      new_Admission_def fetch_limits_def MAX_SAFE_INTEGER_def)

definition sample_fetch_asked :: fetcher where
  "sample_fetch_asked = fetch_permit 0 0 (Granted 0) (snd (fetch_execute None 0 None JUndef sample_fetch))"

definition sample_fetch_answered :: fetcher where
  "sample_fetch_answered = fetch_ends 0 None (fetch_streamed 0 None (fetch_raced False 0 0 (fetch_session_settles (Inr 3) sample_fetch_asked)))"

definition sample_fetch_done :: fetcher where
  "sample_fetch_done = fetch_close_removed False None (fetch_close_session False (fetch_close_stopped False ((fetch_close 0 sample_fetch_answered)
     \<lparr>f_life := stop_ends (f_life (fetch_close 0 sample_fetch_answered))\<rparr>)))"

lemmas fetch_eval = fetch_permit_def fetch_execute_def sample_fetch_def new_Lifetime_def assertOpen_def begin_js_def lifetime_begin_def new_Deadline_def
  timeoutValue_def MAX_TIMEOUT_MS_def MAX_SAFE_INTEGER_def register_def Let_def nullish_or_def uses_session_def to_fetch_stage_def in_fetch_def
  new_in_queue_def add_deadline_def acquire_def available_def settle_def occupy_def count_of_def fetch_limits_def

lemma sample_fetch_asked_state: "f_calls sample_fetch_asked = [\<lparr>fc_operation = 0, fc_promise = 0, fc_permit = Some 0, fc_stage = Fc_session\<rparr>]"
    "f_session sample_fetch_asked = Some (Session_opening 1)" "f_created sample_fetch_asked = 1" "f_closing sample_fetch_asked = None" "f_removed sample_fetch_asked = []"
    "f_settings sample_fetch_asked = f_settings sample_fetch"
    "f_life sample_fetch_asked = snd (lifetime_begin (Num 5) 0 None (snd (lifetime_begin (Num 5) 0 None new_Lifetime)))"
  by (simp_all add: sample_fetch_asked_def fetch_eval)

lemma sample_fetch_answered_state: "f_calls sample_fetch_answered = [\<lparr>fc_operation = 0, fc_promise = 0, fc_permit = None, fc_stage = Fc_done None\<rparr>]"
    "f_session sample_fetch_answered = Some (Session_ready 3)" "f_closing sample_fetch_answered = None" "f_removed sample_fetch_answered = []"
    "f_life sample_fetch_answered = op_done 0 (op_done 1 (f_life sample_fetch_asked))"
  by (simp_all add: sample_fetch_answered_def sample_fetch_asked_state fetch_session_settles_def fetch_raced_def fetch_streamed_def fetch_ends_def to_fetch_stage_def in_fetch_def)

lemma sample_fetch_done_state: "f_closing sample_fetch_done = Some F_done" "f_session sample_fetch_done = Some (Session_ready 3)" "f_removed sample_fetch_done = [3]"
  by (simp_all add: sample_fetch_done_def fetch_close_def sample_fetch_answered_state sample_fetch_asked_state fetch_close_stopped_def fetch_close_session_def
      fetch_close_removed_def new_Deadline_def timeoutValue_def MAX_TIMEOUT_MS_def MAX_SAFE_INTEGER_def life_stopped_def lifetime_close_def
      lifetime_begin_def assertOpen_def register_def new_Lifetime_def op_done_def stop_ends_def abort_operations_def nullish_or_def timeout_js_def
      all_settled_def Let_def)

lemma sample_fetch_asked_reachable: "fetch_reachable sample_fetch_asked"
  unfolding sample_fetch_asked_def
proof (intro fetch_moves [OF _ permitted] fetch_moves [OF _ executes] sample_fetch_reachable)
  show "fetch_at (snd (fetch_execute None 0 None JUndef sample_fetch)) 0 Fc_acquiring" by (simp add: fetch_eval fetch_at_def)
  show "(fc_promise (f_calls (snd (fetch_execute None 0 None JUndef sample_fetch)) ! 0), js ''p'', Granted 0) \<in>
      set (settled (f_queue (snd (fetch_execute None 0 None JUndef sample_fetch))))" by (simp add: fetch_eval str_of_def)
qed

lemma sample_fetch_done_reachable: "fetch_reachable sample_fetch_done"
  unfolding sample_fetch_done_def
proof (intro fetch_moves [OF _ close_removed] fetch_moves [OF _ close_session] fetch_moves [OF _ close_stopped] fetch_moves [OF _ life_stops]
    fetch_moves [OF _ fetch_step.closes])
  show "fetch_reachable sample_fetch_answered"
    unfolding sample_fetch_answered_def
  proof (intro fetch_moves [OF _ completed] fetch_moves [OF _ streamed] fetch_moves [OF _ raced] fetch_moves [OF _ session_settles] sample_fetch_asked_reachable)
  qed (simp_all add: fetch_at_def sample_fetch_asked_state fetch_session_settles_def fetch_raced_def fetch_streamed_def to_fetch_stage_def in_fetch_def)
qed

theorem fetch_close_complete_witness:
  "3 \<in> set (f_removed sample_fetch_done) \<and> fetch_execute None 0 None JUndef sample_fetch_done = (Some client_closed, sample_fetch_done)"
  using fetch_close_complete [OF sample_fetch_done_reachable sample_fetch_done_state(1), of None 0 None JUndef] sample_fetch_done_state by simp

theorem fetch_within_limits_witness:
  "length (filter (\<lambda>c. fetch_running (fc_stage c)) (f_calls sample_fetch_asked)) \<le> 16 \<and> f_created sample_fetch_asked = 1"
  using fetch_within_limits [OF sample_fetch_asked_reachable] sample_fetch_asked_state by simp

end
