(* ===== verification/Client_Correct.thy ===== *)
theory Client_Correct
  imports Client Fetch_Correct
begin

text \<open>
  Closing the client closes every session it ever opened: whatever calls of \<open>openSession\<close> are still under
  way, whatever deadline expires and however often \<open>close\<close> is tried.
\<close>

subsection \<open>How the close of a session moves\<close>

lemma stream_closing: "session_closing (snd (mutate t now parent m s)) = session_closing s"
    "session_closing (snd (session_stream now inherited parent input r s)) = session_closing s"
  by (auto simp: mutate_def session_stream_def call_closing Let_def split: option.split prod.split sum.split)

lemmas steps_closing = call_closing stream_closing stream_serial_closing

lemma done_stays: "session_step env s s' \<Longrightarrow> session_closing s = Some CloseDone \<Longrightarrow> session_closing s' = Some CloseDone"
  by (induction rule: session_step.induct)
    (simp_all add: steps_closing session_close_def close_deadline_def close_stopped_def close_removed_def Let_def)

text \<open>A close that waits on an expired deadline cannot succeed any more.\<close>

definition doomed :: "session \<Rightarrow> bool" where
  "doomed s \<longleftrightarrow> (\<exists>d. session_closing s = Some (CloseWaiting d) \<and> aborted d)"

lemma doomed_stays: "session_step env s s' \<Longrightarrow> doomed s \<Longrightarrow> doomed s' \<or> session_closing s' = None"
  by (induction rule: session_step.induct)
    (auto simp: doomed_def steps_closing session_close_def close_deadline_def close_stopped_def close_removed_def Let_def aborted_stable
      simp del: not_None_eq split: option.splits closing_stage.splits)

text \<open>Steps that neither finish nor fail the close of a session.\<close>

definition calm :: "url_env \<Rightarrow> session \<Rightarrow> session \<Rightarrow> bool" where
  "calm env s s' \<longleftrightarrow> (session_reachable env s \<longrightarrow> session_reachable env s') \<and> (session_closing s' = Some CloseDone \<longleftrightarrow> session_closing s = Some CloseDone) \<and>
     (doomed s \<longrightarrow> doomed s')"

lemma calm_refl [simp]: "calm env s s"
  by (simp add: calm_def)

lemma calm_trans: "calm env a b \<Longrightarrow> calm env b c \<Longrightarrow> calm env a c"
  by (auto simp: calm_def)

lemma calm_stop: "calm env s (s\<lparr>life := stopAccepting (life s)\<rparr>)"
  by (auto simp: calm_def doomed_def intro: moved [OF _ stops_accepting])

lemma expire_closing: "session_closing (close_deadline onTimer s) = (case session_closing s of Some (CloseWaiting d) \<Rightarrow> Some (CloseWaiting (onTimer d)) | c \<Rightarrow> c)"
  by (simp add: close_deadline_def split: option.split closing_session.split)

lemma calm_expire: "calm env s (close_deadline onTimer s)"
proof -
  have "session_reachable env s \<Longrightarrow> session_reachable env (close_deadline onTimer s)" by (rule moved [OF _ close_expires])
  then show ?thesis
    by (auto simp: calm_def doomed_def expire_closing simp del: not_None_eq split: option.splits closing_session.splits)
qed

lemma close_closing:
  assumes "session_close t now (Some d) opts s = (failed, s')"
  shows "session_closing s' = (if session_closing s = None \<and> failed = None then Some (CloseWaiting d) else session_closing s)"
  using assms by (auto simp: session_close_def Let_def split: sum.splits prod.splits option.splits if_splits)

lemma calm_close: "calm env s (snd (session_close t now (Some d) opts s))"
proof -
  have "session_reachable env s \<Longrightarrow> session_reachable env (snd (session_close t now (Some d) opts s))" by (rule moved [OF _ session_step.closes])
  moreover obtain failed s' where s': "session_close t now (Some d) opts s = (failed, s')" by fastforce
  ultimately show ?thesis using close_closing [OF s'] by (auto simp: calm_def doomed_def split: if_splits)
qed

lemma calm_all_update: "list_all2 (calm env) xs ys \<Longrightarrow> calm env (ys ! n) y \<Longrightarrow> list_all2 (calm env) xs (ys[n := y])"
  by (cases "n < length ys") (auto simp: list_all2_conv_all_nth nth_list_update intro: calm_trans)

lemma calm_all_refl [simp]: "list_all2 (calm env) xs xs"
  by (simp add: list_all2_same)

lemma calm_all_trans: "list_all2 (calm env) xs ys \<Longrightarrow> list_all2 (calm env) ys zs \<Longrightarrow> list_all2 (calm env) xs zs"
  by (rule list_all2_trans [OF calm_trans])

subsection \<open>The invariant\<close>

definition late_entry :: "session list \<Rightarrow> close_entry \<Rightarrow> bool" where
  "late_entry hs e \<longleftrightarrow> (\<exists>x. e_outcome e = Some (Some x)) \<or> e_outcome e = None \<and> \<not> e_joined e \<and> doomed (hs ! e_handle e)"

definition entry_ok :: "session list \<Rightarrow> close_entry \<Rightarrow> bool" where
  "entry_ok hs e \<longleftrightarrow> e_handle e < length hs \<and> (e_outcome e = Some None \<longrightarrow> session_closing (hs ! e_handle e) = Some CloseDone)"

definition closing_fits :: "client \<Rightarrow> bool" where
  "closing_fits k \<longleftrightarrow> (case k_closing k of
     None \<Rightarrow> True | Some (K_stopping d opts) \<Rightarrow> True | Some (K_awaiting d opts) \<Rightarrow> True
   | Some (K_sessions d es) \<Rightarrow> list_all (entry_ok (k_handles k)) es \<and>
       (life_stopped (k_life k) \<and> set (k_owned k) \<subseteq> e_handle ` set es \<or> es \<noteq> [] \<and> list_all (late_entry (k_handles k)) es)
   | Some (K_fetchers fs) \<Rightarrow> life_stopped (k_life k) \<and> k_owned k = []
   | Some K_service \<Rightarrow> life_stopped (k_life k) \<and> k_owned k = []
   | Some K_done \<Rightarrow> life_stopped (k_life k) \<and> k_owned k = [])"

definition handles_ok :: "url_env \<Rightarrow> client \<Rightarrow> bool" where
  "handles_ok env k \<longleftrightarrow> list_all (session_reachable env) (k_handles k) \<and> distinct (k_owned k) \<and>
     (\<forall>n. n \<in> set (k_owned k) \<longleftrightarrow> n < length (k_handles k) \<and> session_closing (k_handles k ! n) \<noteq> Some CloseDone)"

fun open_unfinished :: "opening_stage \<Rightarrow> bool" where
  "open_unfinished (O_done r) = False"
| "open_unfinished _ = True"

definition opening_ok :: "lifetime \<Rightarrow> session_opening \<Rightarrow> bool" where
  "opening_ok l p \<longleftrightarrow> o_operation p < length (registered l) \<and> op_owns (registered l ! o_operation p) \<and>
     (open_unfinished (o_stage p) \<longrightarrow> o_operation p \<in> set (operations l))"

definition openings_ok :: "client \<Rightarrow> bool" where
  "openings_ok k \<longleftrightarrow> distinct (map o_operation (k_openings k)) \<and> list_all (opening_ok (k_life k)) (k_openings k)"

definition client_ok :: "url_env \<Rightarrow> client \<Rightarrow> bool" where
  "client_ok env k \<longleftrightarrow> life_ok (k_life k) \<and> handles_ok env k \<and> openings_ok k \<and> closing_fits k"

text \<open>While a session is being opened, the client has not stopped.\<close>

lemma stopped_settled: "life_ok l \<Longrightarrow> life_stopped l \<Longrightarrow> i < length (registered l) \<Longrightarrow> op_owns (registered l ! i) \<Longrightarrow> i \<notin> set (operations l)"
  by (fastforce simp: life_ok_def ops_ok_def closing_ok_def life_stopped_def pending_of_def split: option.splits closing_stage.splits)

lemma opening_not_stopped: "client_ok env k \<Longrightarrow> m < length (k_openings k) \<Longrightarrow> open_unfinished (o_stage (k_openings k ! m)) \<Longrightarrow> \<not> life_stopped (k_life k)"
  using stopped_settled [of "k_life k"] by (auto simp: client_ok_def openings_ok_def opening_ok_def list_all_length)

text \<open>Calm changes of the sessions.\<close>

lemma calm_parts:
  assumes "list_all2 (calm env) (k_handles k) hs"
  shows "handles_ok env k \<Longrightarrow> handles_ok env (k\<lparr>k_handles := hs\<rparr>)" "list_all (entry_ok (k_handles k)) es \<Longrightarrow> list_all (entry_ok hs) es"
    "list_all (entry_ok (k_handles k)) es \<Longrightarrow> list_all (late_entry (k_handles k)) es \<Longrightarrow> list_all (late_entry hs) es"
  using assms
  by (auto simp: handles_ok_def list_all_length list_all2_conv_all_nth calm_def entry_ok_def late_entry_def list_all_iff)

lemma calm_ok:
  assumes "client_ok env k" and "list_all2 (calm env) (k_handles k) hs"
  shows "client_ok env (k\<lparr>k_handles := hs\<rparr>)"
  using assms calm_parts [OF assms(2)]
  by (auto simp: client_ok_def openings_ok_def closing_fits_def split: option.splits client_closing.splits)

subsection \<open>Changes of the lifetime\<close>

definition life_grows :: "nat set \<Rightarrow> lifetime \<Rightarrow> lifetime \<Rightarrow> bool" where
  "life_grows I l l' \<longleftrightarrow> life_ok l' \<and> length (registered l) \<le> length (registered l') \<and>
     (\<forall>i < length (registered l). op_owns (registered l' ! i) = op_owns (registered l ! i)) \<and>
     (\<forall>i \<in> I. i \<in> set (operations l) \<longrightarrow> i \<in> set (operations l')) \<and> (life_stopped l \<longrightarrow> life_stopped l')"

lemma grows_refl: "life_ok l \<Longrightarrow> life_grows I l l"
  by (simp add: life_grows_def)

lemma open_unfinished_iff: "open_unfinished st \<longleftrightarrow> (\<forall>r. st \<noteq> O_done r)"
  by (cases st) auto

lemma life_grows_ok:
  assumes "client_ok env k" and "life_grows (opening_operations k) (k_life k) l"
  shows "client_ok env (k\<lparr>k_life := l\<rparr>)"
proof -
  have "opening_ok l p" if "p \<in> set (k_openings k)" "opening_ok (k_life k) p" for p
    using that assms(2) by (fastforce simp: opening_ok_def life_grows_def opening_operations_def open_unfinished_iff)
  with assms show ?thesis
    by (auto simp: client_ok_def handles_ok_def openings_ok_def closing_fits_def life_grows_def list_all_iff split: option.splits client_closing.splits)
qed

lemma registered_grows:
  "registered (snd (lifetime_begin t now parent l)) = registered l \<or> (\<exists>q. registered (snd (lifetime_begin t now parent l)) = registered l @ [q])"
  "set (operations l) \<subseteq> set (operations (snd (lifetime_begin t now parent l)))" "closing (snd (lifetime_begin t now parent l)) = closing l"
  "registered (snd (track d b l)) = registered l \<or> (\<exists>q. registered (snd (track d b l)) = registered l @ [q])"
  "set (operations l) \<subseteq> set (operations (snd (track d b l)))" "closing (snd (track d b l)) = closing l"
  by (auto simp: lifetime_begin_def track_def register_def Let_def split: option.splits sum.splits)

lemma grows_begin: "life_ok l \<Longrightarrow> life_grows I l (snd (lifetime_begin t now parent l))"
  using lifetime_begin_ok [of l t now parent] registered_grows(1-3) [where l = l and t = t and now = now and parent = parent]
  by (auto simp: life_grows_def life_stopped_def nth_append)

lemma grows_track: "life_ok l \<Longrightarrow> d < length (store l) \<Longrightarrow> life_grows I l (snd (track d b l))"
  using track_ok [of l d b] registered_grows(4-6) [where l = l and d = d and b = b]
  by (auto simp: life_grows_def life_stopped_def nth_append)

lemma owns_done: "op_owns (registered (op_done i l) ! j) = op_owns (registered l ! j)"
proof (cases "i < length (registered l)")
  case True
  then show ?thesis by (cases "i = j") (simp_all add: op_done_def Let_def)
qed (simp add: op_done_def Let_def list_update_beyond)

lemma grows_done: "life_ok l \<Longrightarrow> i \<notin> I \<Longrightarrow> life_grows I l (op_done i l)"
  using op_done_ok [of l i] by (auto simp: life_grows_def op_done_operations owns_done)

lemma grows_quiet:
  "life_ok l \<Longrightarrow> life_grows I l (drain_ends b l)" "life_ok l \<Longrightarrow> life_grows I l (stop_ends l)" "life_ok l \<Longrightarrow> life_grows I l (foreign_deadline dl l)"
  "life_ok l \<Longrightarrow> life_grows I l (deadline_fires d onTimer l)" "life_ok l \<Longrightarrow> life_grows I l (deadline_fires d (onAbort r) l)"
  "life_ok l \<Longrightarrow> life_grows I l (snd (lifetime_close t v l))"
  using drain_ends_ok [of l b] stop_ends_ok [of l] foreign_ok [of l dl] lifetime_close_ok [of l t v]
    deadline_fires_ok [of l onTimer d, OF _ aborted_stable(3)] deadline_fires_ok [of l "onAbort r" d, OF _ aborted_stable(2)]
  by (auto simp: life_grows_def life_stopped_def stays_stopped split: option.splits closing_stage.splits)

subsection \<open>Opening\<close>

lemma open_stage_fields [simp]: "k_life (open_stage m st k) = k_life k" "k_handles (open_stage m st k) = k_handles k"
    "k_owned (open_stage m st k) = k_owned k" "k_closing (open_stage m st k) = k_closing k"
    "k_openings (open_stage m st k) = (k_openings k)[m := (k_openings k ! m)\<lparr>o_stage := st\<rparr>]"
  by (simp_all add: open_stage_def)

lemma open_stage_ok:
  assumes "client_ok env k" and "m < length (k_openings k)" and "open_unfinished (o_stage (k_openings k ! m))"
  shows "client_ok env (open_stage m st k)"
proof -
  let ?p = "(k_openings k ! m)\<lparr>o_stage := st\<rparr>"
  have "opening_ok (k_life k) (k_openings k ! j)" if "j < length (k_openings k)" for j
    using assms(1) that by (simp add: client_ok_def openings_ok_def list_all_length)
  with assms(2,3) have "opening_ok (k_life k) ((k_openings k)[m := ?p] ! j)" if "j < length (k_openings k)" for j
    using that by (cases "j = m") (auto simp: opening_ok_def)
  moreover have "map o_operation ((k_openings k)[m := ?p]) = map o_operation (k_openings k)"
    using assms(2) by (simp add: map_update list_update_same_conv)
  ultimately show ?thesis
    using assms(1) by (auto simp: client_ok_def openings_ok_def list_all_length handles_ok_def closing_fits_def split: option.splits client_closing.splits)
qed

lemma open_ends_ok:
  assumes ok: "client_ok env k" and m: "m < length (k_openings k)" "open_unfinished (o_stage (k_openings k ! m))"
  shows "client_ok env (open_ends m r k)"
proof -
  let ?k = "open_stage m (O_done r) k" and ?i = "o_operation (k_openings k ! m)"
  have "?i \<notin> opening_operations ?k"
  proof
    assume "?i \<in> opening_operations ?k"
    then obtain j where j: "j < length (k_openings k)" "o_operation (k_openings ?k ! j) = ?i" "\<forall>r. o_stage (k_openings ?k ! j) \<noteq> O_done r"
      by (auto simp: opening_operations_def in_set_conv_nth)
    then have "j \<noteq> m" using m(1) by auto
    with j ok m(1) show False by (auto simp: client_ok_def openings_ok_def distinct_conv_nth)
  qed
  then have "life_grows (opening_operations ?k) (k_life ?k) (op_done ?i (k_life k))" using ok by (simp add: grows_done client_ok_def)
  with life_grows_ok [OF open_stage_ok [OF ok m]] show ?thesis by (simp add: open_ends_def)
qed

lemma register_session_ok:
  assumes ok: "client_ok env k" and "\<not> life_stopped (k_life k)" and s: "session_reachable env s" "session_closing s \<noteq> Some CloseDone"
  shows "client_ok env (register_session s k)"
proof -
  have entries: "list_all (entry_ok (k_handles k)) es \<Longrightarrow> list_all (entry_ok (k_handles k @ [s])) es" for es
    by (auto simp: list_all_iff entry_ok_def nth_append)
  have late: "list_all (entry_ok (k_handles k)) es \<Longrightarrow> list_all (late_entry (k_handles k)) es \<Longrightarrow> list_all (late_entry (k_handles k @ [s])) es" for es
    by (auto simp: list_all_iff entry_ok_def late_entry_def nth_append)
  let ?n = "length (k_handles k)"
  have hs: "list_all (session_reachable env) (k_handles k)" "distinct (k_owned k)"
    and owned: "n \<in> set (k_owned k) \<longleftrightarrow> n < ?n \<and> session_closing (k_handles k ! n) \<noteq> Some CloseDone" for n
    using ok by (simp_all add: client_ok_def handles_ok_def)
  have "n \<in> set (k_owned k @ [?n]) \<longleftrightarrow> n < Suc ?n \<and> session_closing ((k_handles k @ [s]) ! n) \<noteq> Some CloseDone" for n
    using s(2) owned [of n] by (cases "n < ?n"; cases "n = ?n") (simp_all add: nth_append)
  moreover have "?n \<notin> set (k_owned k)" using owned [of ?n] by simp
  ultimately have "handles_ok env (register_session s k)" using hs s(1) by (simp add: handles_ok_def register_session_def)
  moreover have "closing_fits (register_session s k)"
    using ok assms(2) entries late by (cases "k_closing k") (auto simp: client_ok_def closing_fits_def register_session_def split: client_closing.splits)
  ultimately show ?thesis using ok by (simp add: client_ok_def openings_ok_def register_session_def)
qed

lemma session_close_not_done: "session_closing s \<noteq> Some CloseDone \<Longrightarrow> session_closing (snd (session_close t now shared opts s)) \<noteq> Some CloseDone"
  by (auto simp: session_close_def Let_def split: sum.splits prod.splits option.splits jsval.splits)

lemma begin_js_new:
  assumes "life_ok l" and "begin_js v now parent l = (Inr i, l')"
  shows "i = length (registered l)" "i < length (registered l')" "op_owns (registered l' ! i)" "i \<in> set (operations l')"
  using assms by (auto simp: begin_js_def lifetime_begin_def register_def Let_def split: jsval.splits option.splits sum.splits)

lemma begin_js_grows: "life_ok l \<Longrightarrow> life_grows I l (snd (begin_js v now parent l))"
  by (cases v) (simp_all add: begin_js_def grows_begin grows_refl)

lemma open_session_ok:
  assumes ok: "client_ok env k"
  shows "client_ok env (snd (open_session t now parent retain opts k))"
proof (cases "record_js opts")
  case True
  let ?v = "nullish_or (get opts ''timeoutMs'') (JNum t)"
  obtain r l where b: "begin_js ?v now parent (k_life k) = (r, l)" by fastforce
  have life: "life_ok (k_life k)" using ok by (simp add: client_ok_def)
  have grown: "client_ok env (k\<lparr>k_life := l\<rparr>)"
    using life_grows_ok [OF ok begin_js_grows [OF life]] b by (metis snd_conv)
  show ?thesis
  proof (cases r)
    case (Inl e)
    with True b grown show ?thesis by (simp add: open_session_def)
  next
    case (Inr i)
    let ?p = "\<lparr>o_operation = i, o_retain = retain, o_stage = O_creating\<rparr>"
    note new = begin_js_new [OF life b [unfolded Inr]]
    have "o_operation q < length (registered (k_life k))" if "q \<in> set (k_openings k)" for q
      using ok that by (simp add: client_ok_def openings_ok_def opening_ok_def list_all_iff)
    with new(1) have "i \<notin> o_operation ` set (k_openings k)" by fastforce
    with grown new(2-4) have "client_ok env (k\<lparr>k_life := l, k_openings := k_openings k @ [?p]\<rparr>)"
      by (simp add: client_ok_def openings_ok_def opening_ok_def handles_ok_def closing_fits_def cong: option.case_cong client_closing.case_cong)
    with True b Inr show ?thesis by (simp add: open_session_def)
  qed
qed (use ok in \<open>simp add: open_session_def\<close>)

lemma registered_ends_ok:
  assumes ok: "client_ok env k" and at: "opening_at k m st" "open_unfinished st"
    and s: "session_reachable env s" "session_closing s \<noteq> Some CloseDone"
  shows "client_ok env (open_ends m r (register_session s k))" "client_ok env (open_stage m st' (register_session s k))"
proof -
  have m: "m < length (k_openings k)" "open_unfinished (o_stage (k_openings k ! m))" using at by (simp_all add: opening_at_def)
  note reg = register_session_ok [OF ok opening_not_stopped [OF ok m] s]
  have m': "m < length (k_openings (register_session s k))" "open_unfinished (o_stage (k_openings (register_session s k) ! m))"
    using m by (simp_all add: register_session_def)
  show "client_ok env (open_ends m r (register_session s k))" "client_ok env (open_stage m st' (register_session s k))"
    by (rule open_ends_ok [OF reg m'], rule open_stage_ok [OF reg m'])
qed

lemma open_created_ok:
  assumes ok: "client_ok env k" and at: "opening_at k m O_creating" and s: "session_reachable env s" "session_closing s \<noteq> Some CloseDone"
  shows "client_ok env (open_created t now m (Inr s) k)"
proof -
  define s1 where "s1 = (if closed (k_life k) then s\<lparr>life := stopAccepting (life s)\<rparr> else s)"
  have s1: "session_reachable env s1" "session_closing s1 \<noteq> Some CloseDone"
    using s moved [OF s(1) stops_accepting] by (simp_all add: s1_def)
  obtain f s2 where c: "session_close t now None (JObj []) s1 = (f, s2)" by fastforce
  have s2: "session_reachable env s2" "session_closing s2 \<noteq> Some CloseDone"
    using moved [OF s1(1) session_step.closes [of env s1 t now None "JObj []"]] session_close_not_done [OF s1(2), of t now None "JObj []"] c by simp_all
  note fits = registered_ends_ok [OF ok at open_unfinished.simps(2) [THEN iffD2, OF TrueI]]
  show ?thesis
    using fits [OF s1] fits [OF s2] c unfolding s1_def [symmetric]
    by (simp add: open_created_def Let_def s1_def [symmetric] split: option.split)
qed

subsection \<open>A session moves\<close>

lemma entry_moves_ok:
  assumes step: "session_step env (hs ! n) s'" and n: "n < length hs" and x: "entry_ok hs x"
  shows "entry_ok (hs[n := s']) (entry_moves n e s' x)" "late_entry hs x \<Longrightarrow> late_entry (hs[n := s']) (entry_moves n e s' x)"
    "e_handle (entry_moves n e s' x) = e_handle x"
proof -
  show "e_handle (entry_moves n e s' x) = e_handle x"
    by (simp add: entry_moves_def split: option.split closing_session.split)
  show "entry_ok (hs[n := s']) (entry_moves n e s' x)"
    using x n done_stays [OF step]
    by (cases "e_handle x = n") (auto simp: entry_ok_def entry_moves_def split: option.split closing_session.split)
  assume late: "late_entry hs x"
  show "late_entry (hs[n := s']) (entry_moves n e s' x)"
  proof (cases "e_handle x = n \<and> e_outcome x = None")
    case True
    with late have "doomed (hs ! n)" by (simp add: late_entry_def)
    from doomed_stays [OF step this] True late n show ?thesis by (auto simp: late_entry_def entry_moves_def doomed_def)
  next
    case False
    with late show ?thesis by (auto simp: late_entry_def entry_moves_def)
  qed
qed

lemma session_moves_ok:
  assumes ok: "client_ok env k" and n: "n < length (k_handles k)" and step: "session_step env (k_handles k ! n) s'"
  shows "client_ok env (session_moves n e s' k)"
proof -
  let ?hs = "(k_handles k)[n := s']" and ?k = "session_moves n e s' k"
  note move = entry_moves_ok [OF step n]
  have hs: "session_reachable env (k_handles k ! i)" if "i < length (k_handles k)" for i
    using ok that by (simp add: client_ok_def handles_ok_def list_all_length)
  have owned: "i \<in> set (k_owned k) \<longleftrightarrow> i < length (k_handles k) \<and> session_closing (k_handles k ! i) \<noteq> Some CloseDone" for i
    using ok by (simp add: client_ok_def handles_ok_def)
  have "list_all (session_reachable env) ?hs" using hs moved [OF hs [OF n] step] n by (auto simp: list_all_length nth_list_update)
  moreover have "i \<in> set (k_owned ?k) \<longleftrightarrow> i < length ?hs \<and> session_closing (?hs ! i) \<noteq> Some CloseDone" for i
    using owned [of i] n done_stays [OF step] by (cases "i = n") (auto simp: session_moves_def)
  moreover have "distinct (k_owned ?k)" using ok by (simp add: client_ok_def handles_ok_def session_moves_def)
  ultimately have "handles_ok env ?k" by (simp add: handles_ok_def session_moves_def)
  moreover have "closing_fits ?k"
  proof (cases "\<exists>d es. k_closing k = Some (K_sessions d es)")
    case True
    then obtain d es where c: "k_closing k = Some (K_sessions d es)" by blast
    let ?es = "map (entry_moves n e s') es"
    have entries: "list_all (entry_ok (k_handles k)) es"
      and all: "life_stopped (k_life k) \<and> set (k_owned k) \<subseteq> e_handle ` set es \<or> es \<noteq> [] \<and> list_all (late_entry (k_handles k)) es"
      using ok c by (simp_all add: client_ok_def closing_fits_def)
    have "list_all (entry_ok ?hs) ?es" using entries move(1) by (simp add: list_all_iff)
    moreover have "list_all (late_entry (k_handles k)) es \<Longrightarrow> list_all (late_entry ?hs) ?es" using entries move(2) by (simp add: list_all_iff)
    moreover have "e_handle ` set ?es = e_handle ` set es" using entries move(3) by (simp add: image_image list_all_iff)
    moreover have "set (k_owned ?k) \<subseteq> set (k_owned k)" by (auto simp: session_moves_def)
    ultimately show ?thesis using c all by (auto simp: closing_fits_def session_moves_def)
  next
    case False
    with ok show ?thesis
      by (cases "k_closing k") (auto simp: client_ok_def closing_fits_def session_moves_def split: client_closing.splits)
  qed
  ultimately show ?thesis using ok by (simp add: client_ok_def openings_ok_def session_moves_def)
qed

subsection \<open>Closing\<close>

lemma calm_fold: "(\<And>x hs. list_all2 (calm env) hs (f x hs)) \<Longrightarrow> list_all2 (calm env) hs (fold f xs hs)"
proof (induction xs arbitrary: hs)
  case (Cons x xs)
  show ?case using calm_all_trans [OF Cons.prems [of hs x] Cons.IH [OF Cons.prems]] by simp
qed simp

lemma closing_set_ok: "client_ok env k \<Longrightarrow> closing_fits (k\<lparr>k_closing := c\<rparr>) \<Longrightarrow> client_ok env (k\<lparr>k_closing := c\<rparr>)"
  by (simp add: client_ok_def handles_ok_def openings_ok_def)

lemma closing_fits_cong: "k_closing k = k_closing k' \<Longrightarrow> k_handles k = k_handles k' \<Longrightarrow> k_owned k = k_owned k' \<Longrightarrow> k_life k = k_life k' \<Longrightarrow>
    closing_fits k = closing_fits k'"
  by (cases "k_closing k'") (auto simp: closing_fits_def split: client_closing.splits)

lemma draining_ok: "client_ok env (k\<lparr>k_draining := b\<rparr>) = client_ok env k" "client_ok env (k\<lparr>k_fetchers := fs\<rparr>) = client_ok env k"
    "client_ok env (k\<lparr>k_made := i\<rparr>) = client_ok env k"
  by (simp_all add: client_ok_def handles_ok_def openings_ok_def closing_fits_cong [of "k\<lparr>k_draining := b\<rparr>" k]
      closing_fits_cong [of "k\<lparr>k_fetchers := fs\<rparr>" k] closing_fits_cong [of "k\<lparr>k_made := i\<rparr>" k])

lemma stop_owned_ok:
  assumes "client_ok env k"
  shows "client_ok env (stop_owned k)"
  unfolding stop_owned_def
  by (rule calm_ok [OF assms calm_fold]) (rule calm_all_update [OF calm_all_refl calm_stop])

lemma client_close_ok:
  assumes ok: "client_ok env k"
  shows "client_ok env (snd (client_close now opts k))"
proof -
  let ?k = "stop_owned (k\<lparr>k_draining := (get opts ''drain'' = JBool True)\<rparr>)"
  have k1: "client_ok env ?k" "k_life ?k = k_life k" using ok by (simp_all add: stop_owned_ok draining_ok) (simp add: stop_owned_def)
  obtain f l where c: "lifetime_close (get opts ''timeoutMs'') (get opts ''drain'') (k_life k) = (f, l)" by fastforce
  have "life_ok (k_life k)" using ok by (simp add: client_ok_def)
  then have closed: "client_ok env (?k\<lparr>k_life := l\<rparr>)"
    using life_grows_ok [OF k1(1)] grows_quiet(6) [of "k_life k"] k1(2) c by (metis snd_conv)
  have "client_ok env (?k\<lparr>k_life := l, k_closing := Some (K_stopping d o')\<rparr>)" for d o'
    using closing_set_ok [OF closed, of "Some (K_stopping d o')"] by (simp add: closing_fits_def)
  with ok closed c show ?thesis
    by (cases "get opts ''drain'' = JUndef") (simp_all add: client_close_def Let_def split: sum.split option.split)
qed

lemma late_calm: "late_entry hs e \<Longrightarrow> e_handle e < length hs \<Longrightarrow> list_all2 (calm env) hs hs' \<Longrightarrow> late_entry hs' e"
  by (auto simp: late_entry_def list_all2_conv_all_nth calm_def)

lemma close_owned_ok:
  assumes "close_owned t now d opts n k = (e, k')" and n: "n < length (k_handles k)"
  shows "list_all2 (calm env) (k_handles k) (k_handles k')" "k' = k\<lparr>k_handles := k_handles k'\<rparr>" "e_handle e = n" "e_outcome e \<noteq> Some None"
    "aborted d \<Longrightarrow> late_entry (k_handles k') e"
proof -
  obtain failed s' where c: "session_close t now (Some d) opts (k_handles k ! n) = (failed, s')" by fastforce
  have e: "e_handle e = n" "k' = k\<lparr>k_handles := (k_handles k)[n := s']\<rparr>" "e_joined e \<longleftrightarrow> session_closing (k_handles k ! n) \<noteq> None"
      "e_outcome e = (if failed \<noteq> None then Some failed
        else if e_joined e \<and> aborted d then Some (Some (deadline_error d now localDiagnostics False)) else None)"
    using assms(1) by (auto simp: close_owned_def c Let_def)
  have "calm env (k_handles k ! n) s'" using calm_close [of env "k_handles k ! n" t now d opts] c by simp
  then show "list_all2 (calm env) (k_handles k) (k_handles k')" using e by (auto simp: calm_all_update)
  show "k' = k\<lparr>k_handles := k_handles k'\<rparr>" "e_handle e = n" "e_outcome e \<noteq> Some None" using e by auto
  assume "aborted d"
  with e n close_closing [OF c] show "late_entry (k_handles k') e" by (auto simp: late_entry_def doomed_def simp del: not_None_eq)
qed

lemma close_all_ok:
  assumes "close_all t now d opts ns k = (es, k')" and "\<forall>n \<in> set ns. n < length (k_handles k)"
  shows "list_all2 (calm env) (k_handles k) (k_handles k') \<and> k' = k\<lparr>k_handles := k_handles k'\<rparr> \<and> map e_handle es = ns \<and>
    list_all (\<lambda>e. e_outcome e \<noteq> Some None) es \<and> (aborted d \<longrightarrow> list_all (late_entry (k_handles k')) es)"
  using assms
proof (induction ns arbitrary: k es k')
  case (Cons n ns)
  obtain e k1 where h: "close_owned t now d opts n k = (e, k1)" by fastforce
  obtain es1 k2 where r: "close_all t now d opts ns k1 = (es1, k2)" by fastforce
  have eq: "es = e # es1" "k' = k2" using Cons.prems(1) h r by simp_all
  note o = close_owned_ok(1) [OF h, where env = env] close_owned_ok(2-5) [OF h]
  have len: "length (k_handles k1) = length (k_handles k)" using o(1) Cons.prems(2) by (simp add: list_all2_lengthD)
  have same: "k2 = k\<lparr>k_handles := k_handles k2\<rparr>" if "k2 = k1\<lparr>k_handles := k_handles k2\<rparr>"
    using that o(2) Cons.prems(2) by (cases k; cases k1; cases k2) simp
  show ?case using Cons.IH [OF r] same o Cons.prems(2) len late_calm [of "k_handles k1" e env "k_handles k2"] unfolding eq
    by (auto intro: calm_all_trans)
qed simp

lemma close_sessions_ok:
  assumes ok: "client_ok env k" and "life_stopped (k_life k) \<or> k_owned k \<noteq> [] \<and> aborted d"
  shows "client_ok env (close_sessions t now d opts k)"
proof -
  obtain es k1 where c: "close_all t now d (JObj (set_prop (spread_object opts) (js ''timeoutMs'') (jint (remaining d now)))) (k_owned k) k = (es, k1)" by fastforce
  have "\<forall>n \<in> set (k_owned k). n < length (k_handles k)" using ok by (simp add: client_ok_def handles_ok_def)
  note all = close_all_ok [OF c this, of env]
  have k1: "client_ok env k1" using calm_ok [OF ok] all by metis
  have "k1 = k\<lparr>k_handles := k_handles k1\<rparr>" using all by simp
  then have same: "k_owned k1 = k_owned k" "k_life k1 = k_life k" by (cases k; cases k1; simp)+
  have len: "length (k_handles k1) = length (k_handles k)" using all list_all2_lengthD by metis
  have handles: "e_handle ` set es = set (k_owned k)" using all by (metis list.set_map)
  have "e_handle e < length (k_handles k)" if "e \<in> set es" for e
    using that handles ok by (auto simp: client_ok_def handles_ok_def)
  then have "entry_ok (k_handles k1) e" if "e \<in> set es" for e
    using that all len by (simp add: entry_ok_def list_all_iff)
  moreover have "es \<noteq> []" if "k_owned k \<noteq> []" using that all by auto
  ultimately have "closing_fits (k1\<lparr>k_closing := Some (K_sessions d es)\<rparr>)"
    using all assms(2) handles same by (auto simp: closing_fits_def list_all_iff simp del: not_None_eq)
  from closing_set_ok [OF k1 this] c show ?thesis by (simp add: close_sessions_def Let_def)
qed

lemma client_stopped_ok:
  assumes "client_ok env k"
  shows "client_ok env (client_stopped t now expired k)"
proof -
  have "client_ok env (k\<lparr>k_closing := Some (K_awaiting d opts)\<rparr>)" for d opts using closing_set_ok [OF assms] by (simp add: closing_fits_def)
  with assms show ?thesis
    by (auto simp: client_stopped_def intro!: close_sessions_ok simp del: not_None_eq split: option.split client_closing.split)
qed

lemma sessions_closed_ok:
  assumes ok: "client_ok env k"
  shows "client_ok env (sessions_closed k)"
proof (cases "\<exists>d es. k_closing k = Some (K_sessions d es) \<and> \<not> list_ex (\<lambda>e. e_outcome e = None) es")
  case True
  then obtain d es where c: "k_closing k = Some (K_sessions d es)" "\<not> list_ex (\<lambda>e. e_outcome e = None) es" by blast
  have none: "client_ok env (k\<lparr>k_closing := None\<rparr>)" using closing_set_ok [OF ok] by (simp add: closing_fits_def)
  have "life_stopped (k_life k) \<and> k_owned k = []" if all: "list_all (\<lambda>e. e_outcome e = Some None) es"
  proof -
    have entries: "list_all (entry_ok (k_handles k)) es"
      and cases: "life_stopped (k_life k) \<and> set (k_owned k) \<subseteq> e_handle ` set es \<or> es \<noteq> [] \<and> list_all (late_entry (k_handles k)) es"
      using ok c by (simp_all add: client_ok_def closing_fits_def)
    have "\<not> (es \<noteq> [] \<and> list_all (late_entry (k_handles k)) es)" using all by (cases es) (simp_all add: late_entry_def)
    with cases have stopped: "life_stopped (k_life k)" "set (k_owned k) \<subseteq> e_handle ` set es" by blast+
    have "session_closing (k_handles k ! e_handle e) = Some CloseDone" if "e \<in> set es" for e
      using that all entries by (simp add: list_all_iff entry_ok_def)
    moreover have "session_closing (k_handles k ! n) \<noteq> Some CloseDone" if "n \<in> set (k_owned k)" for n
      using that ok by (simp add: client_ok_def handles_ok_def)
    ultimately have "n \<notin> set (k_owned k)" for n using stopped(2) by blast
    then have "k_owned k = []" by (metis list.set_sel(1))
    with stopped(1) show ?thesis by simp
  qed
  then have "list_all (\<lambda>e. e_outcome e = Some None) es \<Longrightarrow> client_ok env (k\<lparr>k_closing := Some (K_fetchers fs)\<rparr>)" for fs
    using closing_set_ok [OF ok] by (simp add: closing_fits_def)
  with none c show ?thesis by (simp add: sessions_closed_def)
next
  case False
  with ok show ?thesis by (auto simp: sessions_closed_def split: option.split client_closing.split)
qed

lemma later_closed_ok:
  assumes ok: "client_ok env k"
  shows "client_ok env (fetcher_closed i failed k)" "client_ok env (fetchers_closed k)" "client_ok env (client_service_closed failed k)"
proof -
  have none: "client_ok env (k\<lparr>k_closing := None\<rparr>)" using closing_set_ok [OF ok] by (simp add: closing_fits_def)
  have f: "client_ok env (k\<lparr>k_closing := Some (K_fetchers fs')\<rparr>)" "client_ok env (k\<lparr>k_closing := Some K_service\<rparr>)"
    if "k_closing k = Some (K_fetchers fs)" for fs fs'
    using closing_set_ok [OF ok] ok that by (simp_all add: closing_fits_def client_ok_def)
  have s: "client_ok env (k\<lparr>k_fetchers := [], k_closing := Some K_done\<rparr>)" if "k_closing k = Some K_service"
    using closing_set_ok [of env "k\<lparr>k_fetchers := []\<rparr>" "Some K_done"] ok that by (simp add: draining_ok) (simp add: closing_fits_def client_ok_def)
  show "client_ok env (fetcher_closed i failed k)" using ok f by (simp add: fetcher_closed_def split: option.split client_closing.split)
  show "client_ok env (fetchers_closed k)" using ok f none by (simp add: fetchers_closed_def split: option.split client_closing.split)
  show "client_ok env (client_service_closed failed k)" using ok s none by (simp add: client_service_closed_def split: option.split client_closing.split)
qed

lemma close_fires_ok:
  assumes ok: "client_ok env k"
  shows "client_ok env (close_fires now k)"
proof (cases "\<exists>d es. k_closing k = Some (K_sessions d es)")
  case True
  then obtain d es where c: "k_closing k = Some (K_sessions d es)" by blast
  define hs where "hs = fold (\<lambda>e hs. if \<not> e_joined e \<and> e_outcome e = None then hs[e_handle e := close_deadline onTimer (hs ! e_handle e)] else hs) es (k_handles k)"
  define es' where "es' = map (\<lambda>e. if e_joined e \<and> e_outcome e = None
    then e\<lparr>e_outcome := Some (Some (deadline_error (onTimer d) now localDiagnostics False))\<rparr> else e) es"
  have "list_all2 (calm env) (k_handles k) hs"
    unfolding hs_def by (rule calm_fold) (simp add: calm_all_update calm_expire)
  note k1 = calm_ok [OF ok this]
  have "list_all (entry_ok hs) es" and
    late: "life_stopped (k_life k) \<and> set (k_owned k) \<subseteq> e_handle ` set es \<or> es \<noteq> [] \<and> list_all (late_entry hs) es"
    using k1 c by (simp_all add: client_ok_def closing_fits_def)
  then have "list_all (entry_ok hs) es'" by (auto simp: es'_def list_all_iff entry_ok_def)
  moreover have "map e_handle es' = map e_handle es" by (simp add: es'_def)
  then have "e_handle ` set es' = e_handle ` set es" by (metis list.set_map)
  moreover have "list_all (late_entry hs) es \<Longrightarrow> list_all (late_entry hs) es'" by (auto simp: es'_def list_all_iff late_entry_def)
  moreover have "es \<noteq> [] \<Longrightarrow> es' \<noteq> []" by (simp add: es'_def)
  ultimately have "closing_fits (k\<lparr>k_handles := hs, k_closing := Some (K_sessions (onTimer d) es')\<rparr>)"
    using late by (auto simp: closing_fits_def)
  from closing_set_ok [OF k1 this] have "client_ok env (k\<lparr>k_handles := hs, k_closing := Some (K_sessions (onTimer d) es')\<rparr>)" .
  moreover have "close_fires now k = k\<lparr>k_handles := hs, k_closing := Some (K_sessions (onTimer d) es')\<rparr>"
    by (simp add: close_fires_def c hs_def es'_def Let_def)
  ultimately show ?thesis by simp
next
  case False
  have "client_ok env (k\<lparr>k_closing := Some (K_awaiting d opts)\<rparr>)" "client_ok env (k\<lparr>k_closing := Some (K_stopping d opts)\<rparr>)" for d opts
    using closing_set_ok [OF ok] by (simp_all add: closing_fits_def)
  with False ok show ?thesis by (auto simp: close_fires_def split: option.split client_closing.split)
qed

subsection \<open>Every reachable client\<close>

lemma client_life: "client_ok env k \<Longrightarrow> life_ok (k_life k)"
  by (simp add: client_ok_def)

lemma client_step_ok: "client_step env k k' \<Longrightarrow> client_ok env k \<Longrightarrow> client_ok env k'"
proof (induction rule: client_step.induct)
  case (makes_fetch k t mx opts)
  then show ?case
    using draining_ok(2,3) [of env] by (simp add: createFetch_def split: option.split sum.split)
next
  case (loses_fetch k i)
  then show ?case by (simp add: fetch_leaves_def draining_ok)
next
  case (open_fails k m t now e)
  then show ?case by (simp add: open_created_def opening_at_def open_ends_ok)
next
  case (open_created k m opts o' caps tm mx ls caps' v info t now)
  then show ?case by (intro open_created_ok created) (simp_all add: new_session_def)
next
  case (open_undone k m n e)
  then show ?case by (simp add: opening_at_def open_ends_ok)
next
  case (begins k t now parent)
  then show ?case by (blast intro: life_grows_ok grows_begin client_life)
next
  case (tracks d k accepted)
  then show ?case by (blast intro: life_grows_ok grows_track client_life)
next
  case (settles i k)
  then show ?case by (blast intro: life_grows_ok grows_done client_life)
qed (blast intro: life_grows_ok grows_quiet client_life open_session_ok session_moves_ok client_close_ok client_stopped_ok sessions_closed_ok
    later_closed_ok close_fires_ok)+

lemma client_reachable_ok: "client_reachable env k \<Longrightarrow> client_ok env k"
proof (induction rule: client_reachable.induct)
  case client_new
  then show ?case
    by (simp add: client_ok_def empty_client_def handles_ok_def openings_ok_def closing_fits_def new_Lifetime_ok)
qed (rule client_step_ok)

subsection \<open>Properties\<close>

lemma closed_session: "session_reachable env s \<Longrightarrow> session_closing s = Some CloseDone \<Longrightarrow> outstanding (history s) = []"
  using session_reachable_ok [of env s] by (auto simp: session_ok_def close_ok_def core_def)

lemma stopped_closed: "life_ok l \<Longrightarrow> life_stopped l \<Longrightarrow> closed l"
  by (auto simp: life_ok_def closing_ok_def life_stopped_def split: option.splits)

lemma refused_open: "closed (k_life k) \<Longrightarrow> open_session t now parent retain opts k = (Some (if record_js opts then client_closed else invalid_input), k)"
  by (cases "nullish_or (get opts ''timeoutMs'') (JNum t)") (simp_all add: open_session_def begin_js_def lifetime_begin_def assertOpen_def)

text \<open>
  C8: When \<open>close\<close> of the client has resolved, every session it ever opened is closed: the service has
  confirmed that each of their contexts is gone, also of a session whose creation finished while the
  client was closing. No call of \<open>openSession\<close> is under way, and a new one is refused.
\<close>

theorem client_close_complete:
  assumes "client_reachable env k" and "k_closing k = Some K_done"
  shows "list_all (\<lambda>s. session_closing s = Some CloseDone \<and> outstanding (history s) = []) (k_handles k) \<and> k_owned k = [] \<and>
    list_all (\<lambda>p. \<exists>r. o_stage p = O_done r) (k_openings k) \<and>
    open_session t now parent retain opts k = (Some (if record_js opts then client_closed else invalid_input), k)"
proof -
  have ok: "client_ok env k" by (rule client_reachable_ok [OF assms(1)])
  have stopped: "life_stopped (k_life k)" "k_owned k = []" using ok assms(2) by (simp_all add: client_ok_def closing_fits_def)
  have "session_reachable env (k_handles k ! n)" "session_closing (k_handles k ! n) = Some CloseDone" if "n < length (k_handles k)" for n
    using ok stopped(2) that by (simp_all add: client_ok_def handles_ok_def list_all_length)
  then have "list_all (\<lambda>s. session_closing s = Some CloseDone \<and> outstanding (history s) = []) (k_handles k)"
    by (auto simp: list_all_length intro: closed_session)
  moreover have "list_all (\<lambda>p. \<exists>r. o_stage p = O_done r) (k_openings k)"
    using opening_not_stopped [OF ok] stopped(1) by (auto simp: list_all_length open_unfinished_iff)
  ultimately show ?thesis
    using stopped refused_open [OF stopped_closed [OF client_life [OF ok] stopped(1)]] by simp
qed

text \<open>A client that opens one session and closes.\<close>

definition sample_opened :: client where
  "sample_opened = open_created (Num 1000) 0 0 (Inr sample_session) (snd (open_session (Num 1000) 0 None False (JObj []) empty_client))"

definition sample_closing :: client where
  "sample_closing = (let k = snd (client_close 0 (JObj []) sample_opened) in
     client_stopped (Num 1000) 0 False (k\<lparr>k_life := stop_ends (k_life k)\<rparr>))"

definition sample_settled :: client where
  "sample_settled = (let s = k_handles sample_closing ! 0 in session_moves 0 invalid_input (s\<lparr>life := stop_ends (life s)\<rparr>) sample_closing)"

definition sample_removing :: client where
  "sample_removing = session_moves 0 invalid_input (close_stopped (k_handles sample_settled ! 0)) sample_settled"

definition sample_removed :: client where
  "sample_removed = session_moves 0 invalid_input (close_removed (jstr ''c1'') (Inr JUndef)
     (heard (DeleteReply (jstr ''c1'') (Inr JUndef)) (k_handles sample_removing ! 0))) sample_removing"

definition sample_end :: client where
  "sample_end = client_service_closed None (fetchers_closed (sessions_closed sample_removed))"

lemma sample_opened_state: "sample_opened = \<lparr>k_life = \<lparr>store = [\<lparr>timeoutMs = Num 1000, started = 0, timedOut = False, signal = None\<rparr>], disposed = [0],
      registered = [\<lparr>op_deadline = 0, op_owns = True, op_settled = True\<rparr>], operations = [], closed = False, closing = None\<rparr>,
    k_handles = [sample_session], k_owned = [0], k_openings = [\<lparr>o_operation = 0, o_retain = False, o_stage = O_done (Inr 0)\<rparr>],
    k_fetchers = [], k_made = 0, k_draining = False, k_closing = None\<rparr>"
  by (simp add: sample_opened_def open_created_def open_session_def empty_client_def begin_js_def lifetime_begin_def new_Lifetime_def assertOpen_def new_Deadline_def
      timeoutValue_def register_def MAX_TIMEOUT_MS_def MAX_SAFE_INTEGER_def nullish_or_def open_ends_def open_stage_def register_session_def Let_def op_done_def)

lemma sample_closing_state:
  "k_handles sample_closing = [sample_session\<lparr>life := new_Lifetime\<lparr>closed := True, closing := Some (Stopping [])\<rparr>,
     session_closing := Some (CloseWaiting \<lparr>timeoutMs = Num 10000, started = 0, timedOut = False, signal = None\<rparr>)\<rparr>]"
  "k_closing sample_closing = Some (K_sessions \<lparr>timeoutMs = Num 10000, started = 0, timedOut = False, signal = None\<rparr>
     [\<lparr>e_handle = 0, e_joined = False, e_outcome = None\<rparr>])"
  "k_fetchers sample_closing = []"
  by (simp_all add: sample_closing_def sample_opened_state client_close_def stop_owned_def timeout_js_def timeoutValue_def nullish_or_def
      lifetime_close_def abort_operations_def new_Deadline_def MAX_TIMEOUT_MS_def MAX_SAFE_INTEGER_def stop_ends_def all_settled_def client_stopped_def life_stopped_def
      close_sessions_def close_owned_def session_close_def remaining_def sample_session_def new_session_def new_Lifetime_def stopAccepting_def Let_def)

lemmas sample_run = sample_settled_def sample_removing_def sample_removed_def session_moves_def sample_closing_state entry_moves_def stop_ends_def
  all_settled_def new_Lifetime_def close_stopped_def close_removed_def close_ends_def removeContext_def context_gone_def sample_session_def
  new_session_def copyContextInfo_def sample_context_def pick_def Let_def

lemma sample_handles: "length (k_handles sample_closing) = 1" "length (k_handles sample_settled) = 1" "length (k_handles sample_removing) = 1"
  by (simp_all add: sample_closing_state sample_settled_def sample_removing_def session_moves_def Let_def)

lemma sample_end_done: "k_closing sample_end = Some K_done" "length (k_handles sample_end) = 1"
  by (simp_all add: sample_end_def client_service_closed_def fetchers_closed_def sessions_closed_def sample_run)

lemma sample_end_reachable: "client_reachable sample_env sample_end"
proof -
  have "client_reachable sample_env sample_opened"
    unfolding sample_opened_def sample_session_def
    by (rule client_moves [OF client_moves [OF client_new opens] client_step.open_created [OF _ sample_settings]])
      (simp add: opening_at_def open_session_def empty_client_def begin_js_def lifetime_begin_def new_Lifetime_def assertOpen_def new_Deadline_def
        timeoutValue_def register_def MAX_TIMEOUT_MS_def MAX_SAFE_INTEGER_def nullish_or_def Let_def)
  then have "client_reachable sample_env sample_closing"
    unfolding sample_closing_def Let_def by (intro client_moves [OF _ stopped] client_moves [OF _ stops] client_moves [OF _ closes])
  then have "client_reachable sample_env sample_settled"
    unfolding sample_settled_def Let_def by (rule client_moves [OF _ session_works]) (simp_all add: sample_handles settled)
  then have "client_reachable sample_env sample_removing"
    unfolding sample_removing_def by (rule client_moves [OF _ session_works]) (simp_all add: sample_handles session_step.stopped)
  then have "client_reachable sample_env sample_removed"
    unfolding sample_removed_def by (rule client_moves [OF _ session_works [OF _ context_removed]])
      (simp_all add: sample_handles removing_def sample_run)
  then show ?thesis
    unfolding sample_end_def by (intro client_moves [OF _ service] client_moves [OF _ fetchers] client_moves [OF _ sessions])
qed

theorem client_close_complete_witness:
  "outstanding (history (k_handles sample_end ! 0)) = [] \<and> open_session (Num 1000) 0 None False (JObj []) sample_end = (Some client_closed, sample_end)"
  using client_close_complete [OF sample_end_reachable sample_end_done(1), of "Num 1000" 0 None False "JObj []"] sample_end_done(2)
  by (simp add: list_all_length)

end
