(* ===== verification/Script.thy ===== *)
theory Script
  imports Service
begin

text \<open>
  Programs that act on the world outside: the release scripts of \<open>src/packages/typescript/scripts\<close> run git
  and npm, ask the registry and GitHub, read and write files. Such a program is the tree of its calls,
  with one branch for every reply: what answers is not part of the model, so a statement about all
  paths of the tree holds whatever git, npm and the two services do, also when something else acts on
  them between two calls. An exception of any kind ends a script (\<open>Fails\<close>).
\<close>

subsection \<open>Trees of calls\<close>

datatype ('c, 'r, 'a) script = Done 'a | Fails | Calls 'c "'r \<Rightarrow> ('c, 'r, 'a) script"

primrec sequence :: "('c, 'r, 'a) script \<Rightarrow> ('a \<Rightarrow> ('c, 'r, 'b) script) \<Rightarrow> ('c, 'r, 'b) script" where
  "sequence (Done x) f = f x"
| "sequence Fails f = Fails"
| "sequence (Calls c k) f = Calls c (\<lambda>r. sequence (k r) f)"

text \<open>\<open>assert\<close>, and a value that may be missing.\<close>

definition require :: "bool \<Rightarrow> ('c, 'r, 'a) script \<Rightarrow> ('c, 'r, 'a) script" where
  "require b p = (if b then p else Fails)"

definition given :: "'a option \<Rightarrow> ('a \<Rightarrow> ('c, 'r, 'b) script) \<Rightarrow> ('c, 'r, 'b) script" where
  "given x f = (case x of None \<Rightarrow> Fails | Some y \<Rightarrow> f y)"

text \<open>\<open>for (const x of xs)\<close>.\<close>

primrec each :: "('a \<Rightarrow> ('c, 'r, unit) script) \<Rightarrow> 'a list \<Rightarrow> ('c, 'r, unit) script" where
  "each f [] = Done ()"
| "each f (x # xs) = sequence (f x) (\<lambda>_. each f xs)"

subsection \<open>Runs\<close>

text \<open>What is left of a program after some replies.\<close>

primrec resume :: "('c, 'r, 'a) script \<Rightarrow> 'r list \<Rightarrow> ('c, 'r, 'a) script" where
  "resume (Done x) rs = Done x"
| "resume Fails rs = Fails"
| "resume (Calls c k) rs = (case rs of [] \<Rightarrow> Calls c k | r # rs' \<Rightarrow> resume (k r) rs')"

text \<open>\<open>ends p tr x\<close>: a path of the tree to the result \<open>x\<close>, with the calls on it and their replies.\<close>

inductive ends :: "('c, 'r, 'a) script \<Rightarrow> ('c \<times> 'r) list \<Rightarrow> 'a \<Rightarrow> bool" where
  ends_Done: "ends (Done x) [] x"
| ends_Calls: "ends (k r) tr x \<Longrightarrow> ends (Calls c k) ((c, r) # tr) x"

inductive_simps ends_simps [simp]: "ends (Done y) tr x" "ends Fails tr x" "ends (Calls c k) tr x"

text \<open>The calls that a run has made, whether it has ended, has thrown or still waits.\<close>

inductive reaches :: "('c, 'r, 'a) script \<Rightarrow> ('c \<times> 'r) list \<Rightarrow> 'c \<Rightarrow> bool" where
  reaches_now: "reaches (Calls c k) [] c"
| reaches_later: "reaches (k r) tr c' \<Longrightarrow> reaches (Calls c k) ((c, r) # tr) c'"

inductive_simps reaches_simps [simp]: "reaches (Done y) tr c" "reaches Fails tr c" "reaches (Calls c k) tr c'"

lemma ends_require [simp]: "ends (require b p) tr x \<longleftrightarrow> b \<and> ends p tr x"
  by (simp add: require_def)

lemma ends_given [simp]: "ends (given y f) tr x \<longleftrightarrow> (\<exists>z. y = Some z \<and> ends (f z) tr x)"
  by (cases y) (simp_all add: given_def)

lemma ends_sequence: "ends (sequence p f) tr y \<longleftrightarrow> (\<exists>l1 x l2. tr = l1 @ l2 \<and> ends p l1 x \<and> ends (f x) l2 y)"
proof (induction p arbitrary: tr)
  case (Calls c k)
  show ?case
  proof
    assume "ends (sequence (Calls c k) f) tr y"
    then obtain r l where "tr = (c, r) # l" "ends (sequence (k r) f) l y" by auto
    with Calls.IH [of "k r" l] obtain l1 x l2 where "tr = ((c, r) # l1) @ l2" "ends (k r) l1 x" "ends (f x) l2 y" by auto
    then show "\<exists>l1 x l2. tr = l1 @ l2 \<and> ends (Calls c k) l1 x \<and> ends (f x) l2 y" using ends_Calls by metis
  next
    assume "\<exists>l1 x l2. tr = l1 @ l2 \<and> ends (Calls c k) l1 x \<and> ends (f x) l2 y"
    then obtain r l1 x l2 where "tr = (c, r) # l1 @ l2" "ends (k r) l1 x" "ends (f x) l2 y" by auto
    with Calls.IH [of "k r" "l1 @ l2"] show "ends (sequence (Calls c k) f) tr y" by auto
  qed
qed auto

lemma sequenceE:
  assumes "ends (sequence p f) tr y"
  obtains l1 x l2 where "tr = l1 @ l2" "ends p l1 x" "ends (f x) l2 y"
  using assms by (auto simp: ends_sequence)

lemma reaches_require [simp]: "reaches (require b p) tr c \<longleftrightarrow> b \<and> reaches p tr c"
  by (simp add: require_def)

lemma reaches_given [simp]: "reaches (given y f) tr c \<longleftrightarrow> (\<exists>z. y = Some z \<and> reaches (f z) tr c)"
  by (cases y) (simp_all add: given_def)

lemma reaches_sequence: "reaches (sequence p f) tr c \<longleftrightarrow>
    reaches p tr c \<or> (\<exists>l1 x l2. tr = l1 @ l2 \<and> ends p l1 x \<and> reaches (f x) l2 c)"
proof (induction p arbitrary: tr)
  case (Calls d k)
  show ?case
  proof
    assume "reaches (sequence (Calls d k) f) tr c"
    then consider "tr = []" "c = d" | r l where "tr = (d, r) # l" "reaches (sequence (k r) f) l c" by auto
    then show "reaches (Calls d k) tr c \<or> (\<exists>l1 x l2. tr = l1 @ l2 \<and> ends (Calls d k) l1 x \<and> reaches (f x) l2 c)"
    proof cases
      case 2
      with Calls.IH [of "k r" l] show ?thesis by simp (metis append_Cons)
    qed simp
  next
    assume "reaches (Calls d k) tr c \<or> (\<exists>l1 x l2. tr = l1 @ l2 \<and> ends (Calls d k) l1 x \<and> reaches (f x) l2 c)"
    then consider "tr = []" "c = d" | r l where "tr = (d, r) # l" "reaches (k r) l c"
      | r l1 x l2 where "tr = (d, r) # l1 @ l2" "ends (k r) l1 x" "reaches (f x) l2 c" by auto
    then show "reaches (sequence (Calls d k) f) tr c"
      using Calls.IH by cases auto
  qed
qed auto

text \<open>\<open>resume\<close> follows these paths.\<close>

lemma resume_ends: "resume p rs = Done x \<Longrightarrow> \<exists>tr. ends p tr x"
proof (induction p arbitrary: rs)
  case (Calls c k)
  then obtain r rs' where "resume (k r) rs' = Done x" by (cases rs) auto
  with Calls.IH [of "k r" rs'] obtain tr where "ends (k r) tr x" by blast
  then show ?case using ends_Calls by fast
qed auto

lemma resume_reaches: "resume p rs = Calls c q \<Longrightarrow> \<exists>tr. reaches p tr c"
proof (induction p arbitrary: rs)
  case (Calls d k)
  show ?case
  proof (cases rs)
    case Nil
    with Calls.prems show ?thesis using reaches_now by fastforce
  next
    case (Cons r rs')
    with Calls.prems Calls.IH [of "k r" rs'] obtain tr where "reaches (k r) tr c" by auto
    then show ?thesis using reaches_later by fast
  qed
qed auto

lemma ends_resume: "ends p tr x \<Longrightarrow> resume p (map snd tr) = Done x"
  by (induction rule: ends.induct) auto

lemma resume_require [simp]: "resume (require b p) rs = (if b then resume p rs else Fails)"
  by (simp add: require_def)

lemma resume_given [simp]: "resume (given y f) rs = (case y of None \<Rightarrow> Fails | Some z \<Rightarrow> resume (f z) rs)"
  by (simp add: given_def split: option.split)

lemma sequence_assoc [simp]: "sequence (sequence p f) h = sequence p (\<lambda>x. sequence (f x) h)"
  by (induction p) auto

lemma sequence_Done [simp]: "sequence p Done = p"
  by (induction p) auto

lemma sequence_require [simp]: "sequence (require b p) f = require b (sequence p f)"
  by (simp add: require_def)

lemma sequence_given [simp]: "sequence (given y f) h = given y (\<lambda>z. sequence (f z) h)"
  by (cases y) (simp_all add: given_def)

text \<open>Only calls of one kind: the shape of the proofs that a script never does something.\<close>

primrec only :: "('c \<Rightarrow> bool) \<Rightarrow> ('c, 'r, 'a) script \<Rightarrow> bool" where
  "only P (Done x) = True"
| "only P Fails = True"
| "only P (Calls c k) = (P c \<and> (\<forall>r. only P (k r)))"

lemma only_require [simp]: "only P (require b p) \<longleftrightarrow> (b \<longrightarrow> only P p)"
  by (simp add: require_def)

lemma only_given [simp]: "only P (given y f) \<longleftrightarrow> (\<forall>z. y = Some z \<longrightarrow> only P (f z))"
  by (cases y) (simp_all add: given_def)

lemma only_sequence: "only P p \<Longrightarrow> (\<And>x. only P (f x)) \<Longrightarrow> only P (sequence p f)"
  by (induction p) auto

lemma only_reaches: "reaches p tr c \<Longrightarrow> only P p \<Longrightarrow> P c"
  by (induction rule: reaches.induct) auto

lemma only_ends: "ends p tr x \<Longrightarrow> only P p \<Longrightarrow> list_all (\<lambda>(c, r). P c) tr"
  by (induction rule: ends.induct) auto

text \<open>A call that the first part does not make is made by the second.\<close>

lemma reaches_pastE:
  assumes "reaches (sequence p f) tr c" and "only (\<lambda>d. \<not> Q d) p" and "Q c"
  obtains l1 x l2 where "tr = l1 @ l2" "ends p l1 x" "reaches (f x) l2 c"
  using assms only_reaches [of p tr c "\<lambda>d. \<not> Q d"] by (auto simp: reaches_sequence)

lemma reaches_before:
  assumes "reaches (sequence p f) tr c" and "\<And>x. only (\<lambda>d. \<not> Q d) (f x)" and "Q c"
  shows "reaches p tr c"
  using assms by (auto simp: reaches_sequence dest: only_reaches [where P = "\<lambda>d. \<not> Q d"])

lemma only_each: "(\<And>x. x \<in> set xs \<Longrightarrow> only P (f x)) \<Longrightarrow> only P (each f xs)"
  by (induction xs) (auto intro!: only_sequence)

lemma ends_each: "ends (each f xs) tr u \<Longrightarrow> x \<in> set xs \<Longrightarrow> \<exists>l v. ends (f x) l v \<and> set l \<subseteq> set tr"
proof (induction xs arbitrary: tr)
  case (Cons y xs)
  from Cons.prems(1) obtain l1 v l2 where l: "tr = l1 @ l2" "ends (f y) l1 v" "ends (each f xs) l2 u" by (auto elim: sequenceE)
  show ?case
  proof (cases "x = y")
    case True
    with l show ?thesis by auto
  next
    case False
    with Cons.IH [OF l(3)] Cons.prems(2) l(1) show ?thesis by fastforce
  qed
qed simp

lemma reaches_each: "reaches (each f xs) tr c \<Longrightarrow> \<exists>x \<in> set xs. \<exists>l. reaches (f x) l c"
  by (induction xs arbitrary: tr) (auto simp: reaches_sequence)

text \<open>Calls that are fine after what was answered before them.\<close>

definition along :: "(('c \<times> 'r) list \<Rightarrow> 'c \<Rightarrow> bool) \<Rightarrow> ('c, 'r, 'a) script \<Rightarrow> bool" where
  "along P p \<longleftrightarrow> (\<forall>tr c. reaches p tr c \<longrightarrow> P tr c)"

lemma along_sequence:
  assumes "along P p" and "\<And>l x. ends p l x \<Longrightarrow> along (\<lambda>l'. P (l @ l')) (f x)"
  shows "along P (sequence p f)"
  using assms by (auto simp: along_def reaches_sequence)

lemma along_later:
  assumes "along P p" and "\<And>x. along P (f x)" and "\<And>l l' c. P l' c \<Longrightarrow> P (l @ l') c"
  shows "along P (sequence p f)"
  using assms by (auto simp: along_def reaches_sequence)

lemma along_require [simp]: "along P (require b p) \<longleftrightarrow> (b \<longrightarrow> along P p)"
  by (auto simp: along_def)

lemma along_given [simp]: "along P (given y f) \<longleftrightarrow> (\<forall>z. y = Some z \<longrightarrow> along P (f z))"
  by (auto simp: along_def)

lemma along_ends [simp]: "along P (Done x)" "along P Fails"
  by (simp_all add: along_def)

lemma along_only: "only Q p \<Longrightarrow> (\<And>tr c. Q c \<Longrightarrow> P tr c) \<Longrightarrow> along P p"
  by (auto simp: along_def dest: only_reaches)

end
