(* ===== verification/Version.thy ===== *)
theory Version
  imports Script
begin

text \<open>
  Version numbers and release notes: \<open>stableVersion\<close>, \<open>bumpVersion\<close> and \<open>escapeMarkdown\<close> of
  \<open>src/packages/typescript/scripts/prepare-release.mjs\<close>. A component is a natural number: the code reads
  it as a double, but a decimal above the safe integers is read as a double above them too and is
  refused.
\<close>

subsection \<open>Text\<close>

text \<open>\<open>s.split(c)\<close> for a single code unit, and \<open>xs.join(c)\<close>.\<close>

fun split_on :: "nat \<Rightarrow> jsstr \<Rightarrow> jsstr list" where
  "split_on c [] = [[]]"
| "split_on c (u # s) = (if u = c then [] # split_on c s
     else (case split_on c s of [] \<Rightarrow> [[u]] | w # ws \<Rightarrow> (u # w) # ws))"

fun join_with :: "jsstr \<Rightarrow> jsstr list \<Rightarrow> jsstr" where
  "join_with c [] = []"
| "join_with c [w] = w"
| "join_with c (w # ws) = w @ c @ join_with c ws"

text \<open>\<open>/^(0|[1-9]\d*)\.(0|[1-9]\d*)\.(0|[1-9]\d*)$/\<close>: no component has a dot.\<close>

definition stable_part :: "jsstr \<Rightarrow> bool" where
  "stable_part s \<longleftrightarrow> s = js ''0'' \<or> (case s of [] \<Rightarrow> False | u # _ \<Rightarrow> 49 \<le> u \<and> u \<le> 57 \<and> list_all digit s)"

definition stableVersion :: "jsstr \<Rightarrow> bool" where
  "stableVersion s \<longleftrightarrow> length (split_on 46 s) = 3 \<and> list_all stable_part (split_on 46 s)"

definition number_text :: "jsstr \<Rightarrow> nat" where
  "number_text s = fold (\<lambda>u n. 10 * n + (u - 48)) s 0"

definition text_number :: "nat \<Rightarrow> jsstr" where
  "text_number n = js (dec_digits n)"

definition bump_index :: "jsval \<Rightarrow> nat option" where
  "bump_index bump = (if bump = jstr ''major'' then Some 0 else if bump = jstr ''minor'' then Some 1 else if bump = jstr ''patch'' then Some 2 else None)"

definition bumpVersion :: "jsval \<Rightarrow> jsval \<Rightarrow> jsstr option" where
  "bumpVersion version bump = (case version of
     JStr s \<Rightarrow>
       if \<not> stableVersion s then None
       else (case bump_index bump of None \<Rightarrow> None
         | Some i \<Rightarrow> let parts = map number_text (split_on 46 s) in
             if \<not> list_all (\<lambda>n. int n \<le> MAX_SAFE_INTEGER) parts \<or> \<not> int (parts ! i) < MAX_SAFE_INTEGER then None
             else Some (join_with [46] (map text_number (take i parts @ [parts ! i + 1] @ replicate (length parts - Suc i) 0))))
   | _ \<Rightarrow> None)"

text \<open>\<open>/[\u0000-\u001f\u007f]/g\<close> becomes a space, then the characters of Markdown get a backslash.\<close>

definition markdown_unit :: "nat \<Rightarrow> bool" where
  "markdown_unit u \<longleftrightarrow> u = 92 \<or> u = 96 \<or> u \<in> set (js ''*_{}[]()<>!#|'')"

definition plain_unit :: "nat \<Rightarrow> nat" where
  "plain_unit u = (if u \<le> 31 \<or> u = 127 then 32 else u)"

definition escapeMarkdown :: "jsstr \<Rightarrow> jsstr" where
  "escapeMarkdown s = concat (map (\<lambda>u. if markdown_unit u then [92, u] else [u]) (map plain_unit s))"

subsection \<open>Splitting and joining\<close>

lemma split_not_Nil [simp]: "split_on c s \<noteq> []"
  by (induction s) (auto split: list.splits)

lemma split_append: "c \<notin> set w \<Longrightarrow> split_on c (w @ c # s) = w # split_on c s"
  by (induction w) auto

lemma split_single: "c \<notin> set w \<Longrightarrow> split_on c w = [w]"
  by (induction w) auto

lemma split_join: "ws \<noteq> [] \<Longrightarrow> list_all (\<lambda>w. c \<notin> set w) ws \<Longrightarrow> split_on c (join_with [c] ws) = ws"
  by (induction "[c]" ws rule: join_with.induct) (auto simp: split_append split_single)

lemma join_split: "join_with [c] (split_on c s) = s"
proof (induction s)
  case (Cons u s)
  obtain w ws where ws: "split_on c s = w # ws" by (cases "split_on c s") auto
  with Cons show ?case by (cases ws) auto
qed simp

lemma split_parts: "list_all (\<lambda>w. c \<notin> set w) (split_on c s)"
  by (induction s) (auto split: list.splits)

subsection \<open>Numbers\<close>

lemma number_text_append [simp]: "number_text (s @ [u]) = 10 * number_text s + (u - 48)"
  by (simp add: number_text_def)

lemma number_of_text [simp]: "number_text (text_number n) = n"
proof (induction n rule: less_induct)
  case (less n)
  show ?case
  proof (cases "n < 10")
    case True
    then show ?thesis by (simp add: text_number_def dec_digits.simps number_text_def js_def)
  next
    case False
    with less [of "n div 10"] show ?thesis
      by (simp add: text_number_def js_append dec_digits.simps [of n]) (simp add: js_def)
  qed
qed

lemma text_number_step: "text_number n = (if n < 10 then [48 + n] else text_number (n div 10) @ [48 + n mod 10])"
  by (simp add: text_number_def dec_digits.simps [of n] js_def)

lemma text_zero: "text_number n = js ''0'' \<longleftrightarrow> n = 0"
  using number_of_text [of n] by (auto simp: text_number_def dec_digits.simps number_text_def js_def)

lemma stable_number: "stable_part (text_number n)"
proof (induction n rule: less_induct)
  case (less n)
  show ?case
  proof (cases "n < 10")
    case True
    then show ?thesis by (auto simp: text_number_step [of n] stable_part_def digit_def js_def)
  next
    case False
    then have "n div 10 < n" "text_number (n div 10) \<noteq> js ''0''" by (auto simp: text_zero)
    with less [of "n div 10"] False show ?thesis
      by (auto simp: text_number_step [of n] stable_part_def digit_def split: list.splits)
  qed
qed

text \<open>A component has one spelling.\<close>

lemma digits_bound: "list_all digit s \<Longrightarrow> s \<noteq> [] \<Longrightarrow> 49 \<le> hd s \<Longrightarrow> 0 < number_text s"
proof (induction s rule: rev_induct)
  case (snoc u s)
  then show ?case by (cases s) (auto simp: digit_def number_text_def)
qed simp

lemma text_of_number: "stable_part s \<Longrightarrow> text_number (number_text s) = s"
proof (induction s rule: rev_induct)
  case (snoc u s)
  show ?case
  proof (cases s)
    case Nil
    with snoc.prems show ?thesis by (auto simp: stable_part_def digit_def number_text_def text_number_step js_def)
  next
    case (Cons v t)
    with snoc.prems have s: "49 \<le> v" "v \<le> 57" "list_all digit s" "digit u" by (auto simp: stable_part_def js_def)
    then have "stable_part s" using Cons by (simp add: stable_part_def)
    moreover have "0 < number_text s" using digits_bound [of s] s Cons by simp
    moreover obtain e where "u = 48 + e" "e < 10" using s(4) le_Suc_ex [of 48 u] by (auto simp: digit_def)
    ultimately show ?thesis using snoc.IH by (subst text_number_step) simp
  qed
qed (simp add: stable_part_def js_def)

subsection \<open>Versions\<close>

definition version_text :: "nat \<Rightarrow> nat \<Rightarrow> nat \<Rightarrow> jsstr" where
  "version_text a b c = join_with [46] (map text_number [a, b, c])"

lemma version_joined: "join_with [46] [text_number a, text_number b, text_number c] = version_text a b c"
  by (simp add: version_text_def)

lemma no_dot: "stable_part w \<Longrightarrow> 46 \<notin> set w"
  by (auto simp: stable_part_def digit_def list_all_iff js_def split: list.splits)

lemma split_version: "split_on 46 (version_text a b c) = map text_number [a, b, c]"
  unfolding version_text_def by (rule split_join) (simp_all add: no_dot stable_number)

lemma stable_version_text: "stableVersion (version_text a b c)"
  by (simp add: stableVersion_def split_version stable_number)

lemma stable_versionE:
  assumes "stableVersion s"
  obtains a b c where "s = version_text a b c"
proof -
  obtain u v w where ws: "split_on 46 s = [u, v, w]" "stable_part u" "stable_part v" "stable_part w"
    using assms by (auto simp: stableVersion_def numeral_3_eq_3 length_Suc_conv)
  then have "s = version_text (number_text u) (number_text v) (number_text w)"
    using join_split [of 46 s] by (simp add: version_text_def text_of_number)
  with that show thesis by blast
qed

lemma version_inject: "version_text a b c = version_text a' b' c' \<longleftrightarrow> a = a' \<and> b = b' \<and> c = c'"
  using split_version [of a b c] split_version [of a' b' c'] number_of_text by (metis list.inject list.simps(9))

lemma version_numbers: "map number_text (split_on 46 (version_text a b c)) = [a, b, c]"
  by (simp add: split_version)

lemma bump_text: "bumpVersion (JStr (version_text a b c)) bump = Some t \<longleftrightarrow> list_all (\<lambda>n. int n \<le> MAX_SAFE_INTEGER) [a, b, c] \<and>
     (bump = jstr ''major'' \<and> int a < MAX_SAFE_INTEGER \<and> t = version_text (a + 1) 0 0 \<or>
      bump = jstr ''minor'' \<and> int b < MAX_SAFE_INTEGER \<and> t = version_text a (b + 1) 0 \<or>
      bump = jstr ''patch'' \<and> int c < MAX_SAFE_INTEGER \<and> t = version_text a b (c + 1))"
  unfolding bumpVersion_def
  by (auto simp: stable_version_text version_numbers bump_index_def version_joined Let_def numeral_2_eq_2 simp del: join_with.simps)

lemma bump_string: "bumpVersion v bump = Some t \<Longrightarrow> \<exists>s. v = JStr s \<and> stableVersion s"
  by (auto simp: bumpVersion_def split: jsval.splits if_splits)

lemma bump_differs: "bumpVersion (JStr s) bump = Some t \<Longrightarrow> t \<noteq> s"
  using bump_string stable_versionE by (fastforce simp: bump_text version_inject)

text \<open>
  C23: \<open>bumpVersion\<close> accepts exactly the canonical versions with components in the exact integer range and
  one of the three kinds of release. It adds one to the chosen component, which must leave room for it,
  clears the later ones, and returns the canonical text of the result.
\<close>

theorem bumpVersion_exact:
  "bumpVersion v bump = Some t \<longleftrightarrow> (\<exists>a b c. v = JStr (version_text a b c) \<and> list_all (\<lambda>n. int n \<le> MAX_SAFE_INTEGER) [a, b, c] \<and>
     (bump = jstr ''major'' \<and> int a < MAX_SAFE_INTEGER \<and> t = version_text (a + 1) 0 0 \<or>
      bump = jstr ''minor'' \<and> int b < MAX_SAFE_INTEGER \<and> t = version_text a (b + 1) 0 \<or>
      bump = jstr ''patch'' \<and> int c < MAX_SAFE_INTEGER \<and> t = version_text a b (c + 1)))"
  (is "?lhs \<longleftrightarrow> ?rhs")
proof (cases "\<exists>a b c. v = JStr (version_text a b c)")
  case True
  then obtain a b c where v: "v = JStr (version_text a b c)" by blast
  have "?rhs \<longleftrightarrow> list_all (\<lambda>n. int n \<le> MAX_SAFE_INTEGER) [a, b, c] \<and>
     (bump = jstr ''major'' \<and> int a < MAX_SAFE_INTEGER \<and> t = version_text (a + 1) 0 0 \<or>
      bump = jstr ''minor'' \<and> int b < MAX_SAFE_INTEGER \<and> t = version_text a (b + 1) 0 \<or>
      bump = jstr ''patch'' \<and> int c < MAX_SAFE_INTEGER \<and> t = version_text a b (c + 1))"
    unfolding v by (auto simp: version_inject)
  moreover have "?lhs \<longleftrightarrow> \<dots>" unfolding v by (rule bump_text)
  ultimately show ?thesis by simp
next
  case False
  then have "\<not> stableVersion s" if "v = JStr s" for s using that by (blast elim: stable_versionE)
  then have "bumpVersion v bump = None" by (simp add: bumpVersion_def split: jsval.split)
  with False show ?thesis by auto
qed

text \<open>Reading the escaped text as Markdown does: a backslash hides the next character.\<close>

fun unescape :: "jsstr \<Rightarrow> jsstr" where
  "unescape [] = []"
| "unescape [u] = [u]"
| "unescape (u # v # s) = (if u = 92 then v # unescape s else u # unescape (v # s))"

lemma unescape_plain: "u \<noteq> 92 \<Longrightarrow> unescape (u # s) = u # unescape s"
  by (cases s) simp_all

lemma escape_round_trip: "unescape (escapeMarkdown s) = map plain_unit s"
  by (induction s) (auto simp: escapeMarkdown_def unescape_plain markdown_unit_def)

end
