(* ===== verification/Release.thy ===== *)
theory Release
  imports Version
begin

text \<open>
  What the release scripts share: \<open>src/packages/typescript/scripts/release-tools.mjs\<close> and the policy checks
  of \<open>package-tools.mjs\<close>. The environment variables, JSON, URLs, Base64 and the hash functions are the
  pure parameters in \<open>tools\<close>; git, npm, the file system, HTTP and the signature check are calls. The
  cancellation of an unread response body and the log lines have no effect here.
\<close>

subsection \<open>The world outside\<close>

record tools =
  variable :: "string \<Rightarrow> jsval"
  json_text :: "jsstr \<Rightarrow> jsval option"
  json_body :: "byte list \<Rightarrow> jsval option"
  json_print :: "bool \<Rightarrow> jsval \<Rightarrow> jsstr"
  sha256_hex :: "byte list \<Rightarrow> jsstr"
  sha512_base64 :: "byte list \<Rightarrow> jsstr"
  base64_hex :: "jsstr \<Rightarrow> jsstr"
  base64_text :: "jsval \<Rightarrow> jsstr option"
  new_url :: "jsval \<Rightarrow> url option"
  origin_of :: "url \<Rightarrow> jsstr"
  as_text :: "jsval \<Rightarrow> jsstr"
  uri_component :: "jsstr \<Rightarrow> jsstr"
  release_path :: "jsstr \<Rightarrow> jsstr"
  package_manifest :: jsval

datatype content = Text_content jsstr | Byte_content "byte list"

record http_call =
  h_method :: jsstr
  h_url :: jsstr
  h_body :: "content option"
  h_headers :: "(jsstr \<times> jsval) list"

datatype world_call =
    Run_git jsval "jsstr list"
  | Run_npm "jsstr list" jsval
  | Fetch_http http_call
  | Retry_delay
  | Read_text jsstr
  | Read_bytes jsstr
  | Write_file jsstr content
  | Make_directory
  | Append_outputs "(string \<times> jsval) list"
  | Check_signature jsval
  | Api string jsval
  | Announce jsstr jsval

datatype world_reply =
    Acknowledged
  | Printed jsstr
  | Stored "byte list"
  | Answered int jsval "byte list"
  | Data jsval
  | Api_error jsval

type_synonym 'a program = "(world_call, world_reply, 'a) script"

text \<open>A reply that does not fit the call is its failure.\<close>

definition run_git :: "jsval \<Rightarrow> jsstr list \<Rightarrow> jsstr program" where
  "run_git dir args = Calls (Run_git dir args) (\<lambda>r. case r of Printed s \<Rightarrow> Done s | _ \<Rightarrow> Fails)"

definition run_npm :: "jsstr list \<Rightarrow> jsval \<Rightarrow> jsstr program" where
  "run_npm args sha = Calls (Run_npm args sha) (\<lambda>r. case r of Printed s \<Rightarrow> Done s | _ \<Rightarrow> Fails)"

definition act :: "world_call \<Rightarrow> unit program" where
  "act c = Calls c (\<lambda>r. case r of Acknowledged \<Rightarrow> Done () | _ \<Rightarrow> Fails)"

definition fetch_http :: "http_call \<Rightarrow> (int \<times> jsval \<times> byte list) program" where
  "fetch_http c = Calls (Fetch_http c) (\<lambda>r. case r of Answered st loc body \<Rightarrow> Done (st, loc, body) | _ \<Rightarrow> Fails)"

definition read_text :: "jsstr \<Rightarrow> jsstr program" where
  "read_text path = Calls (Read_text path) (\<lambda>r. case r of Printed s \<Rightarrow> Done s | _ \<Rightarrow> Fails)"

definition read_bytes :: "jsstr \<Rightarrow> byte list program" where
  "read_bytes path = Calls (Read_bytes path) (\<lambda>r. case r of Stored bs \<Rightarrow> Done bs | _ \<Rightarrow> Fails)"

subsection \<open>Language\<close>

text \<open>\<open>v.k\<close> throws on \<open>null\<close> and \<open>undefined\<close>; \<open>v?.k\<close> does not and is \<open>get\<close>.\<close>

definition nullish :: "jsval \<Rightarrow> bool" where
  "nullish v \<longleftrightarrow> v = JUndef \<or> v = JNull"

definition prop_of :: "jsval \<Rightarrow> string \<Rightarrow> ('c, 'r, jsval) script" where
  "prop_of v k = require (\<not> nullish v) (Done (get v k))"

text \<open>\<open>deepEqual\<close> of the strict assertions: objects are compared as maps.\<close>

lemma zip_size [termination_simp]: "(x, y) \<in> set (zip xs ys) \<Longrightarrow> size x < Suc (size_list size xs)"
  by (auto dest!: set_zip_leftD intro: size_list_estimation' simp: less_Suc_eq_le)

fun deep_equal :: "jsval \<Rightarrow> jsval \<Rightarrow> bool" where
  "deep_equal (JArr xs) (JArr ys) = (length xs = length ys \<and> list_all (\<lambda>(x, y). deep_equal x y) (zip xs ys))"
| "deep_equal (JObj ps) (JObj qs) = (length ps = length qs \<and>
     list_all (\<lambda>(k, x). case map_of qs k of None \<Rightarrow> False | Some y \<Rightarrow> deep_equal x y) ps)"
| "deep_equal v w = (v = w)"

declare deep_equal.simps [simp del]

text \<open>\<open>s.trim()\<close>.\<close>

definition js_trim :: "jsstr \<Rightarrow> jsstr" where
  "js_trim s = rev (dropWhile space_unit (rev (dropWhile space_unit s)))"

definition hex40 :: "jsval \<Rightarrow> bool" where
  "hex40 = str_test (re_class (\<lambda>u. digit u \<or> 97 \<le> u \<and> u \<le> 102) 40 40)"

text \<open>\<open>/^sha512-[A-Za-z0-9+/]{86}==$/\<close>.\<close>

definition re_integrity :: "jsstr \<Rightarrow> bool" where
  "re_integrity s \<longleftrightarrow> length s = 95 \<and> take 7 s = js ''sha512-'' \<and> list_all (\<lambda>u. upper u \<or> lower u \<or> digit u \<or> units ''+/'' u) (take 86 (drop 7 s)) \<and>
     drop 93 s = js ''==''"

subsection \<open>Constants and the environment\<close>

definition repository :: jsstr where
  "repository = js ''sellaro-net/ja3proxy''"

definition packageName :: jsstr where
  "packageName = js ''@sellaro/ja3proxy''"

definition manifestFile :: jsstr where
  "manifestFile = js ''packages/typescript/package.json''"

definition workflowPath :: jsstr where
  "workflowPath = js ''.github/workflows/sdk-publish.yml''"

record publication =
  p_version :: jsstr
  p_source :: jsstr
  p_integrity :: jsstr

definition initialPublication :: publication where
  "initialPublication = \<lparr>p_version = js ''1.0.0'', p_source = js ''34c39e02a879255943e931b5cca30107aa36316f'',
     p_integrity = js ''sha512-vYpA+28yc8FTREMxrXb+HvAXD4qNAn2nvBHePCSchTFOrlv4OsJ0PKlCqT/4cg4vW6RoJkNYTDcq6PdWn0zI0A==''\<rparr>"

definition no_tokens :: "tools \<Rightarrow> bool" where
  "no_tokens t \<longleftrightarrow> (if truthy (variable t ''NODE_AUTH_TOKEN'') then variable t ''NODE_AUTH_TOKEN'' else variable t ''NPM_TOKEN'') = JUndef"

definition assertWorkflow :: "tools \<Rightarrow> bool" where
  "assertWorkflow t \<longleftrightarrow> variable t ''GITHUB_ACTIONS'' = jstr ''true'' \<and> variable t ''GITHUB_REPOSITORY'' = JStr repository \<and>
     variable t ''GITHUB_REF'' = jstr ''refs/heads/main'' \<and>
     variable t ''GITHUB_WORKFLOW_REF'' = JStr (repository @ js ''/'' @ workflowPath @ js ''@refs/heads/main'') \<and>
     variable t ''RUNNER_ENVIRONMENT'' = jstr ''github-hosted'' \<and> no_tokens t"

text \<open>\<open>package-tools.mjs\<close>: what a manifest may contain.\<close>

definition no_keys :: "jsval \<Rightarrow> bool" where
  "no_keys v \<longleftrightarrow> (case v of JArr xs \<Rightarrow> xs = [] | JStr s \<Rightarrow> s = [] | _ \<Rightarrow> js_keys v = [])"

definition assertPackagePolicy :: "tools \<Rightarrow> jsval \<Rightarrow> bool \<Rightarrow> bool" where
  "assertPackagePolicy t value release \<longleftrightarrow> get value ''name'' = JStr packageName \<and> get value ''version'' = get (package_manifest t) ''version'' \<and>
     get value ''license'' = jstr ''MIT'' \<and> get value ''private'' = JBool (\<not> release) \<and> get (get value ''engines'') ''node'' = jstr ''>=22.14.0'' \<and>
     list_all (\<lambda>f. no_keys (get value f)) [''dependencies'', ''optionalDependencies'', ''peerDependencies'', ''bundledDependencies''] \<and>
     list_all (\<lambda>n. get (get value ''scripts'') n = JUndef) [''preinstall'', ''install'', ''postinstall'', ''prepare'', ''prepublish'', ''prepublishOnly''] \<and>
     js_keys (get value ''exports'') = [js ''.'', js ''./sync'']"

definition assertReleaseContext :: "tools \<Rightarrow> bool" where
  "assertReleaseContext t \<longleftrightarrow> variable t ''GITHUB_ACTIONS'' = jstr ''true'' \<and> variable t ''GITHUB_REPOSITORY'' = JStr repository \<and>
     variable t ''GITHUB_REF'' = jstr ''refs/heads/main'' \<and>
     variable t ''GITHUB_WORKFLOW_REF'' = jstr ''sellaro-net/ja3proxy/.github/workflows/sdk-publish.yml@refs/heads/main'' \<and>
     hex40 (variable t ''SDK_RELEASE_SHA'') \<and> variable t ''SDK_RELEASE_VERSION'' = get (package_manifest t) ''version'' \<and>
     assertPackagePolicy t (package_manifest t) False \<and> no_tokens t"

subsection \<open>The source of a version\<close>

definition git :: "jsval \<Rightarrow> jsstr list \<Rightarrow> jsstr program" where
  "git dir args = sequence (run_git dir args) (\<lambda>s. Done (js_trim s))"

definition sourceManifest :: "tools \<Rightarrow> jsval \<Rightarrow> jsval program" where
  "sourceManifest t sha = require (hex40 sha) (sequence (git JUndef [js ''show'', str_of sha @ js '':'' @ manifestFile]) (\<lambda>s. given (json_text t s) Done))"

text \<open>The walk along the changes of the manifest, newest first.\<close>

fun find_source :: "tools \<Rightarrow> jsval \<Rightarrow> jsstr list \<Rightarrow> jsstr option \<Rightarrow> jsstr option program" where
  "find_source t version [] src = Done src"
| "find_source t version (sha # shas) src = sequence (sourceManifest t (JStr sha)) (\<lambda>value. sequence (prop_of value ''version'') (\<lambda>v.
     if v = version then find_source t version shas (Some sha)
     else if src \<noteq> None then Done src else find_source t version shas src))"

definition tag_of :: "jsstr \<Rightarrow> jsstr" where
  "tag_of version = js ''sdk-v'' @ version"

definition filename_of :: "jsstr \<Rightarrow> jsstr" where
  "filename_of version = js ''sellaro-ja3proxy-'' @ version @ js ''.tgz''"

definition resolve_source :: "tools \<Rightarrow> jsval \<Rightarrow> jsstr \<Rightarrow> bool \<Rightarrow> jsstr program" where
  "resolve_source t eventSha version tagged =
     (if tagged then sequence (git JUndef [js ''rev-parse'', tag_of version @ js ''^{commit}'']) (\<lambda>src.
        sequence (git JUndef [js ''merge-base'', js ''--is-ancestor'', src, str_of eventSha]) (\<lambda>_. Done src))
      else sequence (git JUndef [js ''log'', js ''--first-parent'', js ''--format=%H'', str_of eventSha, js ''--'', manifestFile]) (\<lambda>out.
        sequence (find_source t (JStr version) (filter (\<lambda>s. s \<noteq> []) (split_on 10 out)) None) (\<lambda>src. given src Done)))"

definition identity_of :: "jsstr \<Rightarrow> jsstr \<Rightarrow> bool \<Rightarrow> jsval" where
  "identity_of version src tagged = JObj [(js ''version'', JStr version), (js ''tag'', JStr (tag_of version)), (js ''source'', JStr src),
     (js ''tagged'', JBool tagged), (js ''filename'', JStr (filename_of version))]"

definition source_policy :: "jsval \<Rightarrow> jsval \<Rightarrow> bool" where
  "source_policy value version \<longleftrightarrow> get value ''name'' = JStr packageName \<and> get value ''version'' = version \<and> get value ''private'' = JBool True \<and>
     get value ''license'' = jstr ''MIT''"

definition release_identity :: "tools \<Rightarrow> jsval \<Rightarrow> jsval \<Rightarrow> jsval program" where
  "release_identity t eventSha version = require (str_test stableVersion version) (
     sequence (git JUndef [js ''tag'', js ''--list'', tag_of (str_of version)]) (\<lambda>listed. let tagged = (listed = tag_of (str_of version)) in
     sequence (resolve_source t eventSha (str_of version) tagged) (\<lambda>src.
     sequence (sourceManifest t (JStr src)) (\<lambda>value.
       require (source_policy value version) (Done (identity_of (str_of version) src tagged))))))"

definition resolveIdentity :: "tools \<Rightarrow> jsval \<Rightarrow> jsstr \<Rightarrow> jsval program" where
  "resolveIdentity t eventSha requested = sequence (sourceManifest t eventSha) (\<lambda>current.
     sequence (if requested = [] then prop_of current ''version'' else Done (JStr requested)) (release_identity t eventSha))"

subsection \<open>HTTP\<close>

record request_options =
  q_method :: jsstr
  q_body :: "content option"
  q_headers :: "(jsstr \<times> jsval) list"
  q_statuses :: "int list"
  q_github :: bool
  q_notFoundRetries :: int

definition plain_request :: request_options where
  "plain_request = \<lparr>q_method = js ''GET'', q_body = None, q_headers = [], q_statuses = [200], q_github = False, q_notFoundRetries = 0\<rparr>"

primrec attempts :: "http_call \<Rightarrow> int list \<Rightarrow> nat \<Rightarrow> (int \<times> jsval \<times> byte list) program" where
  "attempts c statuses 0 = sequence (fetch_http c) (\<lambda>r. require (fst r \<in> set statuses) (Done r))"
| "attempts c statuses (Suc n) = sequence (fetch_http c) (\<lambda>r.
     if fst r = 404 then sequence (act Retry_delay) (\<lambda>_. attempts c statuses n) else require (fst r \<in> set statuses) (Done r))"

definition request_headers :: "tools \<Rightarrow> request_options \<Rightarrow> (jsstr \<times> jsval) list" where
  "request_headers t q = fold (\<lambda>(k, v) ps. set_prop ps k v) (q_headers q)
     ((js ''accept'', jstr ''application/json'') # (if q_github q then [(js ''authorization'', JStr (js ''Bearer '' @ str_of (variable t ''GITHUB_TOKEN''))),
       (js ''x-github-api-version'', jstr ''2022-11-28'')] else []))"

definition http_request :: "tools \<Rightarrow> jsstr \<Rightarrow> request_options \<Rightarrow> (int \<times> jsval \<times> byte list) program" where
  "http_request t address q = require (q_github q \<longrightarrow> truthy (variable t ''GITHUB_TOKEN'')) (
     require (0 \<le> q_notFoundRetries q \<and> q_notFoundRetries q \<le> 30) (
     require (q_notFoundRetries q \<noteq> 0 \<longrightarrow> q_method q = js ''GET'') (
       attempts \<lparr>h_method = q_method q, h_url = address, h_body = q_body q, h_headers = request_headers t q\<rparr> (q_statuses q) (nat (q_notFoundRetries q)))))"

definition api_url :: "jsstr \<Rightarrow> jsstr" where
  "api_url path = js ''https://api.github.com/repos/'' @ repository @ js ''/'' @ path"

definition github :: "tools \<Rightarrow> jsstr \<Rightarrow> jsval option \<Rightarrow> int list \<Rightarrow> jsstr \<Rightarrow> jsval program" where
  "github t meth body statuses path = sequence (http_request t (api_url path) \<lparr>q_method = meth, q_body = map_option (\<lambda>v. Text_content (json_print t False v)) body,
       q_headers = (if body = None then [] else [(js ''content-type'', jstr ''application/json'')]), q_statuses = statuses, q_github = True, q_notFoundRetries = 0\<rparr>)
     (\<lambda>(st, loc, bytes). if st = 404 \<or> st = 204 then Done JNull else given (json_body t bytes) Done)"

definition protection_rules_ok :: "jsval \<Rightarrow> bool" where
  "protection_rules_ok environment = (case nullish_or (get environment ''protection_rules'') (JArr []) of
     JArr rules \<Rightarrow> list_all (\<lambda>r. \<not> nullish r \<and> get r ''type'' \<notin> {jstr ''required_reviewers'', jstr ''wait_timer''}) rules | _ \<Rightarrow> False)"

definition first_policy :: "jsval \<Rightarrow> jsval" where
  "first_policy policies = (case get policies ''branch_policies'' of JArr (p # _) \<Rightarrow> p | _ \<Rightarrow> JUndef)"

definition assertProtection :: "tools \<Rightarrow> unit program" where
  "assertProtection t = sequence (github t (js ''GET'') None [200] (js ''branches/main'')) (\<lambda>branch. require (get branch ''protected'' = JBool True) (
     sequence (github t (js ''GET'') None [200] (js ''environments/npm-production'')) (\<lambda>environment.
     require (deep_equal (get environment ''deployment_branch_policy'') (JObj [(js ''protected_branches'', JBool False), (js ''custom_branch_policies'', JBool True)])) (
     require (protection_rules_ok environment) (
     sequence (github t (js ''GET'') None [200] (js ''environments/npm-production/deployment-branch-policies?per_page=100'')) (\<lambda>policies.
       require (get policies ''total_count'' = jint 1 \<and> get (first_policy policies) ''name'' = jstr ''main'' \<and> get (first_policy policies) ''type'' = jstr ''branch'')
         (Done ())))))))"

subsection \<open>The registry\<close>

definition registry_url :: "jsstr \<Rightarrow> jsstr" where
  "registry_url version = js ''https://registry.npmjs.org/@sellaro%2fja3proxy/'' @ version"

definition integrity_of :: "jsval \<Rightarrow> jsval" where
  "integrity_of value = get (get value ''dist'') ''integrity''"

definition registryManifest :: "tools \<Rightarrow> jsval \<Rightarrow> int \<Rightarrow> jsval program" where
  "registryManifest t version retries = require (str_test stableVersion version) (
     sequence (http_request t (registry_url (str_of version)) (plain_request\<lparr>q_statuses := [200, 404], q_notFoundRetries := retries\<rparr>)) (\<lambda>(st, loc, bytes).
       if st = 404 then Done JNull
       else given (json_body t bytes) (\<lambda>value. require (get value ''name'' = JStr packageName \<and> get value ''version'' = version \<and>
         get value ''license'' = jstr ''MIT'' \<and> str_test re_integrity (integrity_of value)) (Done value))))"

definition assertProvenance :: "tools \<Rightarrow> jsval \<Rightarrow> jsval \<Rightarrow> jsstr \<Rightarrow> bool" where
  "assertProvenance t statement identity integrity \<longleftrightarrow> (let build = get (get statement ''predicate'') ''buildDefinition'' in
     get statement ''_type'' = jstr ''https://in-toto.io/Statement/v1'' \<and> get statement ''predicateType'' = jstr ''https://slsa.dev/provenance/v1'' \<and>
     deep_equal (get statement ''subject'') (JArr [JObj [(js ''name'', JStr (js ''pkg:npm/%40sellaro/ja3proxy@'' @ str_of (get identity ''version''))),
       (js ''digest'', JObj [(js ''sha512'', JStr (base64_hex t (drop 7 integrity)))])]]) \<and>
     get build ''buildType'' = jstr ''https://slsa-framework.github.io/github-actions-buildtypes/workflow/v1'' \<and>
     deep_equal (get (get build ''externalParameters'') ''workflow'') (JObj [(js ''ref'', jstr ''refs/heads/main''),
       (js ''repository'', JStr (js ''https://github.com/'' @ repository)), (js ''path'', JStr workflowPath)]) \<and>
     deep_equal (get build ''resolvedDependencies'') (JArr [JObj [(js ''uri'', JStr (js ''git+https://github.com/'' @ repository @ js ''@refs/heads/main'')),
       (js ''digest'', JObj [(js ''gitCommit'', get identity ''source'')])]]) \<and>
     get (get (get (get statement ''predicate'') ''runDetails'') ''builder'') ''id'' = jstr ''https://github.com/actions/runner/github-hosted'')"

definition initial_release :: "jsval \<Rightarrow> jsstr \<Rightarrow> bool" where
  "initial_release identity integrity \<longleftrightarrow> get identity ''source'' = JStr (p_source initialPublication) \<and> get identity ''tagged'' = JBool True \<and>
     integrity = p_integrity initialPublication"

text \<open>The one provenance attestation of the document; an entry without properties throws.\<close>

definition provenance_of :: "jsval \<Rightarrow> jsval option" where
  "provenance_of document = (case get document ''attestations'' of
     JArr items \<Rightarrow> if list_ex nullish items then None
       else (case filter (\<lambda>i. get i ''predicateType'' = jstr ''https://slsa.dev/provenance/v1'') items of [i] \<Rightarrow> Some i | _ \<Rightarrow> None)
   | _ \<Rightarrow> None)"

definition attestation_url :: "tools \<Rightarrow> jsval \<Rightarrow> url option" where
  "attestation_url t value = (case new_url t (nullish_or (get (get (get value ''dist'') ''attestations'') ''url'') (jstr ''https://invalid.invalid'')) of
     Some u \<Rightarrow> if origin_of t u = js ''https://registry.npmjs.org'' \<and> username u @ password u @ hash u = [] then Some u else None | None \<Rightarrow> None)"

definition verifyRegistry :: "tools \<Rightarrow> jsval \<Rightarrow> jsval \<Rightarrow> jsval \<Rightarrow> int \<Rightarrow> unit program" where
  "verifyRegistry t value identity expectedIntegrity retries = (let integrity = integrity_of value in
     require (truthy expectedIntegrity \<longrightarrow> integrity = expectedIntegrity) (
     if get identity ''version'' = JStr (p_version initialPublication) then require (initial_release identity (str_of integrity)) (Done ())
     else given (attestation_url t value) (\<lambda>u.
       sequence (http_request t (href u) (plain_request\<lparr>q_notFoundRetries := retries\<rparr>)) (\<lambda>(st, loc, bytes).
       given (json_body t bytes) (\<lambda>document. given (provenance_of document) (\<lambda>entry.
         let bundle = get entry ''bundle'' in
         sequence (act (Check_signature bundle)) (\<lambda>_.
         given (Option.bind (base64_text t (get (get bundle ''dsseEnvelope'') ''payload'')) (json_text t)) (\<lambda>statement.
           require (assertProvenance t statement identity (str_of integrity)) (Done ())))))))))"

definition integrity_text :: "tools \<Rightarrow> byte list \<Rightarrow> jsstr" where
  "integrity_text t bytes = js ''sha512-'' @ sha512_base64 t bytes"

definition downloadRegistry :: "tools \<Rightarrow> jsval \<Rightarrow> jsval \<Rightarrow> byte list program" where
  "downloadRegistry t value identity = given (new_url t (get (get value ''dist'') ''tarball'')) (\<lambda>u.
     require (href u = js ''https://registry.npmjs.org/@sellaro/ja3proxy/-/ja3proxy-'' @ str_of (get identity ''version'') @ js ''.tgz'') (
     sequence (http_request t (href u) plain_request) (\<lambda>(st, loc, bytes).
       require (JStr (integrity_text t bytes) = integrity_of value) (
       sequence (act (Write_file (release_path t (str_of (get identity ''filename''))) (Byte_content bytes))) (\<lambda>_. Done bytes)))))"

definition outputs :: "tools \<Rightarrow> (string \<times> jsval) list \<Rightarrow> unit program" where
  "outputs t values = require (truthy (variable t ''GITHUB_OUTPUT'')) (act (Append_outputs values))"

definition checksum_line :: "jsstr \<Rightarrow> jsstr \<Rightarrow> jsstr" where
  "checksum_line sha filename = sha @ js ''  '' @ filename @ [10]"

definition readArtifact :: "tools \<Rightarrow> (jsval \<times> byte list) program" where
  "readArtifact t = sequence (read_text (release_path t (js ''release.json''))) (\<lambda>s. given (json_text t s) (\<lambda>identity.
     let version = get identity ''version''; filename = filename_of (str_of version) in
     require (str_test stableVersion version \<and> hex40 (get identity ''source'') \<and> get identity ''tag'' = JStr (tag_of (str_of version)) \<and>
       get identity ''filename'' = JStr filename \<and> get identity ''source'' = variable t ''SDK_RELEASE_SHA'' \<and>
       version = variable t ''SDK_RELEASE_VERSION'') (
     sequence (read_bytes (release_path t filename)) (\<lambda>bytes.
     require (JStr (sha256_hex t bytes) = variable t ''SDK_ARTIFACT_SHA256'' \<and> get identity ''sha256'' = JStr (sha256_hex t bytes) \<and>
       get identity ''integrity'' = JStr (integrity_text t bytes)) (
     sequence (read_text (release_path t (filename @ js ''.sha256''))) (\<lambda>line.
       require (line = checksum_line (sha256_hex t bytes) filename) (Done (identity, bytes))))))))"

end
