(* ===== verification/Publish.thy ===== *)
theory Publish
  imports Release
begin

text \<open>
  The four scripts of the publishing workflow, in the order in which it runs them: \<open>resolve-release.mjs\<close>,
  \<open>release-artifact.mjs\<close>, \<open>publish-release.mjs\<close> and \<open>complete-release.mjs\<close> of
  \<open>src/packages/typescript/scripts\<close>.
\<close>

subsection \<open>resolve-release.mjs\<close>

definition unchanged_version :: "tools \<Rightarrow> jsval \<Rightarrow> bool program" where
  "unchanged_version t event = (if variable t ''GITHUB_EVENT_NAME'' \<noteq> jstr ''push'' then Done False
     else sequence (prop_of event ''before'') (\<lambda>before. if before = JStr (replicate 40 48) then Done False
       else sequence (sourceManifest t before) (\<lambda>m. sequence (prop_of m ''version'') (\<lambda>v.
         sequence (sourceManifest t (variable t ''GITHUB_SHA'')) (\<lambda>m'. sequence (prop_of m' ''version'') (\<lambda>v'. Done (v = v')))))))"

definition resolve_release :: "tools \<Rightarrow> unit program" where
  "resolve_release t = (let sha = variable t ''GITHUB_SHA'' in
     require (assertWorkflow t \<and> hex40 sha) (
     sequence (git JUndef [js ''merge-base'', js ''--is-ancestor'', str_of sha, js ''refs/remotes/origin/main'']) (\<lambda>_.
     sequence (read_text (str_of (variable t ''GITHUB_EVENT_PATH''))) (\<lambda>s. given (json_text t s) (\<lambda>event.
     sequence (unchanged_version t event) (\<lambda>unchanged.
     if unchanged then outputs t [(''release'', JBool False)]
     else require (variable t ''GITHUB_EVENT_NAME'' \<in> {jstr ''push'', jstr ''workflow_dispatch''}) (
       let requested = (if variable t ''GITHUB_EVENT_NAME'' = jstr ''workflow_dispatch'' then js_trim (str_of (variable t ''SDK_RETRY_VERSION'')) else []) in
       sequence (resolveIdentity t sha requested) (\<lambda>identity.
       sequence (assertProtection t) (\<lambda>_.
       sequence (registryManifest t (get identity ''version'') 0) (\<lambda>registered.
       require (get identity ''tagged'' \<noteq> JBool True \<or> truthy registered) (
         outputs t [(''release'', JBool True), (''source'', get identity ''source''), (''version'', get identity ''version''),
           (''identity'', JStr (json_print t False identity))])))))))))))"

subsection \<open>release-artifact.mjs\<close>

definition checked_identity :: "tools \<Rightarrow> jsval \<Rightarrow> bool" where
  "checked_identity t identity \<longleftrightarrow> get identity ''version'' = variable t ''SDK_RELEASE_VERSION'' \<and> get identity ''source'' = variable t ''SDK_RELEASE_SHA'' \<and>
     get identity ''filename'' = JStr (filename_of (as_text t (get identity ''version'')))"

definition recover_artifact :: "tools \<Rightarrow> jsval \<Rightarrow> unit program" where
  "recover_artifact t identity = (let filename = str_of (get identity ''filename'') in
     sequence (registryManifest t (get identity ''version'') 0) (\<lambda>value.
     sequence (if truthy value then sequence (verifyRegistry t value identity JUndef 0) (\<lambda>_. sequence (downloadRegistry t value identity) (\<lambda>bytes.
         act (Write_file (release_path t (filename @ js ''.sha256'')) (Text_content (checksum_line (sha256_hex t bytes) filename)))))
       else require (get identity ''tagged'' = JBool False) (Done ())) (\<lambda>_.
     sequence (act (Write_file (release_path t (js ''release.json'')) (Text_content (json_print t True identity @ [10])))) (\<lambda>_.
       outputs t [(''recovered'', JBool (truthy value))]))))"

definition record_artifact :: "tools \<Rightarrow> jsval \<Rightarrow> unit program" where
  "record_artifact t identity = (let filename = str_of (get identity ''filename'') in
     sequence (read_bytes (release_path t filename)) (\<lambda>bytes.
     sequence (read_text (release_path t (filename @ js ''.sha256''))) (\<lambda>line.
     require (line = checksum_line (sha256_hex t bytes) filename) (
     sequence (act (Write_file (release_path t (js ''release.json'')) (Text_content (json_print t True (JObj (set_prop (set_prop (spread_object identity)
         (js ''sha256'') (JStr (sha256_hex t bytes))) (js ''integrity'') (JStr (integrity_text t bytes)))) @ [10])))) (\<lambda>_.
       outputs t [(''sha256'', JStr (sha256_hex t bytes))])))))"

definition release_artifact :: "tools \<Rightarrow> jsval \<Rightarrow> unit program" where
  "release_artifact t mode = require (assertWorkflow t \<and> assertReleaseContext t) (
     sequence (git (variable t ''SDK_SOURCE_DIRECTORY'') [js ''rev-parse'', js ''HEAD'']) (\<lambda>headSha. require (JStr headSha = variable t ''SDK_RELEASE_SHA'') (
     given (json_text t (str_of (variable t ''SDK_RELEASE_IDENTITY''))) (\<lambda>identity.
     require (checked_identity t identity) (
     sequence (act Make_directory) (\<lambda>_.
       if mode = jstr ''recover'' then recover_artifact t identity
       else require (mode = jstr ''record'') (record_artifact t identity)))))))"

subsection \<open>publish-release.mjs\<close>

definition publish_arguments :: "tools \<Rightarrow> jsval \<Rightarrow> jsstr list" where
  "publish_arguments t identity = [js ''publish'', release_path t (str_of (get identity ''filename'')), js ''--provenance'', js ''--access'', js ''public'',
     js ''--tag'', js ''latest'', js ''--ignore-scripts'', js ''--registry'', js ''https://registry.npmjs.org/'', js ''--fetch-retries=0'', js ''--fetch-timeout=30000'']"

definition publish_new :: "tools \<Rightarrow> jsval \<Rightarrow> unit program" where
  "publish_new t identity = require (get identity ''tagged'' = JBool False) (
     require (truthy (variable t ''ACTIONS_ID_TOKEN_REQUEST_URL'') \<and> truthy (variable t ''ACTIONS_ID_TOKEN_REQUEST_TOKEN'')) (
     sequence (run_npm [js ''--version''] JUndef) (\<lambda>npm. require (js_trim npm = js ''12.0.2'') (
     sequence (run_npm (publish_arguments t identity) (get identity ''source'')) (\<lambda>_.
     sequence (registryManifest t (get identity ''version'') 30) (\<lambda>published. require (truthy published) (
       verifyRegistry t published identity (get identity ''integrity'') 30)))))))"

definition publish_release :: "tools \<Rightarrow> unit program" where
  "publish_release t = require (assertWorkflow t) (sequence (assertProtection t) (\<lambda>_. sequence (readArtifact t) (\<lambda>(identity, bytes).
     sequence (registryManifest t (get identity ''version'') 0) (\<lambda>existing.
       if truthy existing then verifyRegistry t existing identity (get identity ''integrity'') 0 else publish_new t identity))))"

subsection \<open>complete-release.mjs\<close>

text \<open>\<open>tagSource\<close>: annotated tags are followed, at most eight of them.\<close>

primrec follow_tag :: "tools \<Rightarrow> nat \<Rightarrow> jsval \<Rightarrow> jsval program" where
  "follow_tag t 0 obj = Done obj"
| "follow_tag t (Suc n) obj = (if get obj ''type'' = jstr ''tag'' then
     sequence (github t (js ''GET'') None [200] (js ''git/tags/'' @ as_text t (get obj ''sha''))) (\<lambda>tag. sequence (prop_of tag ''object'') (follow_tag t n))
     else Done obj)"

definition tagSource :: "tools \<Rightarrow> jsval \<Rightarrow> jsval \<Rightarrow> unit program" where
  "tagSource t identity ref = sequence (prop_of ref ''object'') (\<lambda>obj. sequence (follow_tag t 8 obj) (\<lambda>final.
     require (get final ''type'' = jstr ''commit'' \<and> get final ''sha'' = get identity ''source'') (Done ())))"

definition tag_path :: "jsval \<Rightarrow> jsstr" where
  "tag_path identity = js ''git/ref/tags/'' @ str_of (get identity ''tag'')"

definition ensure_tag :: "tools \<Rightarrow> jsval \<Rightarrow> jsval program" where
  "ensure_tag t identity = sequence (github t (js ''GET'') None [200, 404] (tag_path identity)) (\<lambda>ref. if truthy ref then Done ref
     else sequence (github t (js ''POST'') (Some (JObj [(js ''ref'', JStr (js ''refs/tags/'' @ str_of (get identity ''tag''))), (js ''sha'', get identity ''source'')]))
         [201, 422] (js ''git/refs'')) (\<lambda>made. sequence (prop_of made ''object'') (\<lambda>obj.
       if truthy obj then Done made else github t (js ''GET'') None [200] (tag_path identity))))"

fun find_tagged :: "jsval \<Rightarrow> jsval list \<Rightarrow> jsval option" where
  "find_tagged tag [] = Some JUndef"
| "find_tagged tag (r # items) = (if nullish r then None else if get r ''tag_name'' = tag then Some r else find_tagged tag items)"

text \<open>\<open>n\<close> pages are left.\<close>

primrec find_release :: "tools \<Rightarrow> jsval \<Rightarrow> nat \<Rightarrow> jsval program" where
  "find_release t tag 0 = Done JUndef"
| "find_release t tag (Suc n) = sequence (github t (js ''GET'') None [200] (js ''releases?per_page=100&page='' @ text_number (20 - n))) (\<lambda>page.
     case page of
       JArr items \<Rightarrow> given (find_tagged tag items) (\<lambda>found. if truthy found \<or> length items < 100 then Done found
         else require (n \<noteq> 0) (find_release t tag n))
     | _ \<Rightarrow> Fails)"

definition release_body :: "jsval \<Rightarrow> jsstr" where
  "release_body identity = (let version = str_of (get identity ''version''); src = str_of (get identity ''source'') in
     js ''Published [@sellaro/ja3proxy@'' @ version @ js ''](https://www.npmjs.com/package/@sellaro/ja3proxy/v/'' @ version @ js '').'' @ [10, 10] @
     js ''Source: ['' @ src @ js ''](https://github.com/'' @ repository @ js ''/commit/'' @ src @ js '')'' @ [10, 10] @
     js ''The attached tarball is byte-for-byte identical to npm (SHA-256: '' @ [96] @ str_of (get identity ''sha256'') @ [96] @ js '').'')"

definition ensure_release :: "tools \<Rightarrow> jsval \<Rightarrow> jsval program" where
  "ensure_release t identity = sequence (github t (js ''GET'') None [200, 404] (js ''releases/tags/'' @ str_of (get identity ''tag''))) (\<lambda>known.
     sequence (if truthy known then Done known else find_release t (get identity ''tag'') 20) (\<lambda>found.
     if truthy found then Done found
     else github t (js ''POST'') (Some (JObj [(js ''tag_name'', get identity ''tag''), (js ''target_commitish'', get identity ''source''),
       (js ''name'', JStr (js ''TypeScript SDK '' @ str_of (get identity ''version''))), (js ''body'', JStr (release_body identity)),
       (js ''draft'', JBool True), (js ''prerelease'', JBool False), (js ''make_latest'', jstr ''false'')])) [201] (js ''releases'')))"

definition asset_path :: "tools \<Rightarrow> jsval \<Rightarrow> jsstr" where
  "asset_path t asset = js ''releases/assets/'' @ as_text t (get asset ''id'')"

definition asset_bytes :: "tools \<Rightarrow> jsval \<Rightarrow> byte list program" where
  "asset_bytes t asset = sequence (http_request t (api_url (asset_path t asset)) (plain_request\<lparr>q_github := True,
       q_headers := [(js ''accept'', jstr ''application/octet-stream'')], q_statuses := [200, 302]\<rparr>)) (\<lambda>(st, loc, bytes).
     if st = 302 then given (new_url t loc) (\<lambda>u. require (protocol u = js ''https:'' \<and> hostname u = js ''release-assets.githubusercontent.com'' \<and>
         username u @ password u = []) (sequence (http_request t (href u) plain_request) (\<lambda>(st', loc', bytes'). Done bytes')))
     else Done bytes)"

definition upload_url :: "tools \<Rightarrow> jsval \<Rightarrow> jsstr \<Rightarrow> jsstr" where
  "upload_url t release name = js ''https://uploads.github.com/repos/'' @ repository @ js ''/releases/'' @ as_text t (get release ''id'') @ js ''/assets?name='' @
     uri_component t name"

definition upload_asset :: "tools \<Rightarrow> jsval \<Rightarrow> jsstr \<Rightarrow> byte list \<Rightarrow> unit program" where
  "upload_asset t release name bytes = sequence (http_request t (upload_url t release name) (plain_request\<lparr>q_method := js ''POST'', q_body := Some (Byte_content bytes),
       q_github := True, q_statuses := [201], q_headers := [(js ''content-type'', jstr ''application/octet-stream'')]\<rparr>)) (\<lambda>(st, loc, answer).
     given (json_body t answer) (\<lambda>uploaded. require (get uploaded ''state'' = jstr ''uploaded'' \<and>
       get uploaded ''digest'' = JStr (js ''sha256:'' @ sha256_hex t bytes)) (Done ())))"

definition ensureAsset :: "tools \<Rightarrow> jsval \<Rightarrow> jsval list \<Rightarrow> jsstr \<Rightarrow> byte list \<Rightarrow> unit program" where
  "ensureAsset t release assets name bytes = require (\<not> list_ex nullish assets) (
     let existing = filter (\<lambda>a. get a ''name'' = JStr name) assets in
     require (length existing \<le> 1) (case existing of
       [] \<Rightarrow> upload_asset t release name bytes
     | asset # _ \<Rightarrow>
         if get asset ''state'' = jstr ''starter''
         then sequence (github t (js ''DELETE'') None [204] (asset_path t asset)) (\<lambda>_. upload_asset t release name bytes)
         else require (get asset ''state'' = jstr ''uploaded'') (sequence (asset_bytes t asset) (\<lambda>found. require (sha256_hex t found = sha256_hex t bytes) (Done ())))))"

definition complete_assets :: "tools \<Rightarrow> jsval \<Rightarrow> byte list \<Rightarrow> jsval \<Rightarrow> unit program" where
  "complete_assets t identity bytes release = (let filename = str_of (get identity ''filename'') in
     sequence (github t (js ''GET'') None [200] (js ''releases/'' @ as_text t (get release ''id'') @ js ''/assets?per_page=100'')) (\<lambda>listed.
     case listed of
       JArr assets \<Rightarrow> require (length assets < 100) (
         sequence (ensureAsset t release assets filename bytes) (\<lambda>_.
         sequence (read_bytes (release_path t (filename @ js ''.sha256''))) (\<lambda>checksum.
           ensureAsset t release assets (filename @ js ''.sha256'') checksum)))
     | _ \<Rightarrow> Fails))"

definition complete_release :: "tools \<Rightarrow> unit program" where
  "complete_release t = require (assertWorkflow t) (sequence (readArtifact t) (\<lambda>(identity, bytes).
     sequence (git JUndef [js ''merge-base'', js ''--is-ancestor'', str_of (get identity ''source''), js ''refs/remotes/origin/main'']) (\<lambda>_.
     sequence (registryManifest t (get identity ''version'') 0) (\<lambda>published. require (truthy published) (
     sequence (verifyRegistry t published identity (get identity ''integrity'') 0) (\<lambda>_.
     sequence (ensure_tag t identity) (\<lambda>ref. sequence (tagSource t identity ref) (\<lambda>_.
     sequence (ensure_release t identity) (\<lambda>release. require (get release ''tag_name'' = get identity ''tag'' \<and> get release ''prerelease'' = JBool False) (
     sequence (complete_assets t identity bytes release) (\<lambda>_.
     sequence (if truthy (get release ''draft'') then github t (js ''PATCH'') (Some (JObj [(js ''draft'', JBool False), (js ''make_latest'', jstr ''false'')])) [200]
         (js ''releases/'' @ as_text t (get release ''id'')) else Done release) (\<lambda>final.
       require (get final ''draft'' = JBool False) (Done ())))))))))))))"

end
