(* ===== verification/Publish_Runs.thy ===== *)
theory Publish_Runs
  imports Publish
begin

text \<open>
  Concrete runs of the publishing workflow: the replies of git, npm, the registry and GitHub with which
  its scripts end, so that the statements about their runs in \<open>Publish_Correct\<close> are about something.
\<close>

subsection \<open>The workflow and its replies\<close>


text \<open>A workflow for the initial version, and one for a new version; bodies and documents are numbered.\<close>

definition sample_sha :: jsstr where
  "sample_sha = p_source initialPublication"

definition sample_identity :: "jsstr \<Rightarrow> bool \<Rightarrow> jsval" where
  "sample_identity version tagged = JObj (set_prop (set_prop (spread_object (identity_of version sample_sha tagged)) (js ''sha256'') (jstr ''d''))
     (js ''integrity'') (JStr (p_integrity initialPublication)))"

definition sample_bodies :: "jsstr \<Rightarrow> jsval list" where
  "sample_bodies version = [JObj [(js ''protected'', JBool True)],
     JObj [(js ''deployment_branch_policy'', JObj [(js ''custom_branch_policies'', JBool True), (js ''protected_branches'', JBool False)])],
     JObj [(js ''total_count'', jint 1), (js ''branch_policies'', JArr [JObj [(js ''name'', jstr ''main''), (js ''type'', jstr ''branch'')]])],
     JObj [(js ''name'', JStr packageName), (js ''version'', JStr version), (js ''license'', jstr ''MIT''),
       (js ''dist'', JObj [(js ''integrity'', JStr (p_integrity initialPublication))])],
     JObj [(js ''object'', JObj [(js ''type'', jstr ''commit''), (js ''sha'', JStr sample_sha)])],
     JObj [(js ''tag_name'', JStr (tag_of version)), (js ''prerelease'', JBool False), (js ''draft'', JBool False), (js ''id'', jint 7)],
     JArr [JObj [(js ''name'', JStr (filename_of version)), (js ''state'', jstr ''starter''), (js ''id'', jint 8)]],
     JObj [(js ''state'', jstr ''uploaded''), (js ''digest'', jstr ''sha256:d'')]]"

definition sample_variables :: "jsstr \<Rightarrow> (string \<times> jsval) list" where
  "sample_variables version = [(''GITHUB_ACTIONS'', jstr ''true''), (''GITHUB_REPOSITORY'', JStr repository), (''GITHUB_REF'', jstr ''refs/heads/main''),
     (''GITHUB_WORKFLOW_REF'', JStr (repository @ js ''/'' @ workflowPath @ js ''@refs/heads/main'')), (''RUNNER_ENVIRONMENT'', jstr ''github-hosted''),
     (''GITHUB_TOKEN'', jstr ''t''), (''SDK_RELEASE_VERSION'', JStr version), (''SDK_RELEASE_SHA'', JStr sample_sha), (''SDK_ARTIFACT_SHA256'', jstr ''d''),
     (''ACTIONS_ID_TOKEN_REQUEST_URL'', jstr ''u''), (''ACTIONS_ID_TOKEN_REQUEST_TOKEN'', jstr ''t'')]"

definition sample_tools :: "jsstr \<Rightarrow> bool \<Rightarrow> tools" where
  "sample_tools version tagged = \<lparr>variable = (\<lambda>n. case map_of (sample_variables version) n of None \<Rightarrow> JUndef | Some v \<Rightarrow> v),
     json_text = (\<lambda>s. Some (sample_identity version tagged)),
     json_body = (\<lambda>bs. case bs of [b] \<Rightarrow> Some (sample_bodies version ! unat b) | _ \<Rightarrow> None), json_print = (\<lambda>b v. []), sha256_hex = (\<lambda>bs. js ''d''),
     sha512_base64 = (\<lambda>bs. drop 7 (p_integrity initialPublication)), base64_hex = (\<lambda>s. s), base64_text = (\<lambda>v. None), new_url = (\<lambda>v. None), origin_of = (\<lambda>u. []),
     as_text = (\<lambda>v. js ''7''), uri_component = (\<lambda>s. s), release_path = (\<lambda>s. s), package_manifest = JUndef\<rparr>"

lemma sample_workflow: "assertWorkflow (sample_tools version tagged)"
  by (simp add: assertWorkflow_def no_tokens_def truthy_def sample_tools_def sample_variables_def)

abbreviation answers :: "8 word \<Rightarrow> world_reply" where
  "answers b \<equiv> Answered 200 JUndef [b]"

definition sample_artifact :: "jsstr \<Rightarrow> world_reply list" where
  "sample_artifact version = [Printed [], Stored [], Printed (checksum_line (js ''d'') (filename_of version))]"

lemma sample_get: "get (sample_identity version tagged) ''version'' = JStr version" "get (sample_identity version tagged) ''source'' = JStr sample_sha"
    "get (sample_identity version tagged) ''tag'' = JStr (tag_of version)" "get (sample_identity version tagged) ''tagged'' = JBool tagged"
    "get (sample_identity version tagged) ''filename'' = JStr (filename_of version)" "get (sample_identity version tagged) ''sha256'' = jstr ''d''"
    "get (sample_identity version tagged) ''integrity'' = JStr (p_integrity initialPublication)"
  by (simp_all add: sample_identity_def identity_of_def)

lemma sample_integrity: "re_integrity (p_integrity initialPublication)" "js ''sha512-'' @ drop 7 (p_integrity initialPublication) = p_integrity initialPublication"
  by (simp_all add: re_integrity_def initialPublication_def js_def upper_def lower_def digit_def units_def)

lemma sample_hex: "hex40 (JStr sample_sha)"
  by (simp add: hex40_def str_test_def re_class_def sample_sha_def initialPublication_def js_def digit_def)

lemma sample_stable: "stableVersion (js ''1.0.0'')" "stableVersion (js ''1.0.1'')"
  by (simp_all add: stableVersion_def stable_part_def digit_def js_def)

lemma sample_document: "json_body (sample_tools v g) [b] = Some (sample_bodies v ! unat b)"
  by (simp add: sample_tools_def)

lemma sample_pure: "json_text (sample_tools v g) s = Some (sample_identity v g)" "sha256_hex (sample_tools v g) bs = js ''d''"
    "integrity_text (sample_tools v g) bs = p_integrity initialPublication" "release_path (sample_tools v g) s = s" "as_text (sample_tools v g) w = js ''7''"
  using sample_integrity(2) by (simp_all add: sample_tools_def integrity_text_def)

lemma sample_variable: "variable (sample_tools v g) ''GITHUB_TOKEN'' = jstr ''t''" "variable (sample_tools v g) ''SDK_RELEASE_VERSION'' = JStr v"
    "variable (sample_tools v g) ''SDK_RELEASE_SHA'' = JStr sample_sha" "variable (sample_tools v g) ''SDK_ARTIFACT_SHA256'' = jstr ''d''"
    "variable (sample_tools v g) ''ACTIONS_ID_TOKEN_REQUEST_URL'' = jstr ''u''" "variable (sample_tools v g) ''ACTIONS_ID_TOKEN_REQUEST_TOKEN'' = jstr ''t''"
  by (simp_all add: sample_tools_def sample_variables_def)

lemmas sample_facts = sample_document sample_pure sample_variable sample_get sample_workflow sample_hex sample_integrity(1) sample_stable
  truthy_def nullish_def str_test_def str_of_def

subsection \<open>Runs\<close>

lemma run_request: "0 \<le> q_notFoundRetries q \<Longrightarrow> q_notFoundRetries q \<le> 30 \<Longrightarrow> q_notFoundRetries q \<noteq> 0 \<longrightarrow> q_method q = js ''GET'' \<Longrightarrow>
    st \<in> set (q_statuses q) \<Longrightarrow> st = 404 \<longrightarrow> q_notFoundRetries q = 0 \<Longrightarrow>
    resume (sequence (http_request (sample_tools v g) address q) f) (Answered st loc body # rs) = resume (f (st, loc, body)) rs"
  by (cases "nat (q_notFoundRetries q)") (auto simp: http_request_def fetch_http_def sample_variable truthy_def)

lemma run_github: "st \<in> set statuses \<Longrightarrow> resume (sequence (github (sample_tools v g) meth b statuses path) f) (Answered st loc [n] # rs) =
    resume (f (if st = 404 \<or> st = 204 then JNull else sample_bodies v ! unat n)) rs"
  unfolding github_def sequence_assoc by (subst run_request) (simp_all add: sample_document given_def)

lemmas run_simps = run_request run_github run_git_def run_npm_def git_def act_def fetch_http_def read_text_def read_bytes_def prop_of_def Let_def plain_request_def

lemma run_protection: "resume (sequence (assertProtection (sample_tools v g)) f) (answers 0 # answers 1 # answers 2 # rs) = resume (f ()) rs"
  by (simp add: assertProtection_def run_simps sample_bodies_def deep_equal.simps protection_rules_ok_def first_policy_def nullish_or_def)

lemma run_artifact: "stableVersion v \<Longrightarrow> resume (sequence (readArtifact (sample_tools v g)) f) (sample_artifact v @ rs) = resume (f (sample_identity v g, [])) rs"
  by (simp add: readArtifact_def run_simps sample_artifact_def sample_facts)

lemma run_registry: "stableVersion v \<Longrightarrow> n \<in> {0..30} \<Longrightarrow> resume (sequence (registryManifest (sample_tools v g) (JStr v) n) f) (answers 3 # rs) = resume (f (sample_bodies v ! 3)) rs"
  by (simp add: registryManifest_def run_simps sample_facts sample_bodies_def integrity_of_def)

lemma run_missing: "stableVersion v \<Longrightarrow> resume (sequence (registryManifest (sample_tools v g) (JStr v) 0) f) (Answered 404 loc body # rs) = resume (f JNull) rs"
  by (simp add: registryManifest_def run_simps sample_facts)

text \<open>A version that is already registered, and a new one up to \<open>npm publish\<close>.\<close>

lemma sample_truthy: "truthy (sample_bodies v ! 3)" "truthy (sample_bodies v ! 4)" "truthy (sample_bodies v ! 5)"
  by (simp_all add: truthy_def sample_bodies_def)

lemma sample_body5: "get (sample_bodies v ! 5) ''tag_name'' = JStr (tag_of v)" "get (sample_bodies v ! 5) ''prerelease'' = JBool False"
    "get (sample_bodies v ! 5) ''draft'' = JBool False" "\<not> truthy (JBool False)"
  by (simp_all add: truthy_def sample_bodies_def)

lemma run_verified: "resume (verifyRegistry (sample_tools (js ''1.0.0'') True) (sample_bodies (js ''1.0.0'') ! 3) (sample_identity (js ''1.0.0'') True)
    (JStr (p_integrity initialPublication)) n) rs = Done ()"
  by (simp add: verifyRegistry_def Let_def initial_release_def integrity_of_def sample_bodies_def sample_get sample_sha_def str_of_def)
    (simp add: initialPublication_def)

lemma run_verified_then: "resume (sequence (verifyRegistry (sample_tools (js ''1.0.0'') True) (sample_bodies (js ''1.0.0'') ! 3) (sample_identity (js ''1.0.0'') True)
    (JStr (p_integrity initialPublication)) n) f) rs = resume (f ()) rs"
  by (simp add: verifyRegistry_def Let_def initial_release_def integrity_of_def sample_bodies_def sample_get sample_sha_def str_of_def)
    (simp add: initialPublication_def)

lemma sample_registered: "resume (publish_release (sample_tools (js ''1.0.0'') True)) (answers 0 # answers 1 # answers 2 # sample_artifact (js ''1.0.0'') @ [answers 3]) = Done ()"
  by (simp add: publish_release_def sample_workflow run_protection run_artifact sample_stable sample_get run_registry)
    (simp add: run_verified sample_truthy)

lemma sample_published: "\<exists>k. resume (publish_release (sample_tools (js ''1.0.1'') False))
      (answers 0 # answers 1 # answers 2 # sample_artifact (js ''1.0.1'') @ [Answered 404 JUndef [], Printed (js ''12.0.2'')]) =
    Calls (Run_npm (publish_arguments (sample_tools (js ''1.0.1'') False) (sample_identity (js ''1.0.1'') False)) (JStr sample_sha)) k"
  by (simp add: publish_release_def sample_workflow run_protection run_artifact sample_stable sample_get run_missing truthy_def publish_new_def sample_variable run_npm_def)
    (simp add: js_trim_def space_unit_def js_def)

text \<open>Completing the release, with an unfinished upload of the tarball on it.\<close>

lemma run_tag: "resume (sequence (ensure_tag (sample_tools v g) identity) (\<lambda>ref. sequence (tagSource (sample_tools v g) (sample_identity v g) ref) f))
    (answers 4 # rs) = resume (f ()) rs"
  by (simp add: ensure_tag_def run_github) (simp add: sample_truthy tagSource_def prop_of_def sample_get, simp add: sample_bodies_def nullish_def numeral_eq_Suc)

lemma run_release: "resume (sequence (ensure_release (sample_tools v g) identity) f) (answers 5 # rs) = resume (f (sample_bodies v ! 5)) rs"
  by (simp add: ensure_release_def run_github) (simp add: sample_truthy)

lemma run_upload: "resume (sequence (upload_asset (sample_tools v g) release name bytes) f) (Answered 201 JUndef [7] # rs) = resume (f ()) rs"
  by (simp add: upload_asset_def run_request plain_request_def sample_document sample_pure) (simp add: sample_bodies_def, simp add: js_def)

lemma run_assets: "resume (sequence (complete_assets (sample_tools v g) (sample_identity v g) [] (sample_bodies v ! 5)) f)
    (answers 6 # Answered 204 JUndef [0] # Answered 201 JUndef [7] # Stored [] # Answered 201 JUndef [7] # rs) = resume (f ()) rs"
  by (simp add: complete_assets_def Let_def run_github)
    (simp add: sample_bodies_def sample_get ensureAsset_def nullish_def str_of_def run_github run_upload read_bytes_def)

lemma sample_completed: "resume (complete_release (sample_tools (js ''1.0.0'') True)) (sample_artifact (js ''1.0.0'') @
    [Printed [], answers 3, answers 4, answers 5, answers 6, Answered 204 JUndef [0], Answered 201 JUndef [7], Stored [], Answered 201 JUndef [7]]) = Done ()"
  by (simp add: complete_release_def sample_workflow run_artifact sample_stable sample_get git_def run_git_def run_registry)
    (simp add: sample_truthy run_verified_then run_tag run_release, simp add: run_assets sample_get sample_body5)

lemma run_removal: "\<exists>h. (\<exists>k. resume (sequence (complete_assets (sample_tools v g) (sample_identity v g) [] (sample_bodies v ! 5)) f) [answers 6] = Calls (Fetch_http h) k) \<and>
    h_method h = js ''DELETE''"
  by (simp add: complete_assets_def Let_def run_github)
    (simp add: sample_bodies_def sample_get ensureAsset_def nullish_def str_of_def github_def http_request_def sample_variable truthy_def fetch_http_def)

lemma sample_deletes: "\<exists>h k. resume (complete_release (sample_tools (js ''1.0.0'') True)) (sample_artifact (js ''1.0.0'') @
    [Printed [], answers 3, answers 4, answers 5, answers 6]) = Calls (Fetch_http h) k \<and> h_method h = js ''DELETE''"
  by (simp add: complete_release_def sample_workflow run_artifact sample_stable sample_get git_def run_git_def run_registry)
    (simp add: sample_truthy run_verified_then run_tag run_release, simp add: run_removal sample_get sample_body5)

text \<open>The newest of three changes of the manifest did not change the version: its predecessor is the source.\<close>

definition sample_commit :: "nat \<Rightarrow> jsstr" where
  "sample_commit u = replicate 40 u"

definition sample_history :: tools where
  "sample_history = sample_tools (js ''1.0.1'') False\<lparr>json_text := (\<lambda>s. Some (JObj [(js ''name'', JStr packageName), (js ''version'', JStr s),
     (js ''private'', JBool True), (js ''license'', jstr ''MIT'')]))\<rparr>"

definition sample_log :: jsstr where
  "sample_log = sample_commit 97 @ 10 # sample_commit 98 @ 10 # sample_commit 99 @ [10]"

lemma sample_commits: "hex40 (JStr (sample_commit 97))" "hex40 (JStr (sample_commit 98))" "hex40 (JStr (sample_commit 99))"
  by (simp_all add: hex40_def str_test_def re_class_def sample_commit_def digit_def list_all_iff)

lemma sample_trim: "js_trim (js ''1.0.1'') = js ''1.0.1''" "js_trim (js ''1.0.0'') = js ''1.0.0''" "js_trim [] = []" "js ''1.0.0'' \<noteq> js ''1.0.1''"
  by (simp_all add: js_trim_def space_unit_def js_def)

lemma sample_lines: "filter (\<lambda>s. s \<noteq> []) (split_on 10 (js_trim sample_log)) = [sample_commit 97, sample_commit 98, sample_commit 99]"
  by (simp add: js_trim_def space_unit_def sample_log_def sample_commit_def split_append split_single)

lemma run_source: "hex40 sha \<Longrightarrow> resume (sequence (sourceManifest sample_history sha) f) (Printed s # rs) =
    resume (f (JObj [(js ''name'', JStr packageName), (js ''version'', JStr (js_trim s)), (js ''private'', JBool True), (js ''license'', jstr ''MIT'')])) rs"
  by (simp add: sourceManifest_def git_def run_git_def sample_history_def)

lemma sample_source: "resume (resolveIdentity sample_history (JStr (sample_commit 97)) [])
    [Printed (js ''1.0.1''), Printed [], Printed sample_log, Printed (js ''1.0.1''), Printed (js ''1.0.1''), Printed (js ''1.0.0''), Printed (js ''1.0.1'')] =
    Done (identity_of (js ''1.0.1'') (sample_commit 98) False)"
  by (simp add: resolveIdentity_def run_source sample_commits sample_trim sample_lines prop_of_def nullish_def release_identity_def sample_stable str_test_def git_def run_git_def str_of_def
      tag_of_def resolve_source_def source_policy_def)

end
