(* ===== verification/Publish_Correct.thy ===== *)
theory Publish_Correct
  imports Publish_Runs
begin

text \<open>
  What the publishing workflow guarantees, for every behaviour of git, npm, the registry and GitHub: a
  package is published only when it may be, published bytes are the validated ones, and the released
  commit is the one that introduced the version.
\<close>

subsection \<open>Paths of the shared operations\<close>

lemma ends_reply:
  "ends (case r of Printed s \<Rightarrow> Done s | _ \<Rightarrow> Fails) tr x \<longleftrightarrow> tr = [] \<and> r = Printed x"
  "ends (case r of Acknowledged \<Rightarrow> Done () | _ \<Rightarrow> Fails) tr u \<longleftrightarrow> tr = [] \<and> r = Acknowledged"
  "ends (case r of Answered st loc body \<Rightarrow> Done (st, loc, body) | _ \<Rightarrow> Fails) tr a \<longleftrightarrow> tr = [] \<and> r = Answered (fst a) (fst (snd a)) (snd (snd a))"
  "ends (case r of Stored bs \<Rightarrow> Done bs | _ \<Rightarrow> Fails) tr y \<longleftrightarrow> tr = [] \<and> r = Stored y"
  by (cases r; auto)+

lemma ends_run [simp]:
  "ends (run_git dir args) tr s \<longleftrightarrow> tr = [(Run_git dir args, Printed s)]"
  "ends (run_npm args v) tr s \<longleftrightarrow> tr = [(Run_npm args v, Printed s)]"
  "ends (act c) tr u \<longleftrightarrow> tr = [(c, Acknowledged)]"
  "ends (fetch_http h) tr a \<longleftrightarrow> tr = [(Fetch_http h, Answered (fst a) (fst (snd a)) (snd (snd a)))]"
  "ends (read_text path) tr s \<longleftrightarrow> tr = [(Read_text path, Printed s)]"
  "ends (read_bytes path) tr bs \<longleftrightarrow> tr = [(Read_bytes path, Stored bs)]"
  by (auto simp: run_git_def run_npm_def act_def fetch_http_def read_text_def read_bytes_def ends_reply)

lemma ends_git [simp]: "ends (git dir args) tr s \<longleftrightarrow> (\<exists>out. tr = [(Run_git dir args, Printed out)] \<and> s = js_trim out)"
  by (auto simp: git_def ends_sequence)

lemma ends_prop [simp]: "ends (prop_of v k) tr w \<longleftrightarrow> \<not> nullish v \<and> tr = [] \<and> w = get v k"
  by (auto simp: prop_of_def)

text \<open>A call of one kind with its answer.\<close>

definition http :: "string \<Rightarrow> jsstr \<Rightarrow> world_call \<Rightarrow> bool" where
  "http meth address c \<longleftrightarrow> (\<exists>h. c = Fetch_http h \<and> h_method h = js meth \<and> h_url h = address)"

definition answered :: "(world_call \<times> world_reply) list \<Rightarrow> string \<Rightarrow> jsstr \<Rightarrow> int \<Rightarrow> jsval \<Rightarrow> byte list \<Rightarrow> bool" where
  "answered tr meth address st loc body \<longleftrightarrow> (\<exists>c. http meth address c \<and> (c, Answered st loc body) \<in> set tr)"

lemma answered_append: "answered (xs @ ys) meth address st loc body \<longleftrightarrow> answered xs meth address st loc body \<or> answered ys meth address st loc body"
  by (auto simp: answered_def)

lemma ends_attempts: "ends (attempts h statuses n) tr (st, loc, body) \<Longrightarrow> st \<in> set statuses \<and> (Fetch_http h, Answered st loc body) \<in> set tr"
proof (induction n arbitrary: tr)
  case 0
  then show ?case by (auto simp: ends_sequence)
next
  case (Suc n)
  then show ?case by (auto simp: ends_sequence split: if_splits)
qed

lemma ends_request: "ends (http_request t address q) tr (st, loc, body) \<Longrightarrow> q_method q = js meth \<Longrightarrow>
    st \<in> set (q_statuses q) \<and> answered tr meth address st loc body"
  using ends_attempts by (fastforce simp: http_request_def answered_def http_def)

lemma plain_fields [simp]: "q_method plain_request = js ''GET''" "q_statuses plain_request = [200]"
  by (simp_all add: plain_request_def)

lemma ends_github:
  assumes "ends (github t (js meth) body statuses path) tr v"
  shows "\<exists>st loc bytes. st \<in> set statuses \<and> answered tr meth (api_url path) st loc bytes \<and>
    (if st = 404 \<or> st = 204 then v = JNull else json_body t bytes = Some v)"
proof -
  obtain q st loc bytes where "ends (http_request t (api_url path) q) tr (st, loc, bytes)" "q_method q = js meth" "q_statuses q = statuses"
      "if st = 404 \<or> st = 204 then v = JNull else json_body t bytes = Some v"
    using assms by (auto simp: github_def ends_sequence split: if_splits)
  then show ?thesis using ends_request by blast
qed

text \<open>What a manifest read from the registry has passed.\<close>

definition registered_as :: "tools \<Rightarrow> (world_call \<times> world_reply) list \<Rightarrow> jsval \<Rightarrow> jsval \<Rightarrow> bool" where
  "registered_as t tr version value \<longleftrightarrow> (\<exists>loc bytes. answered tr ''GET'' (registry_url (str_of version)) 200 loc bytes \<and> json_body t bytes = Some value) \<and>
     get value ''version'' = version \<and> str_test re_integrity (integrity_of value)"

definition missing :: "(world_call \<times> world_reply) list \<Rightarrow> jsval \<Rightarrow> bool" where
  "missing tr version \<longleftrightarrow> (\<exists>loc bytes. answered tr ''GET'' (registry_url (str_of version)) 404 loc bytes)"

lemma ends_registryManifest:
  assumes "ends (registryManifest t version retries) tr v"
  shows "str_test stableVersion version \<and> (if truthy v then registered_as t tr version v else missing tr version)"
proof -
  let ?q = "plain_request\<lparr>q_statuses := [200, 404], q_notFoundRetries := retries\<rparr>"
  obtain st loc bytes where r: "ends (http_request t (registry_url (str_of version)) ?q) tr (st, loc, bytes)" "str_test stableVersion version"
      "if st = 404 then v = JNull else json_body t bytes = Some v \<and> get v ''version'' = version \<and> str_test re_integrity (integrity_of v)"
    using assms by (auto simp: registryManifest_def ends_sequence split: if_splits)
  from ends_request [OF r(1), of "''GET''"] have "st \<in> {200, 404}" "answered tr ''GET'' (registry_url (str_of version)) st loc bytes" by auto
  moreover have "truthy v" if "st \<noteq> 404"
    using that r(3) by (cases v) (auto simp: truthy_def integrity_of_def str_test_def)
  ultimately show ?thesis using r(2,3) by (cases "st = 404") (auto simp: registered_as_def missing_def truthy_def)
qed

definition provenance_checked :: "tools \<Rightarrow> (world_call \<times> world_reply) list \<Rightarrow> jsval \<Rightarrow> jsval \<Rightarrow> bool" where
  "provenance_checked t tr identity integrity \<longleftrightarrow> (\<exists>bundle text statement. (Check_signature bundle, Acknowledged) \<in> set tr \<and>
     base64_text t (get (get bundle ''dsseEnvelope'') ''payload'') = Some text \<and> json_text t text = Some statement \<and>
     assertProvenance t statement identity (str_of integrity))"

lemma ends_verifyRegistry:
  assumes "ends (verifyRegistry t value identity expected retries) tr u"
  shows "(truthy expected \<longrightarrow> integrity_of value = expected) \<and>
    (if get identity ''version'' = JStr (p_version initialPublication) then initial_release identity (str_of (integrity_of value))
     else provenance_checked t tr identity (integrity_of value))"
  using assms by (auto simp: verifyRegistry_def Let_def ends_sequence provenance_checked_def bind_eq_Some_conv split: if_splits)

text \<open>An artifact that passed its checks.\<close>

definition artifact_checked :: "tools \<Rightarrow> (world_call \<times> world_reply) list \<Rightarrow> jsval \<Rightarrow> byte list \<Rightarrow> bool" where
  "artifact_checked t tr identity bytes \<longleftrightarrow> (\<exists>s. (Read_text (release_path t (js ''release.json'')), Printed s) \<in> set tr \<and> json_text t s = Some identity) \<and>
     str_test stableVersion (get identity ''version'') \<and> get identity ''version'' = variable t ''SDK_RELEASE_VERSION'' \<and>
     get identity ''source'' = variable t ''SDK_RELEASE_SHA'' \<and> get identity ''tag'' = JStr (tag_of (str_of (get identity ''version''))) \<and>
     get identity ''filename'' = JStr (filename_of (str_of (get identity ''version''))) \<and>
     (Read_bytes (release_path t (str_of (get identity ''filename''))), Stored bytes) \<in> set tr \<and>
     variable t ''SDK_ARTIFACT_SHA256'' = JStr (sha256_hex t bytes) \<and> get identity ''integrity'' = JStr (integrity_text t bytes)"

lemma ends_readArtifact: "ends (readArtifact t) tr (identity, bytes) \<Longrightarrow> artifact_checked t tr identity bytes"
  by (auto simp: readArtifact_def Let_def ends_sequence artifact_checked_def str_of_def)

lemma artifact_append: "artifact_checked t tr identity bytes \<Longrightarrow> artifact_checked t (tr' @ tr @ tr'') identity bytes"
  by (auto simp: artifact_checked_def)

subsection \<open>Operations that only read\<close>

text \<open>
  A set of calls that contains everything the shared operations use contains every call they make.
\<close>

locale reading =
  fixes P :: "world_call \<Rightarrow> bool"
  assumes P_files: "P (Read_text path)" "P (Read_bytes path)"
    and P_wait: "P Retry_delay"
    and P_check: "P (Check_signature bundle)"
    and P_get: "h_method h = js ''GET'' \<Longrightarrow> P (Fetch_http h)"
begin

lemma only_reply: "only P (case r of Printed s \<Rightarrow> Done s | _ \<Rightarrow> Fails)" "only P (case r of Acknowledged \<Rightarrow> Done () | _ \<Rightarrow> Fails)"
    "only P (case r of Answered st loc body \<Rightarrow> Done (st, loc, body) | _ \<Rightarrow> Fails)" "only P (case r of Stored bs \<Rightarrow> Done bs | _ \<Rightarrow> Fails)"
  by (cases r; simp)+

lemma only_act: "P c \<Longrightarrow> only P (act c)"
  by (simp add: act_def only_reply)

lemma only_git: "P (Run_git dir args) \<Longrightarrow> only P (git dir args)"
  by (auto simp: git_def run_git_def only_reply intro: only_sequence)

lemma only_prop: "only P (prop_of v k)"
  by (simp add: prop_of_def)

lemma only_read: "only P (read_text path)" "only P (read_bytes path)"
  by (simp_all add: read_text_def read_bytes_def only_reply P_files)

lemma only_attempts: "P (Fetch_http h) \<Longrightarrow> only P (attempts h statuses n)"
  by (induction n) (auto simp: fetch_http_def only_reply P_wait intro!: only_sequence only_act)

lemma only_request: "(\<And>h. h_url h = address \<Longrightarrow> h_method h = q_method q \<Longrightarrow> h_body h = q_body q \<Longrightarrow> P (Fetch_http h)) \<Longrightarrow> only P (http_request t address q)"
  by (simp add: http_request_def only_attempts)

lemma only_github: "(\<And>h. h_url h = api_url path \<Longrightarrow> h_method h = meth \<Longrightarrow> P (Fetch_http h)) \<Longrightarrow> only P (github t meth body statuses path)"
  unfolding github_def by (rule only_sequence, rule only_request) auto

lemma only_plain: "q_method q = js ''GET'' \<Longrightarrow> only P (http_request t address q)"
  by (rule only_request) (simp add: P_get)

lemma only_get: "only P (github t (js ''GET'') body statuses path)"
  by (rule only_github) (simp add: P_get)

lemma only_protection: "only P (assertProtection t)"
  unfolding assertProtection_def by (intro only_sequence only_get) (auto intro!: only_sequence only_get)

lemma only_registryManifest: "only P (registryManifest t version retries)"
  by (auto simp: registryManifest_def intro!: only_sequence only_plain)

lemma only_verifyRegistry: "only P (verifyRegistry t value identity expected retries)"
  by (auto simp: verifyRegistry_def Let_def P_check intro!: only_sequence only_plain only_act)

lemma only_readArtifact: "only P (readArtifact t)"
  by (auto simp: readArtifact_def Let_def intro!: only_sequence only_read)

end

definition publishes :: "world_call \<Rightarrow> bool" where
  "publishes c \<longleftrightarrow> (\<exists>args v. c = Run_npm (js ''publish'' # args) v)"

interpretation unpublished: reading "\<lambda>c. \<not> publishes c"
  by unfold_locales (simp_all add: publishes_def)

lemmas no_publish = unpublished.only_protection unpublished.only_registryManifest unpublished.only_verifyRegistry unpublished.only_readArtifact

subsection \<open>Publishing\<close>

lemma truthy_integrity [simp]: "truthy (JStr (integrity_text t bytes))"
  by (simp add: truthy_def integrity_text_def js_def)

lemma reaches_run: "reaches (run_npm args v) tr c \<longleftrightarrow> tr = [] \<and> c = Run_npm args v"
proof -
  have "\<not> reaches (case r of Printed s \<Rightarrow> Done s | _ \<Rightarrow> Fails) l c" for r and l :: "(world_call \<times> world_reply) list" by (cases r) simp_all
  then show ?thesis by (auto simp: run_npm_def)
qed

lemma reaches_publish_new:
  assumes "reaches (publish_new t identity) tr c" and "publishes c"
  shows "get identity ''tagged'' = JBool False \<and> c = Run_npm (publish_arguments t identity) (get identity ''source'') \<and> list_all (\<lambda>(c', r). \<not> publishes c') tr"
proof -
  have "\<not> publishes (Run_npm [js ''--version''] v)" for v by (simp add: publishes_def)
  moreover have "\<not> reaches (registryManifest t v n) l c" "\<not> reaches (verifyRegistry t v w x n) l c" for v w x n l
    using assms(2) only_reaches [OF _ unpublished.only_registryManifest] only_reaches [OF _ unpublished.only_verifyRegistry] by blast+
  ultimately show ?thesis
    using assms by (auto simp: publish_new_def reaches_sequence reaches_run)
qed

lemma publish_release_paths:
  assumes "reaches (publish_release t) tr c" and "publishes c"
  obtains identity bytes l where "assertWorkflow t" "artifact_checked t tr identity bytes" "missing tr (get identity ''version'')"
    "reaches (publish_new t identity) l c" "list_all (\<lambda>(c', r). \<not> publishes c') tr \<longleftrightarrow> list_all (\<lambda>(c', r). \<not> publishes c') l"
proof -
  have no: "\<not> reaches (assertProtection t) l c" "\<not> reaches (readArtifact t) l c" "\<not> reaches (registryManifest t v n) l c" "\<not> reaches (verifyRegistry t v w x n) l c"
    for v w x n l
    using assms(2) only_reaches [OF _ no_publish(1)] only_reaches [OF _ no_publish(4)] only_reaches [OF _ no_publish(2)] only_reaches [OF _ no_publish(3)] by blast+
  from assms(1) obtain l1 l2 l3 l4 identity bytes existing where
    l: "tr = l1 @ l2 @ l3 @ l4" "assertWorkflow t" "ends (assertProtection t) l1 ()" "ends (readArtifact t) l2 (identity, bytes)"
      "ends (registryManifest t (get identity ''version'') 0) l3 existing" "reaches (publish_new t identity) l4 c" "\<not> truthy existing"
    by (auto simp: publish_release_def reaches_sequence no split: if_splits)
  have "list_all (\<lambda>(c', r). \<not> publishes c') (l1 @ l2 @ l3)"
    using only_ends [OF l(3) no_publish(1)] only_ends [OF l(4) no_publish(4)] only_ends [OF l(5) no_publish(2)] by simp
  moreover have "artifact_checked t tr identity bytes" using artifact_append [OF ends_readArtifact [OF l(4)], of l1 "l3 @ l4"] l(1) by simp
  moreover have "missing tr (get identity ''version'')"
    using ends_registryManifest [OF l(5)] l(1,7) by (auto simp: missing_def answered_append)
  ultimately show thesis using that [of identity bytes l4] l by auto
qed

text \<open>
  C15: \<open>npm publish\<close> runs only for a new version. When \<open>publish-release.mjs\<close> runs it, the recorded release
  and the tarball have passed their checks against the workflow's inputs, the version has no tag, the
  registry has just answered that it does not know the version, and nothing was published before in
  this run; the tarball published is the checked one.
\<close>

theorem publish_only_new:
  assumes "reaches (publish_release t) tr c" and "publishes c"
  shows "\<exists>identity bytes. artifact_checked t tr identity bytes \<and> get identity ''tagged'' = JBool False \<and> missing tr (get identity ''version'') \<and>
    c = Run_npm (publish_arguments t identity) (get identity ''source'') \<and> list_all (\<lambda>(c', r). \<not> publishes c') tr"
proof -
  obtain identity bytes l where "artifact_checked t tr identity bytes" "missing tr (get identity ''version'')" and new: "reaches (publish_new t identity) l c"
      and "list_all (\<lambda>(c', r). \<not> publishes c') tr \<longleftrightarrow> list_all (\<lambda>(c', r). \<not> publishes c') l"
    using publish_release_paths [OF assms] by blast
  with reaches_publish_new [OF new assms(2)] show ?thesis by blast
qed

theorem publish_only_new_witness: "\<exists>tr c identity bytes. reaches (publish_release (sample_tools (js ''1.0.1'') False)) tr c \<and> publishes c \<and>
    artifact_checked (sample_tools (js ''1.0.1'') False) tr identity bytes \<and> get identity ''tagged'' = JBool False \<and> missing tr (get identity ''version'')"
proof -
  let ?c = "Run_npm (publish_arguments (sample_tools (js ''1.0.1'') False) (sample_identity (js ''1.0.1'') False)) (JStr sample_sha)"
  obtain tr where tr: "reaches (publish_release (sample_tools (js ''1.0.1'') False)) tr ?c" using sample_published resume_reaches by metis
  moreover have "publishes ?c" by (simp add: publishes_def publish_arguments_def)
  ultimately obtain c where c: "reaches (publish_release (sample_tools (js ''1.0.1'') False)) tr c" "publishes c" by blast
  show ?thesis using c publish_only_new [OF c] by blast
qed

text \<open>The checks that both scripts end with.\<close>

definition registry_agrees :: "tools \<Rightarrow> (world_call \<times> world_reply) list \<Rightarrow> jsval \<Rightarrow> byte list \<Rightarrow> bool" where
  "registry_agrees t tr identity bytes \<longleftrightarrow> (\<exists>value. registered_as t tr (get identity ''version'') value \<and> integrity_of value = JStr (integrity_text t bytes) \<and>
     (if get identity ''version'' = JStr (p_version initialPublication) then initial_release identity (integrity_text t bytes)
      else provenance_checked t tr identity (JStr (integrity_text t bytes))))"

lemma registered_append: "registered_as t tr version value \<Longrightarrow> registered_as t (l @ tr @ l') version value"
  by (auto simp: registered_as_def answered_append)

lemma provenance_append: "provenance_checked t tr identity i \<Longrightarrow> provenance_checked t (l @ tr @ l') identity i"
  unfolding provenance_checked_def by fastforce

lemma registry_agreesI:
  assumes "artifact_checked t l identity bytes" "ends (registryManifest t (get identity ''version'') n) l1 value" "truthy value"
    "ends (verifyRegistry t value identity (get identity ''integrity'') m) l2 u"
  shows "registry_agrees t (l0 @ l1 @ l2 @ l3) identity bytes"
proof -
  have i: "get identity ''integrity'' = JStr (integrity_text t bytes)" using assms(1) by (simp add: artifact_checked_def)
  have r: "registered_as t (l0 @ l1 @ l2 @ l3) (get identity ''version'') value"
    using registered_append [of t l1 _ "value" l0 "l2 @ l3"] ends_registryManifest [OF assms(2)] assms(3) by simp
  note v = ends_verifyRegistry [OF assms(4), unfolded i]
  then have "integrity_of value = JStr (integrity_text t bytes)" by simp
  with r v provenance_append [of t l2 identity _ "l0 @ l1" l3] show ?thesis
    unfolding registry_agrees_def by (intro exI [of _ "value"]) (auto simp: str_of_def split: if_splits)
qed

text \<open>
  When \<open>publish-release.mjs\<close> succeeds, the registry serves the version with the digest of the very
  tarball that the workflow validated, and its provenance, signed by the workflow, names the released
  commit: whether it published the version itself or found it there.
\<close>

theorem publish_release_verified:
  assumes "ends (publish_release t) tr u"
  shows "\<exists>identity bytes. artifact_checked t tr identity bytes \<and> registry_agrees t tr identity bytes"
proof -
  from assms obtain l1 l2 l3 l4 identity bytes existing where
    l: "tr = l1 @ l2 @ l3 @ l4" "ends (readArtifact t) l2 (identity, bytes)" "ends (registryManifest t (get identity ''version'') 0) l3 existing"
      "ends (if truthy existing then verifyRegistry t existing identity (get identity ''integrity'') 0 else publish_new t identity) l4 u"
    by (auto simp: publish_release_def ends_sequence)
  note checked = ends_readArtifact [OF l(2)]
  have "registry_agrees t tr identity bytes"
  proof (cases "truthy existing")
    case True
    with registry_agreesI [OF checked l(3), of 0 l4 u "l1 @ l2" "[]"] l show ?thesis by simp
  next
    case False
    with l(4) obtain k1 k2 k3 published where "l4 = k1 @ k2 @ k3" "ends (registryManifest t (get identity ''version'') 30) k2 published" "truthy published"
        "ends (verifyRegistry t published identity (get identity ''integrity'') 30) k3 u"
      by (auto simp: publish_new_def ends_sequence) (metis append_Cons append_Nil)
    with registry_agreesI [OF checked, of 30 k2 published 30 k3 u "l1 @ l2 @ l3 @ k1" "[]"] l(1) show ?thesis by simp
  qed
  with artifact_append [OF checked, of l1 "l3 @ l4"] l(1) show ?thesis by auto
qed

theorem publish_release_verified_witness: "\<exists>tr identity bytes. ends (publish_release (sample_tools (js ''1.0.0'') True)) tr () \<and>
    artifact_checked (sample_tools (js ''1.0.0'') True) tr identity bytes \<and> registry_agrees (sample_tools (js ''1.0.0'') True) tr identity bytes"
  using resume_ends [OF sample_registered] publish_release_verified by blast

subsection \<open>The source of a release\<close>

text \<open>Git has shown the manifest of a commit, with a version.\<close>

definition shown_version :: "tools \<Rightarrow> (world_call \<times> world_reply) list \<Rightarrow> jsstr \<Rightarrow> jsval \<Rightarrow> bool" where
  "shown_version t tr sha v \<longleftrightarrow> (\<exists>out m. (Run_git JUndef [js ''show'', sha @ js '':'' @ manifestFile], Printed out) \<in> set tr \<and>
     json_text t (js_trim out) = Some m \<and> get m ''version'' = v)"

lemma shown_append: "shown_version t tr sha v \<Longrightarrow> shown_version t (l @ tr @ l') sha v"
  by (auto simp: shown_version_def)

lemma ends_sourceManifest: "ends (sourceManifest t sha) tr m \<Longrightarrow> hex40 sha \<and> shown_version t tr (str_of sha) (get m ''version'')"
  by (auto simp: sourceManifest_def ends_sequence shown_version_def)

definition version_run :: "tools \<Rightarrow> (world_call \<times> world_reply) list \<Rightarrow> jsval \<Rightarrow> jsstr list \<Rightarrow> jsstr list \<Rightarrow> bool" where
  "version_run t tr v run post \<longleftrightarrow> (\<forall>sha \<in> set run. shown_version t tr sha v) \<and> (post = [] \<or> (\<exists>w. w \<noteq> v \<and> shown_version t tr (hd post) w))"

lemma run_append: "version_run t tr v run post \<Longrightarrow> version_run t (l @ tr) v run post"
  using shown_append [of t tr _ _ l "[]"] by (auto simp: version_run_def)

lemma find_source_step:
  assumes "ends (find_source t v (sha # shas) src) tr r"
  obtains l1 l2 w where "tr = l1 @ l2" "shown_version t l1 sha w" "ends (if w = v then find_source t v shas (Some sha) else if src \<noteq> None then Done src else find_source t v shas src) l2 r"
proof -
  from assms obtain l1 m l2 where l: "tr = l1 @ l2" "ends (sourceManifest t (JStr sha)) l1 m"
      "ends (if get m ''version'' = v then find_source t v shas (Some sha) else if src \<noteq> None then Done src else find_source t v shas src) l2 r"
    by (auto simp: ends_sequence)
  show thesis using that [OF l(1) _ l(3)] ends_sourceManifest [OF l(2)] by (simp add: str_of_def)
qed

lemma find_source_run:
  assumes "ends (find_source t v shas (Some s)) tr r"
  shows "\<exists>run post. shas = run @ post \<and> r = Some (last (s # run)) \<and> version_run t tr v run post"
  using assms
proof (induction shas arbitrary: s tr)
  case Nil
  then show ?case by (simp add: version_run_def)
next
  case (Cons sha shas)
  from Cons.prems obtain l1 l2 w where l: "tr = l1 @ l2" "shown_version t l1 sha w" and
      rest: "ends (if w = v then find_source t v shas (Some sha) else if Some s \<noteq> None then Done (Some s) else find_source t v shas (Some s)) l2 r"
    by (rule find_source_step)
  have sha: "shown_version t tr sha w" using shown_append [OF l(2), of "[]" l2] l(1) by simp
  show ?case
  proof (cases "w = v")
    case True
    with rest have e: "ends (find_source t v shas (Some sha)) l2 r" by simp
    from Cons.IH [OF e] obtain run post where "shas = run @ post" "r = Some (last (sha # run))" "version_run t l2 v run post" by blast
    then have "sha # shas = (sha # run) @ post \<and> r = Some (last (s # sha # run)) \<and> version_run t tr v (sha # run) post"
      using run_append [of t l2 v run post l1] sha True l(1) by (auto simp: version_run_def)
    then show ?thesis by blast
  next
    case False
    with rest sha have "sha # shas = [] @ sha # shas \<and> r = Some (last [s]) \<and> version_run t tr v [] (sha # shas)" by (auto simp: version_run_def)
    then show ?thesis by blast
  qed
qed

text \<open>The oldest commit of the newest stretch of the history that has the version.\<close>

definition introduces :: "tools \<Rightarrow> (world_call \<times> world_reply) list \<Rightarrow> jsval \<Rightarrow> jsstr list \<Rightarrow> jsstr \<Rightarrow> bool" where
  "introduces t tr v shas src \<longleftrightarrow> (\<exists>pre run post. shas = pre @ run @ post \<and> run \<noteq> [] \<and> src = last run \<and>
     (\<forall>sha \<in> set pre. \<exists>w. w \<noteq> v \<and> shown_version t tr sha w) \<and> version_run t tr v run post)"

lemma find_source_introduces:
  assumes "ends (find_source t v shas None) tr (Some src)"
  shows "introduces t tr v shas src"
  using assms
proof (induction shas arbitrary: tr)
  case (Cons sha shas)
  from Cons.prems obtain l1 l2 w where l: "tr = l1 @ l2" "shown_version t l1 sha w" and
      rest: "ends (if w = v then find_source t v shas (Some sha) else if None \<noteq> (None :: jsstr option) then Done None else find_source t v shas None) l2 (Some src)"
    by (rule find_source_step)
  have sha: "shown_version t tr sha w" using shown_append [OF l(2), of "[]" l2] l(1) by simp
  show ?case
  proof (cases "w = v")
    case True
    with rest have e: "ends (find_source t v shas (Some sha)) l2 (Some src)" by simp
    from find_source_run [OF e] obtain run post where r: "shas = run @ post" "src = last (sha # run)" "version_run t l2 v run post"
      by (metis option.inject)
    then have "version_run t tr v (sha # run) post" using run_append [of t l2 v run post l1] sha True l(1) by (auto simp: version_run_def)
    with r show ?thesis unfolding introduces_def by (intro exI [of _ "[]"] exI [of _ "sha # run"] exI [of _ post]) simp
  next
    case False
    with rest have e: "ends (find_source t v shas None) l2 (Some src)" by simp
    from Cons.IH [OF e] obtain pre run post where p: "shas = pre @ run @ post" "run \<noteq> []" "src = last run"
        "\<forall>sha \<in> set pre. \<exists>w. w \<noteq> v \<and> shown_version t l2 sha w" "version_run t l2 v run post"
      by (auto simp: introduces_def)
    have later: "shown_version t l2 s x \<Longrightarrow> shown_version t tr s x" for s x using shown_append [of t l2 s x l1 "[]"] l(1) by simp
    have "\<forall>s \<in> set (sha # pre). \<exists>w. w \<noteq> v \<and> shown_version t tr s w" using sha False p(4) later by (metis set_ConsD)
    moreover have "version_run t tr v run post" using run_append [OF p(5)] l(1) by simp
    ultimately show ?thesis
      unfolding introduces_def using p(1-3) by (intro exI [of _ "sha # pre"] exI [of _ run] exI [of _ post]) simp
  qed
qed simp

lemma shown_mono: "shown_version t l sha v \<Longrightarrow> set l \<subseteq> set tr \<Longrightarrow> shown_version t tr sha v"
  by (auto simp: shown_version_def)

lemma introduces_mono:
  assumes "introduces t l v shas src" and tr: "set l \<subseteq> set tr"
  shows "introduces t tr v shas src"
proof -
  obtain pre run post where p: "shas = pre @ run @ post" "run \<noteq> []" "src = last run"
      "\<forall>sha \<in> set pre. \<exists>w. w \<noteq> v \<and> shown_version t l sha w" "version_run t l v run post"
    using assms(1) by (auto simp: introduces_def)
  have "version_run t tr v run post" using p(5) shown_mono [OF _ tr] unfolding version_run_def by blast
  moreover have "\<forall>sha \<in> set pre. \<exists>w. w \<noteq> v \<and> shown_version t tr sha w" using p(4) shown_mono [OF _ tr] by blast
  ultimately show ?thesis unfolding introduces_def using p(1-3) by blast
qed

lemma resolve_source_path:
  assumes "ends (resolve_source t eventSha version tagged) l src"
  shows "if tagged then (\<exists>out out'. js_trim out = src \<and> (Run_git JUndef [js ''rev-parse'', tag_of version @ js ''^{commit}''], Printed out) \<in> set l \<and>
       (Run_git JUndef [js ''merge-base'', js ''--is-ancestor'', src, str_of eventSha], Printed out') \<in> set l)
     else (\<exists>out. (Run_git JUndef [js ''log'', js ''--first-parent'', js ''--format=%H'', str_of eventSha, js ''--'', manifestFile], Printed out) \<in> set l \<and>
       introduces t l (JStr version) (filter (\<lambda>s. s \<noteq> []) (split_on 10 (js_trim out))) src)"
proof (cases tagged)
  case True
  with assms show ?thesis by (auto simp: resolve_source_def ends_sequence)
next
  case False
  with assms obtain out l' where l: "l = (Run_git JUndef [js ''log'', js ''--first-parent'', js ''--format=%H'', str_of eventSha, js ''--'', manifestFile], Printed out) # l'"
      "ends (find_source t (JStr version) (filter (\<lambda>s. s \<noteq> []) (split_on 10 (js_trim out))) None) l' (Some src)"
    by (auto simp: resolve_source_def ends_sequence)
  have "introduces t l (JStr version) (filter (\<lambda>s. s \<noteq> []) (split_on 10 (js_trim out))) src"
    by (rule introduces_mono [OF find_source_introduces [OF l(2)]]) (auto simp: l(1))
  with False l(1) show ?thesis by auto
qed

text \<open>
  C22: \<open>resolveIdentity\<close> names the commit to release. The identity it returns has a stable version (the requested
  one, if one was requested) and a commit whose manifest has this version, the package's name and
  licence and is private. For a tagged version it is the commit of the tag, an ancestor of the event's
  commit; otherwise it is the commit that introduced the version: in the first-parent history of the
  manifest, the oldest one of the newest unbroken stretch with this version.
\<close>

theorem resolveIdentity_introduces:
  assumes "ends (resolveIdentity t eventSha requested) tr identity"
  shows "\<exists>version src tagged. identity = identity_of version src tagged \<and> stableVersion version \<and> requested \<in> {[], version} \<and> hex40 (JStr src) \<and>
    shown_version t tr src (JStr version) \<and>
    (if tagged then (\<exists>out out'. js_trim out = src \<and> (Run_git JUndef [js ''rev-parse'', tag_of version @ js ''^{commit}''], Printed out) \<in> set tr \<and>
       (Run_git JUndef [js ''merge-base'', js ''--is-ancestor'', src, str_of eventSha], Printed out') \<in> set tr)
     else (\<exists>out. (Run_git JUndef [js ''log'', js ''--first-parent'', js ''--format=%H'', str_of eventSha, js ''--'', manifestFile], Printed out) \<in> set tr \<and>
       introduces t tr (JStr version) (filter (\<lambda>s. s \<noteq> []) (split_on 10 (js_trim out))) src))"
proof -
  obtain version l0 l1 where tr: "tr = l0 @ l1" and v: "requested \<noteq> [] \<longrightarrow> version = JStr requested" and r: "ends (release_identity t eventSha version) l1 identity"
    using assms unfolding resolveIdentity_def by (cases "requested = []") (auto elim!: sequenceE)
  from r obtain g tagged l src l' m where l1: "l1 = g # l @ l'" and stable: "str_test stableVersion version"
    and e: "ends (resolve_source t eventSha (str_of version) tagged) l src" "ends (sourceManifest t (JStr src)) l' m"
      "source_policy m version" "identity = identity_of (str_of version) src tagged"
    unfolding release_identity_def Let_def by (auto elim!: sequenceE)
  have parts: "set l \<subseteq> set tr" "set l' \<subseteq> set tr" using tr l1 by auto
  obtain s where s: "version = JStr s" "stableVersion s" using stable by (auto simp: str_test_def split: jsval.splits)
  have src: "hex40 (JStr src)" "shown_version t tr src (JStr s)"
    using ends_sourceManifest [OF e(2)] e(3) s(1) shown_mono [OF _ parts(2)] by (auto simp: source_policy_def str_of_def)
  have "if tagged then (\<exists>out out'. js_trim out = src \<and> (Run_git JUndef [js ''rev-parse'', tag_of s @ js ''^{commit}''], Printed out) \<in> set tr \<and>
       (Run_git JUndef [js ''merge-base'', js ''--is-ancestor'', src, str_of eventSha], Printed out') \<in> set tr)
     else (\<exists>out. (Run_git JUndef [js ''log'', js ''--first-parent'', js ''--format=%H'', str_of eventSha, js ''--'', manifestFile], Printed out) \<in> set tr \<and>
       introduces t tr (JStr s) (filter (\<lambda>s. s \<noteq> []) (split_on 10 (js_trim out))) src)"
    using resolve_source_path [OF e(1)] parts(1) introduces_mono [OF _ parts(1)] s(1) by (cases tagged) (auto simp: str_of_def)
  with s v e(4) src show ?thesis by (intro exI [of _ s] exI [of _ src] exI [of _ tagged]) (auto simp: str_of_def)
qed

theorem resolveIdentity_introduces_witness: "\<exists>tr version src. ends (resolveIdentity sample_history (JStr (sample_commit 97)) []) tr (identity_of (js ''1.0.1'') (sample_commit 98) False) \<and>
    shown_version sample_history tr src (JStr version)"
  using resume_ends [OF sample_source] resolveIdentity_introduces by blast

end
