(* ===== verification/Complete_Correct.thy ===== *)
theory Complete_Correct
  imports Publish_Correct
begin

text \<open>
  What \<open>complete-release.mjs\<close> guarantees, for every behaviour of git, npm, the registry and GitHub: a
  completed release agrees with the registry, and nothing that exists is moved or overwritten.
\<close>

subsection \<open>Completing\<close>

definition commit_of :: "jsval \<Rightarrow> jsval \<Rightarrow> bool" where
  "commit_of obj sha \<longleftrightarrow> get obj ''type'' = jstr ''commit'' \<and> get obj ''sha'' = sha"

text \<open>GitHub has answered that the tag, or the last of the annotated tags it leads through, is the released commit.\<close>

definition tag_resolved :: "tools \<Rightarrow> (world_call \<times> world_reply) list \<Rightarrow> jsval \<Rightarrow> bool" where
  "tag_resolved t tr identity \<longleftrightarrow> (\<exists>meth path st loc body v. answered tr meth (api_url path) st loc body \<and> json_body t body = Some v \<and>
     (path = tag_path identity \<or> meth = ''POST'' \<and> path = js ''git/refs'' \<or> (\<exists>sha. path = js ''git/tags/'' @ sha)) \<and>
     commit_of (get v ''object'') (get identity ''source''))"

lemma tag_resolved_append: "tag_resolved t l identity \<or> tag_resolved t l' identity \<Longrightarrow> tag_resolved t (l @ l') identity"
  unfolding tag_resolved_def answered_append by blast

lemma github_resolves:
  assumes "ends (github t (js meth) body statuses path) tr v" and "commit_of (get v ''object'') (get identity ''source'')"
    and "path = tag_path identity \<or> meth = ''POST'' \<and> path = js ''git/refs'' \<or> (\<exists>sha. path = js ''git/tags/'' @ sha)"
  shows "tag_resolved t tr identity"
proof -
  obtain st loc bytes where "answered tr meth (api_url path) st loc bytes" "json_body t bytes = Some v"
    using ends_github [OF assms(1)] assms(2) by (auto simp: commit_of_def split: if_splits)
  with assms(2,3) show ?thesis unfolding tag_resolved_def by blast
qed

lemma follow_tag_source:
  assumes "ends (follow_tag t n obj) tr final" and "commit_of final (get identity ''source'')"
  shows "final = obj \<or> tag_resolved t tr identity"
  using assms
proof (induction n arbitrary: obj tr)
  case (Suc n)
  show ?case
  proof (cases "get obj ''type'' = jstr ''tag''")
    case True
    with Suc.prems(1) obtain l1 l2 v where l: "tr = l1 @ l2" "ends (github t (js ''GET'') None [200] (js ''git/tags/'' @ as_text t (get obj ''sha''))) l1 v"
        "ends (follow_tag t n (get v ''object'')) l2 final"
      by (auto simp: ends_sequence)
    from Suc.IH [OF l(3) Suc.prems(2)] show ?thesis
    proof
      assume "final = get v ''object''"
      with github_resolves [OF l(2)] Suc.prems(2) have "tag_resolved t l1 identity" by blast
      then show ?thesis using l(1) by (simp add: tag_resolved_append)
    qed (simp add: l(1) tag_resolved_append)
  next
    case False
    with Suc.prems(1) show ?thesis by simp
  qed
qed simp

lemma ensure_tag_reads:
  assumes "ends (ensure_tag t identity) tr ref" and c: "commit_of (get ref ''object'') (get identity ''source'')"
  shows "tag_resolved t tr identity"
proof -
  note got = github_resolves [OF _ c]
  from assms(1) [unfolded ensure_tag_def] obtain l1 first l2 where tr: "tr = l1 @ l2" and
      first: "ends (github t (js ''GET'') None [200, 404] (tag_path identity)) l1 first" and
      rest: "ends (if truthy first then Done first else sequence (github t (js ''POST'') (Some (JObj [(js ''ref'', JStr (js ''refs/tags/'' @ str_of (get identity ''tag''))),
        (js ''sha'', get identity ''source'')])) [201, 422] (js ''git/refs'')) (\<lambda>made. sequence (prop_of made ''object'') (\<lambda>obj.
        if truthy obj then Done made else github t (js ''GET'') None [200] (tag_path identity)))) l2 ref"
    by (rule sequenceE)
  show ?thesis
  proof (cases "truthy first")
    case True
    with got first rest tr show ?thesis by (simp add: tag_resolved_append)
  next
    case False
    with rest obtain l3 made l4 where l: "l2 = l3 @ l4" "ends (github t (js ''POST'') (Some (JObj [(js ''ref'', JStr (js ''refs/tags/'' @ str_of (get identity ''tag''))),
        (js ''sha'', get identity ''source'')])) [201, 422] (js ''git/refs'')) l3 made" and
        last: "ends (sequence (prop_of made ''object'') (\<lambda>obj. if truthy obj then Done made else github t (js ''GET'') None [200] (tag_path identity))) l4 ref"
      by (auto elim: sequenceE)
    from last have "ref = made \<or> ends (github t (js ''GET'') None [200] (tag_path identity)) l4 ref"
      by (auto simp: ends_sequence split: if_splits)
    then have "tag_resolved t l3 identity \<or> tag_resolved t l4 identity" using got l(2) by auto
    with tr l(1) show ?thesis by (metis tag_resolved_append)
  qed
qed

text \<open>GitHub holds the bytes as an asset: it served bytes with the same digest, or confirmed the digest of the upload.\<close>

definition asset_served :: "tools \<Rightarrow> (world_call \<times> world_reply) list \<Rightarrow> jsval \<Rightarrow> byte list \<Rightarrow> bool" where
  "asset_served t tr asset bytes \<longleftrightarrow> (\<exists>loc body. answered tr ''GET'' (api_url (asset_path t asset)) 200 loc body \<and> sha256_hex t body = sha256_hex t bytes) \<or>
     (\<exists>loc body u loc' body'. answered tr ''GET'' (api_url (asset_path t asset)) 302 loc body \<and> new_url t loc = Some u \<and>
       hostname u = js ''release-assets.githubusercontent.com'' \<and> answered tr ''GET'' (href u) 200 loc' body' \<and> sha256_hex t body' = sha256_hex t bytes)"

definition asset_uploaded :: "tools \<Rightarrow> (world_call \<times> world_reply) list \<Rightarrow> jsval \<Rightarrow> jsstr \<Rightarrow> byte list \<Rightarrow> bool" where
  "asset_uploaded t tr release name bytes \<longleftrightarrow> (\<exists>loc body v. answered tr ''POST'' (upload_url t release name) 201 loc body \<and> json_body t body = Some v \<and>
     get v ''state'' = jstr ''uploaded'' \<and> get v ''digest'' = JStr (js ''sha256:'' @ sha256_hex t bytes))"

definition asset_agrees :: "tools \<Rightarrow> (world_call \<times> world_reply) list \<Rightarrow> jsval \<Rightarrow> jsval list \<Rightarrow> jsstr \<Rightarrow> byte list \<Rightarrow> bool" where
  "asset_agrees t tr release assets name bytes \<longleftrightarrow> asset_uploaded t tr release name bytes \<or>
     (\<exists>asset \<in> set assets. get asset ''name'' = JStr name \<and> get asset ''state'' = jstr ''uploaded'' \<and> asset_served t tr asset bytes)"

lemma asset_append: "asset_agrees t tr release assets name bytes \<Longrightarrow> asset_agrees t (l @ tr @ l') release assets name bytes"
  unfolding asset_agrees_def asset_uploaded_def asset_served_def answered_append by blast

lemma ends_asset_bytes:
  assumes "ends (asset_bytes t asset) tr found" and "sha256_hex t found = sha256_hex t bytes"
  shows "asset_served t tr asset bytes"
proof -
  let ?q = "plain_request\<lparr>q_github := True, q_headers := [(js ''accept'', jstr ''application/octet-stream'')], q_statuses := [200, 302]\<rparr>"
  from assms(1) [unfolded asset_bytes_def] obtain l1 st loc body l2 where tr: "tr = l1 @ l2" and
      first: "ends (http_request t (api_url (asset_path t asset)) ?q) l1 (st, loc, body)" and
      rest: "ends (if st = 302 then given (new_url t loc) (\<lambda>u. require (protocol u = js ''https:'' \<and> hostname u = js ''release-assets.githubusercontent.com'' \<and>
         username u @ password u = []) (sequence (http_request t (href u) plain_request) (\<lambda>(st', loc', bytes'). Done bytes'))) else Done body) l2 found"
    by (rule sequenceE) (auto split: prod.splits)
  have one: "st \<in> {200, 302}" "answered l1 ''GET'' (api_url (asset_path t asset)) st loc body"
    using ends_request [OF first, of "''GET''"] by auto
  show ?thesis
  proof (cases "st = 302")
    case True
    with rest obtain u l3 st' loc' where u: "new_url t loc = Some u" "hostname u = js ''release-assets.githubusercontent.com''"
        "ends (http_request t (href u) plain_request) l2 (st', loc', found)"
      by (auto simp: ends_sequence)
    from ends_request [OF u(3), of "''GET''"] have "answered l2 ''GET'' (href u) 200 loc' found" by auto
    with u(1,2) one(2) [unfolded True] assms(2) show ?thesis unfolding asset_served_def tr answered_append by blast
  next
    case False
    with rest one tr assms(2) show ?thesis unfolding asset_served_def by (auto simp: answered_append)
  qed
qed

lemma ends_upload:
  assumes "ends (upload_asset t release name bytes) tr u"
  shows "asset_uploaded t tr release name bytes"
proof -
  let ?q = "plain_request\<lparr>q_method := js ''POST'', q_body := Some (Byte_content bytes), q_github := True, q_statuses := [201],
    q_headers := [(js ''content-type'', jstr ''application/octet-stream'')]\<rparr>"
  from assms obtain st loc body v where first: "ends (http_request t (upload_url t release name) ?q) tr (st, loc, body)" and
      "json_body t body = Some v" "get v ''state'' = jstr ''uploaded''" "get v ''digest'' = JStr (js ''sha256:'' @ sha256_hex t bytes)"
    by (auto simp: upload_asset_def ends_sequence)
  moreover have "st = 201" "answered tr ''POST'' (upload_url t release name) st loc body" using ends_request [OF first, of "''POST''"] by auto
  ultimately show ?thesis unfolding asset_uploaded_def by blast
qed

lemma uploaded_append: "asset_uploaded t tr release name bytes \<Longrightarrow> asset_uploaded t (l @ tr) release name bytes"
  unfolding asset_uploaded_def answered_append by blast

lemma ends_ensureAsset:
  assumes "ends (ensureAsset t release assets name bytes) tr u"
  shows "asset_agrees t tr release assets name bytes"
proof -
  let ?xs = "filter (\<lambda>a. get a ''name'' = JStr name) assets"
  show ?thesis
  proof (cases ?xs)
    case Nil
    with assms ends_upload show ?thesis by (auto simp: ensureAsset_def asset_agrees_def)
  next
    case (Cons asset xs)
    then have a: "asset \<in> set assets" "get asset ''name'' = JStr name" by (auto simp: filter_eq_Cons_iff)
    show ?thesis
    proof (cases "get asset ''state'' = jstr ''starter''")
      case True
      with assms Cons obtain l1 l2 where "tr = l1 @ l2" "ends (upload_asset t release name bytes) l2 u"
        by (auto simp: ensureAsset_def ends_sequence)
      with ends_upload uploaded_append show ?thesis by (auto simp: asset_agrees_def)
    next
      case False
      with assms Cons obtain found where "get asset ''state'' = jstr ''uploaded''" "ends (asset_bytes t asset) tr found" "sha256_hex t found = sha256_hex t bytes"
        by (auto simp: ensureAsset_def ends_sequence)
      with a ends_asset_bytes show ?thesis by (auto simp: asset_agrees_def)
    qed
  qed
qed

text \<open>The listing of the assets of a release, as GitHub gave it.\<close>

definition assets_listed :: "tools \<Rightarrow> (world_call \<times> world_reply) list \<Rightarrow> jsval \<Rightarrow> jsval list \<Rightarrow> bool" where
  "assets_listed t tr release assets \<longleftrightarrow> (\<exists>loc body. json_body t body = Some (JArr assets) \<and>
     answered tr ''GET'' (api_url (js ''releases/'' @ as_text t (get release ''id'') @ js ''/assets?per_page=100'')) 200 loc body)"

lemma listed_append: "assets_listed t tr release assets \<Longrightarrow> assets_listed t (l @ tr @ l') release assets"
  unfolding assets_listed_def answered_append by blast

lemma ends_complete_assets:
  assumes "ends (complete_assets t identity bytes release) tr u"
  shows "\<exists>assets checksum. asset_agrees t tr release assets (str_of (get identity ''filename'')) bytes \<and>
    (Read_bytes (release_path t (str_of (get identity ''filename'') @ js ''.sha256'')), Stored checksum) \<in> set tr \<and>
    asset_agrees t tr release assets (str_of (get identity ''filename'') @ js ''.sha256'') checksum \<and> assets_listed t tr release assets"
proof -
  let ?name = "str_of (get identity ''filename'')"
  let ?path = "js ''releases/'' @ as_text t (get release ''id'') @ js ''/assets?per_page=100''"
  obtain l1 listed l2 assets where tr: "tr = l1 @ l2" "ends (github t (js ''GET'') None [200] ?path) l1 listed" "listed = JArr assets" and
      rest: "ends (sequence (ensureAsset t release assets ?name bytes) (\<lambda>_. sequence (read_bytes (release_path t (?name @ js ''.sha256''))) (\<lambda>checksum.
        ensureAsset t release assets (?name @ js ''.sha256'') checksum))) l2 u"
    using assms unfolding complete_assets_def Let_def by (auto elim!: sequenceE split: jsval.splits)
  then obtain l3 checksum l4 where l2: "l2 = l3 @ (Read_bytes (release_path t (?name @ js ''.sha256'')), Stored checksum) # l4" and
      e: "ends (ensureAsset t release assets ?name bytes) l3 ()" "ends (ensureAsset t release assets (?name @ js ''.sha256'') checksum) l4 u"
    by (auto simp: ends_sequence)
  have "assets_listed t tr release assets"
    using ends_github [OF tr(2)] tr(1,3) unfolding assets_listed_def by (auto simp: answered_append)
  moreover have "asset_agrees t tr release assets ?name bytes" using asset_append [OF ends_ensureAsset [OF e(1)], of l1] tr(1) l2 by simp
  moreover have "asset_agrees t tr release assets (?name @ js ''.sha256'') checksum"
    using asset_append [OF ends_ensureAsset [OF e(2)], of "l1 @ l3 @ [(Read_bytes (release_path t (?name @ js ''.sha256'')), Stored checksum)]" "[]"] tr(1) l2 by simp
  ultimately show ?thesis using tr(1) l2 by (intro exI conjI) auto
qed

text \<open>
  Where the script has its release from: GitHub gave it for the tag, or as an item of the list of
  releases, or as the release it had just created.
\<close>

definition release_given :: "tools \<Rightarrow> (world_call \<times> world_reply) list \<Rightarrow> jsval \<Rightarrow> jsval \<Rightarrow> bool" where
  "release_given t tr identity release \<longleftrightarrow> (\<exists>meth path st loc body v. answered tr meth (api_url path) st loc body \<and> json_body t body = Some v \<and>
     (meth = ''GET'' \<and> path = js ''releases/tags/'' @ str_of (get identity ''tag'') \<and> v = release \<or>
      meth = ''GET'' \<and> (\<exists>n items. path = js ''releases?per_page=100&page='' @ text_number n \<and> v = JArr items \<and> release \<in> set items) \<or>
      meth = ''POST'' \<and> path = js ''releases'' \<and> st = 201 \<and> v = release))"

lemma release_given_append: "release_given t tr identity release \<Longrightarrow> release_given t (l @ tr @ l') identity release"
  unfolding release_given_def answered_append by blast

lemma find_tagged_member: "find_tagged tag items = Some r \<Longrightarrow> truthy r \<Longrightarrow> r \<in> set items"
  by (induction items) (auto simp: truthy_def split: if_splits)

lemma ends_find_release:
  assumes "ends (find_release t (get identity ''tag'') n) tr r" and "truthy r"
  shows "release_given t tr identity r"
  using assms
proof (induction n arbitrary: tr)
  case (Suc n)
  let ?path = "js ''releases?per_page=100&page='' @ text_number (20 - n)"
  from Suc.prems(1) obtain l1 items l2 found where tr: "tr = l1 @ l2" and got: "ends (github t (js ''GET'') None [200] ?path) l1 (JArr items)"
      and found: "find_tagged (get identity ''tag'') items = Some found"
      and rest: "ends (if truthy found \<or> length items < 100 then Done found else require (n \<noteq> 0) (find_release t (get identity ''tag'') n)) l2 r"
    by (auto elim!: sequenceE split: jsval.splits)
  show ?case
  proof (cases "truthy found \<or> length items < 100")
    case True
    with rest have "r = found" "l2 = []" by simp_all
    with found Suc.prems(2) find_tagged_member have "r \<in> set items" by blast
    moreover obtain st loc body where "answered l1 ''GET'' (api_url ?path) st loc body" "json_body t body = Some (JArr items)"
      using ends_github [OF got] by auto
    ultimately show ?thesis unfolding release_given_def tr answered_append by blast
  next
    case False
    with rest have "release_given t l2 identity r" using Suc.IH [OF _ Suc.prems(2)] by simp
    then show ?thesis using release_given_append [of t l2 identity r l1 "[]"] tr by simp
  qed
qed (simp add: truthy_def)

lemma ends_ensure_release:
  assumes "ends (ensure_release t identity) tr release"
  shows "release_given t tr identity release"
proof -
  let ?path = "js ''releases/tags/'' @ str_of (get identity ''tag'')"
  from assms [unfolded ensure_release_def] obtain l1 known l2 found l3 body where tr: "tr = l1 @ l2 @ l3"
      and known: "ends (github t (js ''GET'') None [200, 404] ?path) l1 known"
      and found: "ends (if truthy known then Done known else find_release t (get identity ''tag'') 20) l2 found"
      and made: "ends (if truthy found then Done found else github t (js ''POST'') body [201] (js ''releases'')) l3 release"
    by (auto elim!: sequenceE)
  show ?thesis
  proof (cases "truthy found")
    case False
    with made ends_github [of t "''POST''" body "[201]" "js ''releases''" l3 release]
    obtain loc bytes where "answered l3 ''POST'' (api_url (js ''releases'')) 201 loc bytes" "json_body t bytes = Some release" by auto
    then show ?thesis unfolding release_given_def tr answered_append by blast
  next
    case True
    with made have r: "release = found" "l3 = []" by simp_all
    show ?thesis
    proof (cases "truthy known")
      case False
      with found True r ends_find_release have "release_given t l2 identity release" by simp
      then show ?thesis using release_given_append [of t l2 identity release l1 l3] tr by simp
    next
      case known': True
      with found r have "release = known" by simp
      moreover obtain st loc bytes where "answered l1 ''GET'' (api_url ?path) st loc bytes" "json_body t bytes = Some known"
        using ends_github [OF known] known' by (auto simp: truthy_def split: if_splits)
      ultimately show ?thesis unfolding release_given_def tr answered_append by blast
    qed
  qed
qed

text \<open>The release is public: it was no draft, or GitHub has answered so after the update.\<close>

definition release_public :: "tools \<Rightarrow> (world_call \<times> world_reply) list \<Rightarrow> jsval \<Rightarrow> bool" where
  "release_public t tr release \<longleftrightarrow> get release ''draft'' = JBool False \<or>
     (\<exists>loc body v. answered tr ''PATCH'' (api_url (js ''releases/'' @ as_text t (get release ''id''))) 200 loc body \<and> json_body t body = Some v \<and>
       get v ''draft'' = JBool False)"

lemma ends_publishes:
  assumes "ends (if truthy (get release ''draft'') then github t (js ''PATCH'') body [200] (js ''releases/'' @ as_text t (get release ''id'')) else Done release) tr final"
    and "get final ''draft'' = JBool False"
  shows "release_public t (l @ tr) release"
proof (cases "truthy (get release ''draft'')")
  case True
  with assms ends_github [of t "''PATCH''" body "[200]" "js ''releases/'' @ as_text t (get release ''id'')" tr final] show ?thesis
    unfolding release_public_def by (auto simp: answered_append)
next
  case False
  with assms show ?thesis by (simp add: release_public_def)
qed

lemma complete_release_path:
  assumes "ends (complete_release t) tr u"
  obtains l0 g l1 l2 l3 l4 l5 l6 l7 identity bytes published ref release final where "tr = l0 @ g # l1 @ l2 @ l3 @ l4 @ l5 @ l6 @ l7"
    "ends (readArtifact t) l0 (identity, bytes)" "ends (registryManifest t (get identity ''version'') 0) l1 published" "truthy published"
    "ends (verifyRegistry t published identity (get identity ''integrity'') 0) l2 ()" "ends (ensure_tag t identity) l3 ref"
    "ends (tagSource t identity ref) l4 ()" "ends (ensure_release t identity) l5 release" "get release ''tag_name'' = get identity ''tag''"
    "get release ''prerelease'' = JBool False" "ends (complete_assets t identity bytes release) l6 ()"
    "ends (if truthy (get release ''draft'') then github t (js ''PATCH'') (Some (JObj [(js ''draft'', JBool False), (js ''make_latest'', jstr ''false'')])) [200]
      (js ''releases/'' @ as_text t (get release ''id'')) else Done release) l7 final" "get final ''draft'' = JBool False"
  using assms unfolding complete_release_def by (auto elim!: sequenceE dest: that)

text \<open>
  C16: When \<open>complete-release.mjs\<close> succeeds, npm, the SDK tag and the GitHub release agree: the registry
  serves the digest of the validated tarball with its provenance, the tag is the released commit, and
  a release that GitHub gave, bears that tag and is public holds the tarball and its checksum file. Each
  of the two is an asset of the listing that GitHub gave for this release, served with the digest of the
  content, or an upload to this release that GitHub confirmed with that digest.
\<close>

theorem complete_release_agrees:
  assumes "ends (complete_release t) tr u"
  shows "\<exists>identity bytes release assets checksum. artifact_checked t tr identity bytes \<and> registry_agrees t tr identity bytes \<and> tag_resolved t tr identity \<and>
    release_given t tr identity release \<and> get release ''tag_name'' = get identity ''tag'' \<and> get release ''prerelease'' = JBool False \<and>
    release_public t tr release \<and> assets_listed t tr release assets \<and>
    asset_agrees t tr release assets (str_of (get identity ''filename'')) bytes \<and>
    (Read_bytes (release_path t (str_of (get identity ''filename'') @ js ''.sha256'')), Stored checksum) \<in> set tr \<and>
    asset_agrees t tr release assets (str_of (get identity ''filename'') @ js ''.sha256'') checksum"
proof -
  from assms obtain l0 g l1 l2 l3 l4 l5 l6 l7 identity bytes published ref release last where tr: "tr = l0 @ g # l1 @ l2 @ l3 @ l4 @ l5 @ l6 @ l7"
    and l: "ends (readArtifact t) l0 (identity, bytes)" "ends (registryManifest t (get identity ''version'') 0) l1 published" "truthy published"
      "ends (verifyRegistry t published identity (get identity ''integrity'') 0) l2 ()"
    and tag: "ends (ensure_tag t identity) l3 ref" "ends (tagSource t identity ref) l4 ()"
    and given: "ends (ensure_release t identity) l5 release"
    and release: "get release ''tag_name'' = get identity ''tag''" "get release ''prerelease'' = JBool False" "ends (complete_assets t identity bytes release) l6 ()"
    and public: "ends (if truthy (get release ''draft'') then github t (js ''PATCH'') (Some (JObj [(js ''draft'', JBool False), (js ''make_latest'', jstr ''false'')])) [200]
      (js ''releases/'' @ as_text t (get release ''id'')) else Done release) l7 last" "get last ''draft'' = JBool False"
    by (rule complete_release_path)
  note checked = ends_readArtifact [OF l(1)]
  have "artifact_checked t tr identity bytes" using artifact_append [OF checked, of "[]"] tr by simp
  moreover have "registry_agrees t tr identity bytes"
    using registry_agreesI [OF checked l(2-4), of "l0 @ [g]" "l3 @ l4 @ l5 @ l6 @ l7"] tr by simp
  moreover obtain final where final: "ends (follow_tag t 8 (get ref ''object'')) l4 final" "commit_of final (get identity ''source'')"
    using tag(2) by (auto simp: tagSource_def ends_sequence commit_of_def)
  have "tag_resolved t (l3 @ l4) identity"
    using follow_tag_source [OF final] ensure_tag_reads [OF tag(1)] final(2) tag_resolved_append by blast
  then have "tag_resolved t ((l0 @ g # l1 @ l2) @ ((l3 @ l4) @ (l5 @ l6 @ l7))) identity" by (metis tag_resolved_append)
  then have "tag_resolved t tr identity" using tr by simp
  moreover have "release_given t tr identity release"
    using release_given_append [OF ends_ensure_release [OF given], of "l0 @ g # l1 @ l2 @ l3 @ l4" "l6 @ l7"] tr by simp
  moreover have "release_public t tr release" using ends_publishes [OF public, of "l0 @ g # l1 @ l2 @ l3 @ l4 @ l5 @ l6"] tr by simp
  moreover from ends_complete_assets [OF release(3)] obtain assets checksum where "assets_listed t l6 release assets"
    "asset_agrees t l6 release assets (str_of (get identity ''filename'')) bytes"
    "(Read_bytes (release_path t (str_of (get identity ''filename'') @ js ''.sha256'')), Stored checksum) \<in> set l6"
    "asset_agrees t l6 release assets (str_of (get identity ''filename'') @ js ''.sha256'') checksum" by blast
  then have "assets_listed t tr release assets \<and> asset_agrees t tr release assets (str_of (get identity ''filename'')) bytes \<and>
    (Read_bytes (release_path t (str_of (get identity ''filename'') @ js ''.sha256'')), Stored checksum) \<in> set tr \<and>
    asset_agrees t tr release assets (str_of (get identity ''filename'') @ js ''.sha256'') checksum"
    using asset_append [of t l6 release assets _ _ "l0 @ g # l1 @ l2 @ l3 @ l4 @ l5" l7] listed_append [of t l6 release assets "l0 @ g # l1 @ l2 @ l3 @ l4 @ l5" l7] tr by simp
  ultimately show ?thesis using release(1,2) by (intro exI [of _ identity] exI [of _ bytes] exI [of _ release] exI [of _ assets] exI [of _ checksum]) blast
qed

theorem complete_release_agrees_witness: "\<exists>tr identity bytes. ends (complete_release (sample_tools (js ''1.0.0'') True)) tr () \<and>
    artifact_checked (sample_tools (js ''1.0.0'') True) tr identity bytes \<and> registry_agrees (sample_tools (js ''1.0.0'') True) tr identity bytes \<and>
    tag_resolved (sample_tools (js ''1.0.0'') True) tr identity"
  using resume_ends [OF sample_completed] complete_release_agrees by blast

subsection \<open>What completing may change\<close>

definition keeps_history :: "tools \<Rightarrow> world_call \<Rightarrow> bool" where
  "keeps_history t c = (case c of
     Fetch_http h \<Rightarrow> h_method h = js ''GET'' \<or>
       h_method h = js ''POST'' \<and> (h_url h = api_url (js ''git/refs'') \<or> h_url h = api_url (js ''releases'') \<or> (\<exists>release name. h_url h = upload_url t release name)) \<or>
       h_method h = js ''PATCH'' \<and> (\<exists>i. h_url h = api_url (js ''releases/'' @ i)) \<or>
       h_method h = js ''DELETE'' \<and> (\<exists>asset. h_url h = api_url (asset_path t asset))
   | Run_git dir args \<Rightarrow> take 2 args = [js ''merge-base'', js ''--is-ancestor'']
   | Read_text path \<Rightarrow> True | Read_bytes path \<Rightarrow> True | Retry_delay \<Rightarrow> True | Check_signature bundle \<Rightarrow> True | _ \<Rightarrow> False)"

interpretation completing: reading "keeps_history t" for t
  by unfold_locales (simp_all add: keeps_history_def)

context reading
begin

lemma only_follow_tag: "only P (follow_tag t n obj)"
  by (induction n arbitrary: obj) (auto intro!: only_sequence only_get only_prop)

lemma only_tagSource: "only P (tagSource t identity ref)"
  by (auto simp: tagSource_def intro!: only_sequence only_prop only_follow_tag)

lemma only_ensure_tag:
  assumes "\<And>h. h_method h = js ''POST'' \<Longrightarrow> h_url h = api_url (js ''git/refs'') \<Longrightarrow> P (Fetch_http h)"
  shows "only P (ensure_tag t identity)"
  by (auto simp: ensure_tag_def intro!: only_sequence only_get only_prop only_github assms)

lemma only_find_release: "only P (find_release t tag n)"
  by (induction n) (auto intro!: only_sequence only_get split: jsval.split)

lemma only_ensure_release:
  assumes "\<And>h. h_method h = js ''POST'' \<Longrightarrow> h_url h = api_url (js ''releases'') \<Longrightarrow> P (Fetch_http h)"
  shows "only P (ensure_release t identity)"
  by (auto simp: ensure_release_def intro!: only_sequence only_get only_find_release only_github assms)

lemma only_asset_bytes: "only P (asset_bytes t asset)"
  by (auto simp: asset_bytes_def intro!: only_sequence only_plain)

lemma only_upload:
  assumes "\<And>h. h_method h = js ''POST'' \<Longrightarrow> h_url h = upload_url t release name \<Longrightarrow> P (Fetch_http h)"
  shows "only P (upload_asset t release name bytes)"
  by (auto simp: upload_asset_def intro!: only_sequence only_request assms)

lemma only_ensureAsset:
  assumes "\<And>h. h_method h = js ''POST'' \<Longrightarrow> h_url h = upload_url t release name \<Longrightarrow> P (Fetch_http h)"
    and "\<And>h asset. asset \<in> set assets \<Longrightarrow> h_method h = js ''DELETE'' \<Longrightarrow> get asset ''state'' = jstr ''starter'' \<Longrightarrow> get asset ''name'' = JStr name \<Longrightarrow>
      h_url h = api_url (asset_path t asset) \<Longrightarrow> P (Fetch_http h)"
  shows "only P (ensureAsset t release assets name bytes)"
proof (cases "filter (\<lambda>a. get a ''name'' = JStr name) assets")
  case Nil
  then show ?thesis by (simp add: ensureAsset_def only_upload assms(1))
next
  case (Cons asset xs)
  then have "asset \<in> set assets" "get asset ''name'' = JStr name" by (auto simp: filter_eq_Cons_iff)
  with Cons show ?thesis
    by (auto simp: ensureAsset_def intro!: only_sequence only_github only_upload only_asset_bytes intro: assms)
qed

end

lemma only_keeps_history: "only (keeps_history t) (complete_release t)"
proof -
  have assets: "only (keeps_history t) (ensureAsset t release assets name bytes)" for release assets name bytes
    by (rule completing.only_ensureAsset) (auto simp: keeps_history_def)
  have "only (keeps_history t) (complete_assets t identity bytes release)" for identity bytes release
    unfolding complete_assets_def Let_def
    by (intro only_sequence completing.only_get) (auto intro!: only_sequence assets completing.only_read split: jsval.split)
  moreover have "only (keeps_history t) (ensure_tag t identity)" "only (keeps_history t) (ensure_release t identity)" for identity
    by (rule completing.only_ensure_tag completing.only_ensure_release; auto simp: keeps_history_def)+
  moreover have "only (keeps_history t) (git JUndef [js ''merge-base'', js ''--is-ancestor'', s, s'])" for s s'
    by (rule completing.only_git) (simp add: keeps_history_def)
  moreover have "only (keeps_history t) (github t (js ''PATCH'') body sts (js ''releases/'' @ i))" for body sts i
    by (rule completing.only_github) (auto simp: keeps_history_def)
  ultimately show ?thesis
    unfolding complete_release_def
    by (auto intro!: only_sequence completing.only_readArtifact completing.only_registryManifest completing.only_verifyRegistry completing.only_tagSource)
qed

text \<open>Removals: of an asset that the listing reports as an unfinished upload.\<close>

definition removes :: "world_call \<Rightarrow> bool" where
  "removes c \<longleftrightarrow> (\<exists>h. c = Fetch_http h \<and> h_method h = js ''DELETE'')"

definition unfinished_asset :: "tools \<Rightarrow> jsval list \<Rightarrow> world_call \<Rightarrow> bool" where
  "unfinished_asset t assets c \<longleftrightarrow> (\<exists>asset \<in> set assets. get asset ''state'' = jstr ''starter'' \<and> http ''DELETE'' (api_url (asset_path t asset)) c)"

interpretation removing: reading "\<lambda>c. removes c \<longrightarrow> unfinished_asset t assets c" for t assets
  by unfold_locales (auto simp: removes_def)

lemma removes_only_starters: "only (\<lambda>c. removes c \<longrightarrow> unfinished_asset t assets c) (ensureAsset t release assets name bytes)"
  by (rule removing.only_ensureAsset) (auto simp: removes_def unfinished_asset_def http_def)

interpretation no_removal: reading "\<lambda>c. \<not> removes c"
  by unfold_locales (simp_all add: removes_def)

definition removal_ok :: "tools \<Rightarrow> (world_call \<times> world_reply) list \<Rightarrow> world_call \<Rightarrow> bool" where
  "removal_ok t tr c \<longleftrightarrow> (removes c \<longrightarrow> (\<exists>release assets. assets_listed t tr release assets \<and> unfinished_asset t assets c))"

lemma removal_later: "removal_ok t tr c \<Longrightarrow> removal_ok t (l @ tr) c"
  unfolding removal_ok_def assets_listed_def answered_append by blast

lemma no_removal_along: "only (\<lambda>c. \<not> removes c) p \<Longrightarrow> along (removal_ok t) p"
  by (rule along_only [where Q = "\<lambda>c. \<not> removes c"]) (simp_all add: removal_ok_def)

lemma complete_assets_along: "along (removal_ok t) (complete_assets t identity bytes release)"
  unfolding complete_assets_def Let_def
proof (intro along_sequence no_removal_along no_removal.only_get)
  fix l listed
  let ?path = "js ''releases/'' @ as_text t (get release ''id'') @ js ''/assets?per_page=100''"
  assume g: "ends (github t (js ''GET'') None [200] ?path) l listed"
  have "along (\<lambda>l'. removal_ok t (l @ l')) (sequence (ensureAsset t release assets name bytes) (\<lambda>_. sequence (read_bytes f) (ensureAsset t release assets name')))"
    if "listed = JArr assets" for assets name name' f
  proof -
    have "assets_listed t (l @ l') release assets" for l'
      using ends_github [OF g] that unfolding assets_listed_def by (auto simp: answered_append)
    moreover have "only (\<lambda>c. removes c \<longrightarrow> unfinished_asset t assets c)
        (sequence (ensureAsset t release assets name bytes) (\<lambda>_. sequence (read_bytes f) (ensureAsset t release assets name')))"
      by (intro only_sequence removes_only_starters removing.only_read)
    ultimately show ?thesis by (elim along_only) (auto simp: removal_ok_def)
  qed
  then show "along (\<lambda>l'. removal_ok t (l @ l')) (case listed of JArr assets \<Rightarrow> require (length assets < 100)
      (sequence (ensureAsset t release assets (str_of (get identity ''filename'')) bytes) (\<lambda>_.
        sequence (read_bytes (release_path t (str_of (get identity ''filename'') @ js ''.sha256''))) (\<lambda>checksum.
          ensureAsset t release assets (str_of (get identity ''filename'') @ js ''.sha256'') checksum))) | _ \<Rightarrow> Fails)"
    by (cases listed) simp_all
qed

lemma complete_release_along: "along (removal_ok t) (complete_release t)"
proof -
  have "only (\<lambda>c. \<not> removes c) (ensure_tag t v)" "only (\<lambda>c. \<not> removes c) (ensure_release t v)" "only (\<lambda>c. \<not> removes c) (github t (js ''PATCH'') b sts p)"
      "only (\<lambda>c. \<not> removes c) (git d args)" for v b sts p d args
    by (rule no_removal.only_ensure_tag no_removal.only_ensure_release no_removal.only_github no_removal.only_git; simp add: removes_def)+
  note quiet = this no_removal.only_readArtifact no_removal.only_registryManifest no_removal.only_verifyRegistry no_removal.only_tagSource
  show ?thesis
    unfolding complete_release_def
    by (auto intro!: along_later [where P = "removal_ok t"] removal_later quiet [THEN no_removal_along] complete_assets_along split: prod.split)
qed

text \<open>
  C17: \<open>complete-release.mjs\<close> never rewrites what is there. Whatever it is answered, the only calls by which it
  changes something create a tag, a release or an asset, publish a draft release, or remove an asset that
  the listing of the release reports as an unfinished upload: no tag is moved, no release removed, no
  finished asset replaced.
\<close>

theorem complete_keeps_history:
  assumes "reaches (complete_release t) tr c"
  shows "keeps_history t c \<and> (removes c \<longrightarrow> (\<exists>release assets. assets_listed t tr release assets \<and> unfinished_asset t assets c))"
  using only_reaches [OF assms only_keeps_history] complete_release_along [of t] assms by (simp add: along_def removal_ok_def)

theorem complete_keeps_history_witness: "\<exists>tr c release assets. reaches (complete_release (sample_tools (js ''1.0.0'') True)) tr c \<and> removes c \<and>
    assets_listed (sample_tools (js ''1.0.0'') True) tr release assets \<and> unfinished_asset (sample_tools (js ''1.0.0'') True) assets c"
proof -
  obtain tr c where c: "reaches (complete_release (sample_tools (js ''1.0.0'') True)) tr c" "removes c"
    using sample_deletes resume_reaches unfolding removes_def by metis
  show ?thesis using c complete_keeps_history [OF c(1)] by blast
qed

end
