(* ===== verification/Prepare.thy ===== *)
theory Prepare
  imports Release "HOL-Library.List_Lexorder"
begin

text \<open>
  Preparing a release: \<open>prepare-release.mjs\<close>, which computes the two files that a release changes, and
  \<open>prepare-release-pr.mjs\<close>, which proposes them as a pull request. Calls of the GitHub client are \<open>Api\<close>
  calls by the name of the method; the notice and the summary of a run are one call \<open>Announce\<close>.
\<close>

subsection \<open>Text\<close>

text \<open>\<open>s.indexOf(p)\<close>, and \<open>s\<close> after \<open>p\<close>.\<close>

fun index_of :: "jsstr \<Rightarrow> jsstr \<Rightarrow> nat option" where
  "index_of p [] = (if p = [] then Some 0 else None)"
| "index_of p (u # s) = (if take (length p) (u # s) = p then Some 0 else map_option Suc (index_of p s))"

definition strip_text :: "jsstr \<Rightarrow> jsstr \<Rightarrow> jsstr option" where
  "strip_text p s = (if take (length p) s = p then Some (drop (length p) s) else None)"

text \<open>\<open>/^(\s*"version"\s*:\s*)"[^"]*"/m\<close> at the start of a line: the group and what follows the match.\<close>

definition version_field :: "jsstr \<Rightarrow> (jsstr \<times> jsstr) option" where
  "version_field s = Option.bind (strip_text ([34] @ js ''version'' @ [34]) (dropWhile space_unit s)) (\<lambda>s1.
     Option.bind (strip_text [58] (dropWhile space_unit s1)) (\<lambda>s2.
     Option.bind (strip_text [34] (dropWhile space_unit s2)) (\<lambda>s3.
       case dropWhile (\<lambda>u. u \<noteq> 34) s3 of [] \<Rightarrow> None | _ # rest \<Rightarrow> Some (take (length s - length s3 - 1) s, rest))))"

definition line_end :: "nat \<Rightarrow> bool" where
  "line_end u \<longleftrightarrow> u \<in> {10, 13, 8232, 8233}"

text \<open>The first match is replaced; the first argument says whether a line starts here.\<close>

fun replace_version :: "bool \<Rightarrow> jsstr \<Rightarrow> jsstr \<Rightarrow> jsstr" where
  "replace_version start version [] = []"
| "replace_version start version (u # s) = (case (if start then version_field (u # s) else None) of
     Some (prefix, rest) \<Rightarrow> prefix @ [34] @ version @ [34] @ rest
   | None \<Rightarrow> u # replace_version (line_end u) version s)"

subsection \<open>prepare-release.mjs\<close>

definition repositoryUrl :: jsstr where
  "repositoryUrl = js ''https://github.com/sellaro-net/ja3proxy''"

definition manifestPath :: jsstr where
  "manifestPath = js ''packages/typescript/package.json''"

definition changelogPath :: jsstr where
  "changelogPath = js ''packages/typescript/CHANGELOG.md''"

definition sourcePaths :: "jsstr list" where
  "sourcePaths = map js [''packages/typescript'', ''contracts'', ''README.md'',
     ''src/contracts.rs'', ''src/models.rs'', ''src/protocol.rs'', ''src/error.rs'',
     ''src/handlers.rs'', ''src/validation.rs'', ''src/contexts.rs'', ''src/contexts'', ''src/auth.rs'',
     '':(exclude)packages/typescript/CHANGELOG.md'', '':(exclude)packages/typescript/scripts/*release*.mjs'',
     '':(exclude)packages/typescript/test/release.test.mjs'']"

record plan =
  pl_ready :: bool
  pl_previousVersion :: jsstr
  pl_version :: jsstr
  pl_sourceSha :: jsstr
  pl_previousTag :: jsstr
  pl_branch :: jsstr
  pl_notes :: jsstr
  pl_sourceComparison :: jsstr
  pl_files :: "(jsstr \<times> jsstr) list"

definition branch_of :: "jsstr \<Rightarrow> jsstr" where
  "branch_of version = js ''release/sdk-'' @ version"

definition unchanged_plan :: "jsstr \<Rightarrow> jsstr \<Rightarrow> jsstr \<Rightarrow> plan" where
  "unchanged_plan previous version sourceSha = \<lparr>pl_ready = False, pl_previousVersion = previous, pl_version = version, pl_sourceSha = sourceSha,
     pl_previousTag = tag_of previous, pl_branch = branch_of version, pl_notes = [], pl_sourceComparison = [], pl_files = []\<rparr>"

text \<open>One line per first-parent commit: pairs of hash and subject; an odd rest is dropped.\<close>

definition change_entry :: "jsstr \<Rightarrow> jsstr \<Rightarrow> jsstr" where
  "change_entry sha subject = js ''- '' @ escapeMarkdown subject @ js '' (['' @ take 7 sha @ js '']('' @ repositoryUrl @ js ''/commit/'' @ sha @ js ''))''"

fun change_entries :: "jsstr list \<Rightarrow> jsstr list option" where
  "change_entries (h # subject # rest) = (if hex40 (JStr (js_trim h)) then map_option (Cons (change_entry (js_trim h) subject)) (change_entries rest) else None)"
| "change_entries _ = Some []"

definition heading :: "jsstr \<Rightarrow> jsstr" where
  "heading version = js ''## ['' @ version @ js ''](''"

definition release_notes :: "jsstr \<Rightarrow> jsstr \<Rightarrow> jsstr \<Rightarrow> jsstr list \<Rightarrow> jsstr" where
  "release_notes version previousTag sourceSha entries = heading version @ repositoryUrl @ js ''/compare/'' @ previousTag @ js ''...sdk-v'' @ version @ js '')'' @ [10, 10] @
     join_with [10] entries @ [10, 10] @ js ''[Reviewed source changes]('' @ repositoryUrl @ js ''/compare/'' @ previousTag @ js ''...'' @ sourceSha @ js '')'' @ [10]"

text \<open>The new contents, from the manifest, the changelog and the scoped history.\<close>

definition new_changelog :: "jsstr \<Rightarrow> nat \<Rightarrow> jsstr \<Rightarrow> jsstr" where
  "new_changelog changelogText firstRelease notes = take firstRelease changelogText @ [10] @ notes @ drop firstRelease changelogText"

definition changelog_ok :: "jsstr \<Rightarrow> jsstr \<Rightarrow> jsstr \<Rightarrow> bool" where
  "changelog_ok changelogText previous version \<longleftrightarrow> take 12 changelogText = js ''# Changelog'' @ [10] \<and>
     index_of (heading previous) changelogText \<noteq> None \<and> index_of (heading version) changelogText = None"

definition plan_changes :: "tools \<Rightarrow> jsval \<Rightarrow> jsstr \<Rightarrow> jsval \<Rightarrow> jsstr \<Rightarrow> plan \<Rightarrow> plan program" where
  "plan_changes t dir manifestText manifest previousSha p = (let version = pl_version p; sha = pl_sourceSha p in
     sequence (run_git dir ([js ''log'', js ''--first-parent'', js ''--format=%H%x00%s%x00'', previousSha @ js ''..'' @ sha, js ''--''] @ sourcePaths)) (\<lambda>out.
     given (change_entries (split_on 0 (js_trim out))) (\<lambda>entries. require (entries \<noteq> []) (
     let notes = release_notes version (pl_previousTag p) sha entries in
     sequence (run_git dir [js ''show'', sha @ js '':'' @ changelogPath]) (\<lambda>changelogText.
     require (changelog_ok changelogText (pl_previousVersion p) version) (
     given (index_of (10 # js ''## ['') changelogText) (\<lambda>firstRelease.
     let nextManifest = replace_version True version manifestText in
     given (json_text t nextManifest) (\<lambda>next.
     require (deep_equal next (JObj (set_prop (spread_object manifest) (js ''version'') (JStr version)))) (
       Done (p\<lparr>pl_ready := True, pl_notes := notes, pl_sourceComparison := repositoryUrl @ js ''/compare/'' @ pl_previousTag p @ js ''...'' @ sha,
         pl_files := [(manifestPath, nextManifest), (changelogPath, new_changelog changelogText firstRelease notes)]\<rparr>))))))))))"

definition release_manifest :: "jsval \<Rightarrow> bool" where
  "release_manifest manifest \<longleftrightarrow> get manifest ''name'' = JStr packageName \<and> get manifest ''private'' = JBool True \<and> get manifest ''license'' = jstr ''MIT''"

definition plan_version :: "tools \<Rightarrow> jsval \<Rightarrow> jsstr \<Rightarrow> jsstr \<Rightarrow> jsval \<Rightarrow> jsstr \<Rightarrow> plan program" where
  "plan_version t dir sha manifestText manifest version = (let previous = str_of (get manifest ''version'') in
     sequence (run_git dir [js ''rev-parse'', js ''--verify'', js ''refs/tags/'' @ tag_of previous @ js ''^{commit}'']) (\<lambda>out. let previousSha = js_trim out in
     sequence (run_git dir [js ''merge-base'', js ''--is-ancestor'', previousSha, sha]) (\<lambda>_.
     sequence (run_git dir [js ''show'', previousSha @ js '':'' @ manifestPath]) (\<lambda>s. given (json_text t s) (\<lambda>previousManifest.
     require (get previousManifest ''name'' = get manifest ''name'' \<and> get previousManifest ''version'' = get manifest ''version'') (
     sequence (run_git dir ([js ''diff'', js ''--name-only'', previousSha, sha, js ''--''] @ sourcePaths)) (\<lambda>changed.
       if js_trim changed = [] then Done (unchanged_plan previous version sha)
       else plan_changes t dir manifestText manifest previousSha (unchanged_plan previous version sha))))))))"

definition planRelease :: "tools \<Rightarrow> jsval \<Rightarrow> jsval \<Rightarrow> jsval \<Rightarrow> jsval \<Rightarrow> plan program" where
  "planRelease t dir bump expectedVersion sourceSha = require (hex40 sourceSha) (let sha = str_of sourceSha in
     sequence (run_git dir [js ''rev-parse'', js ''--verify'', sha @ js ''^{commit}'']) (\<lambda>out. require (js_trim out = sha) (
     sequence (run_git dir [js ''show'', sha @ js '':'' @ manifestPath]) (\<lambda>manifestText. given (json_text t manifestText) (\<lambda>manifest.
     require (release_manifest manifest \<and> get manifest ''version'' = expectedVersion) (
     given (bumpVersion (get manifest ''version'') bump) (plan_version t dir sha manifestText manifest)))))))"

text \<open>\<open>path_in\<close> is \<open>resolve(root, path)\<close>.\<close>

definition unchanged_file :: "(jsstr \<Rightarrow> jsstr) \<Rightarrow> jsval \<Rightarrow> plan \<Rightarrow> jsstr \<times> jsstr \<Rightarrow> unit program" where
  "unchanged_file path_in dir p file = sequence (read_text (path_in (fst file))) (\<lambda>text.
     sequence (run_git dir [js ''show'', pl_sourceSha p @ js '':'' @ fst file]) (\<lambda>committed. require (text = committed) (Done ())))"

definition writeRelease :: "(jsstr \<Rightarrow> jsstr) \<Rightarrow> jsval \<Rightarrow> plan \<Rightarrow> unit program" where
  "writeRelease path_in dir p = (if \<not> pl_ready p then Done () else
     sequence (run_git dir [js ''rev-parse'', js ''HEAD'']) (\<lambda>out. require (js_trim out = pl_sourceSha p) (
     sequence (run_git dir [js ''status'', js ''--porcelain'', js ''--untracked-files=normal'']) (\<lambda>dirty. require (js_trim dirty = []) (
     sequence (each (unchanged_file path_in dir p) (pl_files p)) (\<lambda>_.
       each (\<lambda>file. act (Write_file (path_in (fst file)) (Text_content (snd file)))) (pl_files p)))))))"

definition prepare_release :: "tools \<Rightarrow> (jsstr \<Rightarrow> jsstr) \<Rightarrow> jsval \<Rightarrow> jsstr list \<Rightarrow> plan program" where
  "prepare_release t path_in dir arguments = require (list_all (\<lambda>a. a = js ''--write'') arguments) (
     sequence (planRelease t dir (variable t ''SDK_RELEASE_BUMP'') (variable t ''SDK_RELEASE_EXPECTED_VERSION'') (variable t ''SDK_RELEASE_SOURCE_SHA'')) (\<lambda>p.
     sequence (if js ''--write'' \<in> set arguments then writeRelease path_in dir p else Done ()) (\<lambda>_. Done p)))"

subsection \<open>prepare-release-pr.mjs\<close>

definition in_repo :: "jsval \<Rightarrow> (string \<times> jsval) list \<Rightarrow> jsval" where
  "in_repo repo ps = JObj (fold (\<lambda>(k, v) acc. set_prop acc (js k) v) ps (spread_object repo))"

definition api :: "string \<Rightarrow> jsval \<Rightarrow> jsval program" where
  "api name arguments = Calls (Api name arguments) (\<lambda>r. case r of Data v \<Rightarrow> Done v | _ \<Rightarrow> Fails)"

definition object_sha :: "jsval \<Rightarrow> jsval program" where
  "object_sha d = sequence (prop_of d ''object'') (\<lambda>obj. prop_of obj ''sha'')"

definition refSha :: "jsval \<Rightarrow> jsstr \<Rightarrow> jsval program" where
  "refSha repo ref = sequence (api ''git.getRef'' (in_repo repo [(''ref'', JStr ref)])) object_sha"

definition mainSha :: "jsval \<Rightarrow> jsval program" where
  "mainSha repo = refSha repo (js ''heads/main'')"

text \<open>A missing reference is \<open>undefined\<close>; every other error is thrown.\<close>

definition branchSha :: "jsval \<Rightarrow> jsstr \<Rightarrow> jsval program" where
  "branchSha repo branch = Calls (Api ''git.getRef'' (in_repo repo [(''ref'', JStr (js ''heads/'' @ branch))])) (\<lambda>r. case r of
     Data d \<Rightarrow> object_sha d | Api_error e \<Rightarrow> require (get e ''status'' = jint 404) (Done JUndef) | _ \<Rightarrow> Fails)"

definition contentAt :: "tools \<Rightarrow> jsval \<Rightarrow> jsstr \<Rightarrow> jsval \<Rightarrow> jsstr program" where
  "contentAt t repo path ref = sequence (api ''repos.getContent'' (in_repo repo [(''path'', JStr path), (''ref'', ref)])) (\<lambda>d.
     require (get d ''type'' = jstr ''file'' \<and> get d ''encoding'' = jstr ''base64'') (given (base64_text t (get d ''content'')) Done))"

definition published_call :: "jsstr \<Rightarrow> http_call" where
  "published_call version = \<lparr>h_method = js ''GET'', h_url = js ''https://registry.npmjs.org/@sellaro%2Fja3proxy/'' @ version, h_body = None,
     h_headers = [(js ''accept'', jstr ''application/json'')]\<rparr>"

definition isPublished :: "tools \<Rightarrow> jsstr \<Rightarrow> bool program" where
  "isPublished t version = sequence (fetch_http (published_call version)) (\<lambda>(st, loc, bytes). if st = 404 then Done False
     else require (st = 200) (given (json_body t bytes) (\<lambda>metadata.
       require (get metadata ''name'' = JStr packageName \<and> get metadata ''version'' = JStr version \<and>
         truthy (get (get metadata ''dist'') ''integrity'') \<and> truthy (get (get metadata ''dist'') ''tarball'')) (Done True))))"

definition announce :: "jsstr \<Rightarrow> jsval \<Rightarrow> unit program" where
  "announce message address = act (Announce message (if truthy address then address else JUndef))"

text \<open>The filter of the open pull requests; a property of \<open>null\<close> throws.\<close>

definition release_pr :: "jsval \<Rightarrow> bool option" where
  "release_pr pr = (let h = get pr ''head'' in if nullish pr \<or> nullish h then None
     else if get (get h ''repo'') ''full_name'' \<noteq> JStr repository then Some False
     else (case get h ''ref'' of JStr s \<Rightarrow> Some (strip_text (js ''release/sdk-'') s \<noteq> None) | _ \<Rightarrow> None))"

fun release_prs :: "jsval list \<Rightarrow> jsval list option" where
  "release_prs [] = Some []"
| "release_prs (pr # prs) = (case release_pr pr of None \<Rightarrow> None
     | Some b \<Rightarrow> map_option (\<lambda>rest. if b then pr # rest else rest) (release_prs prs))"

definition head_ref :: "jsval \<Rightarrow> jsval" where
  "head_ref pr = get (get pr ''head'') ''ref''"

definition changed_files :: "jsval \<Rightarrow> jsstr list option" where
  "changed_files changes = (case get changes ''files'' of
     JArr fs \<Rightarrow> those (map (\<lambda>f. case get f ''filename'' of JStr s \<Rightarrow> Some s | _ \<Rightarrow> None) fs) | _ \<Rightarrow> None)"

fun find_entry :: "jsstr \<Rightarrow> jsval list \<Rightarrow> jsval option" where
  "find_entry path [] = Some JUndef"
| "find_entry path (c # cs) = (if nullish c then None else if get c ''path'' = JStr path then Some c else find_entry path cs)"

definition planned_file :: "tools \<Rightarrow> jsval \<Rightarrow> jsval \<Rightarrow> jsval list \<Rightarrow> jsstr \<times> jsstr \<Rightarrow> unit program" where
  "planned_file t repo sha entries file = given (find_entry (fst file) entries) (\<lambda>entry.
     require (get entry ''type'' = jstr ''blob'' \<and> get entry ''mode'' = jstr ''100644'') (
     sequence (contentAt t repo (fst file) sha) (\<lambda>found. require (found = snd file) (Done ()))))"

definition only_parent :: "jsval \<Rightarrow> jsval program" where
  "only_parent commit = (case get commit ''parents'' of JArr [p] \<Rightarrow> prop_of p ''sha'' | _ \<Rightarrow> Fails)"

definition compare_commits :: "tools \<Rightarrow> jsval \<Rightarrow> jsval \<Rightarrow> jsval \<Rightarrow> jsval program" where
  "compare_commits t repo a b = api ''repos.compareCommitsWithBasehead'' (in_repo repo [(''basehead'', JStr (as_text t a @ js ''...'' @ as_text t b))])"

text \<open>The branch of an earlier attempt: exactly the planned commit on its own parent, or nothing is done.\<close>

definition resume_branch :: "tools \<Rightarrow> jsval \<Rightarrow> jsval \<Rightarrow> jsval \<Rightarrow> jsval \<Rightarrow> jsval \<Rightarrow> jsval \<Rightarrow> plan program" where
  "resume_branch t repo dir bump expected sourceSha sha =
     sequence (api ''git.getCommit'' (in_repo repo [(''commit_sha'', sha)])) (\<lambda>commit.
     sequence (only_parent commit) (\<lambda>parentSha.
     sequence (compare_commits t repo parentSha sourceSha) (\<lambda>ancestry.
     require (get ancestry ''status'' \<in> {jstr ''ahead'', jstr ''identical''}) (
     sequence (planRelease t dir bump expected parentSha) (\<lambda>p. require (pl_ready p) (
     sequence (compare_commits t repo parentSha sha) (\<lambda>changes.
     given (changed_files changes) (\<lambda>names. require (sort names = sort (map fst (pl_files p))) (
     sequence (prop_of (get commit ''tree'') ''sha'') (\<lambda>treeSha.
     sequence (api ''git.getTree'' (in_repo repo [(''tree_sha'', treeSha), (''recursive'', jstr ''true'')])) (\<lambda>tr.
     require (get tr ''truncated'' = JBool False) (case get tr ''tree'' of
       JArr entries \<Rightarrow> sequence (each (planned_file t repo sha entries) (pl_files p)) (\<lambda>_. Done p)
     | _ \<Rightarrow> Fails))))))))))))"

definition tree_entries :: "plan \<Rightarrow> jsval" where
  "tree_entries p = JArr (map (\<lambda>(path, content). JObj [(js ''path'', JStr path), (js ''mode'', jstr ''100644''), (js ''type'', jstr ''blob''), (js ''content'', JStr content)]) (pl_files p))"

text \<open>A new branch, or \<open>None\<close> when nothing is to be released.\<close>

definition create_branch :: "tools \<Rightarrow> jsval \<Rightarrow> jsval \<Rightarrow> jsval \<Rightarrow> jsval \<Rightarrow> jsval \<Rightarrow> jsstr \<Rightarrow> (plan \<times> jsval) option program" where
  "create_branch t repo dir bump expected sourceSha version = sequence (planRelease t dir bump expected sourceSha) (\<lambda>p.
     if \<not> pl_ready p then sequence (announce (js ''No SDK or shared wire-contract changes since '' @ pl_previousTag p @
         js ''; no version, branch, or PR was created.'') JUndef) (\<lambda>_. Done None)
     else sequence (mainSha repo) (\<lambda>m. require (m = sourceSha) (
     sequence (api ''git.getCommit'' (in_repo repo [(''commit_sha'', sourceSha)])) (\<lambda>b.
     sequence (prop_of (get b ''tree'') ''sha'') (\<lambda>baseTree.
     sequence (api ''git.createTree'' (in_repo repo [(''base_tree'', baseTree), (''tree'', tree_entries p)])) (\<lambda>tr.
     sequence (prop_of tr ''sha'') (\<lambda>treeSha.
     sequence (api ''git.createCommit'' (in_repo repo [(''message'', JStr (js ''chore(sdk): release v'' @ version)), (''tree'', treeSha), (''parents'', JArr [sourceSha])])) (\<lambda>commit.
     sequence (prop_of commit ''sha'') (\<lambda>sha.
     sequence (api ''git.createRef'' (in_repo repo [(''ref'', JStr (js ''refs/heads/'' @ branch_of version)), (''sha'', sha)])) (\<lambda>_.
       Done (Some (p, sha))))))))))))"

definition pr_body :: "jsstr \<Rightarrow> jsstr \<Rightarrow> plan \<Rightarrow> jsstr" where
  "pr_body previous version p = join_with [10] [
     js ''Prepare **@sellaro/ja3proxy '' @ version @ js ''** from the already-public **'' @ previous @ js ''**.'', [],
     js ''**Merging this PR is the only release approval.** Normal required SDK checks must pass; merge manually under main branch protection. The merge automatically starts npm OIDC publication through sdk-publish.yml. This workflow never merges, approves, tags, or publishes.'', [],
     js ''Source remains '' @ [96] @ js ''private: true'' @ [96] @ js ''; only the version and SDK changelog change. Release source: ['' @ pl_sourceSha p @
       js ''](https://github.com/'' @ repository @ js ''/commit/'' @ pl_sourceSha p @ js '').'', [],
     js ''Review the generated commit summaries and edit the changelog if user-facing release notes need clarification. Choose a different bump only after explicitly closing this PR; preparation never replaces its branch.'', [],
     pl_notes p]"

definition pr_call :: "jsval \<Rightarrow> jsstr \<Rightarrow> jsstr \<Rightarrow> plan \<Rightarrow> jsval" where
  "pr_call repo previous version p = in_repo repo [(''base'', jstr ''main''), (''head'', JStr (branch_of version)), (''title'', JStr (js ''chore(sdk): release v'' @ version)),
     (''body'', JStr (pr_body previous version p)), (''draft'', JBool False), (''maintainer_can_modify'', JBool True)]"

definition open_pr :: "jsval \<Rightarrow> jsval \<Rightarrow> jsstr \<Rightarrow> jsstr \<Rightarrow> plan \<Rightarrow> jsval \<Rightarrow> unit program" where
  "open_pr repo sourceSha previous version p sha = sequence (mainSha repo) (\<lambda>m. require (m = sourceSha) (
     sequence (refSha repo (js ''heads/'' @ branch_of version)) (\<lambda>found. require (found = sha) (
     sequence (api ''pulls.create'' (pr_call repo previous version p)) (\<lambda>pr. sequence (prop_of pr ''html_url'') (\<lambda>address.
       announce (js ''Prepared '' @ version @ js ''. Review and merge the PR manually; no package was published by preparation.'') address))))))"

definition propose :: "tools \<Rightarrow> jsval \<Rightarrow> jsval \<Rightarrow> jsval \<Rightarrow> jsval \<Rightarrow> jsval \<Rightarrow> jsstr \<Rightarrow> unit program" where
  "propose t repo dir bump expected sourceSha version = sequence (branchSha repo (branch_of version)) (\<lambda>sha.
     if truthy sha then sequence (resume_branch t repo dir bump expected sourceSha sha) (\<lambda>p. open_pr repo sourceSha (str_of expected) version p sha)
     else sequence (create_branch t repo dir bump expected sourceSha version) (\<lambda>made.
       case made of None \<Rightarrow> Done () | Some (p, sha') \<Rightarrow> open_pr repo sourceSha (str_of expected) version p sha'))"

definition open_list :: "jsval \<Rightarrow> jsval" where
  "open_list repo = in_repo repo [(''state'', jstr ''open''), (''base'', jstr ''main''), (''per_page'', jint 100)]"

definition closed_list :: "tools \<Rightarrow> jsval \<Rightarrow> jsstr \<Rightarrow> jsval" where
  "closed_list t repo version = in_repo repo [(''state'', jstr ''closed''), (''base'', jstr ''main''),
     (''head'', JStr (as_text t (get repo ''owner'') @ js '':'' @ branch_of version)), (''per_page'', jint 100)]"

definition propose_new :: "tools \<Rightarrow> jsval \<Rightarrow> jsval \<Rightarrow> jsval \<Rightarrow> jsval \<Rightarrow> jsval \<Rightarrow> jsstr \<Rightarrow> unit program" where
  "propose_new t repo dir bump expected sourceSha version = sequence (api ''paginate pulls.list'' (closed_list t repo version)) (\<lambda>prior.
     require (prior = JArr []) (
     sequence (isPublished t version) (\<lambda>known. require (\<not> known) (propose t repo dir bump expected sourceSha version))))"

definition prepare_version :: "tools \<Rightarrow> jsval \<Rightarrow> jsval \<Rightarrow> jsval \<Rightarrow> jsval \<Rightarrow> jsval \<Rightarrow> jsstr \<Rightarrow> unit program" where
  "prepare_version t repo dir bump expected sourceSha version = sequence (isPublished t (str_of expected)) (\<lambda>current. require current (
     sequence (api ''paginate pulls.list'' (open_list repo)) (\<lambda>opened. case opened of
       JArr prs \<Rightarrow> given (release_prs prs) (\<lambda>releasePrs.
         require (list_all (\<lambda>pr. head_ref pr = JStr (branch_of version)) releasePrs) (case releasePrs of
           pr # _ \<Rightarrow> announce (js ''Release '' @ version @ js '' already has an open PR; its branch and review are unchanged.'') (get pr ''html_url'')
         | [] \<Rightarrow> propose_new t repo dir bump expected sourceSha version))
     | _ \<Rightarrow> Fails)))"

definition prepareReleasePr :: "tools \<Rightarrow> jsval \<Rightarrow> jsval \<Rightarrow> jsval \<Rightarrow> unit program" where
  "prepareReleasePr t ctxt dir bump = (let repo = get ctxt ''repo''; sourceSha = get ctxt ''sha'' in
     require (\<not> nullish repo \<and> as_text t (get repo ''owner'') @ js ''/'' @ as_text t (get repo ''repo'') = repository \<and>
       get ctxt ''eventName'' = jstr ''workflow_dispatch'' \<and> get ctxt ''ref'' = jstr ''refs/heads/main'') (
     sequence (mainSha repo) (\<lambda>m. require (m = sourceSha) (
     sequence (contentAt t repo manifestPath sourceSha) (\<lambda>s. given (json_text t s) (\<lambda>manifest.
     require (release_manifest manifest) (
     given (bumpVersion (get manifest ''version'') bump) (prepare_version t repo dir bump (get manifest ''version'') sourceSha))))))))"

end
