(* ===== verification/Prepare_Runs.thy ===== *)
theory Prepare_Runs
  imports Prepare Publish_Runs
begin

text \<open>
  Concrete runs of \<open>prepare-release.mjs\<close> and \<open>prepare-release-pr.mjs\<close>: a patch release after \<open>1.0.0\<close>. The
  manifest is one line, which \<open>sample_read_json\<close> reads as JSON.
\<close>

subsection \<open>The repository and its replies\<close>

definition sample_line :: "jsstr \<Rightarrow> jsstr" where
  "sample_line version = [34] @ js ''version'' @ [34, 58] @ [34] @ version @ [34]"

definition sample_read_json :: "jsstr \<Rightarrow> jsval" where
  "sample_read_json s = JObj [(js ''name'', JStr packageName), (js ''version'', JStr (takeWhile (\<lambda>u. u \<noteq> 34) (drop 11 s))), (js ''private'', JBool True), (js ''license'', jstr ''MIT'')]"

definition sample_metadata :: jsval where
  "sample_metadata = JObj [(js ''name'', JStr packageName), (js ''version'', jstr ''1.0.0''), (js ''dist'', JObj [(js ''integrity'', jstr ''i''), (js ''tarball'', jstr ''t'')])]"

definition sample_preparing :: tools where
  "sample_preparing = sample_tools (js ''1.0.0'') False\<lparr>json_text := (\<lambda>s. Some (sample_read_json s)), json_body := (\<lambda>bs. Some sample_metadata),
     base64_text := (\<lambda>v. Some (sample_line (js ''1.0.0''))), as_text := str_of\<rparr>"

definition sample_changelog :: jsstr where
  "sample_changelog = js ''# Changelog'' @ [10, 10] @ js ''## [1.0.0](x)''"

definition sample_subjects :: jsstr where
  "sample_subjects = sample_commit 97 @ [0] @ js ''fix'' @ [0]"

definition sample_planning :: "world_reply list" where
  "sample_planning = [Printed (sample_commit 97), Printed (sample_line (js ''1.0.0'')), Printed (sample_commit 98), Printed [], Printed (sample_line (js ''1.0.0'')),
     Printed (js ''x''), Printed sample_subjects, Printed sample_changelog]"

lemma sample_bump: "bumpVersion (jstr ''1.0.0'') (jstr ''patch'') = Some (js ''1.0.1'')"
proof -
  have "js ''1.0.0'' = version_text 1 0 0" "js ''1.0.1'' = version_text 1 0 1" by (simp_all add: version_text_def text_number_def dec_digits.simps js_def)
  then show ?thesis by (simp add: bump_text MAX_SAFE_INTEGER_def)
qed

lemma sample_replaced: "replace_version True (js ''1.0.1'') (sample_line (js ''1.0.0'')) = sample_line (js ''1.0.1'')"
  by (simp add: sample_line_def version_field_def strip_text_def space_unit_def js_def)

lemma sample_parsed: "sample_read_json (sample_line (js ''1.0.0'')) = JObj [(js ''name'', JStr packageName), (js ''version'', jstr ''1.0.0''), (js ''private'', JBool True), (js ''license'', jstr ''MIT'')]"
    "sample_read_json (sample_line (js ''1.0.1'')) = JObj [(js ''name'', JStr packageName), (js ''version'', jstr ''1.0.1''), (js ''private'', JBool True), (js ''license'', jstr ''MIT'')]"
  by (simp_all add: sample_read_json_def sample_line_def js_def)

lemma sample_trims: "js_trim (sample_commit 97) = sample_commit 97" "js_trim (sample_commit 98) = sample_commit 98" "js_trim (js ''x'') \<noteq> []" "js_trim sample_subjects = sample_subjects"
  by (simp_all add: js_trim_def space_unit_def sample_commit_def sample_subjects_def js_def)

lemma sample_entries: "change_entries (split_on 0 sample_subjects) = Some [change_entry (sample_commit 97) (js ''fix'')]"
proof -
  have "split_on 0 sample_subjects = [sample_commit 97, js ''fix'', []]"
    by (simp add: sample_subjects_def sample_commit_def split_append js_def)
  then show ?thesis by (simp add: sample_trims sample_commits)
qed

lemma sample_index: "changelog_ok sample_changelog (js ''1.0.0'') (js ''1.0.1'')" "index_of (10 # js ''## ['') sample_changelog = Some 12"
  by (simp_all add: changelog_ok_def sample_changelog_def heading_def js_def)

definition sample_notes :: jsstr where
  "sample_notes = release_notes (js ''1.0.1'') (tag_of (js ''1.0.0'')) (sample_commit 97) [change_entry (sample_commit 97) (js ''fix'')]"

definition sample_plan :: plan where
  "sample_plan = (unchanged_plan (js ''1.0.0'') (js ''1.0.1'') (sample_commit 97))\<lparr>pl_ready := True, pl_notes := sample_notes,
     pl_sourceComparison := repositoryUrl @ js ''/compare/'' @ tag_of (js ''1.0.0'') @ js ''...'' @ sample_commit 97,
     pl_files := [(manifestPath, sample_line (js ''1.0.1'')), (changelogPath, new_changelog sample_changelog 12 sample_notes)]\<rparr>"

lemma sample_tool: "json_text sample_preparing s = Some (sample_read_json s)" "json_body sample_preparing bs = Some sample_metadata"
    "base64_text sample_preparing v = Some (sample_line (js ''1.0.0''))" "as_text sample_preparing = str_of"
  by (simp_all add: sample_preparing_def)

subsection \<open>Runs\<close>

lemma run_changes: "resume (sequence (plan_changes sample_preparing dir (sample_line (js ''1.0.0'')) (sample_read_json (sample_line (js ''1.0.0''))) (sample_commit 98)
    (unchanged_plan (js ''1.0.0'') (js ''1.0.1'') (sample_commit 97))) f) (Printed sample_subjects # Printed sample_changelog # rs) = resume (f sample_plan) rs"
  by (simp add: plan_changes_def Let_def run_git_def sample_trims sample_entries unchanged_plan_def sample_index sample_replaced sample_tool sample_parsed deep_equal.simps
      sample_plan_def sample_notes_def)

lemma run_plan: "resume (sequence (planRelease sample_preparing dir (jstr ''patch'') (jstr ''1.0.0'') (JStr (sample_commit 97))) f) (sample_planning @ rs) = resume (f sample_plan) rs"
  by (simp add: planRelease_def plan_version_def Let_def run_git_def sample_planning_def sample_trims sample_commits sample_tool str_of_def release_manifest_def run_changes)
    (simp add: sample_parsed sample_bump sample_trims run_changes [unfolded sample_parsed])

lemma sample_planned: "resume (planRelease sample_preparing dir (jstr ''patch'') (jstr ''1.0.0'') (JStr (sample_commit 97))) sample_planning = Done sample_plan"
  using run_plan [of dir Done "[]"] by simp

lemma sample_writing: "\<exists>k. resume (writeRelease path_in dir sample_plan) [Printed (sample_commit 97), Printed [], Printed (sample_line (js ''1.0.0'')), Printed (sample_line (js ''1.0.0'')),
    Printed sample_changelog, Printed sample_changelog] = Calls (Write_file (path_in manifestPath) (Text_content (sample_line (js ''1.0.1'')))) k"
  by (simp add: writeRelease_def unchanged_file_def run_git_def read_text_def act_def sample_trims sample_trim sample_plan_def unchanged_plan_def)

text \<open>One document answers every call of the client.\<close>

definition sample_document_data :: jsval where
  "sample_document_data = JObj [(js ''object'', JObj [(js ''sha'', JStr (sample_commit 97))]), (js ''type'', jstr ''file''), (js ''encoding'', jstr ''base64''),
     (js ''tree'', JObj [(js ''sha'', jstr ''t'')]), (js ''sha'', JStr (sample_commit 97))]"

definition sample_event :: jsval where
  "sample_event = JObj [(js ''repo'', JObj [(js ''owner'', jstr ''sellaro-net''), (js ''repo'', jstr ''ja3proxy'')]), (js ''eventName'', jstr ''workflow_dispatch''),
     (js ''ref'', jstr ''refs/heads/main''), (js ''sha'', JStr (sample_commit 97))]"

abbreviation data_reply :: world_reply where
  "data_reply \<equiv> Data sample_document_data"

definition sample_not_found :: jsval where
  "sample_not_found = JObj [(js ''status'', jint 404)]"

definition sample_dispatch :: "world_reply list" where
  "sample_dispatch = [data_reply, data_reply, Answered 200 JUndef [0], Data (JArr []), Data (JArr []), Answered 404 JUndef [0],
     Api_error sample_not_found] @ sample_planning @ [data_reply, data_reply, data_reply, data_reply]"

lemma run_refSha: "resume (sequence (refSha repo ref) f) (data_reply # rs) = resume (f (JStr (sample_commit 97))) rs"
    "resume (sequence (mainSha repo) f) (data_reply # rs) = resume (f (JStr (sample_commit 97))) rs"
  by (simp_all add: refSha_def mainSha_def api_def object_sha_def prop_of_def nullish_def sample_document_data_def)

lemma run_create: "resume (sequence (create_branch sample_preparing repo dir (jstr ''patch'') (jstr ''1.0.0'') (JStr (sample_commit 97)) (js ''1.0.1'')) f)
    (sample_planning @ data_reply # data_reply # data_reply # data_reply # rs) =
    resume (sequence (api ''git.createRef'' (in_repo repo [(''ref'', JStr (js ''refs/heads/'' @ branch_of (js ''1.0.1''))), (''sha'', JStr (sample_commit 97))]))
      (\<lambda>_. f (Some (sample_plan, JStr (sample_commit 97))))) rs"
proof -
  have "pl_ready sample_plan" by (simp add: sample_plan_def)
  then show ?thesis
    by (simp add: create_branch_def run_plan run_refSha)
      (simp add: api_def prop_of_def nullish_def sample_document_data_def)
qed

lemma run_propose: "resume (propose sample_preparing repo dir (jstr ''patch'') (jstr ''1.0.0'') (JStr (sample_commit 97)) (js ''1.0.1''))
    (Api_error sample_not_found # sample_planning @ data_reply # data_reply # data_reply # data_reply # rs) =
    resume (sequence (api ''git.createRef'' (in_repo repo [(''ref'', JStr (js ''refs/heads/'' @ branch_of (js ''1.0.1''))), (''sha'', JStr (sample_commit 97))]))
      (\<lambda>_. open_pr repo (JStr (sample_commit 97)) (js ''1.0.0'') (js ''1.0.1'') sample_plan (JStr (sample_commit 97)))) rs"
  by (simp add: propose_def branchSha_def sample_not_found_def truthy_def run_create str_of_def)

lemma run_api: "resume (sequence (api name a) f) (Data v # rs) = resume (f v) rs"
  by (simp add: api_def)

lemma run_published: "resume (sequence (isPublished sample_preparing (js ''1.0.0'')) f) (Answered 200 loc bs # rs) = resume (f True) rs"
    "resume (sequence (isPublished sample_preparing version) f) (Answered 404 loc bs # rs) = resume (f False) rs"
  by (simp_all add: isPublished_def fetch_http_def sample_tool sample_metadata_def truthy_def)

lemma sample_dispatched: "resume (prepareReleasePr sample_preparing sample_event dir (jstr ''patch'')) (sample_dispatch @ rs) =
    resume (sequence (api ''git.createRef'' (in_repo (get sample_event ''repo'') [(''ref'', JStr (js ''refs/heads/'' @ branch_of (js ''1.0.1''))), (''sha'', JStr (sample_commit 97))]))
      (\<lambda>_. open_pr (get sample_event ''repo'') (JStr (sample_commit 97)) (js ''1.0.0'') (js ''1.0.1'') sample_plan (JStr (sample_commit 97)))) rs"
proof -
  have c: "get sample_event ''sha'' = JStr (sample_commit 97)" "get sample_event ''eventName'' = jstr ''workflow_dispatch''" "get sample_event ''ref'' = jstr ''refs/heads/main''"
      "\<not> nullish (get sample_event ''repo'')" "str_of (get (get sample_event ''repo'') ''owner'') @ js ''/'' @ str_of (get (get sample_event ''repo'') ''repo'') = repository"
    by (simp_all add: sample_event_def nullish_def str_of_def repository_def js_def)
  have d: "get sample_document_data ''type'' = jstr ''file''" "get sample_document_data ''encoding'' = jstr ''base64''" by (simp_all add: sample_document_data_def)
  show ?thesis
    by (simp add: prepareReleasePr_def Let_def c sample_dispatch_def run_refSha sample_tool contentAt_def run_api d)
      (simp add: sample_parsed release_manifest_def sample_bump prepare_version_def propose_new_def run_api str_of_def run_published run_propose)
qed

lemma sample_requested: "\<exists>k. resume (prepareReleasePr sample_preparing sample_event dir (jstr ''patch'')) (sample_dispatch @ [data_reply, data_reply, data_reply]) =
    Calls (Api ''pulls.create'' (pr_call (get sample_event ''repo'') (js ''1.0.0'') (js ''1.0.1'') sample_plan)) k"
  unfolding sample_dispatched by (simp add: run_api open_pr_def run_refSha) (simp add: api_def)

lemma sample_branched: "\<exists>a k. resume (prepareReleasePr sample_preparing sample_event dir (jstr ''patch'')) sample_dispatch = Calls (Api ''git.createRef'' a) k"
  using sample_dispatched [of dir "[]"] by (simp add: api_def)

end
