(* ===== verification/Prepare_Correct.thy ===== *)
theory Prepare_Correct
  imports Prepare_Runs Publish_Correct
begin

text \<open>
  What preparing a release guarantees: the plan changes the version and the changelog and nothing else,
  local files are overwritten only on the exact clean checkout, and a pull request is opened only for the
  exact plan of an unpublished version, without touching anything that exists.
\<close>

subsection \<open>Replacing the version\<close>

lemma strip_text_Some: "strip_text p s = Some r \<longleftrightarrow> s = p @ r"
  by (auto simp: strip_text_def) (metis append_take_drop_id)

lemma drop_spaces: "\<exists>a. s = a @ dropWhile P s"
  by (metis takeWhile_dropWhile_id)

lemma version_field_parts:
  assumes "version_field s = Some (prefix, rest)"
  shows "\<exists>old. s = prefix @ [34] @ old @ [34] @ rest \<and> 34 \<notin> set old"
proof -
  obtain s1 s2 s3 q where p: "dropWhile space_unit s = ([34] @ js ''version'' @ [34]) @ s1" "dropWhile space_unit s1 = [58] @ s2"
      "dropWhile space_unit s2 = [34] @ s3" "dropWhile (\<lambda>u. u \<noteq> 34) s3 = q # rest" "prefix = take (length s - length s3 - 1) s"
    using assms by (auto simp: version_field_def strip_text_Some split: bind_splits list.splits)
  obtain a1 a2 a3 where a: "s = a1 @ ([34] @ js ''version'' @ [34]) @ s1" "s1 = a2 @ [58] @ s2" "s2 = a3 @ [34] @ s3"
    using drop_spaces [of s space_unit] drop_spaces [of s1 space_unit] drop_spaces [of s2 space_unit] p(1-3) by metis
  then obtain a where s: "s = a @ [34] @ s3" by (metis append.assoc)
  have q: "q = 34" using p(4) by (metis (mono_tags, lifting) dropWhile_eq_Cons_conv)
  have "s3 = takeWhile (\<lambda>u. u \<noteq> 34) s3 @ [34] @ rest" using p(4) q by (metis append_Cons append_Nil takeWhile_dropWhile_id)
  moreover have "34 \<notin> set (takeWhile (\<lambda>u. u \<noteq> 34) s3)" by (auto dest: set_takeWhileD)
  moreover have "prefix = a" using p(5) s by simp
  ultimately show ?thesis using s by (intro exI [of _ "takeWhile (\<lambda>u. u \<noteq> 34) s3"]) (metis append.assoc)
qed

lemma replace_version_parts: "replace_version b v s = s \<or>
    (\<exists>prefix old rest. s = prefix @ [34] @ old @ [34] @ rest \<and> 34 \<notin> set old \<and> replace_version b v s = prefix @ [34] @ v @ [34] @ rest)"
proof (induction b v s rule: replace_version.induct)
  case (2 start v u s)
  show ?case
  proof (cases "if start then version_field (u # s) else None")
    case None
    with 2 have "replace_version (line_end u) v s = s \<or> (\<exists>prefix old rest. s = prefix @ [34] @ old @ [34] @ rest \<and> 34 \<notin> set old \<and>
        replace_version (line_end u) v s = prefix @ [34] @ v @ [34] @ rest)" by blast
    then show ?thesis using None by (simp del: append_Cons) (metis append_Cons)
  next
    case (Some m)
    obtain prefix rest where m: "m = (prefix, rest)" by (cases m)
    then have "version_field (u # s) = Some (prefix, rest)" using Some by (simp split: if_splits)
    from version_field_parts [OF this] Some m show ?thesis by (simp del: append_Cons) (metis append_Cons)
  qed
qed simp

subsection \<open>The plan\<close>

definition git_said :: "(world_call \<times> world_reply) list \<Rightarrow> jsval \<Rightarrow> jsstr list \<Rightarrow> jsstr \<Rightarrow> bool" where
  "git_said tr dir args out \<longleftrightarrow> (Run_git dir args, Printed out) \<in> set tr"

lemma deep_equal_prop:
  assumes "deep_equal v (JObj (set_prop (spread_object v) (js k) (JStr new)))" and "get v k = JStr old"
  shows "old = new"
proof -
  obtain ps where v: "v = JObj ps" and ps: "map_of ps (js k) = Some (JStr old)" using assms(2) by (cases v) (auto split: option.splits)
  have "map_of (set_prop ps (js k) (JStr new)) (js k) = Some (JStr new)" by (induction ps) auto
  then show ?thesis using assms(1) map_of_SomeD [OF ps] by (auto simp: v deep_equal.simps list_all_iff split: option.splits)
qed

definition planned_files :: "tools \<Rightarrow> jsval \<Rightarrow> (world_call \<times> world_reply) list \<Rightarrow> jsstr \<Rightarrow> jsval \<Rightarrow> plan \<Rightarrow> bool" where
  "planned_files t dir tr manifestText manifest p \<longleftrightarrow> (\<exists>prefix old rest new before after notes.
     manifestText = prefix @ [34] @ old @ [34] @ rest \<and> 34 \<notin> set old \<and>
     json_text t (prefix @ [34] @ pl_version p @ [34] @ rest) = Some new \<and>
     deep_equal new (JObj (set_prop (spread_object manifest) (js ''version'') (JStr (pl_version p)))) \<and>
     git_said tr dir [js ''show'', pl_sourceSha p @ js '':'' @ changelogPath] (before @ after) \<and>
     index_of (heading (pl_version p)) (before @ after) = None \<and> pl_notes p = heading (pl_version p) @ notes \<and>
     pl_files p = [(manifestPath, prefix @ [34] @ pl_version p @ [34] @ rest), (changelogPath, before @ [10] @ pl_notes p @ after)])"

lemma git_said_mono: "git_said l dir args out \<Longrightarrow> set l \<subseteq> set tr \<Longrightarrow> git_said tr dir args out"
  by (auto simp: git_said_def)

lemma planned_files_mono: "planned_files t dir l manifestText manifest p \<Longrightarrow> set l \<subseteq> set tr \<Longrightarrow> planned_files t dir tr manifestText manifest p"
  unfolding planned_files_def using git_said_mono by blast

lemma plan_changes_files:
  assumes e: "ends (plan_changes t dir manifestText manifest previousSha p0) tr p" and m: "json_text t manifestText = Some manifest"
    and v: "get manifest ''version'' = JStr old" "old \<noteq> pl_version p0"
  shows "planned_files t dir tr manifestText manifest p \<and> pl_ready p \<and> pl_version p = pl_version p0 \<and> pl_sourceSha p = pl_sourceSha p0 \<and>
    pl_previousVersion p = pl_previousVersion p0 \<and> pl_previousTag p = pl_previousTag p0 \<and> pl_branch p = pl_branch p0"
proof -
  let ?next = "replace_version True (pl_version p0) manifestText"
  obtain entries changelogText k new where r: "git_said tr dir [js ''show'', pl_sourceSha p0 @ js '':'' @ changelogPath] changelogText"
      "changelog_ok changelogText (pl_previousVersion p0) (pl_version p0)" "json_text t ?next = Some new"
      "deep_equal new (JObj (set_prop (spread_object manifest) (js ''version'') (JStr (pl_version p0))))"
      "p = p0\<lparr>pl_ready := True, pl_notes := release_notes (pl_version p0) (pl_previousTag p0) (pl_sourceSha p0) entries,
         pl_sourceComparison := repositoryUrl @ js ''/compare/'' @ pl_previousTag p0 @ js ''...'' @ pl_sourceSha p0,
         pl_files := [(manifestPath, ?next), (changelogPath, new_changelog changelogText k (release_notes (pl_version p0) (pl_previousTag p0) (pl_sourceSha p0) entries))]\<rparr>"
    using e unfolding plan_changes_def Let_def git_said_def by (auto elim!: sequenceE)
  have "?next \<noteq> manifestText" using r(3,4) m v deep_equal_prop by auto
  then obtain prefix o' rest where n: "manifestText = prefix @ [34] @ o' @ [34] @ rest" "34 \<notin> set o'" "?next = prefix @ [34] @ pl_version p0 @ [34] @ rest"
    using replace_version_parts [of True "pl_version p0" manifestText] by blast
  have "planned_files t dir tr manifestText manifest p"
    unfolding planned_files_def
    by (rule exI [of _ prefix], rule exI [of _ o'], rule exI [of _ rest], rule exI [of _ new], rule exI [of _ "take k changelogText"], rule exI [of _ "drop k changelogText"])
      (use n r in \<open>simp add: changelog_ok_def new_changelog_def release_notes_def\<close>)
  with r(5) show ?thesis by simp
qed

lemma plan_version_cases:
  assumes "ends (plan_version t dir sha manifestText manifest version) l p"
  shows "\<exists>previousSha l'. set l' \<subseteq> set l \<and> (p = unchanged_plan (str_of (get manifest ''version'')) version sha \<or>
    ends (plan_changes t dir manifestText manifest previousSha (unchanged_plan (str_of (get manifest ''version'')) version sha)) l' p)"
proof -
  let ?p0 = "unchanged_plan (str_of (get manifest ''version'')) version sha"
  consider "p = ?p0" | c1 c2 c3 c4 previousSha l' where "l = c1 # c2 # c3 # c4 # l'" "ends (plan_changes t dir manifestText manifest previousSha ?p0) l' p"
    using assms unfolding plan_version_def Let_def by (fastforce elim!: sequenceE split: if_splits)
  then show ?thesis
  proof cases
    case 1
    then show ?thesis by (intro exI [of _ "[]"] exI [of _ undefined]) simp
  next
    case 2
    then show ?thesis by (intro exI [of _ previousSha] exI [of _ l']) auto
  qed
qed

text \<open>
  C18: The plan of a release. The plan that \<open>planRelease\<close> returns is for the given commit and moves the expected version, which is
  the one in the commit's manifest, to the requested successor. It is empty, or it changes two files: in the text of the manifest
  one quoted string is replaced by the new version, so that its value differs in the version only, and the notes with the heading of the new
  version, which was not there, are inserted into the changelog, of which nothing else changes.
\<close>

theorem planRelease_exact:
  assumes "ends (planRelease t dir bump expected sha) tr p"
  shows "\<exists>manifestText manifest. sha = JStr (pl_sourceSha p) \<and> expected = JStr (pl_previousVersion p) \<and> bumpVersion expected bump = Some (pl_version p) \<and>
    git_said tr dir [js ''show'', pl_sourceSha p @ js '':'' @ manifestPath] manifestText \<and> json_text t manifestText = Some manifest \<and>
    release_manifest manifest \<and> get manifest ''version'' = expected \<and>
    pl_previousTag p = tag_of (pl_previousVersion p) \<and> pl_branch p = branch_of (pl_version p) \<and>
    (if pl_ready p then planned_files t dir tr manifestText manifest p else pl_files p = [])"
proof -
  obtain manifestText manifest version c l1 where m: "hex40 sha" "tr = c # (Run_git dir [js ''show'', str_of sha @ js '':'' @ manifestPath], Printed manifestText) # l1"
      "json_text t manifestText = Some manifest" "release_manifest manifest" "get manifest ''version'' = expected" "bumpVersion expected bump = Some version"
      "ends (plan_version t dir (str_of sha) manifestText manifest version) l1 p"
    using assms unfolding planRelease_def Let_def by (auto elim!: sequenceE)
  obtain old where old: "expected = JStr old" "old \<noteq> version" using bump_string [OF m(6)] bump_differs m(6) by blast
  have sha: "sha = JStr (str_of sha)" using m(1) by (cases sha) (auto simp: hex40_def str_test_def str_of_def)
  let ?p0 = "unchanged_plan old version (str_of sha)"
  from plan_version_cases [OF m(7)] obtain previousSha l3 where l: "set l3 \<subseteq> set l1" and c: "p = ?p0 \<or> ends (plan_changes t dir manifestText manifest previousSha ?p0) l3 p"
    using m(5) old(1) by (auto simp: str_of_def)
  from c show ?thesis
  proof
    assume "p = ?p0"
    with m old sha show ?thesis by (auto simp: unchanged_plan_def git_said_def)
  next
    assume e: "ends (plan_changes t dir manifestText manifest previousSha ?p0) l3 p"
    have mv: "get manifest ''version'' = JStr old" "old \<noteq> pl_version ?p0" using m(5) old by (simp_all add: unchanged_plan_def)
    note f = plan_changes_files [OF e m(3) mv]
    have "planned_files t dir tr manifestText manifest p" by (rule planned_files_mono [of _ _ l3]) (use f m(2) l in auto)
    with f m old sha show ?thesis by (auto simp: unchanged_plan_def git_said_def)
  qed
qed

theorem planRelease_exact_witness: "\<exists>tr manifestText manifest. ends (planRelease sample_preparing JUndef (jstr ''patch'') (jstr ''1.0.0'') (JStr (sample_commit 97))) tr sample_plan \<and>
    json_text sample_preparing manifestText = Some manifest \<and> planned_files sample_preparing JUndef tr manifestText manifest sample_plan"
proof -
  obtain tr where e: "ends (planRelease sample_preparing JUndef (jstr ''patch'') (jstr ''1.0.0'') (JStr (sample_commit 97))) tr sample_plan"
    using resume_ends [OF sample_planned] by blast
  have "pl_ready sample_plan" by (simp add: sample_plan_def)
  with planRelease_exact [OF e] e show ?thesis by auto
qed

subsection \<open>Writing the files\<close>

lemma reaches_reply:
  "\<not> reaches (case r of Printed s \<Rightarrow> Done s | _ \<Rightarrow> Fails) tr c"
  "\<not> reaches (case r of Acknowledged \<Rightarrow> Done () | _ \<Rightarrow> Fails) tr c"
  by (cases r; simp)+

definition writes :: "world_call \<Rightarrow> bool" where
  "writes c \<longleftrightarrow> (\<exists>path content. c = Write_file path content)"

interpretation unwritten: reading "\<lambda>c. \<not> writes c"
  by unfold_locales (simp_all add: writes_def)

lemma unwritten_git: "\<not> writes (Run_git dir args)"
  by (simp add: writes_def)

lemma unwritten_run: "only (\<lambda>c. \<not> writes c) (run_git dir args)" "only (\<lambda>c. \<not> writes c) (unchanged_file path_in dir p file)"
  by (auto simp: unchanged_file_def run_git_def unwritten_git unwritten.only_reply intro!: only_sequence unwritten.only_read)

lemma unchanged_file_reads: "ends (unchanged_file path_in dir p file) l u \<Longrightarrow>
    \<exists>text. (Read_text (path_in (fst file)), Printed text) \<in> set l \<and> git_said l dir [js ''show'', pl_sourceSha p @ js '':'' @ fst file] text"
  by (auto simp: unchanged_file_def git_said_def elim!: sequenceE)

text \<open>
  C21: \<open>writeRelease\<close> overwrites a file only on the exact checkout: \<open>HEAD\<close> is the commit of the plan, the working
  tree is clean, and every file of the plan, also one that is written later, was read and found as it is in that
  commit before the first write. What is written is a file of the plan with its planned content.
\<close>

theorem writeRelease_guarded:
  assumes "reaches (writeRelease path_in dir p) tr (Write_file path content)"
  shows "pl_ready p \<and> (\<exists>out. git_said tr dir [js ''rev-parse'', js ''HEAD''] out \<and> js_trim out = pl_sourceSha p) \<and>
    (\<exists>out. git_said tr dir [js ''status'', js ''--porcelain'', js ''--untracked-files=normal''] out \<and> js_trim out = []) \<and>
    (\<forall>file \<in> set (pl_files p). \<exists>text. (Read_text (path_in (fst file)), Printed text) \<in> set tr \<and> git_said tr dir [js ''show'', pl_sourceSha p @ js '':'' @ fst file] text) \<and>
    (\<exists>file \<in> set (pl_files p). path = path_in (fst file) \<and> content = Text_content (snd file))"
proof -
  have w: "writes (Write_file path content)" by (simp add: writes_def)
  have ready: "pl_ready p" using assms by (auto simp: writeRelease_def split: if_splits)
  from assms ready obtain out dirty l2 where a: "set l2 \<subseteq> set tr" "git_said tr dir [js ''rev-parse'', js ''HEAD''] out" "js_trim out = pl_sourceSha p"
      "git_said tr dir [js ''status'', js ''--porcelain'', js ''--untracked-files=normal''] dirty" "js_trim dirty = []"
      "reaches (sequence (each (unchanged_file path_in dir p) (pl_files p)) (\<lambda>_. each (\<lambda>file. act (Write_file (path_in (fst file)) (Text_content (snd file)))) (pl_files p)))
         l2 (Write_file path content)"
    unfolding writeRelease_def by (simp, elim reaches_pastE [OF _ unwritten_run(1) w]) (fastforce simp: git_said_def elim!: reaches_pastE [OF _ unwritten_run(1) w])
  from a(6) only_each [OF unwritten_run(2)] obtain l3 l4 where b: "l2 = l3 @ l4" "ends (each (unchanged_file path_in dir p) (pl_files p)) l3 ()"
      "reaches (each (\<lambda>file. act (Write_file (path_in (fst file)) (Text_content (snd file)))) (pl_files p)) l4 (Write_file path content)"
    by (rule reaches_pastE [where Q = writes, OF _ _ w]) auto
  have "\<exists>text. (Read_text (path_in (fst f)), Printed text) \<in> set tr \<and> git_said tr dir [js ''show'', pl_sourceSha p @ js '':'' @ fst f] text"
    if f: "f \<in> set (pl_files p)" for f
  proof -
    obtain l u where l: "ends (unchanged_file path_in dir p f) l u" "set l \<subseteq> set l3" using ends_each [OF b(2) f] by blast
    have "set l \<subseteq> set tr" using l(2) b(1) a(1) by auto
    with unchanged_file_reads [OF l(1)] git_said_mono show ?thesis by blast
  qed
  moreover have "\<exists>file \<in> set (pl_files p). path = path_in (fst file) \<and> content = Text_content (snd file)"
    using reaches_each [OF b(3)] by (auto simp: act_def reaches_reply)
  ultimately show ?thesis using ready a(2-5) by blast
qed

theorem writeRelease_guarded_witness: "\<exists>tr out. reaches (writeRelease (\<lambda>path. path) JUndef sample_plan) tr (Write_file manifestPath (Text_content (sample_line (js ''1.0.1'')))) \<and>
    git_said tr JUndef [js ''status'', js ''--porcelain'', js ''--untracked-files=normal''] out \<and> js_trim out = []"
proof -
  obtain tr where r: "reaches (writeRelease (\<lambda>path. path) JUndef sample_plan) tr (Write_file manifestPath (Text_content (sample_line (js ''1.0.1''))))"
    using sample_writing [of "\<lambda>path. path" JUndef] resume_reaches by metis
  from writeRelease_guarded [OF r] r show ?thesis by blast
qed

end
