(* ===== verification/Propose_Correct.thy ===== *)
theory Propose_Correct
  imports Prepare_Correct "HOL-Library.Multiset"
begin

text \<open>
  What \<open>prepare-release-pr.mjs\<close> guarantees, whatever the GitHub client and the registry answer: it only
  creates, and the pull request it opens is the exact plan for a version that is not published.
\<close>

subsection \<open>Operations that only read\<close>

definition api_reads :: "string set" where
  "api_reads = {''git.getRef'', ''repos.getContent'', ''paginate pulls.list'', ''git.getCommit'', ''git.getTree'', ''repos.compareCommitsWithBasehead''}"

definition git_reads :: "jsstr set" where
  "git_reads = js ` {''rev-parse'', ''show'', ''merge-base'', ''diff'', ''log''}"

locale proposing = reading +
  assumes P_git: "cmd \<in> git_reads \<Longrightarrow> P (Run_git dir (cmd # args))"
    and P_api: "name \<in> api_reads \<Longrightarrow> P (Api name a)"
    and P_announce: "P (Announce message address)"
begin

lemma only_run: "cmd \<in> git_reads \<Longrightarrow> only P (run_git dir (cmd # args))"
  by (simp add: run_git_def only_reply P_git)

lemma only_api: "P (Api name a) \<Longrightarrow> only P (api name a)"
proof -
  have "only P (case r of Data v \<Rightarrow> Done v | _ \<Rightarrow> (Fails :: jsval program))" for r by (cases r) simp_all
  then show "P (Api name a) \<Longrightarrow> ?thesis" by (simp add: api_def)
qed

lemma only_api_read: "name \<in> api_reads \<Longrightarrow> only P (api name a)"
  by (simp add: only_api P_api)

lemma only_planRelease: "only P (planRelease t dir bump expected sha)"
  by (auto simp: planRelease_def plan_version_def plan_changes_def Let_def git_reads_def intro!: only_sequence only_run)

lemma only_object_sha: "only P (object_sha d)"
  by (auto simp: object_sha_def intro!: only_sequence only_prop)

lemma only_refSha: "only P (refSha repo ref)" "only P (mainSha repo)"
  by (auto simp: refSha_def mainSha_def api_reads_def intro!: only_sequence only_api_read only_object_sha)

lemma only_branchSha: "only P (branchSha repo branch)"
proof -
  have "only P (case r of Data d \<Rightarrow> object_sha d | Api_error e \<Rightarrow> require (get e ''status'' = jint 404) (Done JUndef) | _ \<Rightarrow> Fails)" for r
    by (cases r) (simp_all add: only_object_sha)
  then show ?thesis by (simp add: branchSha_def P_api api_reads_def)
qed

lemma only_contentAt: "only P (contentAt t repo path ref)"
  by (auto simp: contentAt_def api_reads_def intro!: only_sequence only_api_read)

lemma only_isPublished: "only P (isPublished t version)"
  by (auto simp: isPublished_def fetch_http_def only_reply published_call_def split_def intro!: only_sequence P_get)

lemma only_announce: "only P (announce message address)"
  by (simp add: announce_def only_act P_announce)

lemma only_resume: "only P (resume_branch t repo dir bump expected sourceSha sha)"
proof -
  have "only P (planned_file t repo s entries f)" for s entries f
    by (auto simp: planned_file_def intro!: only_sequence only_contentAt)
  moreover have "only P (only_parent commit)" for commit by (auto simp: only_parent_def only_prop split: jsval.split list.split)
  ultimately show ?thesis
    by (auto simp: resume_branch_def compare_commits_def api_reads_def split: jsval.split
        intro!: only_sequence only_api_read only_planRelease only_prop only_each)
qed

lemma only_create:
  assumes "\<And>a. P (Api ''git.createTree'' a)" and "\<And>a. P (Api ''git.createCommit'' a)" 
    and "\<And>sha. P (Api ''git.createRef'' (in_repo repo [(''ref'', JStr (js ''refs/heads/'' @ branch_of version)), (''sha'', sha)]))"
  shows "only P (create_branch t repo dir bump expected sourceSha version)"
  using assms by (auto simp: create_branch_def P_api api_reads_def intro!: only_sequence only_planRelease only_refSha only_prop only_announce only_api)

end

definition opens :: "world_call \<Rightarrow> bool" where
  "opens c \<longleftrightarrow> (\<exists>a. c = Api ''pulls.create'' a)"

definition proposes :: "world_call \<Rightarrow> bool" where
  "proposes c = (case c of
     Run_git dir args \<Rightarrow> args \<noteq> [] \<and> hd args \<in> git_reads
   | Fetch_http h \<Rightarrow> h_method h = js ''GET''
   | Api name a \<Rightarrow> name \<in> api_reads \<union> {''git.createTree'', ''git.createCommit'', ''git.createRef'', ''pulls.create''}
   | Run_npm args sha \<Rightarrow> False
   | Write_file path content \<Rightarrow> False
   | Append_outputs values \<Rightarrow> False
   | Make_directory \<Rightarrow> False
   | _ \<Rightarrow> True)"

interpretation quiet: proposing "\<lambda>c. \<not> opens c"
  by unfold_locales (auto simp: opens_def api_reads_def)

definition makes_ref :: "world_call \<Rightarrow> bool" where
  "makes_ref c \<longleftrightarrow> (\<exists>a. c = Api ''git.createRef'' a)"

interpretation unmade: proposing "\<lambda>c. \<not> makes_ref c"
  by unfold_locales (auto simp: makes_ref_def api_reads_def)

interpretation proposed: proposing proposes
  by unfold_locales (simp_all add: proposes_def)

subsection \<open>What was answered\<close>

lemma ends_data: "ends (case r of Data v \<Rightarrow> Done v | _ \<Rightarrow> Fails) l w \<longleftrightarrow> l = [] \<and> r = Data w"
  by (cases r) auto

lemma ends_api [simp]: "ends (api name a) l v \<longleftrightarrow> l = [(Api name a, Data v)]"
  by (auto simp: api_def ends_data)

lemma ends_object_sha [simp]: "ends (object_sha d) l v \<longleftrightarrow> l = [] \<and> \<not> nullish d \<and> \<not> nullish (get d ''object'') \<and> v = get (get d ''object'') ''sha''"
  by (auto simp: object_sha_def ends_sequence)

text \<open>One lookup of a reference, and that it gave this commit.\<close>

definition ref_is :: "jsval \<Rightarrow> jsstr \<Rightarrow> jsval \<Rightarrow> world_call \<times> world_reply \<Rightarrow> bool" where
  "ref_is repo ref sha x \<longleftrightarrow> (\<exists>d. x = (Api ''git.getRef'' (in_repo repo [(''ref'', JStr ref)]), Data d) \<and> get (get d ''object'') ''sha'' = sha)"

text \<open>A part of a run, without anything between its calls.\<close>

definition run_part :: "'a list \<Rightarrow> 'a list \<Rightarrow> bool" where
  "run_part l tr \<longleftrightarrow> (\<exists>a b. tr = a @ l @ b)"

lemma run_part_of: "run_part l (a @ l @ b)" "run_part l (l @ b)" "run_part l (a @ l)"
  unfolding run_part_def by (metis append_assoc, metis append_Nil, metis append_Nil2)

lemma run_part_after: "run_part l (x # y # l @ b)"
  unfolding run_part_def by (rule exI [of _ "[x, y]"]) simp

lemma run_part_trans: "run_part l m \<Longrightarrow> run_part m tr \<Longrightarrow> run_part l tr"
  unfolding run_part_def by (metis append_assoc)

lemma run_part_set: "run_part l tr \<Longrightarrow> set l \<subseteq> set tr"
  by (auto simp: run_part_def)

definition content_at :: "tools \<Rightarrow> (world_call \<times> world_reply) list \<Rightarrow> jsval \<Rightarrow> jsstr \<Rightarrow> jsval \<Rightarrow> jsstr \<Rightarrow> bool" where
  "content_at t tr repo path ref s \<longleftrightarrow> (\<exists>d. (Api ''repos.getContent'' (in_repo repo [(''path'', JStr path), (''ref'', ref)]), Data d) \<in> set tr \<and>
     get d ''type'' = jstr ''file'' \<and> get d ''encoding'' = jstr ''base64'' \<and> base64_text t (get d ''content'') = Some s)"

definition said_published :: "tools \<Rightarrow> (world_call \<times> world_reply) list \<Rightarrow> jsstr \<Rightarrow> bool" where
  "said_published t tr version \<longleftrightarrow> (\<exists>loc bytes v. (Fetch_http (published_call version), Answered 200 loc bytes) \<in> set tr \<and> json_body t bytes = Some v \<and>
     get v ''name'' = JStr packageName \<and> get v ''version'' = JStr version)"

definition said_unknown :: "(world_call \<times> world_reply) list \<Rightarrow> jsstr \<Rightarrow> bool" where
  "said_unknown tr version \<longleftrightarrow> (\<exists>loc bytes. (Fetch_http (published_call version), Answered 404 loc bytes) \<in> set tr)"

lemma ends_refSha:
  "ends (refSha repo ref) l sha \<Longrightarrow> \<exists>d. l = [(Api ''git.getRef'' (in_repo repo [(''ref'', JStr ref)]), Data d)] \<and> get (get d ''object'') ''sha'' = sha"
  "ends (mainSha repo) l sha \<Longrightarrow> \<exists>d. l = [(Api ''git.getRef'' (in_repo repo [(''ref'', jstr ''heads/main'')]), Data d)] \<and> get (get d ''object'') ''sha'' = sha"
  by (auto simp: refSha_def mainSha_def elim!: sequenceE)

lemma ends_contentAt: "ends (contentAt t repo path ref) l s \<Longrightarrow> content_at t l repo path ref s"
  by (auto simp: contentAt_def content_at_def elim!: sequenceE)

lemma ends_isPublished: "ends (isPublished t version) l b \<Longrightarrow> if b then said_published t l version else said_unknown l version"
  by (auto simp: isPublished_def said_published_def said_unknown_def elim!: sequenceE split: if_splits)

lemma said_mono:
  assumes "set l \<subseteq> set tr"
  shows "content_at t l repo path r s \<Longrightarrow> content_at t tr repo path r s"
    "said_published t l version \<Longrightarrow> said_published t tr version" "said_unknown l version \<Longrightarrow> said_unknown tr version"
  using assms unfolding content_at_def said_published_def said_unknown_def by blast+

text \<open>The plan was computed in this run; the branch was made from it or found to be exactly it.\<close>

definition planned :: "tools \<Rightarrow> (world_call \<times> world_reply) list \<Rightarrow> jsval \<Rightarrow> jsval \<Rightarrow> jsval \<Rightarrow> jsval \<Rightarrow> plan \<Rightarrow> bool" where
  "planned t tr dir bump expected sha p \<longleftrightarrow> pl_ready p \<and> (\<exists>l. run_part l tr \<and> ends (planRelease t dir bump expected sha) l p)"

text \<open>A new branch: main was looked up again, and then, call after call, the commit of the plan on it was made.\<close>

definition branch_made :: "(world_call \<times> world_reply) list \<Rightarrow> jsval \<Rightarrow> jsval \<Rightarrow> jsstr \<Rightarrow> plan \<Rightarrow> jsval \<Rightarrow> bool" where
  "branch_made tr repo sourceSha version p sha \<longleftrightarrow> (\<exists>m b d commit made. ref_is repo (js ''heads/main'') sourceSha m \<and> sha = get commit ''sha'' \<and>
     run_part [m, (Api ''git.getCommit'' (in_repo repo [(''commit_sha'', sourceSha)]), Data b),
       (Api ''git.createTree'' (in_repo repo [(''base_tree'', get (get b ''tree'') ''sha''), (''tree'', tree_entries p)]), Data d),
       (Api ''git.createCommit'' (in_repo repo [(''message'', JStr (js ''chore(sdk): release v'' @ version)), (''tree'', get d ''sha''), (''parents'', JArr [sourceSha])]), Data commit),
       (Api ''git.createRef'' (in_repo repo [(''ref'', JStr (js ''refs/heads/'' @ branch_of version)), (''sha'', sha)]), Data made)] tr)"

text \<open>
  A branch of an earlier run: one commit, on a parent that GitHub places on main, which changes the
  files of the plan and no others, each of them a regular file of the complete tree with the planned
  content.
\<close>

definition branch_found :: "tools \<Rightarrow> (world_call \<times> world_reply) list \<Rightarrow> jsval \<Rightarrow> jsval \<Rightarrow> plan \<Rightarrow> jsval \<Rightarrow> jsval \<Rightarrow> bool" where
  "branch_found t tr repo sourceSha p parentSha sha \<longleftrightarrow> (\<exists>commit parent ancestry changes names tree entries.
     (Api ''git.getCommit'' (in_repo repo [(''commit_sha'', sha)]), Data commit) \<in> set tr \<and> get commit ''parents'' = JArr [parent] \<and> parentSha = get parent ''sha'' \<and>
     (Api ''repos.compareCommitsWithBasehead'' (in_repo repo [(''basehead'', JStr (as_text t parentSha @ js ''...'' @ as_text t sourceSha))]), Data ancestry) \<in> set tr \<and>
     get ancestry ''status'' \<in> {jstr ''ahead'', jstr ''identical''} \<and>
     (Api ''repos.compareCommitsWithBasehead'' (in_repo repo [(''basehead'', JStr (as_text t parentSha @ js ''...'' @ as_text t sha))]), Data changes) \<in> set tr \<and>
     changed_files changes = Some names \<and> mset names = mset (map fst (pl_files p)) \<and>
     (Api ''git.getTree'' (in_repo repo [(''tree_sha'', get (get commit ''tree'') ''sha''), (''recursive'', jstr ''true'')]), Data tree) \<in> set tr \<and>
     get tree ''truncated'' = JBool False \<and> get tree ''tree'' = JArr entries \<and>
     (\<forall>(path, content) \<in> set (pl_files p). content_at t tr repo path sha content \<and>
       (\<exists>entry \<in> set entries. get entry ''path'' = JStr path \<and> get entry ''type'' = jstr ''blob'' \<and> get entry ''mode'' = jstr ''100644'')))"

lemma create_branch_ends:
  assumes "ends (create_branch t repo dir bump expected sourceSha version) tr (Some (p, sha))"
  shows "planned t tr dir bump expected sourceSha p \<and> branch_made tr repo sourceSha version p sha"
proof -
  obtain l l' b d commit made where l: "tr = l @ l' @ [(Api ''git.getCommit'' (in_repo repo [(''commit_sha'', sourceSha)]), Data b),
      (Api ''git.createTree'' (in_repo repo [(''base_tree'', get (get b ''tree'') ''sha''), (''tree'', tree_entries p)]), Data d),
      (Api ''git.createCommit'' (in_repo repo [(''message'', JStr (js ''chore(sdk): release v'' @ version)), (''tree'', get d ''sha''), (''parents'', JArr [sourceSha])]), Data commit),
      (Api ''git.createRef'' (in_repo repo [(''ref'', JStr (js ''refs/heads/'' @ branch_of version)), (''sha'', sha)]), Data made)]"
      "ends (planRelease t dir bump expected sourceSha) l p" "pl_ready p" "sha = get commit ''sha''" "ends (mainSha repo) l' sourceSha"
    using assms unfolding create_branch_def by (auto elim!: sequenceE split: if_splits)
  from ends_refSha(2) [OF l(5)] obtain m where m: "l' = [m]" "ref_is repo (js ''heads/main'') sourceSha m" by (auto simp: ref_is_def)
  have "branch_made tr repo sourceSha version p sha"
    unfolding branch_made_def
    by (rule exI [of _ m], rule exI [of _ b], rule exI [of _ d], rule exI [of _ commit], rule exI [of _ made])
      (simp add: m(2) l(4), simp add: l(1,4) m(1) run_part_def, rule exI [of _ l], simp)
  moreover have "run_part l tr" using l(1) by (auto simp: run_part_def)
  ultimately show ?thesis using l(2,3) unfolding planned_def by blast
qed

lemma ends_only_parent: "ends (only_parent commit) l v \<Longrightarrow> l = [] \<and> (\<exists>q. get commit ''parents'' = JArr [q] \<and> v = get q ''sha'')"
  by (auto simp: only_parent_def split: jsval.splits list.splits)

lemma find_entry_member: "find_entry path entries = Some e \<Longrightarrow> get e ''type'' = jstr ''blob'' \<Longrightarrow> e \<in> set entries \<and> get e ''path'' = JStr path"
  by (induction entries) (auto split: if_splits)

lemma ends_planned_file:
  assumes "ends (planned_file t repo sha entries f) l u"
  shows "content_at t l repo (fst f) sha (snd f) \<and>
    (\<exists>entry \<in> set entries. get entry ''path'' = JStr (fst f) \<and> get entry ''type'' = jstr ''blob'' \<and> get entry ''mode'' = jstr ''100644'')"
proof -
  obtain e where "find_entry (fst f) entries = Some e" "get e ''type'' = jstr ''blob''" "get e ''mode'' = jstr ''100644''" "content_at t l repo (fst f) sha (snd f)"
    using assms by (auto simp: planned_file_def elim!: sequenceE dest: ends_contentAt)
  with find_entry_member show ?thesis by blast
qed

lemma resume_branch_ends:
  assumes "ends (resume_branch t repo dir bump expected sourceSha sha) tr p"
  shows "\<exists>parentSha. planned t tr dir bump expected parentSha p \<and> branch_found t tr repo sourceSha p parentSha sha"
proof -
  obtain commit q ancestry l changes names tree l' entries where l: "tr = (Api ''git.getCommit'' (in_repo repo [(''commit_sha'', sha)]), Data commit) #
      (Api ''repos.compareCommitsWithBasehead'' (in_repo repo [(''basehead'', JStr (as_text t (get q ''sha'') @ js ''...'' @ as_text t sourceSha))]), Data ancestry) # l @
      (Api ''repos.compareCommitsWithBasehead'' (in_repo repo [(''basehead'', JStr (as_text t (get q ''sha'') @ js ''...'' @ as_text t sha))]), Data changes) #
      (Api ''git.getTree'' (in_repo repo [(''tree_sha'', get (get commit ''tree'') ''sha''), (''recursive'', jstr ''true'')]), Data tree) # l'"
      and r: "get commit ''parents'' = JArr [q]" "ends (planRelease t dir bump expected (get q ''sha'')) l p" "pl_ready p" "changed_files changes = Some names"
      "sort names = sort (map fst (pl_files p))" "ends (each (planned_file t repo sha entries) (pl_files p)) l' ()"
      "get ancestry ''status'' \<in> {jstr ''ahead'', jstr ''identical''}" "get tree ''truncated'' = JBool False" "get tree ''tree'' = JArr entries"
    using assms unfolding resume_branch_def compare_commits_def
    by (auto elim!: sequenceE dest!: ends_only_parent split: jsval.splits)
  have l': "set l' \<subseteq> set tr" using l by auto
  have "content_at t tr repo path sha content \<and>
      (\<exists>entry \<in> set entries. get entry ''path'' = JStr path \<and> get entry ''type'' = jstr ''blob'' \<and> get entry ''mode'' = jstr ''100644'')"
    if f: "(path, content) \<in> set (pl_files p)" for path content
  proof -
    obtain k u where k: "ends (planned_file t repo sha entries (path, content)) k u" "set k \<subseteq> set l'" using ends_each [OF r(6) f] by blast
    with ends_planned_file [OF k(1)] l' said_mono(1) [of k tr] show ?thesis by auto
  qed
  then have regular: "\<forall>(path, content) \<in> set (pl_files p). content_at t tr repo path sha content \<and>
      (\<exists>entry \<in> set entries. get entry ''path'' = JStr path \<and> get entry ''type'' = jstr ''blob'' \<and> get entry ''mode'' = jstr ''100644'')" by blast
  have names: "mset names = mset (map fst (pl_files p))" using r(5) by (metis mset_sort)
  have "branch_found t tr repo sourceSha p (get q ''sha'') sha"
    unfolding branch_found_def
    by (rule exI [of _ commit], rule exI [of _ q], rule exI [of _ ancestry], rule exI [of _ changes], rule exI [of _ names], rule exI [of _ tree], rule exI [of _ entries],
        intro conjI) (rule r(1,4,7-9) refl regular names | simp add: l)+
  moreover have "run_part l tr" unfolding l by (rule run_part_after)
  then have "planned t tr dir bump expected (get q ''sha'') p" unfolding planned_def using r(2,3) by blast
  ultimately show ?thesis by blast
qed

subsection \<open>The pull request\<close>

lemma opens_api: "opens (Api name a) \<longleftrightarrow> name = ''pulls.create''"
  by (simp add: opens_def)

lemma create_quiet: "only (\<lambda>c. \<not> opens c) (create_branch t repo dir bump expected sourceSha version)"
  by (rule quiet.only_create) (simp_all add: opens_api)


lemmas past = reaches_pastE [where Q = opens]

lemma reaches_api: "reaches (api name a) l c \<longleftrightarrow> l = [] \<and> c = Api name a"
proof -
  have "\<not> reaches (case r of Data v \<Rightarrow> Done v | _ \<Rightarrow> (Fails :: jsval program)) l' c" for r l' by (cases r) simp_all
  then show ?thesis by (auto simp: api_def)
qed

lemma open_pr_reaches:
  assumes "reaches (open_pr repo sourceSha previous version p sha) tr c" and c: "opens c"
  shows "\<exists>m b. tr = [m, b] \<and> ref_is repo (js ''heads/main'') sourceSha m \<and> ref_is repo (js ''heads/'' @ branch_of version) sha b \<and>
    c = Api ''pulls.create'' (pr_call repo previous version p)"
proof -
  from assms obtain l l' l'' where l: "tr = l @ l' @ l''" "ends (mainSha repo) l sourceSha" "ends (refSha repo (js ''heads/'' @ branch_of version)) l' sha"
      and r: "reaches (sequence (api ''pulls.create'' (pr_call repo previous version p)) (\<lambda>pr. sequence (prop_of pr ''html_url'') (\<lambda>address.
       announce (js ''Prepared '' @ version @ js ''. Review and merge the PR manually; no package was published by preparation.'') address))) l'' c"
    unfolding open_pr_def by (fastforce elim!: past [OF _ quiet.only_refSha(1) c] past [OF _ quiet.only_refSha(2) c])
  from r have "reaches (api ''pulls.create'' (pr_call repo previous version p)) l'' c"
    by (rule reaches_before [where Q = opens, OF _ _ c]) (intro only_sequence quiet.only_prop quiet.only_announce)
  then have "c = Api ''pulls.create'' (pr_call repo previous version p)" "l'' = []"
    by (simp_all add: reaches_api)
  with ends_refSha(2) [OF l(2)] ends_refSha(1) [OF l(3)] l(1) show ?thesis by (auto simp: ref_is_def)
qed

text \<open>The branch that is proposed is the plan, made now or found.\<close>

definition proposed_plan :: "tools \<Rightarrow> (world_call \<times> world_reply) list \<Rightarrow> jsval \<Rightarrow> jsval \<Rightarrow> jsval \<Rightarrow> jsval \<Rightarrow> jsval \<Rightarrow> jsstr \<Rightarrow> plan \<Rightarrow> jsval \<Rightarrow> bool" where
  "proposed_plan t tr repo dir bump expected sourceSha version p sha \<longleftrightarrow>
     planned t tr dir bump expected sourceSha p \<and> branch_made tr repo sourceSha version p sha \<or>
     (\<exists>parentSha. planned t tr dir bump expected parentSha p \<and> branch_found t tr repo sourceSha p parentSha sha)"

lemma proposed_plan_mono:
  assumes p: "proposed_plan t l repo dir bump expected sourceSha version p sha" and w: "run_part l tr"
  shows "proposed_plan t tr repo dir bump expected sourceSha version p sha"
proof -
  note l = run_part_set [OF w]
  have "planned t l dir bump expected s p \<Longrightarrow> planned t tr dir bump expected s p" for s unfolding planned_def using run_part_trans [OF _ w] by blast
  moreover have "branch_made l repo sourceSha version p sha \<Longrightarrow> branch_made tr repo sourceSha version p sha"
    unfolding branch_made_def using run_part_trans [OF _ w] by blast
  moreover have "branch_found t l repo sourceSha p s sha \<Longrightarrow> branch_found t tr repo sourceSha p s sha" for s
    unfolding branch_found_def
    by (elim exE conjE, intro exI conjI, erule subsetD [OF l], assumption+, erule subsetD [OF l], assumption+, erule subsetD [OF l], assumption+,
        erule subsetD [OF l], assumption+) (use said_mono(1) [OF l] in blast)
  ultimately show ?thesis using p unfolding proposed_plan_def by blast
qed

lemma propose_reaches:
  assumes "reaches (propose t repo dir bump expected sourceSha version) tr c" and c: "opens c"
  shows "\<exists>p sha l m b. tr = l @ [m, b] \<and> proposed_plan t l repo dir bump expected sourceSha version p sha \<and> ref_is repo (js ''heads/main'') sourceSha m \<and>
    ref_is repo (js ''heads/'' @ branch_of version) sha b \<and> c = Api ''pulls.create'' (pr_call repo (str_of expected) version p)"
proof -
  from assms(1) obtain l0 sha0 l1 where tr: "tr = l0 @ l1" and
      r: "reaches (if truthy sha0 then sequence (resume_branch t repo dir bump expected sourceSha sha0) (\<lambda>p. open_pr repo sourceSha (str_of expected) version p sha0)
        else sequence (create_branch t repo dir bump expected sourceSha version) (\<lambda>made.
          case made of None \<Rightarrow> Done () | Some (p, sha') \<Rightarrow> open_pr repo sourceSha (str_of expected) version p sha')) l1 c"
    unfolding propose_def by (rule past [OF _ quiet.only_branchSha c]) blast
  obtain p sha l2 l3 where l1: "l1 = l2 @ l3" and p: "proposed_plan t l2 repo dir bump expected sourceSha version p sha"
      and o: "reaches (open_pr repo sourceSha (str_of expected) version p sha) l3 c"
  proof (cases "truthy sha0")
    case True
    with r have "reaches (sequence (resume_branch t repo dir bump expected sourceSha sha0) (\<lambda>p. open_pr repo sourceSha (str_of expected) version p sha0)) l1 c" by simp
    then obtain l2 p l3 where "l1 = l2 @ l3" "ends (resume_branch t repo dir bump expected sourceSha sha0) l2 p" "reaches (open_pr repo sourceSha (str_of expected) version p sha0) l3 c"
      by (rule past [OF _ quiet.only_resume c])
    note m = this
    from resume_branch_ends [OF m(2)] have "proposed_plan t l2 repo dir bump expected sourceSha version p sha0" unfolding proposed_plan_def by (rule disjI2)
    from that [OF m(1) this m(3)] show thesis .
  next
    case False
    with r have "reaches (sequence (create_branch t repo dir bump expected sourceSha version) (\<lambda>made.
          case made of None \<Rightarrow> Done () | Some (p, sha') \<Rightarrow> open_pr repo sourceSha (str_of expected) version p sha')) l1 c" by simp
    then obtain l2 made l3 where m: "l1 = l2 @ l3" "ends (create_branch t repo dir bump expected sourceSha version) l2 made"
        "reaches (case made of None \<Rightarrow> Done () | Some (p, sha') \<Rightarrow> open_pr repo sourceSha (str_of expected) version p sha') l3 c"
      by (rule past [OF _ create_quiet c])
    from m(3) obtain p sha where "made = Some (p, sha)" by (cases made) auto
    note made = this
    have "proposed_plan t l2 repo dir bump expected sourceSha version p sha"
      using create_branch_ends m(2) unfolding made proposed_plan_def by (intro disjI1) blast
    from that [OF m(1) this] m(3) show thesis by (simp add: made)
  qed
  from open_pr_reaches [OF o c] obtain m b where m: "l3 = [m, b]" "ref_is repo (js ''heads/main'') sourceSha m"
      "ref_is repo (js ''heads/'' @ branch_of version) sha b" "c = Api ''pulls.create'' (pr_call repo (str_of expected) version p)" by blast
  have "proposed_plan t (l0 @ l2) repo dir bump expected sourceSha version p sha" by (rule proposed_plan_mono [OF p run_part_of(3)])
  moreover have "tr = (l0 @ l2) @ [m, b]" using tr l1 m(1) by simp
  ultimately show ?thesis using m(2-4) by blast
qed

text \<open>No pull request for a release is open, and none for this version was closed.\<close>

definition no_other_pr :: "tools \<Rightarrow> (world_call \<times> world_reply) list \<Rightarrow> jsval \<Rightarrow> jsstr \<Rightarrow> bool" where
  "no_other_pr t tr repo version \<longleftrightarrow> (\<exists>prs. (Api ''paginate pulls.list'' (open_list repo), Data (JArr prs)) \<in> set tr \<and> release_prs prs = Some [] \<and>
     (Api ''paginate pulls.list'' (closed_list t repo version), Data (JArr [])) \<in> set tr)"

lemma quiet_list: "only (\<lambda>c. \<not> opens c) (api ''paginate pulls.list'' a)"
  by (rule quiet.only_api) (simp add: opens_api)

lemma propose_new_reaches:
  assumes "reaches (propose_new t repo dir bump expected sourceSha version) tr c" and c: "opens c"
  shows "\<exists>l l'. tr = (Api ''paginate pulls.list'' (closed_list t repo version), Data (JArr [])) # l @ l' \<and> ends (isPublished t version) l False \<and>
    reaches (propose t repo dir bump expected sourceSha version) l' c"
proof -
  from assms(1) obtain l where tr: "tr = (Api ''paginate pulls.list'' (closed_list t repo version), Data (JArr [])) # l"
      and r: "reaches (sequence (isPublished t version) (\<lambda>known. require (\<not> known) (propose t repo dir bump expected sourceSha version))) l c"
    unfolding propose_new_def by (rule past [OF _ quiet_list c]) auto
  from r show ?thesis by (rule past [OF _ quiet.only_isPublished c]) (auto simp: tr)
qed

lemma prepare_version_reaches:
  assumes "reaches (prepare_version t repo dir bump expected sourceSha version) tr c" and c: "opens c"
  shows "said_published t tr (str_of expected) \<and> no_other_pr t tr repo version \<and> said_unknown tr version \<and>
    (\<exists>k l. tr = k @ l \<and> reaches (propose t repo dir bump expected sourceSha version) l c)"
proof -
  let ?announce = "\<lambda>pr. announce (js ''Release '' @ version @ js '' already has an open PR; its branch and review are unchanged.'') (get pr ''html_url'')"
  from assms(1) obtain l0 l1 where l0: "tr = l0 @ l1" "ends (isPublished t (str_of expected)) l0 True" and
      r1: "reaches (sequence (api ''paginate pulls.list'' (open_list repo)) (\<lambda>opened. case opened of
        JArr prs \<Rightarrow> given (release_prs prs) (\<lambda>releasePrs. require (list_all (\<lambda>pr. head_ref pr = JStr (branch_of version)) releasePrs) (case releasePrs of
          pr # _ \<Rightarrow> ?announce pr | [] \<Rightarrow> propose_new t repo dir bump expected sourceSha version)) | _ \<Rightarrow> Fails)) l1 c"
    unfolding prepare_version_def by (rule past [OF _ quiet.only_isPublished c]) auto
  from r1 obtain prs rel l2 where l1: "l1 = (Api ''paginate pulls.list'' (open_list repo), Data (JArr prs)) # l2" "release_prs prs = Some rel"
      and r2: "reaches (case rel of pr # _ \<Rightarrow> ?announce pr | [] \<Rightarrow> propose_new t repo dir bump expected sourceSha version) l2 c"
    by (rule past [OF _ quiet_list c]) (auto split: jsval.splits)
  have rel: "rel = []" using r2 c only_reaches [OF _ quiet.only_announce] by (cases rel) auto
  with r2 have "reaches (propose_new t repo dir bump expected sourceSha version) l2 c" by simp
  from propose_new_reaches [OF this c] obtain l3 l4 where l2: "l2 = (Api ''paginate pulls.list'' (closed_list t repo version), Data (JArr [])) # l3 @ l4"
      "ends (isPublished t version) l3 False" "reaches (propose t repo dir bump expected sourceSha version) l4 c" by blast
  have sub: "set l0 \<subseteq> set tr" "set l3 \<subseteq> set tr" using l0(1) l1(1) l2(1) by auto
  have end_part: "tr = (l0 @ (Api ''paginate pulls.list'' (open_list repo), Data (JArr prs)) #
      (Api ''paginate pulls.list'' (closed_list t repo version), Data (JArr [])) # l3) @ l4" using l0(1) l1(1) l2(1) by simp
  have "no_other_pr t tr repo version" unfolding no_other_pr_def by (rule exI [of _ prs]) (simp add: l0(1) l1 l2(1) rel)
  moreover have "said_published t tr (str_of expected)" "said_unknown tr version"
    using ends_isPublished [OF l0(2)] ends_isPublished [OF l2(2)] said_mono(2) [OF sub(1)] said_mono(3) [OF sub(2)] by simp_all
  ultimately show ?thesis using l2(3) end_part by blast
qed

text \<open>
  C19: \<open>prepareReleasePr\<close> opens a pull request only for the next version. When it does, main was the
  event's commit when the run began and again in the last but one call before, the manifest that main
  had there is that of the package, the version is its successor, the registry has the current version
  and does not know the next one, no release is proposed and this version was not proposed before. The
  release branch, as the last call before found it, is either the commit of the plan for main, made in
  this run right after main was looked up once more, or a single commit that an earlier run left: on a
  parent that GitHub places on main, changing exactly the files of the plan for that parent, each a
  regular file of the complete tree with the planned content. The request proposes this branch with
  the notes of this plan.
\<close>

theorem prepare_opens_plan:
  assumes "reaches (prepareReleasePr t ctxt dir bump) tr (Api ''pulls.create'' a)"
  shows "\<exists>s manifest version p sha first l main branch. content_at t tr (get ctxt ''repo'') manifestPath (get ctxt ''sha'') s \<and> json_text t s = Some manifest \<and>
    release_manifest manifest \<and> bumpVersion (get manifest ''version'') bump = Some version \<and>
    said_published t tr (str_of (get manifest ''version'')) \<and> said_unknown tr version \<and> no_other_pr t tr (get ctxt ''repo'') version \<and>
    tr = first # l @ [main, branch] \<and> ref_is (get ctxt ''repo'') (js ''heads/main'') (get ctxt ''sha'') first \<and>
    ref_is (get ctxt ''repo'') (js ''heads/main'') (get ctxt ''sha'') main \<and> ref_is (get ctxt ''repo'') (js ''heads/'' @ branch_of version) sha branch \<and>
    proposed_plan t l (get ctxt ''repo'') dir bump (get manifest ''version'') (get ctxt ''sha'') version p sha \<and>
    a = pr_call (get ctxt ''repo'') (str_of (get manifest ''version'')) version p"
proof -
  let ?repo = "get ctxt ''repo''" and ?source = "get ctxt ''sha''" and ?c = "Api ''pulls.create'' a"
  have c: "opens ?c" by (simp add: opens_def)
  from assms obtain l0 l1 where l0: "tr = l0 @ l1" "ends (mainSha ?repo) l0 ?source" and
      r0: "reaches (sequence (contentAt t ?repo manifestPath ?source) (\<lambda>s. given (json_text t s) (\<lambda>manifest.
     require (release_manifest manifest) (given (bumpVersion (get manifest ''version'') bump) (prepare_version t ?repo dir bump (get manifest ''version'') ?source))))) l1 ?c"
    unfolding prepareReleasePr_def Let_def by (simp, elim conjE, elim past [OF _ quiet.only_refSha(2) c]) auto
  from ends_refSha(2) [OF l0(2)] obtain first where first: "l0 = [first]" "ref_is ?repo (js ''heads/main'') ?source first" by (auto simp: ref_is_def)
  from r0 obtain l2 l3 s manifest version where l1: "l1 = l2 @ l3" and m: "ends (contentAt t ?repo manifestPath ?source) l2 s" "json_text t s = Some manifest" "release_manifest manifest"
      "bumpVersion (get manifest ''version'') bump = Some version" and r: "reaches (prepare_version t ?repo dir bump (get manifest ''version'') ?source version) l3 ?c"
    by (rule past [OF _ quiet.only_contentAt c]) auto
  from prepare_version_reaches [OF r c] obtain k l where v: "said_published t l3 (str_of (get manifest ''version''))" "no_other_pr t l3 ?repo version" "said_unknown l3 version"
      "l3 = k @ l" "reaches (propose t ?repo dir bump (get manifest ''version'') ?source version) l ?c" by blast
  from propose_reaches [OF v(5) c] obtain p sha l' main branch where q: "l = l' @ [main, branch]"
      "proposed_plan t l' ?repo dir bump (get manifest ''version'') ?source version p sha" "ref_is ?repo (js ''heads/main'') ?source main"
      "ref_is ?repo (js ''heads/'' @ branch_of version) sha branch" "a = pr_call ?repo (str_of (get manifest ''version'')) version p" by blast
  have sub: "set l2 \<subseteq> set tr" "set l3 \<subseteq> set tr" using l0 l1 by auto
  have "no_other_pr t tr ?repo version" using v(2) sub(2) unfolding no_other_pr_def by blast
  moreover have "tr = first # (l2 @ k @ l') @ [main, branch]" using l0(1) l1 v(4) q(1) first(1) by simp
  moreover have "proposed_plan t (l2 @ k @ l') ?repo dir bump (get manifest ''version'') ?source version p sha"
    using proposed_plan_mono [OF q(2) run_part_of(3) [of l' "l2 @ k"]] by simp
  moreover note said_mono(1) [OF sub(1) ends_contentAt [OF m(1)]] said_mono(2) [OF sub(2) v(1)] said_mono(3) [OF sub(2) v(3)]
  ultimately show ?thesis using m(2-4) q(3-5) first(2)
    by (intro exI [of _ s] exI [of _ manifest] exI [of _ version] exI [of _ p] exI [of _ sha] exI [of _ first] exI [of _ "l2 @ k @ l'"] exI [of _ main]
        exI [of _ branch] conjI)
qed

theorem prepare_opens_plan_witness: "\<exists>tr a version p. reaches (prepareReleasePr sample_preparing sample_event JUndef (jstr ''patch'')) tr (Api ''pulls.create'' a) \<and>
    said_unknown tr version \<and> a = pr_call (get sample_event ''repo'') (js ''1.0.0'') version p"
proof -
  let ?a = "pr_call (get sample_event ''repo'') (js ''1.0.0'') (js ''1.0.1'') sample_plan"
  obtain tr where r: "reaches (prepareReleasePr sample_preparing sample_event JUndef (jstr ''patch'')) tr (Api ''pulls.create'' ?a)"
    using sample_requested [of JUndef] resume_reaches by metis
  from prepare_opens_plan [OF r] have "\<exists>s manifest version. content_at sample_preparing tr (get sample_event ''repo'') manifestPath (get sample_event ''sha'') s \<and>
      json_text sample_preparing s = Some manifest \<and> bumpVersion (get manifest ''version'') (jstr ''patch'') = Some version \<and> said_unknown tr version" by blast
  then have "said_unknown tr (js ''1.0.1'')" by (auto simp: content_at_def sample_tool sample_parsed sample_bump)
  with r show ?thesis by blast
qed

subsection \<open>What preparing may change\<close>

context proposing
begin

lemma only_open_pr:
  assumes "\<And>a. P (Api ''pulls.create'' a)"
  shows "only P (open_pr repo sourceSha previous version p sha)"
  unfolding open_pr_def using assms by (auto intro!: only_sequence only_refSha only_api only_prop only_announce)

lemma only_prepare:
  assumes "\<And>t repo dir bump expected sourceSha version. only P (propose t repo dir bump expected sourceSha version)"
  shows "only P (prepareReleasePr t ctxt dir bump)"
proof -
  have "only P (prepare_version t repo dir bump expected sourceSha version)" for repo expected sourceSha version
    unfolding prepare_version_def propose_new_def using assms
    by (auto simp: api_reads_def intro!: only_sequence only_isPublished only_api_read only_announce split: jsval.split list.split)
  then show ?thesis unfolding prepareReleasePr_def Let_def by (auto intro!: only_sequence only_refSha only_contentAt)
qed

end

lemma proposes_create: "name \<in> {''git.createTree'', ''git.createCommit'', ''git.createRef'', ''pulls.create''} \<Longrightarrow> proposes (Api name a)"
  by (auto simp: proposes_def)

lemma propose_proposes: "only proposes (propose t repo dir bump expected sourceSha version)"
  unfolding propose_def
  by (auto simp: proposes_create intro!: only_sequence proposed.only_branchSha proposed.only_resume proposed.only_create proposed.only_open_pr split: option.split)

text \<open>The answer that the release branch does not exist.\<close>

definition branch_missing :: "(world_call \<times> world_reply) list \<Rightarrow> jsval \<Rightarrow> jsstr \<Rightarrow> bool" where
  "branch_missing tr repo branch \<longleftrightarrow> (\<exists>r. (Api ''git.getRef'' (in_repo repo [(''ref'', JStr (js ''heads/'' @ branch))]), r) \<in> set tr \<and>
     (case r of Api_error e \<Rightarrow> get e ''status'' = jint 404 | Data d \<Rightarrow> \<not> truthy (get (get d ''object'') ''sha'') | _ \<Rightarrow> False))"

lemma ends_branchSha: "ends (branchSha repo branch) l sha \<Longrightarrow> \<not> truthy sha \<Longrightarrow> branch_missing l repo branch"
  by (auto simp: branchSha_def branch_missing_def split: world_reply.splits)

definition ref_ok :: "jsval \<Rightarrow> (world_call \<times> world_reply) list \<Rightarrow> world_call \<Rightarrow> bool" where
  "ref_ok repo tr c \<longleftrightarrow> (makes_ref c \<longrightarrow> (\<exists>version sha. c = Api ''git.createRef'' (in_repo repo [(''ref'', JStr (js ''refs/heads/'' @ branch_of version)), (''sha'', sha)]) \<and>
     branch_missing tr repo (branch_of version)))"

lemma ref_ok_later: "ref_ok repo l' c \<Longrightarrow> ref_ok repo (l @ l') c"
  by (fastforce simp: ref_ok_def branch_missing_def)

lemma along_ref_quiet: "only (\<lambda>c. \<not> makes_ref c) p \<Longrightarrow> along (ref_ok repo) p"
  by (rule along_only [where Q = "\<lambda>c. \<not> makes_ref c"]) (auto simp: ref_ok_def)

lemma along_ref_sequence: "only (\<lambda>c. \<not> makes_ref c) p \<Longrightarrow> (\<And>x. along (ref_ok repo) (f x)) \<Longrightarrow> along (ref_ok repo) (sequence p f)"
  by (rule along_later) (auto intro: along_ref_quiet ref_ok_later)

definition makes_branch :: "jsval \<Rightarrow> jsstr \<Rightarrow> world_call \<Rightarrow> bool" where
  "makes_branch repo version c \<longleftrightarrow> (makes_ref c \<longrightarrow> (\<exists>sha. c = Api ''git.createRef'' (in_repo repo [(''ref'', JStr (js ''refs/heads/'' @ branch_of version)), (''sha'', sha)])))"

interpretation branching: proposing "makes_branch repo version" for repo version
  by unfold_locales (auto simp: makes_branch_def makes_ref_def api_reads_def)

lemma propose_ref_ok: "along (ref_ok repo) (propose t repo dir bump expected sourceSha version)"
  unfolding propose_def
proof (rule along_sequence)
  fix l sha
  assume e: "ends (branchSha repo (branch_of version)) l sha"
  have o: "only (makes_branch repo version) (open_pr repo sourceSha (str_of expected) version p s)" for p s
    by (rule branching.only_open_pr) (simp add: makes_branch_def makes_ref_def)
  show "along (\<lambda>l'. ref_ok repo (l @ l')) (if truthy sha then sequence (resume_branch t repo dir bump expected sourceSha sha) (\<lambda>p. open_pr repo sourceSha (str_of expected) version p sha)
      else sequence (create_branch t repo dir bump expected sourceSha version) (\<lambda>made. case made of None \<Rightarrow> Done () | Some (p, sha') \<Rightarrow> open_pr repo sourceSha (str_of expected) version p sha'))"
  proof (cases "truthy sha")
    case True
    have "only (\<lambda>c. \<not> makes_ref c) (open_pr repo sourceSha (str_of expected) version p s)" for p s
      by (rule unmade.only_open_pr) (simp add: makes_ref_def)
    then have "only (\<lambda>c. \<not> makes_ref c) (sequence (resume_branch t repo dir bump expected sourceSha sha) (\<lambda>p. open_pr repo sourceSha (str_of expected) version p sha))"
      by (intro only_sequence unmade.only_resume)
    then show ?thesis unfolding if_P [OF True] by (rule along_only) (auto simp: ref_ok_def)
  next
    case False
    have "only (makes_branch repo version) (create_branch t repo dir bump expected sourceSha version)"
      by (rule branching.only_create) (auto simp: makes_branch_def makes_ref_def)
    then have "only (makes_branch repo version) (sequence (create_branch t repo dir bump expected sourceSha version) (\<lambda>made.
        case made of None \<Rightarrow> Done () | Some (p, sha') \<Rightarrow> open_pr repo sourceSha (str_of expected) version p sha'))"
      by (rule only_sequence) (simp add: o split: option.split)
    moreover have "branch_missing (l @ l') repo (branch_of version)" for l' using ends_branchSha [OF e False] by (auto simp: branch_missing_def)
    ultimately show ?thesis unfolding if_not_P [OF False] by (elim along_only) (auto simp: ref_ok_def makes_branch_def)
  qed
qed (rule along_ref_quiet [OF unmade.only_branchSha])

text \<open>
  C20: \<open>prepareReleasePr\<close> only creates. Whatever it is answered, it reads, makes git objects, one branch and one pull
  request: nothing is updated, deleted, merged, tagged or published. The branch it makes is a release branch of which it has been
  told that it does not exist.
\<close>

theorem prepare_only_creates:
  assumes "reaches (prepareReleasePr t ctxt dir bump) tr c"
  shows "proposes c \<and> ref_ok (get ctxt ''repo'') tr c"
proof
  show "proposes c" using only_reaches [OF assms] proposed.only_prepare propose_proposes by blast
  have "along (ref_ok repo) (propose_new t repo dir bump expected sourceSha version)" for repo expected sourceSha version
    unfolding propose_new_def by (auto simp: api_reads_def intro!: along_ref_sequence unmade.only_api_read unmade.only_isPublished propose_ref_ok)
  then have "along (ref_ok repo) (prepare_version t repo dir bump expected sourceSha version)" for repo expected sourceSha version
    unfolding prepare_version_def
    by (auto simp: api_reads_def intro!: along_ref_sequence unmade.only_api_read unmade.only_isPublished along_ref_quiet [OF unmade.only_announce] split: jsval.split list.split)
  then have "along (ref_ok (get ctxt ''repo'')) (prepareReleasePr t ctxt dir bump)"
    unfolding prepareReleasePr_def Let_def by (auto intro!: along_ref_sequence unmade.only_refSha unmade.only_contentAt)
  with assms show "ref_ok (get ctxt ''repo'') tr c" by (simp add: along_def)
qed

theorem prepare_only_creates_witness: "\<exists>tr a. reaches (prepareReleasePr sample_preparing sample_event JUndef (jstr ''patch'')) tr (Api ''git.createRef'' a) \<and>
    (\<exists>version. branch_missing tr (get sample_event ''repo'') (branch_of version))"
proof -
  obtain tr a where r: "reaches (prepareReleasePr sample_preparing sample_event JUndef (jstr ''patch'')) tr (Api ''git.createRef'' a)"
    using sample_branched [of JUndef] resume_reaches by metis
  moreover have "makes_ref (Api ''git.createRef'' a)" by (simp add: makes_ref_def)
  ultimately show ?thesis using prepare_only_creates [OF r] unfolding ref_ok_def by blast
qed

end
