(* ===== verification/Spec2Isabelle.thy ===== *)
theory Spec2Isabelle
  imports Upload Service Buffering Exchange_Correct Bridge_Correct Facade_Correct Client_Correct Complete_Correct Propose_Correct
begin

text \<open>
  JA3Proxy TypeScript SDK: a verification development.

  The program. JA3Proxy is a proxy service (Rust, \<open>src/src\<close>) and a TypeScript SDK
  (\<open>src/packages/typescript\<close>) that talks to it. The SDK sends a request as a stream of binary
  frames, reads the response as frames, validates every JSON value that crosses the wire against
  schemas generated from the service's types, bounds its own concurrency and memory, and turns
  every failure into one frozen error type. A client owns sessions (contexts of the service that
  keep cookies and an identity) and scoped fetches, and closes what it owns. A second, blocking
  client runs the first one in a worker thread. This development models the SDK; the paths below are
  relative to \<open>src/packages/typescript\<close>.

  Values and contracts.

  \<^item> \<open>Prelude\<close>, \<open>Js_Value\<close>: bytes, strings as UTF-16 code units, JavaScript values and the
    operators the code applies to them. Numbers are rationals, infinities or NaN, so that the
    safe-integer tests of the code mean what they mean at run time.
  \<^item> \<open>Schema\<close>: the reference semantics of JSON Schema for the keywords the contracts use, and
    \<open>constrainIntegers\<close> of \<open>scripts/generate-contracts.mjs\<close>. \<open>Wire_Schemas\<close>: the schemas of
    \<open>src/contracts/schemas\<close>. \<open>Validator\<close>: the statement idioms of the generated code with the
    contract \<open>decides\<close>, stated once in the locales \<open>rejection\<close> and \<open>fail_mode\<close> and interpreted for
    the two ways the code rejects (return at once, or record and go on). \<open>Wire_Validators\<close>: the
    functions of \<open>src/generated/compiled-validators.js\<close>. \<open>Wire_Contract\<close>: \<open>validateWire\<close> decides
    exactly the narrowed schemas.
  \<^item> \<open>Errors\<close>: \<open>src/errors.ts\<close>. \<open>Guards\<close>, \<open>Protocol\<close>, \<open>Service_Capabilities\<close>: the guards and
    copies of \<open>src/protocol.ts\<close>. Guards never throw, accepted values stay accepted when copied.
  \<^item> \<open>Framing\<close>: \<open>frame\<close> and \<open>FrameReader\<close> of \<open>src/protocol.ts\<close>; the locale \<open>frame_source\<close>
    says what a frame source owes its clients and is interpreted on \<open>FrameReader_next\<close>. \<open>Upload\<close>:
    \<open>uploadFrames\<close>. Reading does not depend on chunking and round-trips; an upload writes
    exactly the framed body or fails, and always ends.

  Concurrency and one request.

  \<^item> \<open>Deadline\<close>, \<open>Tally\<close>, \<open>Admission\<close>, \<open>Lifetime\<close>: \<open>src/concurrency.ts\<close>. The locale \<open>tally\<close> is the
    interface of the three count maps; the step relations are the operations and callbacks in any
    order. Admission keeps exact counts and its limits, is first come first served within a
    partition, leaves no slot idle and settles every promise once; closing a lifetime awaits
    everything begun. \<open>Permits\<close>: what a client that never loses a permit may rely on, as the locale
    \<open>permit_pool\<close>, interpreted on \<open>Admission\<close>; the scoped fetch rests on it.
  \<^item> \<open>Service\<close>: \<open>src/service.ts\<close> (control requests, their errors, the cached description).
    \<open>Observation\<close>: \<open>src/observation.ts\<close>. \<open>Buffering\<close>: the collection of a body within the budget.
  \<^item> \<open>Request\<close>, \<open>Exchange\<close>, \<open>Exchange_Correct\<close>: \<open>executeStream\<close> of \<open>src/client.ts\<close>, a state
    machine over its \<open>await\<close>s, its stream callbacks and its deadline. An exchange ends once and gives
    back what it holds; what completes is what the terminal frame confirms.

  What a client owns.

  \<^item> \<open>Sessions\<close>, \<open>Sessions_Correct\<close>: \<open>src/sessions.ts\<close>. Calls are at the \<open>await\<close> they have reached.
    The steps keep the transcript of the service's replies; read off it, no context of an accepted
    creation reply is forgotten before a reply confirms that it is gone, whatever calls fail or
    interleave. A creation reply that is refused reports a context that is forgotten.
  \<^item> \<open>Fetch\<close>, \<open>Fetch_Correct\<close>: \<open>src/fetch.ts\<close>. The adapter to the platform's requests and
    responses on each of its paths, and the scoped fetch with its \<open>Admission\<close> queue, its calls, its one
    session and its close. No more than sixteen requests run, each until its exchange has completed.
  \<^item> \<open>Client\<close>, \<open>Client_Correct\<close>: the constructor, \<open>createFetch\<close>, \<open>openSession\<close> and \<open>close\<close> of
    \<open>src/client.ts\<close>, with the sessions of \<open>Sessions\<close> as handles. A close that resolves has closed every
    session ever opened. The invariant follows the handles through \<open>calm\<close> changes, those that neither
    finish nor rescue the close of a session.

  The blocking client (\<open>src/sync\<close>).

  \<^item> \<open>Ipc\<close>: the conversions of \<open>ipc.ts\<close>. \<open>Batch\<close>: \<open>batch\<close> of \<open>worker.ts\<close> with its lanes and byte
    budgets. \<open>Bridge\<close>, \<open>Bridge_Correct\<close>: the shared counter, the packets and the blocking wait of both
    threads, interleaved at their atomic operations: no reply is slept through, a value belongs to
    the call that returns it. \<open>Worker\<close>: commands, sessions and \<open>dispatch\<close> of \<open>worker.ts\<close>. \<open>Facade\<close>,
    \<open>Facade_Correct\<close>: the methods of the client and its sessions in \<open>index.ts\<close>: every command they
    post is accepted and carried out as meant, and answers cross unchanged.

  The release scripts (\<open>scripts\<close>).

  \<^item> \<open>Script\<close>: a program that acts on the world outside is the tree of its calls with a branch for
    every reply. \<open>ends\<close> and \<open>reaches\<close> are its runs, to a result or to a call; \<open>only\<close> and \<open>along\<close>
    are the two forms of statements about all calls. A theorem about all runs holds whatever git,
    npm, the registry and GitHub answer and whoever else acts on them meanwhile.
  \<^item> \<open>Version\<close>: the version arithmetic of \<open>prepare-release.mjs\<close>. \<open>Release\<close>: \<open>release-tools.mjs\<close> and the
    policies of \<open>package-tools.mjs\<close>. \<open>Publish\<close>: \<open>resolve-release.mjs\<close>, \<open>release-artifact.mjs\<close>,
    \<open>publish-release.mjs\<close>, \<open>complete-release.mjs\<close>. \<open>Prepare\<close>: \<open>prepare-release.mjs\<close> and
    \<open>prepare-release-pr.mjs\<close>. \<open>Publish_Runs\<close>, \<open>Prepare_Runs\<close>: concrete runs of them.
  \<^item> \<open>Publish_Correct\<close>, \<open>Complete_Correct\<close>: a version is published once, when it is new, from the
    checked tarball; what succeeds has been confirmed by the registry and GitHub, with the release and
    its assets taken from GitHub's replies; nothing that
    exists is moved or replaced; the released commit introduced the version. The locale \<open>reading\<close> is
    the contract of a kind of calls that includes all reads; it is interpreted for the calls that do
    not publish, that keep the history and that do not remove.
  \<^item> \<open>Prepare_Correct\<close>, \<open>Propose_Correct\<close>: a plan changes the version and the changelog and nothing
    else; files are written on the exact clean checkout; a pull request is opened for the exact
    plan of the next version on a parent that is, or that GitHub has compared as an ancestor of, the
    main that the last read still names, and nothing that exists is touched. The locale \<open>proposing\<close> extends
    \<open>reading\<close> by the reads of git and of the GitHub client.

  Parameters. What the code calls in the platform is an argument of the definitions: URL parsing
  (\<open>url_env\<close>, \<open>platform\<close>), JSON decoding, times as rationals; for the scripts \<open>tools\<close> has the
  environment variables, JSON, URLs, Base64 and hash functions, of which nothing is assumed. The laws assumed of them are named
  (\<open>platform_laws\<close>) and hold for the instance of the witnesses.

  Loops. \<open>exact_loop\<close>, \<open>upload_fill\<close> and \<open>upload_run\<close> are total functions with measures: a body is
  the finite list of what its reads give. \<open>read_frames\<close> takes the number of frames to read; its
  theorems hold for every number. Everything that waits is a state of a step relation, so no fuel
  is needed elsewhere.

  Not modelled. JSON text and UTF-8 decoding, network I/O, the event loop beyond the order of
  callbacks that the code fixes, the constructor \<open>Request\<close> and of \<open>Response\<close> all but the checks of
  its status, body and headers, replies that \<open>postMessage\<close> cannot clone, garbage collection other
  than as a step that may drop a scoped fetch, the Rust service, and the scripts that only run the
  compiler, the packer or test servers.
\<close>

end
